(* ===== verification/Prelude.thy ===== *)
theory Prelude
  imports Main "HOL-Library.List_Lexorder" "HOL-Library.Char_ord" "HOL-Library.Product_Lexorder"
begin

text \<open>
  What every component theory shares: the fragments of the Rust standard library the code
  uses on strings (\<open>split\<close>, \<open>split_once\<close>, \<open>strip_prefix\<close>, \<open>join\<close>, the decimal rendering of an
  index), the ordered collections \<open>BTreeSet\<close> and \<open>BTreeMap\<close> as strictly sorted lists, the
  \<open>ValidationDetail\<close> of \<open>error.rs\<close>, and two interfaces many components implement: an ordered set
  and a database code (an enum with a text form).  A Rust string is its list of UTF-8 bytes, so
  the lexicographic order of \<open>HOL-Library.List_Lexorder\<close> is the order of \<open>str\<close>.
\<close>

named_theorems string_simps \<open>evaluation rules of the string operations\<close>
named_theorems bset_simps \<open>set-level behaviour of the ordered collections\<close>

section \<open>Strings\<close>

fun split_on :: "char \<Rightarrow> string \<Rightarrow> string list" where
  "split_on c [] = [[]]"
| "split_on c (x # xs) =
     (if x = c then [] # split_on c xs
      else (case split_on c xs of [] \<Rightarrow> [[x]] | y # ys \<Rightarrow> (x # y) # ys))"

fun split_once :: "char \<Rightarrow> string \<Rightarrow> (string \<times> string) option" where
  "split_once c [] = None"
| "split_once c (x # xs) =
     (if x = c then Some ([], xs)
      else map_option (\<lambda>(a, b). (x # a, b)) (split_once c xs))"

fun strip_prefix :: "string \<Rightarrow> string \<Rightarrow> string option" where
  "strip_prefix [] s = Some s"
| "strip_prefix (p # ps) [] = None"
| "strip_prefix (p # ps) (x # xs) = (if p = x then strip_prefix ps xs else None)"

fun join :: "string \<Rightarrow> string list \<Rightarrow> string" where
  "join sep [] = []"
| "join sep [x] = x"
| "join sep (x # xs) = x @ sep @ join sep xs"

fun show_nat :: "nat \<Rightarrow> string" where
  "show_nat n =
     (if n < 10 then [char_of (48 + n)] else show_nat (n div 10) @ [char_of (48 + n mod 10)])"

declare show_nat.simps [simp del]

definition char_between :: "char \<Rightarrow> char \<Rightarrow> char \<Rightarrow> bool" where
  "char_between lo hi c \<longleftrightarrow> lo \<le> c \<and> c \<le> hi"

definition is_ascii_digit :: "char \<Rightarrow> bool" where
  "is_ascii_digit c \<longleftrightarrow> CHR ''0'' \<le> c \<and> c \<le> CHR ''9''"

lemma split_on_nonempty [simp]: "split_on c s \<noteq> []"
  by (cases s) (auto split: list.splits)

lemma hd_split_on: "hd (split_on c s) = takeWhile (\<lambda>x. x \<noteq> c) s"
proof (induction s)
  case (Cons x xs)
  then show ?case by (cases "split_on c xs") auto
qed simp

lemma split_once_Some_iff:
  "split_once c s = Some (a, b) \<longleftrightarrow> s = a @ c # b \<and> c \<notin> set a"
proof (induction s arbitrary: a)
  case (Cons x xs)
  then show ?case by (cases a) (auto simp: Cons_eq_append_conv)
qed simp

lemma split_once_None_iff: "split_once c s = None \<longleftrightarrow> c \<notin> set s"
  by (induction s) auto

lemma strip_prefix_Some_iff: "strip_prefix p s = Some r \<longleftrightarrow> s = p @ r"
  by (induction p s rule: strip_prefix.induct) auto

section \<open>Ordered collections\<close>

text \<open>
  \<open>BTreeSet\<close> and \<open>BTreeMap\<close> iterate in key order and hold a key once; a strictly sorted list has
  exactly that behaviour.  \<open>insert\<close> of a set answers whether the element was new.
\<close>

fun bs_insert :: "'a::linorder \<Rightarrow> 'a list \<Rightarrow> 'a list" where
  "bs_insert x [] = [x]"
| "bs_insert x (y # ys) =
     (if x < y then x # y # ys else if x = y then y # ys else y # bs_insert x ys)"

definition bs_contains :: "'a list \<Rightarrow> 'a \<Rightarrow> bool" where
  "bs_contains s x \<longleftrightarrow> x \<in> set s"

definition bs_difference :: "'a list \<Rightarrow> 'a list \<Rightarrow> 'a list" where
  "bs_difference s t = filter (\<lambda>x. x \<notin> set t) s"

definition bs_collect :: "'a::linorder list \<Rightarrow> 'a list" where
  "bs_collect xs = fold bs_insert xs []"

abbreviation bs_wf :: "'a::linorder list \<Rightarrow> bool" where
  "bs_wf s \<equiv> sorted_wrt (<) s"

lemma set_bs_insert [simp, bset_simps]: "set (bs_insert x s) = insert x (set s)"
  by (induction s) auto

lemma bs_wf_insert [simp, intro]: "bs_wf s \<Longrightarrow> bs_wf (bs_insert x s)"
  by (induction s) auto

lemma bs_contains_iff [simp, bset_simps]: "bs_contains s x \<longleftrightarrow> x \<in> set s"
  by (simp add: bs_contains_def)

lemma set_bs_difference [simp, bset_simps]: "set (bs_difference s t) = set s - set t"
  by (auto simp: bs_difference_def)

lemma bs_wf_difference [simp, intro]: "bs_wf s \<Longrightarrow> bs_wf (bs_difference s t)"
  by (simp add: bs_difference_def sorted_wrt_filter)

lemma set_fold_bs_insert [simp, bset_simps]: "set (fold bs_insert xs s) = set xs \<union> set s"
  by (induction xs arbitrary: s) auto

lemma bs_wf_fold_insert [simp, intro]: "bs_wf s \<Longrightarrow> bs_wf (fold bs_insert xs s)"
  by (induction xs arbitrary: s) auto

lemma set_bs_collect [simp, bset_simps]: "set (bs_collect xs) = set xs"
  by (simp add: bs_collect_def)

lemma bs_wf_collect [simp, intro]: "bs_wf (bs_collect xs)"
  by (simp add: bs_collect_def)

lemma bs_wf_distinct: "bs_wf s \<Longrightarrow> distinct s"
  by (induction s) auto

text \<open>\<open>entry(k).or_default()\<close> followed by an update of the entry's value.\<close>

fun bm_entry :: "'k::linorder \<Rightarrow> 'v \<Rightarrow> ('v \<Rightarrow> 'v) \<Rightarrow> ('k \<times> 'v) list \<Rightarrow> ('k \<times> 'v) list" where
  "bm_entry k d f [] = [(k, f d)]"
| "bm_entry k d f ((k', v) # m) =
     (if k < k' then (k, f d) # (k', v) # m
      else if k = k' then (k', f v) # m
      else (k', v) # bm_entry k d f m)"

abbreviation bm_wf :: "('k::linorder \<times> 'v) list \<Rightarrow> bool" where
  "bm_wf m \<equiv> sorted_wrt (<) (map fst m)"

lemma dom_bm_entry: "fst ` set (bm_entry k d f m) = insert k (fst ` set m)"
  by (induction k d f m rule: bm_entry.induct) auto

lemma bm_wf_entry [simp, intro]: "bm_wf m \<Longrightarrow> bm_wf (bm_entry k d f m)"
proof (induction k d f m rule: bm_entry.induct)
  case (2 k d f k' v m)
  then show ?case using dom_bm_entry [of k d f m] by fastforce
qed simp

lemma bm_wf_absent: "bm_wf ((k', v) # m) \<Longrightarrow> k < k' \<Longrightarrow> map_of m k = None"
  by (fastforce simp: map_of_eq_None_iff)

lemma map_of_bm_entry:
  "bm_wf m \<Longrightarrow>
   map_of (bm_entry k d f m) =
   (map_of m)(k \<mapsto> f (case map_of m k of None \<Rightarrow> d | Some v \<Rightarrow> v))"
proof (induction k d f m rule: bm_entry.induct)
  case (2 k d f k' v m)
  then show ?case
    using bm_wf_absent [OF "2.prems"] by (auto simp: fun_eq_iff)
qed (auto simp: fun_eq_iff)

lemma bm_wf_map_of: "bm_wf m \<Longrightarrow> (k, v) \<in> set m \<longleftrightarrow> map_of m k = Some v"
  by (metis bs_wf_distinct map_of_eq_Some_iff)

subsection \<open>The interface of an ordered set\<close>

text \<open>
  A component that keeps what it has seen uses an ordered set only through \<open>insert\<close> and
  \<open>contains\<close>.  Two loops recur in the validators: inserting every element of a sequence, and
  reporting the elements whose insertion was not new.
\<close>

locale ordered_set =
  fixes empty :: "'s"
    and ins :: "'a \<Rightarrow> 's \<Rightarrow> 's"
    and contains :: "'s \<Rightarrow> 'a \<Rightarrow> bool"
    and elems :: "'s \<Rightarrow> 'a set"
  assumes elems_empty: "elems empty = {}"
    and elems_ins: "elems (ins x s) = insert x (elems s)"
    and contains_iff: "contains s x \<longleftrightarrow> x \<in> elems s"
begin

lemma elems_fold: "elems (fold ins xs s) = set xs \<union> elems s"
  by (induction xs arbitrary: s) (auto simp: elems_ins)

lemma elems_collect: "elems (fold ins xs empty) = set xs"
  by (simp add: elems_fold elems_empty)

lemma seen_before: "contains (fold ins xs empty) x \<longleftrightarrow> x \<in> set xs"
  by (simp add: contains_iff elems_collect)

end

interpretation bset: ordered_set "[] :: 'a::linorder list" bs_insert bs_contains set
  by unfold_locales auto

section \<open>Database codes\<close>

text \<open>
  An enum the code writes as text (\<open>as_db\<close>, \<open>key\<close>) and reads back (\<open>parse\<close>, \<open>from_key\<close>).  The
  two laws are the contract; the text form then identifies the value.
\<close>

locale db_code =
  fixes to_text :: "'a \<Rightarrow> string"
    and of_text :: "string \<Rightarrow> 'a option"
  assumes of_to: "of_text (to_text x) = Some x"
    and to_of: "of_text s = Some x \<Longrightarrow> to_text x = s"
begin

lemma of_text_iff: "of_text s = Some x \<longleftrightarrow> s = to_text x"
  using of_to to_of by auto

lemma to_text_inject: "to_text x = to_text y \<longleftrightarrow> x = y"
  by (metis of_to option.inject)

lemma unknown_iff: "of_text s = None \<longleftrightarrow> s \<notin> range to_text"
  by (metis not_None_eq of_text_iff rangeE rangeI)

end

section \<open>Validation details\<close>

text \<open>
  \<open>ValidationDetail\<close> of \<open>error.rs\<close>.  Callers branch on the code and never on the message, whose
  prose is not modelled: \<open>vd_args\<close> holds the values the message interpolates, in order.
\<close>

record validation_detail =
  vd_path :: string
  vd_rule :: string
  vd_code :: string
  vd_args :: "string list"

definition detail :: "string \<Rightarrow> string \<Rightarrow> string \<Rightarrow> string list \<Rightarrow> validation_detail" where
  "detail p r c args = \<lparr>vd_path = p, vd_rule = r, vd_code = c, vd_args = args\<rparr>"

lemma detail_sel [simp]:
  "vd_path (detail p r c a) = p" "vd_rule (detail p r c a) = r"
  "vd_code (detail p r c a) = c" "vd_args (detail p r c a) = a"
  by (simp_all add: detail_def)

lemma detail_eq [simp]:
  "detail p r c a = detail p' r' c' a' \<longleftrightarrow> p = p' \<and> r = r' \<and> c = c' \<and> a = a'"
  by (auto simp: detail_def)

section \<open>Generic lemmas\<close>

fun somes :: "'a option list \<Rightarrow> 'a list" where
  "somes [] = []"
| "somes (None # xs) = somes xs"
| "somes (Some x # xs) = x # somes xs"

lemma set_somes [simp]: "set (somes xs) = {x. Some x \<in> set xs}"
  by (induction xs rule: somes.induct) auto

lemma mem_somes_map: "x \<in> set (somes (map f xs)) \<longleftrightarrow> (\<exists>i < length xs. f (xs ! i) = Some x)"
proof -
  have "x \<in> set (somes (map f xs)) \<longleftrightarrow> (\<exists>y \<in> set xs. f y = Some x)" by (auto simp: image_iff eq_commute)
  also have "\<dots> \<longleftrightarrow> (\<exists>i < length xs. f (xs ! i) = Some x)" by (metis in_set_conv_nth)
  finally show ?thesis .
qed

definition first_some :: "'a option list \<Rightarrow> 'a option" where
  "first_some xs = (case somes xs of [] \<Rightarrow> None | x # _ \<Rightarrow> Some x)"

lemma first_some_Nil [simp]: "first_some [] = None"
  by (simp add: first_some_def)

lemma first_some_Cons [simp]:
  "first_some (x # xs) = (case x of None \<Rightarrow> first_some xs | Some y \<Rightarrow> Some y)"
  by (simp add: first_some_def split: option.split)

lemma first_some_SomeD: "first_some xs = Some x \<Longrightarrow> Some x \<in> set xs"
  by (induction xs) (auto split: option.splits)

lemma first_some_None [simp]: "first_some xs = None \<longleftrightarrow> set xs \<subseteq> {None}"
  by (induction xs) (auto split: option.splits)

lemma first_some_map: "first_some (map f xs) \<noteq> None \<longleftrightarrow> (\<exists>x \<in> set xs. f x \<noteq> None)"
proof (induction xs)
  case (Cons x xs)
  then show ?case by (cases "f x") (simp_all del: first_some_None)
qed simp

lemma concat_map_Nil_iff: "concat (map f xs) = [] \<longleftrightarrow> (\<forall>x \<in> set xs. f x = [])"
  by auto

lemma enumerate_map_nth: "enumerate 0 xs = map (\<lambda>i. (i, xs ! i)) [0..<length xs]"
  by (auto intro!: nth_equalityI simp: nth_enumerate_eq)

text \<open>A validator's loop over an array with its index: what it reports, and when nothing.\<close>

definition indexed :: "(nat \<Rightarrow> 'a \<Rightarrow> 'b list) \<Rightarrow> 'a list \<Rightarrow> 'b list" where
  "indexed f xs = concat (map (\<lambda>(i, x). f i x) (enumerate 0 xs))"

lemma set_indexed: "y \<in> set (indexed f xs) \<longleftrightarrow> (\<exists>i < length xs. y \<in> set (f i (xs ! i)))"
  by (auto simp: indexed_def enumerate_map_nth)

lemma indexed_Nil_iff: "indexed f xs = [] \<longleftrightarrow> (\<forall>i < length xs. f i (xs ! i) = [])"
  by (auto simp: indexed_def enumerate_map_nth)

lemma indexed_cong [fundef_cong]:
  "xs = ys \<Longrightarrow> (\<And>i y. y \<in> set ys \<Longrightarrow> f i y = g i y) \<Longrightarrow> indexed f xs = indexed g ys"
  by (auto simp: indexed_def enumerate_map_nth intro!: arg_cong [where f = concat])

lemma indexed_Nil [simp]: "indexed f [] = []"
  by (simp add: indexed_def)

lemma indexed_Cons [simp]: "indexed f (x # xs) = f 0 x @ indexed (\<lambda>i. f (Suc i)) xs"
proof -
  have "enumerate 0 (x # xs) = (0, x) # map (\<lambda>(i, y). (Suc i, y)) (enumerate 0 xs)"
    by (simp only: enumerate_map_nth length_Cons map_upt_Suc) simp
  then show ?thesis by (simp add: indexed_def comp_def case_prod_unfold)
qed

lemma indexed_map: "indexed f (map g xs) = indexed (\<lambda>i x. f i (g x)) xs"
  by (induction xs arbitrary: f) auto

lemma in_set_enumerate_0: "(i, x) \<in> set (enumerate 0 xs) \<longleftrightarrow> i < length xs \<and> xs ! i = x"
  by (auto simp: in_set_enumerate_eq)

end
