(* ===== verification/Json.thy ===== *)
theory Json
  imports Prelude
begin

text \<open>
  \<open>serde_json::Value\<close> as the code uses it.  Without the \<open>preserve_order\<close> feature an object is a
  \<open>BTreeMap\<close>, so its association list is strictly sorted by key (\<open>wf_json\<close>); nothing below relies
  on it except where a lemma says so.  A number is the variant \<open>serde_json::Number\<close> keeps; a
  \<open>Float\<close> carries the mantissa and the binary exponent of its finite value.
\<close>

datatype json_number = PosInt nat | NegInt int | Float int int

datatype json =
    Null
  | Bool bool
  | Number json_number
  | String string
  | Array "json list"
  | Object "(string \<times> json) list"

section \<open>Accessors\<close>

fun get :: "json \<Rightarrow> string \<Rightarrow> json option" where
  "get (Object kvs) k = map_of kvs k"
| "get _ k = None"

fun as_str :: "json \<Rightarrow> string option" where
  "as_str (String s) = Some s"
| "as_str _ = None"

fun as_bool :: "json \<Rightarrow> bool option" where
  "as_bool (Bool b) = Some b"
| "as_bool _ = None"

fun as_array :: "json \<Rightarrow> json list option" where
  "as_array (Array xs) = Some xs"
| "as_array _ = None"

fun as_object :: "json \<Rightarrow> (string \<times> json) list option" where
  "as_object (Object kvs) = Some kvs"
| "as_object _ = None"

text \<open>\<open>as_i64\<close>: an integer variant that fits a signed 64-bit integer.\<close>

fun as_i64 :: "json \<Rightarrow> int option" where
  "as_i64 (Number (PosInt n)) = (if int n < 2 ^ 63 then Some (int n) else None)"
| "as_i64 (Number (NegInt i)) = Some i"
| "as_i64 _ = None"

text \<open>\<open>as_f64\<close> answers for every number; the float is represented by the number it is read from.\<close>

fun as_f64 :: "json \<Rightarrow> json_number option" where
  "as_f64 (Number n) = Some n"
| "as_f64 _ = None"

definition is_string :: "json \<Rightarrow> bool" where
  "is_string v \<longleftrightarrow> as_str v \<noteq> None"

definition is_array :: "json \<Rightarrow> bool" where
  "is_array v \<longleftrightarrow> as_array v \<noteq> None"

text \<open>The three readers the modules repeat: a string field, a flag with a default, and an array
  field that is empty when it is absent or not an array.\<close>

definition get_str :: "json \<Rightarrow> string \<Rightarrow> string option" where
  "get_str v k = Option.bind (get v k) as_str"

definition get_bool_or :: "bool \<Rightarrow> json \<Rightarrow> string \<Rightarrow> bool" where
  "get_bool_or d v k = (case Option.bind (get v k) as_bool of None \<Rightarrow> d | Some b \<Rightarrow> b)"

definition get_arr :: "json \<Rightarrow> string \<Rightarrow> json list" where
  "get_arr v k = (case Option.bind (get v k) as_array of None \<Rightarrow> [] | Some xs \<Rightarrow> xs)"

text \<open>\<open>serde_json::Map::insert\<close>, and the object a \<open>json!\<close> literal builds.\<close>

definition map_insert :: "string \<Rightarrow> json \<Rightarrow> (string \<times> json) list \<Rightarrow> (string \<times> json) list" where
  "map_insert k v m = bm_entry k v (\<lambda>_. v) m"

definition json_object :: "(string \<times> json) list \<Rightarrow> json" where
  "json_object kvs = Object (fold (\<lambda>(k, v). map_insert k v) kvs [])"

fun wf_json :: "json \<Rightarrow> bool" where
  "wf_json (Array xs) \<longleftrightarrow> (\<forall>x \<in> set xs. wf_json x)"
| "wf_json (Object kvs) \<longleftrightarrow> bm_wf kvs \<and> (\<forall>kv \<in> set kvs. wf_json (snd kv))"
| "wf_json _ \<longleftrightarrow> True"

lemma as_str_Some [simp]: "as_str v = Some s \<longleftrightarrow> v = String s"
  by (cases v) auto

lemma as_array_Some [simp]: "as_array v = Some xs \<longleftrightarrow> v = Array xs"
  by (cases v) auto

lemma as_object_Some [simp]: "as_object v = Some kvs \<longleftrightarrow> v = Object kvs"
  by (cases v) auto

lemma as_bool_Some [simp]: "as_bool v = Some b \<longleftrightarrow> v = Bool b"
  by (cases v) auto

lemma is_string_iff: "is_string v \<longleftrightarrow> (\<exists>s. v = String s)"
  by (auto simp: is_string_def)

lemma is_array_iff: "is_array v \<longleftrightarrow> (\<exists>xs. v = Array xs)"
  by (auto simp: is_array_def)

lemma get_str_Some: "get_str v k = Some s \<longleftrightarrow> get v k = Some (String s)"
  by (auto simp: get_str_def bind_eq_Some_conv)

lemma map_of_map_insert: "bm_wf m \<Longrightarrow> map_of (map_insert k v m) = (map_of m)(k \<mapsto> v)"
  by (simp add: map_insert_def map_of_bm_entry split: option.split)

lemma bm_wf_map_insert [simp, intro]: "bm_wf m \<Longrightarrow> bm_wf (map_insert k v m)"
  by (simp add: map_insert_def)

lemma get_json_object_fold:
  "bm_wf m \<Longrightarrow> distinct (map fst kvs) \<Longrightarrow>
   map_of (fold (\<lambda>(k, v). map_insert k v) kvs m) = map_of m ++ map_of kvs"
proof (induction kvs arbitrary: m)
  case (Cons kv kvs)
  obtain k v where kv: "kv = (k, v)" by (cases kv)
  with Cons.prems have "map_of kvs k = None" by (simp add: map_of_eq_None_iff)
  with Cons kv show ?case
    by (auto simp: map_of_map_insert map_add_def fun_eq_iff split: option.split)
qed simp

lemma get_json_object: "distinct (map fst kvs) \<Longrightarrow> get (json_object kvs) k = map_of kvs k"
  by (simp add: json_object_def get_json_object_fold)

section \<open>Sizes, for the recursions over a document\<close>

lemma size_array_mem [termination_simp]: "x \<in> set xs \<Longrightarrow> size x < Suc (size_list size xs)"
  by (induction xs) auto

lemma size_object_mem [termination_simp]:
  "(k, v) \<in> set kvs \<Longrightarrow> size v < Suc (size_list (size_prod (\<lambda>_. 0) size) kvs)"
  by (induction kvs) auto

lemma size_object_snd [termination_simp]:
  "kv \<in> set kvs \<Longrightarrow> size (snd kv) < Suc (size_list (size_prod (\<lambda>_. 0) size) kvs)"
  by (cases kv) (simp add: size_object_mem)

lemma size_get [termination_simp]: "get v k = Some w \<Longrightarrow> size w < size v"
  by (cases v) (auto dest!: map_of_SomeD simp: size_object_mem)

lemma get_arr_cases: "get_arr v k = xs \<Longrightarrow> xs \<noteq> [] \<Longrightarrow> get v k = Some (Array xs)"
proof (cases "get v k")
  case (Some w)
  assume "get_arr v k = xs" "xs \<noteq> []"
  with Some show ?thesis by (cases w) (auto simp: get_arr_def)
qed (auto simp: get_arr_def)

lemma size_get_arr [termination_simp]: "w \<in> set (get_arr v k) \<Longrightarrow> size w < size v"
proof -
  assume w: "w \<in> set (get_arr v k)"
  then have "get v k = Some (Array (get_arr v k))"
    by (intro get_arr_cases) auto
  then show "size w < size v"
    using size_get [of v k] size_array_mem [OF w] by fastforce
qed

end
