(* ===== verification/Expr.thy ===== *)
theory Expr
  imports Json
begin

text \<open>
  The walks over JSON Logic expressions of \<open>rad/domain/engine.rs\<close>: which paths an expression
  reads in the scope it is written in (\<open>visit_paths\<close>), which keys those paths depend on
  (\<open>References\<close>), and whether it reads a path nobody can name before it runs
  (\<open>reads_computed_path\<close>).  The form engine builds its dependency graph from the first, and a
  publish refuses the second.  A visitor closure is the list of the paths it is handed, in order.
\<close>

section \<open>Operands\<close>

fun var_path :: "json \<Rightarrow> string option" where
  "var_path (String text) = Some text"
| "var_path (Array items) = (case items of [] \<Rightarrow> None | x # _ \<Rightarrow> as_str x)"
| "var_path _ = None"

definition var_default :: "json \<Rightarrow> json option" where
  "var_default operand =
     (case as_array operand of
        Some (String _ # d # _) \<Rightarrow> Some d
      | Some (Number _ # d # _) \<Rightarrow> Some d
      | _ \<Rightarrow> None)"

definition ITERATORS :: "string list" where
  "ITERATORS = [''map'', ''filter'', ''reduce'', ''all'', ''some'', ''none'']"

definition iterator_operands :: "string \<Rightarrow> json \<Rightarrow> json option list" where
  "iterator_operands operator argument =
     (case as_array argument of
        Some (source # _ # initial # _) \<Rightarrow>
          if operator = ''reduce'' then [Some source, Some initial] else [Some source, None]
      | Some (source # _) \<Rightarrow> [Some source, None]
      | _ \<Rightarrow> [Some argument, None])"

fun is_computed_var :: "json \<Rightarrow> bool" where
  "is_computed_var (Object _) = True"
| "is_computed_var (Array items) =
     (case items of Object _ # _ \<Rightarrow> True | Array _ # _ \<Rightarrow> True | _ \<Rightarrow> False)"
| "is_computed_var _ = False"

lemma size_var_default: "var_default v = Some d \<Longrightarrow> size d < size v"
  by (cases v) (auto simp: var_default_def split: list.splits json.splits)

lemma size_iterator_operands: "x \<in> set (somes (iterator_operands opr v)) \<Longrightarrow> size x \<le> size v"
  by (cases v) (auto simp: iterator_operands_def split: list.splits if_splits)

section \<open>The paths read in a scope\<close>

function (sequential) visit_names :: "json \<Rightarrow> string list"
  and visit_paths :: "json \<Rightarrow> string list"
where
  "visit_names (String name) = [name]"
| "visit_names (Array items) = concat (map visit_names items)"
| "visit_names other = visit_paths other"
| "visit_paths (Object m) =
     concat (map (\<lambda>(operator, argument).
       if operator = ''var'' then
         (case var_path argument of Some path \<Rightarrow> [path] | None \<Rightarrow> []) @
         (case var_default argument of Some d \<Rightarrow> visit_paths d | None \<Rightarrow> [])
       else if operator = ''missing'' then visit_names argument
       else if operator = ''missing_some'' then
         (case as_array argument of
            Some (count # names # _) \<Rightarrow> visit_paths count @ visit_names names
          | _ \<Rightarrow> visit_names argument)
       else if operator \<in> set ITERATORS then
         concat (map visit_paths (somes (iterator_operands operator argument)))
       else visit_paths argument) m)"
| "visit_paths (Array items) = concat (map visit_paths items)"
| "visit_paths _ = []"
  by pat_completeness auto
termination
  by (relation "measure (case_sum (\<lambda>v. 2 * size v + 1) (\<lambda>v. 2 * size v))")
    (fastforce dest: size_array_mem size_object_mem size_var_default size_iterator_operands)+

section \<open>Paths nobody can name\<close>

fun is_computed_name :: "json \<Rightarrow> bool" where
  "is_computed_name (Object _) = True"
| "is_computed_name (Array items) = list_ex is_computed_name items"
| "is_computed_name _ = False"

function (sequential) reads_computed_path :: "json \<Rightarrow> bool" where
  "reads_computed_path (Object m) =
     list_ex (\<lambda>(operator, argument).
       if operator = ''var'' then is_computed_var argument \<or> reads_computed_path argument
       else if operator = ''missing'' then is_computed_name argument
       else if operator = ''missing_some'' then
         (case as_array argument of
            Some (count # names # _) \<Rightarrow> reads_computed_path count \<or> is_computed_name names
          | _ \<Rightarrow> reads_computed_path argument)
       else reads_computed_path argument) m"
| "reads_computed_path (Array items) = list_ex reads_computed_path items"
| "reads_computed_path _ = False"
  by pat_completeness auto
termination
  by (relation "measure size")
    (fastforce dest: size_array_mem size_object_mem)+

section \<open>Dependencies\<close>

record References =
  r_keys :: "string list"
  whole_scope :: bool

definition references_default :: References where
  "references_default = \<lparr>r_keys = [], whole_scope = False\<rparr>"

definition add_path :: "string \<Rightarrow> References \<Rightarrow> References" where
  "add_path path r =
     (if path = [] then r\<lparr>whole_scope := True\<rparr>
      else let head = hd (split_on (CHR ''.'') path) in
           if head \<noteq> [] then r\<lparr>r_keys := bs_insert head (r_keys r)\<rparr> else r)"

definition collect_references :: "json \<Rightarrow> References \<Rightarrow> References" where
  "collect_references expression found = fold add_path (visit_paths expression) found"

definition references :: "json \<Rightarrow> References" where
  "references expression = collect_references expression references_default"

end
