(* ===== verification/Jfss.thy ===== *)
theory Jfss
  imports Expr
begin

text \<open>
  \<open>rad/domain/jfss.rs\<close> and the source vocabulary of \<open>rad/domain/lookup.rs\<close>: the shapes a form
  component's children take, the operator allow-lists with the walk that enforces them, and the
  lookup bindings.  A function that pushes onto a \<open>details\<close> vector is the list of what it pushes.
  The meta-schema validator is the \<open>jsonschema\<close> crate's: its error iterator is the parameter
  \<open>iter_errors\<close>, a list of instance paths and messages.
\<close>

section \<open>Components and their children\<close>

definition SLOT_KEYS :: "string list" where
  "SLOT_KEYS = [''columns'', ''tabs'']"

definition role_of :: "json \<Rightarrow> string option" where
  "role_of component = get_str component ''role''"

text \<open>The elements of an array, each with the path a \<open>format!\<close> gives its index.\<close>

definition with_paths :: "string \<Rightarrow> string \<Rightarrow> json list \<Rightarrow> (json \<times> string) list" where
  "with_paths prefix suffix xs =
     map (\<lambda>(index, x). (x, prefix @ show_nat index @ suffix)) (enumerate 0 xs)"

definition child_containers :: "json \<Rightarrow> string \<Rightarrow> (json \<times> string) list" where
  "child_containers component here =
     (component, here @ ''.components'') #
     concat (map (\<lambda>slot_key.
       with_paths (here @ ''.'' @ slot_key @ ''.'') ''.components'' (get_arr component slot_key))
       SLOT_KEYS)"

definition container_children_at :: "json \<Rightarrow> string \<Rightarrow> (json \<times> string) list" where
  "container_children_at component here =
     (if role_of component \<noteq> Some ''layout'' then []
      else
        (case Option.bind (get component ''components'') as_array of
           Some children \<Rightarrow> with_paths (here @ ''.components.'') [] children
         | None \<Rightarrow>
             concat (map (\<lambda>slot_key.
               concat (map (\<lambda>(slot, slot_path).
                 with_paths (slot_path @ ''.components.'') [] (get_arr slot ''components''))
                 (with_paths (here @ ''.'' @ slot_key @ ''.'') [] (get_arr component slot_key))))
               SLOT_KEYS)))"

definition container_children :: "json \<Rightarrow> json list" where
  "container_children component = map fst (container_children_at component [])"

definition row_template :: "json \<Rightarrow> json list option" where
  "row_template component =
     (if role_of component \<noteq> Some ''data'' then None
      else Option.bind (get component ''components'') as_array)"

definition data_key :: "json \<Rightarrow> string option" where
  "data_key component =
     (if role_of component \<noteq> Some ''data'' then None else get_str component ''key'')"

lemma mem_with_paths: "(x, p) \<in> set (with_paths prefix suffix xs) \<Longrightarrow> x \<in> set xs"
  by (auto simp: with_paths_def in_set_enumerate_0)

lemma fst_with_paths [simp]: "map fst (with_paths prefix suffix xs) = xs"
proof -
  have "map (\<lambda>x. fst (case x of (i, c) \<Rightarrow> (c, f i))) (enumerate n xs) = xs"
    for f :: "nat \<Rightarrow> string" and n
    by (induction xs arbitrary: n) auto
  then show ?thesis by (simp add: with_paths_def comp_def)
qed

lemma size_bind_array:
  assumes "Option.bind (get component k) as_array = Some xs" "x \<in> set xs"
  shows "size x < size component"
proof -
  from assms(1) have "get component k = Some (Array xs)"
    by (cases "get component k") auto
  with size_get [OF this] size_array_mem [OF assms(2)] show ?thesis by simp
qed

lemma size_container_child [termination_simp]:
  assumes "(child, p) \<in> set (container_children_at component here)"
  shows "size child < size component"
proof (cases "Option.bind (get component ''components'') as_array")
  case None
  with assms obtain k slot where
    "slot \<in> set (get_arr component k)" "child \<in> set (get_arr slot ''components'')"
    unfolding container_children_at_def by (auto split: if_splits dest!: mem_with_paths)
  then have "size slot < size component" "size child < size slot"
    using size_get_arr by blast+
  then show ?thesis by simp
next
  case (Some xs)
  with assms have "child \<in> set xs"
    unfolding container_children_at_def by (auto split: if_splits dest!: mem_with_paths)
  with Some show ?thesis by (rule size_bind_array)
qed

lemma size_row_template [termination_simp]:
  "row_template component = Some rows \<Longrightarrow> row \<in> set rows \<Longrightarrow> size row < size component"
  by (auto simp: row_template_def split: if_splits intro: size_bind_array)

lemma size_child_container:
  assumes "(child, p) \<in> set (child_containers component here)"
  shows "size child \<le> size component"
proof (cases "child = component")
  case False
  with assms obtain k where "child \<in> set (get_arr component k)"
    by (auto simp: child_containers_def dest!: mem_with_paths)
  then show ?thesis using size_get_arr less_imp_le by blast
qed simp

text \<open>The path-free walk visits the same children, wherever the component sits.\<close>

lemma container_children_at_fst:
  "map fst (container_children_at component here) = container_children component"
proof -
  have "map fst (concat (map (\<lambda>(slot, q). with_paths (q @ a) b (g slot)) ss)) =
      concat (map g (map fst ss))"
    for g :: "json \<Rightarrow> json list" and ss a b
    by (induction ss) auto
  then show ?thesis
    by (simp del: map_map add: container_children_def container_children_at_def SLOT_KEYS_def
        split: option.split)
qed

section \<open>Operators\<close>

definition CALCULATE_OPERATORS :: "string list" where
  "CALCULATE_OPERATORS =
     [''var'', ''+'', ''-'', ''*'', ''/'', ''%'', ''min'', ''max'', ''map'', ''filter'',
      ''reduce'', ''all'', ''some'', ''none'', ''sum'']"

definition CONDITIONAL_OPERATORS :: "string list" where
  "CONDITIONAL_OPERATORS =
     [''var'', ''+'', ''-'', ''*'', ''/'', ''%'', ''min'', ''max'', ''map'', ''filter'',
      ''reduce'', ''all'', ''some'', ''none'', ''sum'', ''=='', ''==='', ''!='', ''!=='', ''>'',
      ''>='', ''<'', ''<='', ''and'', ''or'', ''!'', ''!!'', ''if'', ''?:'', ''in'', ''missing'',
      ''missing_some'']"

definition check_sum_arity :: "json \<Rightarrow> string \<Rightarrow> validation_detail list" where
  "check_sum_arity argument path =
     (case as_array argument of
        None \<Rightarrow> []
      | Some arguments \<Rightarrow>
          if length arguments = 1 then []
          else [detail path ''arity'' ''SUM_TAKES_ONE_ARRAY'' [show_nat (length arguments)]])"

fun check_operators :: "json \<Rightarrow> string list \<Rightarrow> string \<Rightarrow> validation_detail list" where
  "check_operators (Object m) approved path =
     concat (map (\<lambda>(operator, argument).
       (if operator \<notin> set approved
        then [detail path ''operator'' ''OPERATOR_NOT_REGISTERED'' [operator]] else []) @
       (if operator = ''sum'' then check_sum_arity argument path else []) @
       check_operators argument approved path) m)"
| "check_operators (Array items) approved path =
     concat (map (\<lambda>item. check_operators item approved path) items)"
| "check_operators _ approved path = []"

section \<open>Lookup bindings\<close>

datatype LookupSource = Supplier | Customer | Employee | Facility

definition SOURCES :: "LookupSource list" where
  "SOURCES = [Customer, Employee, Facility, Supplier]"

fun lookup_key :: "LookupSource \<Rightarrow> string" where
  "lookup_key Supplier = ''supplier''"
| "lookup_key Customer = ''customer''"
| "lookup_key Employee = ''employee''"
| "lookup_key Facility = ''facility''"

definition from_key :: "string \<Rightarrow> LookupSource option" where
  "from_key key = find (\<lambda>source. lookup_key source = key) SOURCES"

definition lookup_keys :: string where
  "lookup_keys = join '', '' (map lookup_key SOURCES)"

interpretation lookup_source: db_code lookup_key from_key
proof
  show "from_key (lookup_key x) = Some x" for x
    by (cases x) (simp_all add: from_key_def SOURCES_def)
  show "from_key s = Some x \<Longrightarrow> lookup_key x = s" for s x
    by (auto simp: from_key_def find_Some_iff)
qed

record DataComponent =
  dc_path :: string
  dc_id :: "string option"
  component_type :: "string option"
  has_options :: bool

definition LOOKUP_BINDINGS :: string where
  "LOOKUP_BINDINGS = ''settings.lookups''"

definition LOOKUP_TYPE :: string where
  "LOOKUP_TYPE = ''lookup''"

function collect_data_components :: "json \<Rightarrow> string \<Rightarrow> DataComponent list" where
  "collect_data_components node path =
     concat (map (\<lambda>(component, here).
       (if get_str component ''role'' = Some ''data''
        then [\<lparr>dc_path = here, dc_id = get_str component ''id'',
               component_type = get_str component ''type'',
               has_options = (get component ''options'' \<noteq> None)\<rparr>]
        else []) @
       concat (map (\<lambda>(child, child_path). collect_data_components child child_path)
                 (child_containers component here)))
       (with_paths (path @ ''.'') [] (get_arr node ''components'')))"
  by pat_completeness auto
termination
proof (relation "measure (\<lambda>(v, p). size v)", goal_cases)
  case (2 node path x component here y child child_path)
  then have "size component < size node" "size child \<le> size component"
    using mem_with_paths size_get_arr size_child_container by metis+
  then show ?case by simp
qed simp

declare collect_data_components.simps [simp del]

definition check_binding ::
  "string \<Rightarrow> json \<Rightarrow> DataComponent list \<Rightarrow> validation_detail list" where
  "check_binding id0 source components =
     (let path = ''definition.'' @ LOOKUP_BINDINGS @ ''.'' @ id0 in
      case as_str source of
        None \<Rightarrow> [detail path ''type'' ''LOOKUP_SOURCE_INVALID'' [lookup_keys]]
      | Some src \<Rightarrow>
          (if from_key src = None
           then [detail path ''enum'' ''LOOKUP_SOURCE_UNKNOWN'' [src, lookup_keys]] else []) @
          (case filter (\<lambda>component. dc_id component = Some id0) components of
             [] \<Rightarrow> [detail path ''reference'' ''LOOKUP_COMPONENT_NOT_FOUND'' [id0]]
           | [component] \<Rightarrow>
               if has_options component
               then [detail (dc_path component @ ''.options'') ''conflict''
                       ''LOOKUP_HAS_STATIC_OPTIONS'' []]
               else []
           | matched \<Rightarrow>
               [detail path ''reference'' ''LOOKUP_COMPONENT_AMBIGUOUS''
                  [id0, show_nat (length matched)]]))"

definition lookup_errors :: "json \<Rightarrow> validation_detail list" where
  "lookup_errors definition0 =
     (let components = collect_data_components definition0 ''definition.components'';
          bindings = Option.bind (get definition0 ''settings'') (\<lambda>settings. get settings ''lookups'');
          bound = (case bindings of Some (Object m) \<Rightarrow> map fst m | _ \<Rightarrow> [])
      in
      (case bindings of
         None \<Rightarrow> []
       | Some (Object m) \<Rightarrow> concat (map (\<lambda>(id0, source). check_binding id0 source components) m)
       | Some _ \<Rightarrow> [detail (''definition.'' @ LOOKUP_BINDINGS) ''type''
                      ''LOOKUP_BINDINGS_INVALID'' [LOOKUP_BINDINGS, lookup_keys]]) @
      concat (map (\<lambda>component.
        if component_type component \<noteq> Some LOOKUP_TYPE then []
        else if (case dc_id component of None \<Rightarrow> False | Some id0 \<Rightarrow> id0 \<in> set bound) then []
        else [detail (dc_path component) ''lookup'' ''LOOKUP_SOURCE_MISSING''
                [LOOKUP_TYPE, LOOKUP_BINDINGS, lookup_keys]])
        components))"

section \<open>The meta-schema half\<close>

text \<open>\<open>trim_start_matches('/')\<close> then \<open>replace('/', ".")\<close> of a JSON Pointer.\<close>

definition dotted_path :: "string \<Rightarrow> string" where
  "dotted_path pointer =
     map (\<lambda>c. if c = CHR ''/'' then CHR ''.'' else c) (dropWhile (\<lambda>c. c = CHR ''/'') pointer)"

definition shape_errors ::
  "(json \<Rightarrow> (string \<times> string) list) \<Rightarrow> json \<Rightarrow> validation_detail list" where
  "shape_errors iter_errors definition0 =
     map (\<lambda>(instance_path, message).
       let dotted = dotted_path instance_path;
           dotted = (if dotted = [] then ''definition'' else ''definition.'' @ dotted)
       in detail dotted ''jfss'' ''INVALID_DEFINITION'' [message])
       (iter_errors definition0)"

end
