(* ===== verification/Topo.thy ===== *)
theory Topo
  imports Jfss
begin

text \<open>
  The dependency graph of \<open>rad/domain/engine.rs\<close>: \<open>Graph\<close>, Kahn's algorithm taking the
  lowest-numbered ready node, and the loop it reports when an order does not exist.  A Rust panic
  (an index out of range, a subtraction below zero) is the result \<open>None\<close>; on a graph built with
  \<open>depends\<close> it does not happen (\<open>topological_total\<close>).  A \<open>Result\<close> is a sum, \<open>Inr\<close> for \<open>Ok\<close>.
\<close>

section \<open>The graph\<close>

record dep_graph =
  dependencies :: "nat list list"
  dependents :: "nat list list"

definition graph_of :: "nat \<Rightarrow> dep_graph" where
  "graph_of nodes = \<lparr>dependencies = replicate nodes [], dependents = replicate nodes []\<rparr>"

definition depends :: "nat \<Rightarrow> nat \<Rightarrow> dep_graph \<Rightarrow> dep_graph" where
  "depends dependent dependency g =
     g\<lparr>dependencies := (dependencies g)[dependent := bs_insert dependency (dependencies g ! dependent)],
       dependents := (dependents g)[dependency := bs_insert dependent (dependents g ! dependency)]\<rparr>"

abbreviation nodes_of :: "dep_graph \<Rightarrow> nat" where
  "nodes_of g \<equiv> length (dependencies g)"

definition deps :: "dep_graph \<Rightarrow> nat \<Rightarrow> nat set" where
  "deps g i = set (dependencies g ! i)"

definition wf_graph :: "dep_graph \<Rightarrow> bool" where
  "wf_graph g \<longleftrightarrow>
     length (dependents g) = nodes_of g \<and>
     (\<forall>i < nodes_of g. bs_wf (dependencies g ! i) \<and> deps g i \<subseteq> {..<nodes_of g}) \<and>
     (\<forall>j < nodes_of g. bs_wf (dependents g ! j) \<and>
        set (dependents g ! j) = {i. i < nodes_of g \<and> j \<in> deps g i})"

lemma nodes_graph_of [simp]: "nodes_of (graph_of n) = n"
  by (simp add: graph_of_def)

lemma nodes_depends [simp]: "nodes_of (depends i j g) = nodes_of g"
  by (simp add: depends_def)

lemma wf_graph_of [simp, intro]: "wf_graph (graph_of n)"
  by (simp add: wf_graph_def graph_of_def deps_def)

lemma deps_graph_of [simp]: "i < n \<Longrightarrow> deps (graph_of n) i = {}"
  by (simp add: graph_of_def deps_def)

lemma deps_depends:
  "i < nodes_of g \<Longrightarrow> k < nodes_of g \<Longrightarrow>
   deps (depends i j g) k = (if k = i then insert j (deps g i) else deps g k)"
  by (auto simp: depends_def deps_def nth_list_update)

lemma dependents_depends:
  "j < length (dependents g) \<Longrightarrow> k < length (dependents g) \<Longrightarrow>
   dependents (depends i j g) ! k =
   (if k = j then bs_insert i (dependents g ! k) else dependents g ! k)"
  by (auto simp: depends_def nth_list_update)

lemma wf_depends [intro]:
  assumes "wf_graph g" "i < nodes_of g" "j < nodes_of g"
  shows "wf_graph (depends i j g)"
proof -
  have "set (dependents (depends i j g) ! k) = {x. x < nodes_of g \<and> k \<in> deps (depends i j g) x}"
    if "k < nodes_of g" for k
    using assms that by (auto simp: wf_graph_def deps_depends dependents_depends split: if_splits)
  moreover have "bs_wf (dependencies (depends i j g) ! k) \<and> bs_wf (dependents (depends i j g) ! k)"
    if "k < nodes_of g" for k
    using assms that by (auto simp: wf_graph_def depends_def nth_list_update)
  moreover have "deps (depends i j g) k \<subseteq> {..<nodes_of g}" if "k < nodes_of g" for k
    using assms that by (auto simp: wf_graph_def deps_depends)
  ultimately show ?thesis
    using assms(1) by (simp add: wf_graph_def) (simp add: depends_def)
qed

section \<open>Kahn's algorithm\<close>

fun relax :: "nat list \<Rightarrow> nat list \<Rightarrow> nat list \<Rightarrow> (nat list \<times> nat list) option" where
  "relax [] remaining ready = Some (remaining, ready)"
| "relax (dependent # ds) remaining ready =
     (if dependent < length remaining \<and> 0 < remaining ! dependent then
        let remaining = remaining[dependent := remaining ! dependent - 1];
            ready = (if remaining ! dependent = 0 then bs_insert dependent ready else ready)
        in relax ds remaining ready
      else None)"

lemma length_bs_insert: "length (bs_insert x s) \<le> Suc (length s)"
  by (induction s) auto

lemma sum_list_update_pred:
  "i < length xs \<Longrightarrow> 0 < xs ! i \<Longrightarrow> Suc (sum_list (xs[i := xs ! i - 1])) = sum_list (xs :: nat list)"
  by (induction xs arbitrary: i) (auto split: nat.splits)

lemma relax_decreases:
  "relax ds rem ready = Some (rem', ready') \<Longrightarrow>
   sum_list rem' + length ready' \<le> sum_list rem + length ready"
proof (induction ds rem ready rule: relax.induct)
  case (2 d ds rem ready)
  then show ?case
    using length_bs_insert [of d ready] sum_list_update_pred [of d rem]
    by (fastforce simp: Let_def split: if_splits)
qed auto

function kahn ::
  "nat list list \<Rightarrow> nat list \<Rightarrow> nat list \<Rightarrow> nat list \<Rightarrow> (nat list \<times> nat list) option" where
  "kahn dependents0 remaining ready order =
     (case ready of
        [] \<Rightarrow> Some (remaining, order)
      | at # ready \<Rightarrow>
          if at < length dependents0 then
            (case relax (dependents0 ! at) remaining ready of
               None \<Rightarrow> None
             | Some (remaining, ready) \<Rightarrow> kahn dependents0 remaining ready (order @ [at]))
          else None)"
  by pat_completeness auto
termination
  by (relation "measure (\<lambda>(_, rem, ready, _). sum_list rem + length ready)")
    (auto dest!: relax_decreases)

declare kahn.simps [simp del]

text \<open>The first node met twice closes a loop; \<open>seen_at\<close> is a node's position in \<open>path\<close>.\<close>

function follow ::
  "nat list list \<Rightarrow> nat list \<Rightarrow> (nat \<rightharpoonup> nat) \<Rightarrow> nat list \<Rightarrow> nat \<Rightarrow> nat list option" where
  "follow dependencies0 remaining seen_at path node =
     (case seen_at node of
        Some at \<Rightarrow> Some (drop at path)
      | None \<Rightarrow>
          if node < length dependencies0 then
            (case find (\<lambda>n. n < length remaining \<and> 0 < remaining ! n) (dependencies0 ! node) of
               Some n \<Rightarrow>
                 follow dependencies0 remaining (seen_at(node \<mapsto> length path)) (path @ [node]) n
             | None \<Rightarrow> Some (path @ [node]))
          else None)"
  by pat_completeness auto
termination
proof (relation "measure (\<lambda>(ds, _, seen, _, _). card ({..<length ds} - dom seen))", goal_cases)
  case (2 ds rem seen path node n)
  then have "{..<length ds} - dom (seen(node \<mapsto> length path)) \<subset> {..<length ds} - dom seen"
    by (auto simp: domIff)
  then show ?case by (simp add: psubset_card_mono del: dom_fun_upd)
qed simp

declare follow.simps [simp del]

definition cycle :: "dep_graph \<Rightarrow> nat list \<Rightarrow> nat list option" where
  "cycle g remaining =
     (case find (\<lambda>i. 0 < remaining ! i) [0..<length remaining] of
        None \<Rightarrow> Some []
      | Some start \<Rightarrow> follow (dependencies g) remaining Map.empty [] start)"

definition topological :: "dep_graph \<Rightarrow> (nat list + nat list) option" where
  "topological g =
     (let nodes = length (dependencies g);
          remaining = map length (dependencies g);
          ready = filter (\<lambda>at. remaining ! at = 0) [0..<nodes]
      in case kahn (dependents g) remaining ready [] of
           None \<Rightarrow> None
         | Some (remaining, order) \<Rightarrow>
             if length order = nodes then Some (Inr order)
             else map_option Inl (cycle g remaining))"

section \<open>What the loop maintains\<close>

lemma relax_spec:
  "distinct ds \<Longrightarrow> \<forall>d \<in> set ds. d < length rem \<and> 0 < rem ! d \<Longrightarrow> bs_wf ready \<Longrightarrow>
   \<exists>rem' ready'. relax ds rem ready = Some (rem', ready') \<and> length rem' = length rem \<and>
     (\<forall>i < length rem. rem' ! i = rem ! i - (if i \<in> set ds then 1 else 0)) \<and>
     set ready' = set ready \<union> {d \<in> set ds. rem ! d = 1} \<and> bs_wf ready'"
proof (induction ds arbitrary: rem ready)
  case (Cons d ds)
  let ?rem = "rem[d := rem ! d - 1]"
  let ?ready = "if ?rem ! d = 0 then bs_insert d ready else ready"
  from Cons.prems have d: "d < length rem" "0 < rem ! d" "d \<notin> set ds" by auto
  have "\<forall>e \<in> set ds. e < length ?rem \<and> 0 < ?rem ! e"
    using Cons.prems d by (auto simp: nth_list_update)
  moreover have "bs_wf ?ready" "distinct ds" using Cons.prems by auto
  ultimately obtain rem' ready' where
    r: "relax ds ?rem ?ready = Some (rem', ready')" "length rem' = length ?rem"
      "\<forall>i < length ?rem. rem' ! i = ?rem ! i - (if i \<in> set ds then 1 else 0)"
      "set ready' = set ?ready \<union> {e \<in> set ds. ?rem ! e = 1}" "bs_wf ready'"
    using Cons.IH [of ?rem ?ready] by blast
  have "set ready' = set ready \<union> {e \<in> set (d # ds). rem ! e = 1}"
    using r(4) d by (auto simp: nth_list_update)
  moreover have "\<forall>i < length rem. rem' ! i = rem ! i - (if i \<in> set (d # ds) then 1 else 0)"
    using r(3) d by (auto simp: nth_list_update)
  ultimately show ?case
    using r d by (simp add: Let_def)
qed simp

text \<open>The nodes that may run once \<open>done\<close> has run, and the order that always takes the lowest.\<close>

definition ready_set :: "dep_graph \<Rightarrow> nat set \<Rightarrow> nat set" where
  "ready_set g placed = {i. i < nodes_of g \<and> i \<notin> placed \<and> deps g i \<subseteq> placed}"

definition greedy :: "dep_graph \<Rightarrow> nat list \<Rightarrow> bool" where
  "greedy g order \<longleftrightarrow>
     (\<forall>k < length order. ready_set g (set (take k order)) \<noteq> {} \<and>
        order ! k = Min (ready_set g (set (take k order))))"

definition kahn_inv :: "dep_graph \<Rightarrow> nat list \<Rightarrow> nat list \<Rightarrow> nat list \<Rightarrow> bool" where
  "kahn_inv g rem ready order \<longleftrightarrow>
     length rem = nodes_of g \<and> (\<forall>i < nodes_of g. rem ! i = card (deps g i - set order)) \<and>
     bs_wf ready \<and> set ready = ready_set g (set order) \<and> greedy g order"

lemma finite_ready_set [simp]: "finite (ready_set g D)"
  by (simp add: ready_set_def)

lemma finite_deps [simp]: "finite (deps g i)"
  by (simp add: deps_def)

lemma greedy_snoc:
  "greedy g order \<Longrightarrow> ready_set g (set order) \<noteq> {} \<Longrightarrow> x = Min (ready_set g (set order)) \<Longrightarrow>
   greedy g (order @ [x])"
  by (auto simp: greedy_def nth_append less_Suc_eq)

lemma greedy_closed:
  assumes "greedy g order" "i \<in> set order"
  shows "i < nodes_of g \<and> deps g i \<subseteq> set order"
proof -
  from assms(2) obtain k where k: "k < length order" "i = order ! k"
    by (auto simp: in_set_conv_nth)
  with assms(1) have "i \<in> ready_set g (set (take k order))"
    using Min_in [OF finite_ready_set] by (auto simp: greedy_def)
  then show ?thesis using set_take_subset [of k order] by (auto simp: ready_set_def)
qed

lemma kahn_step:
  assumes wf: "wf_graph g" and inv: "kahn_inv g rem (at # ready) order"
  shows "at < nodes_of g \<and> (\<exists>rem' ready'. relax (dependents g ! at) rem ready = Some (rem', ready') \<and>
           kahn_inv g rem' ready' (order @ [at]))"
proof -
  let ?ds = "dependents g ! at" and ?n = "nodes_of g"
  from inv have rem: "length rem = ?n" "\<And>i. i < ?n \<Longrightarrow> rem ! i = card (deps g i - set order)"
    and rd: "bs_wf (at # ready)" "insert at (set ready) = ready_set g (set order)"
    and gr: "greedy g order"
    by (auto simp: kahn_inv_def)
  from rd have at: "at < ?n" "at \<notin> set order" "deps g at \<subseteq> set order" "at \<notin> set ready"
    by (auto simp: ready_set_def)
  from wf at have ds: "set ?ds = {i. i < ?n \<and> at \<in> deps g i}" "distinct ?ds"
    by (auto simp: wf_graph_def dest: bs_wf_distinct)
  have pos: "\<forall>d \<in> set ?ds. d < length rem \<and> 0 < rem ! d"
    using ds at rem by (auto simp: card_gt_0_iff)
  from relax_spec [OF ds(2) pos, of ready] rd(1) obtain rem' ready' where
    r: "relax ?ds rem ready = Some (rem', ready')" "length rem' = ?n"
      "\<forall>i < ?n. rem' ! i = rem ! i - (if i \<in> set ?ds then 1 else 0)"
      "set ready' = set ready \<union> {d \<in> set ?ds. rem ! d = 1}" "bs_wf ready'"
    using rem(1) by auto
  have rem': "rem' ! i = card (deps g i - set (order @ [at]))" if "i < ?n" for i
  proof -
    have "deps g i - set (order @ [at]) = (deps g i - set order) - {at}" by auto
    then show ?thesis using r(3) rem(2) ds(1) at(2) that by simp
  qed
  have one: "rem ! d = 1 \<longleftrightarrow> deps g d \<subseteq> insert at (set order)" if "d \<in> set ?ds" for d
  proof -
    have d: "d < ?n" "at \<in> deps g d - set order" using that ds(1) at(2) by auto
    then have "card (deps g d - set order) = 1 \<longleftrightarrow> deps g d - set order = {at}"
      by (metis card_1_singletonE is_singletonI is_singleton_altdef singletonD)
    also have "\<dots> \<longleftrightarrow> deps g d \<subseteq> insert at (set order)" using d(2) by auto
    finally show ?thesis using rem(2) d(1) by simp
  qed
  have rs: "set ready' = ready_set g (set (order @ [at]))"
  proof (intro equalityI subsetI)
    fix i assume "i \<in> set ready'"
    then consider "i \<in> set ready" | "i \<in> set ?ds" "rem ! i = 1" using r(4) by auto
    then show "i \<in> ready_set g (set (order @ [at]))"
    proof cases
      case 1
      then show ?thesis using rd(2) at by (auto simp: ready_set_def)
    next
      case 2
      then have "at \<in> deps g i" using ds(1) by auto
      then have "i \<notin> set order \<and> i \<noteq> at"
        using at greedy_closed [OF gr, of i] by auto
      then show ?thesis using 2 one [of i] ds(1) by (auto simp: ready_set_def)
    qed
  next
    fix i assume i: "i \<in> ready_set g (set (order @ [at]))"
    then show "i \<in> set ready'"
      using r(4) rd(2) ds(1) one [of i] by (auto simp: ready_set_def)
  qed
  have "at = Min (ready_set g (set order))"
    using rd by (metis Min_insert2 finite_set list.simps(15) order_less_imp_le sorted_wrt.simps(2))
  then have "greedy g (order @ [at])"
    using greedy_snoc [OF gr] rd(2) by blast
  then show ?thesis
    using r(1,2,5) rem' at(1) rs by (simp add: kahn_inv_def)
qed

lemma kahn_runs:
  assumes "wf_graph g" "kahn_inv g rem ready order"
  shows "\<exists>rem' order'. kahn (dependents g) rem ready order = Some (rem', order') \<and>
           kahn_inv g rem' [] order'"
  using assms(2)
proof (induction "dependents g" rem ready order rule: kahn.induct)
  case (1 rem ready order)
  show ?case
  proof (cases ready)
    case Nil
    with "1.prems" show ?thesis by (simp add: kahn.simps)
  next
    case (Cons at ready1)
    with kahn_step [OF assms(1)] "1.prems" obtain rem' ready' where
      st: "at < nodes_of g" "relax (dependents g ! at) rem ready1 = Some (rem', ready')"
        "kahn_inv g rem' ready' (order @ [at])"
      by blast
    have len: "length (dependents g) = nodes_of g"
      using assms(1) by (simp add: wf_graph_def)
    show ?thesis
      using "1.hyps" [OF Cons _ st(2) refl st(3)] Cons st(1,2) len
      by (simp add: kahn.simps [of _ rem "at # ready1"])
  qed
qed

lemma kahn_start:
  assumes "wf_graph g"
  defines "rem \<equiv> map length (dependencies g)"
  shows "kahn_inv g rem (filter (\<lambda>at. rem ! at = 0) [0..<nodes_of g]) []"
proof -
  have "length (dependencies g ! i) = card (deps g i)" if "i < nodes_of g" for i
    using assms(1) that by (simp add: wf_graph_def deps_def bs_wf_distinct distinct_card)
  moreover have "deps g i = {} \<longleftrightarrow> dependencies g ! i = []" for i
    by (simp add: deps_def)
  ultimately show ?thesis
    by (auto simp: kahn_inv_def rem_def greedy_def ready_set_def sorted_wrt_filter)
qed

section \<open>The reported loop\<close>

definition is_cycle :: "dep_graph \<Rightarrow> nat list \<Rightarrow> bool" where
  "is_cycle g c \<longleftrightarrow>
     c \<noteq> [] \<and> distinct c \<and>
     (\<forall>k < length c. c ! k < nodes_of g \<and> c ! (Suc k mod length c) \<in> deps g (c ! k))"

definition follow_inv ::
  "dep_graph \<Rightarrow> nat list \<Rightarrow> (nat \<rightharpoonup> nat) \<Rightarrow> nat list \<Rightarrow> nat \<Rightarrow> bool" where
  "follow_inv g rem seen path node \<longleftrightarrow>
     distinct path \<and> set (path @ [node]) \<subseteq> {..<nodes_of g} \<and> 0 < rem ! node \<and>
     (\<forall>i a. seen i = Some a \<longleftrightarrow> a < length path \<and> path ! a = i) \<and>
     (\<forall>k < length path. (path @ [node]) ! Suc k \<in> deps g (path ! k))"

lemma nth_snoc_Suc:
  "k < length xs \<Longrightarrow> (xs @ [y]) ! Suc k = (if Suc k < length xs then xs ! Suc k else y)"
  by (cases "Suc k = length xs") (auto simp: nth_append)

lemma follow_closes:
  assumes inv: "follow_inv g rem seen path node" and seen: "seen node = Some at"
  shows "is_cycle g (drop at path)"
proof -
  from inv seen have at: "at < length path" "path ! at = node"
    and edge: "\<And>k. k < length path \<Longrightarrow> (path @ [node]) ! Suc k \<in> deps g (path ! k)"
    and rng: "set path \<subseteq> {..<nodes_of g}" "distinct path"
    by (auto simp: follow_inv_def)
  have "drop at path ! (Suc k mod length (drop at path)) \<in> deps g (drop at path ! k)"
    if k: "k < length (drop at path)" for k
  proof (cases "Suc k < length (drop at path)")
    case True
    then have "Suc (at + k) < length path" by simp
    with edge [of "at + k"] True show ?thesis by (simp add: nth_append)
  next
    case False
    with k have "Suc k = length (drop at path)" "at + k = length path - 1" by auto
    moreover have "0 < length path" using at(1) by (cases path) auto
    then have "(path @ [node]) ! Suc (length path - 1) = node" by (simp add: nth_append)
    ultimately show ?thesis using edge [of "at + k"] at by simp
  qed
  moreover have "drop at path ! k < nodes_of g" if "k < length (drop at path)" for k
  proof -
    have "drop at path ! k \<in> set path" using nth_mem [OF that] set_drop_subset [of at path] by auto
    then show ?thesis using rng(1) by auto
  qed
  ultimately show ?thesis using at(1) rng(2) by (simp add: is_cycle_def)
qed

lemma follow_extends:
  assumes inv: "follow_inv g rem seen path node" and new: "seen node = None"
    and n: "n \<in> deps g node" "n < nodes_of g" "0 < rem ! n"
  shows "follow_inv g rem (seen(node \<mapsto> length path)) (path @ [node]) n"
proof -
  have seen: "seen i = Some a \<longleftrightarrow> a < length path \<and> path ! a = i" for i a
    using inv by (simp add: follow_inv_def)
  have "node \<notin> set path"
    using new seen by (metis in_set_conv_nth option.distinct(1))
  moreover have "(seen(node \<mapsto> length path)) i = Some a \<longleftrightarrow>
      a < length (path @ [node]) \<and> (path @ [node]) ! a = i" for i a
    using seen [of i a] seen [of node a] new by (auto simp: nth_append less_Suc_eq)
  moreover have "((path @ [node]) @ [n]) ! Suc k \<in> deps g ((path @ [node]) ! k)"
    if "k < length (path @ [node])" for k
  proof (cases "k < length path")
    case True
    then have "(path @ [node]) ! Suc k \<in> deps g (path ! k)" using inv by (simp add: follow_inv_def)
    moreover have "((path @ [node]) @ [n]) ! Suc k = (path @ [node]) ! Suc k"
      using True by (subst nth_append) simp
    ultimately show ?thesis using True by (simp only: nth_append_left) 
  next
    case False
    with that n(1) show ?thesis by (simp add: nth_append)
  qed
  ultimately show ?thesis using inv n by (simp add: follow_inv_def)
qed

lemma follow_step:
  "seen node = None \<Longrightarrow> node < length ds \<Longrightarrow>
   find (\<lambda>n. n < length rem \<and> 0 < rem ! n) (ds ! node) = Some n \<Longrightarrow>
   follow ds rem seen path node = follow ds rem (seen(node \<mapsto> length path)) (path @ [node]) n"
  by (subst follow.simps) simp

lemma follow_finds_cycle:
  assumes "wf_graph g" "length rem = nodes_of g"
    and "\<forall>i < nodes_of g. 0 < rem ! i \<longrightarrow> (\<exists>j \<in> deps g i. 0 < rem ! j)"
    and "follow_inv g rem seen path node"
  shows "\<exists>c. follow (dependencies g) rem seen path node = Some c \<and> is_cycle g c"
  using assms(2-4)
proof (induction "dependencies g" rem seen path node rule: follow.induct)
  case (1 rem seen path node)
  note inv = "1.prems"(3)
  show ?case
  proof (cases "seen node")
    case (Some at)
    then have "follow (dependencies g) rem seen path node = Some (drop at path)"
      by (subst follow.simps) simp
    then show ?thesis using follow_closes [OF inv Some] by blast
  next
    case None
    let ?P = "\<lambda>n. n < length rem \<and> 0 < rem ! n"
    have node: "node < nodes_of g" "0 < rem ! node" using inv by (auto simp: follow_inv_def)
    with "1.prems"(2) obtain j where "j \<in> deps g node" "0 < rem ! j" by blast
    moreover from this have "j < nodes_of g" using assms(1) node by (auto simp: wf_graph_def)
    ultimately have "find ?P (dependencies g ! node) \<noteq> None"
      using "1.prems"(1) unfolding find_None_iff deps_def by metis
    then obtain n where n: "find ?P (dependencies g ! node) = Some n" by blast
    then have "?P n" "n \<in> deps g node"
      unfolding find_Some_iff deps_def by auto
    with "1.prems"(1) have "follow_inv g rem (seen(node \<mapsto> length path)) (path @ [node]) n"
      by (intro follow_extends [OF inv None]) auto
    from "1.hyps" [OF None node(1) n "1.prems"(1,2) this] show ?thesis
      by (simp only: follow_step [of seen node "dependencies g" rem n path, OF None node(1) n])
  qed
qed

section \<open>The result\<close>

definition topo_order :: "dep_graph \<Rightarrow> nat list \<Rightarrow> bool" where
  "topo_order g order \<longleftrightarrow>
     distinct order \<and> set order = {..<nodes_of g} \<and>
     (\<forall>k < length order. deps g (order ! k) \<subseteq> set (take k order))"

lemma greedy_distinct: "greedy g order \<Longrightarrow> distinct order"
proof (induction order rule: rev_induct)
  case (snoc x xs)
  have "greedy g xs" using snoc.prems
    by (auto simp: greedy_def nth_append split: if_splits dest!: spec less_SucI)
  moreover have "ready_set g (set xs) \<noteq> {}" "x = Min (ready_set g (set xs))"
    using snoc.prems by (auto simp: greedy_def nth_append dest!: spec [of _ "length xs"])
  then have "x \<in> ready_set g (set xs)" using Min_in [OF finite_ready_set] by blast
  ultimately show ?case using snoc.IH by (auto simp: ready_set_def)
qed simp

lemma greedy_topo:
  assumes "greedy g order" "length order = nodes_of g"
  shows "topo_order g order"
proof -
  have "set order \<subseteq> {..<nodes_of g}" using greedy_closed [OF assms(1)] by auto
  moreover have "card (set order) = nodes_of g"
    using greedy_distinct [OF assms(1)] assms(2) by (simp add: distinct_card)
  ultimately have "set order = {..<nodes_of g}"
    by (simp add: card_subset_eq)
  moreover have "deps g (order ! k) \<subseteq> set (take k order)" if "k < length order" for k
    using assms(1) that Min_in [OF finite_ready_set, of g "set (take k order)"]
    by (auto simp: greedy_def ready_set_def)
  ultimately show ?thesis using greedy_distinct [OF assms(1)] by (simp add: topo_order_def)
qed

lemma topological_cases:
  assumes "wf_graph g"
  shows "(\<exists>order. topological g = Some (Inr order) \<and> greedy g order \<and> topo_order g order) \<or>
         (\<exists>c. topological g = Some (Inl c) \<and> is_cycle g c)"
proof -
  let ?rem = "map length (dependencies g)"
  obtain rem order where k: "kahn (dependents g) ?rem
      (filter (\<lambda>at. ?rem ! at = 0) [0..<nodes_of g]) [] = Some (rem, order)"
      "kahn_inv g rem [] order"
    using kahn_runs [OF assms kahn_start [OF assms]] by blast
  from k(2) have inv: "length rem = nodes_of g" "ready_set g (set order) = {}" "greedy g order"
    "\<And>i. i < nodes_of g \<Longrightarrow> rem ! i = card (deps g i - set order)"
    by (auto simp: kahn_inv_def)
  show ?thesis
  proof (cases "length order = nodes_of g")
    case True
    then show ?thesis using k(1) inv(3) greedy_topo by (simp add: topological_def)
  next
    case False
    have stuck: "\<exists>j \<in> deps g i. 0 < rem ! j" if i: "i < nodes_of g" "0 < rem ! i" for i
    proof -
      from i inv(4) obtain j where j: "j \<in> deps g i" "j \<notin> set order"
        by (auto simp: card_gt_0_iff)
      with assms i(1) have "j < nodes_of g" by (auto simp: wf_graph_def)
      with inv(2) j(2) have "\<not> deps g j \<subseteq> set order" by (auto simp: ready_set_def)
      with inv(4) \<open>j < nodes_of g\<close> j(1) show ?thesis
        by (intro bexI [of _ j]) (auto simp: card_gt_0_iff)
    qed
    have "\<exists>i < nodes_of g. i \<notin> set order"
    proof (rule ccontr)
      assume "\<not> ?thesis"
      then have "set order = {..<nodes_of g}" using greedy_closed [OF inv(3)] by auto
      with False greedy_distinct [OF inv(3)] show False by (metis card_lessThan distinct_card)
    qed
    then obtain i where "i < nodes_of g" "\<not> deps g i \<subseteq> set order"
      using inv(2) unfolding ready_set_def by blast
    then have "0 < rem ! i" using inv(4) by (auto simp: card_gt_0_iff)
    with \<open>i < nodes_of g\<close> inv(1) have "find (\<lambda>i. 0 < rem ! i) [0..<length rem] \<noteq> None"
      by (auto simp: find_None_iff)
    then obtain start where st: "find (\<lambda>i. 0 < rem ! i) [0..<length rem] = Some start"
      by blast
    then have "start < length rem \<and> 0 < rem ! start" by (auto simp: find_Some_iff)
    then have "follow_inv g rem Map.empty [] start" using inv(1) by (simp add: follow_inv_def)
    from follow_finds_cycle [OF assms inv(1) _ this] stuck
    show ?thesis using k(1) False st by (auto simp: topological_def cycle_def)
  qed
qed

lemma topo_order_no_cycle:
  assumes "topo_order g order" "is_cycle g c"
  shows False
proof -
  let ?P = "\<lambda>k. k < length order \<and> order ! k \<in> set c"
  from assms obtain k0 where "?P k0"
    unfolding topo_order_def is_cycle_def by (metis in_set_conv_nth length_greater_0_conv lessThan_iff)
  then obtain k where k: "?P k" "\<And>k'. ?P k' \<Longrightarrow> k \<le> k'"
    using exists_least_iff [of ?P] by (metis not_le)
  then obtain m where m: "m < length c" "order ! k = c ! m" by (auto simp: in_set_conv_nth)
  let ?y = "c ! (Suc m mod length c)"
  have "?y \<in> set c" using m(1) by (intro nth_mem mod_less_divisor) auto
  moreover have y: "?y \<in> set (take k order)"
    using assms k(1) m unfolding topo_order_def is_cycle_def by (metis subsetD)
  moreover from y obtain k' where "k' < k" "k' < length order" "order ! k' = ?y"
    by (auto simp: in_set_conv_nth)
  ultimately show False using k(2) [of k'] by simp
qed

lemma greedy_unique:
  assumes "greedy g xs" "greedy g ys" "length xs = length ys"
  shows "xs = ys"
proof -
  have "take k xs = take k ys" if "k \<le> length xs" for k
    using that
  proof (induction k)
    case (Suc k)
    then show ?case
      using assms by (auto simp: greedy_def take_Suc_conv_app_nth)
  qed simp
  from this [of "length xs"] assms(3) show ?thesis by simp
qed

lemma topological_Inr_iff:
  "wf_graph g \<Longrightarrow> topological g = Some (Inr order) \<longleftrightarrow> greedy g order \<and> length order = nodes_of g"
proof
  assume "wf_graph g" "topological g = Some (Inr order)"
  then show "greedy g order \<and> length order = nodes_of g"
    using topological_cases [of g] by (auto simp: topo_order_def dest: distinct_card)
next
  assume wf: "wf_graph g" and o: "greedy g order \<and> length order = nodes_of g"
  then have "\<not> is_cycle g c" for c using greedy_topo topo_order_no_cycle by blast
  with topological_cases [OF wf] obtain o' where
    o': "topological g = Some (Inr o')" "greedy g o'" "topo_order g o'"
    by blast
  then have "length o' = nodes_of g" by (auto simp: topo_order_def dest: distinct_card)
  with o o'(1,2) greedy_unique [of g o' order] show "topological g = Some (Inr order)" by simp
qed

lemma topological_Inl: "wf_graph g \<Longrightarrow> topological g = Some (Inl c) \<Longrightarrow> is_cycle g c"
  using topological_cases [of g] by auto

lemma topological_Inr: "wf_graph g \<Longrightarrow> topological g = Some (Inr order) \<Longrightarrow> topo_order g order"
  using topological_cases [of g] by auto

lemma greedy_upt:
  assumes "\<forall>i < nodes_of g. deps g i \<subseteq> {..<i}"
  shows "greedy g [0..<nodes_of g]"
proof -
  have "ready_set g {0..<k} \<noteq> {} \<and> Min (ready_set g {0..<k}) = k" if "k < nodes_of g" for k
  proof -
    have "k \<in> ready_set g {0..<k}" "\<forall>i \<in> ready_set g {0..<k}. k \<le> i"
      using that assms by (auto simp: ready_set_def atLeast0LessThan)
    then show ?thesis by (auto intro: Min_eqI)
  qed
  then show ?thesis by (simp add: greedy_def)
qed

end
