(* ===== verification/Pattern.thy ===== *)
theory Pattern
  imports Prelude
begin

text \<open>
  The pattern scanners of \<open>rad/domain/validation.rs\<close>: which patterns a publish refuses because the
  browser and the server read them differently (\<open>divergent_construct\<close>) or because the browser may
  backtrack on them (\<open>backtracking_shape\<close>).  A pattern is scanned as code points.  The code walks
  an index into \<open>characters\<close>; the model carries the characters from that index on, so
  \<open>index += k\<close> is \<open>drop k\<close>.  The recursive descent takes fuel, and \<open>alternation_answers\<close> of \<open>PatternFacts\<close> shows the
  fuel \<open>backtracking_shape\<close> gives it is enough.
\<close>

type_synonym cp = nat

abbreviation ch :: "char \<Rightarrow> cp" where
  "ch c \<equiv> of_char c"

text \<open>\<open>str::chars\<close>: the code points of a UTF-8 string.\<close>

function chars :: "string \<Rightarrow> cp list" where
  "chars s =
     (case map of_char s :: nat list of
        [] \<Rightarrow> []
      | a # t \<Rightarrow>
          if a < 192 then a # chars (drop 1 s)
          else if a < 224 then ((a - 192) * 64 + (t ! 0 - 128)) # chars (drop 2 s)
          else if a < 240 then
            ((a - 224) * 4096 + (t ! 0 - 128) * 64 + (t ! 1 - 128)) # chars (drop 3 s)
          else
            ((a - 240) * 262144 + (t ! 0 - 128) * 4096 + (t ! 1 - 128) * 64 + (t ! 2 - 128))
              # chars (drop 4 s))"
  by pat_completeness auto
termination
  by (relation "measure length") (auto split: list.splits)

declare chars.simps [simp del]

definition is_ascii_alphabetic :: "cp \<Rightarrow> bool" where
  "is_ascii_alphabetic c \<longleftrightarrow>
     ch CHR ''a'' \<le> c \<and> c \<le> ch CHR ''z'' \<or> ch CHR ''A'' \<le> c \<and> c \<le> ch CHR ''Z''"

definition is_cp_digit :: "cp \<Rightarrow> bool" where
  "is_cp_digit c \<longleftrightarrow> ch CHR ''0'' \<le> c \<and> c \<le> ch CHR ''9''"

abbreviation backslash :: cp where
  "backslash \<equiv> 92"

abbreviation starts_with :: "cp list \<Rightarrow> char \<Rightarrow> bool" where
  "starts_with cs c \<equiv> (case cs of [] \<Rightarrow> False | x # _ \<Rightarrow> x = of_char c)"

section \<open>Divergent constructs\<close>

datatype DivergentConstruct =
    Class cp
  | WordBoundary cp
  | PosixClass "cp list"
  | UnicodeProperty cp

fun posix_class_name :: "cp list \<Rightarrow> cp list \<Rightarrow> cp list option" where
  "posix_class_name name (a # b # cs) =
     (if a = ch CHR '':'' \<and> b = ch CHR '']'' then (if name \<noteq> [] then Some name else None)
      else if is_ascii_alphabetic a \<or> (name = [] \<and> a = ch CHR ''^'')
           then posix_class_name (name @ [a]) (b # cs)
      else None)"
| "posix_class_name name _ = None"

definition skip_one :: "char \<Rightarrow> cp list \<Rightarrow> cp list" where
  "skip_one c cs = (if starts_with cs c then drop 1 cs else cs)"

lemma length_skip_one: "length (skip_one c cs) \<le> length cs"
  by (simp add: skip_one_def)

function (sequential) divergent_scan :: "bool \<Rightarrow> cp list \<Rightarrow> DivergentConstruct option" where
  "divergent_scan in_class [] = None"
| "divergent_scan in_class (character # rest) =
     (if character = backslash then
        (case rest of
           [] \<Rightarrow> None
         | escaped # rest \<Rightarrow>
             if escaped \<in> set (map of_char ''dDwWsS'') then Some (Class escaped)
             else if escaped \<in> set (map of_char ''pP'') then Some (UnicodeProperty escaped)
             else if escaped \<in> set (map of_char ''bB'') \<and> \<not> in_class
                  then Some (WordBoundary escaped)
             else divergent_scan in_class rest)
      else if \<not> in_class \<and> character = ch CHR ''['' then
        divergent_scan True (skip_one (CHR '']'') (skip_one (CHR ''^'') rest))
      else
        (case (if in_class \<and> character = ch CHR ''['' \<and> starts_with rest (CHR '':'')
               then posix_class_name [] (drop 1 rest) else None) of
           Some name \<Rightarrow> Some (PosixClass name)
         | None \<Rightarrow>
             divergent_scan (in_class \<and> character \<noteq> ch CHR '']'') rest))"
  by pat_completeness auto
termination
proof (relation "measure (\<lambda>(_, cs). length cs)", goal_cases)
  case (3 in_class character rest)
  then show ?case
    using length_skip_one [of "CHR '']''" "skip_one (CHR ''^'') rest"] length_skip_one [of "CHR ''^''" rest]
    by simp
qed auto

definition divergent_construct :: "string \<Rightarrow> DivergentConstruct option" where
  "divergent_construct pattern = divergent_scan False (chars pattern)"

section \<open>Backtracking shapes\<close>

datatype BacktrackingShape = RepeatedQuantifier | RepeatedAlternation

datatype Item = Item (item_group: "Item list list option") (unbounded: "bool option")

lemma size_item_body [termination_simp]:
  assumes "it \<in> set alt" "alt \<in> set alts" "item_group it = Some body"
  shows "size_list (size_list size) body < size_list (size_list size) alts"
proof -
  have "size_list (size_list size) body < size it"
    using assms(3) by (cases it) auto
  also have "size it \<le> size_list size alt"
    using assms(1) by (simp add: size_list_estimation')
  also have "\<dots> \<le> size_list (size_list size) alts"
    using assms(2) by (simp add: size_list_estimation')
  finally show ?thesis .
qed

function repeated_body :: "Item list list \<Rightarrow> BacktrackingShape option" where
  "repeated_body body =
     (if length body > 1 then Some RepeatedAlternation
      else
        (case body of
           [[only]] \<Rightarrow>
             (case (unbounded only, item_group only) of
                (Some True, _) \<Rightarrow> Some RepeatedQuantifier
              | (None, Some inner) \<Rightarrow> repeated_body inner
              | _ \<Rightarrow> None)
         | _ \<Rightarrow> None))"
  by pat_completeness auto
termination
proof (relation "measure (size_list (size_list size))", goal_cases)
  case (2 body a xs only ys x y inner)
  then have "only \<in> set (hd body)" "hd body \<in> set body" "item_group only = Some inner" by auto
  then show ?case by (auto intro: size_item_body)
qed simp

function first_shape :: "Item list list \<Rightarrow> BacktrackingShape option" where
  "first_shape alternatives =
     first_some (map (\<lambda>item.
       (case item_group item of
          None \<Rightarrow> None
        | Some body \<Rightarrow>
            (case (if unbounded item = Some True then repeated_body body else None) of
               Some own \<Rightarrow> Some own
             | None \<Rightarrow> first_shape body))) (concat alternatives))"
  by pat_completeness auto
termination
  by (relation "measure (size_list (size_list size))") (auto intro: size_item_body)

declare repeated_body.simps [simp del] first_shape.simps [simp del]

definition escape_end :: "cp list \<Rightarrow> cp list" where
  "escape_end cs =
     (let cs2 = drop 2 cs in
      case (if length cs > 1 then
              (if cs ! 1 = ch CHR ''x'' then Some 2
               else if cs ! 1 = ch CHR ''u'' then Some 4
               else if cs ! 1 = ch CHR ''U'' then Some 8
               else if cs ! 1 = ch CHR ''p'' \<or> cs ! 1 = ch CHR ''P'' then Some 1
               else None)
            else None) of
        None \<Rightarrow> cs2
      | Some digits \<Rightarrow>
          if starts_with cs2 (CHR ''{'')
          then drop 1 (dropWhile (\<lambda>c. c \<noteq> ch CHR ''}'') cs2)
          else drop digits cs2)"

lemma length_drop_dropWhile: "length (drop k (dropWhile P xs)) \<le> length xs"
  using length_dropWhile_le [of P xs] by simp

lemma length_escape_end: "length (escape_end (c # cs)) \<le> length cs"
proof -
  have "length (escape_end (c # cs)) \<le> length (drop 2 (c # cs))"
    using length_drop_dropWhile [of 1 "\<lambda>c. c \<noteq> ch CHR ''}''" "drop 2 (c # cs)"]
    by (simp add: escape_end_def Let_def del: length_drop drop_Suc_Cons split: option.split)
      (auto simp: diff_le_mono2)
  then show ?thesis by simp
qed

function class_members :: "cp list \<Rightarrow> cp list" where
  "class_members cs =
     (case cs of
        [] \<Rightarrow> []
      | character # rest \<Rightarrow>
          if character = backslash then class_members (escape_end cs)
          else if character = ch CHR '']'' then rest
          else class_members rest)"
  by pat_completeness auto
termination
  by (relation "measure length") (auto simp: le_imp_less_Suc [OF length_escape_end])

declare class_members.simps [simp del]

text \<open>From just past the \<open>[\<close> to just past the bracket expression.\<close>

definition class_end :: "cp list \<Rightarrow> cp list" where
  "class_end cs = class_members (skip_one (CHR ''^'') cs)"

definition repeat_at :: "cp list \<Rightarrow> (cp list \<times> bool) option" where
  "repeat_at cs =
     (case cs of
        [] \<Rightarrow> None
      | c # rest \<Rightarrow>
          if c = ch CHR ''*'' \<or> c = ch CHR ''+'' then Some (rest, True)
          else if c = ch CHR ''?'' then Some (rest, False)
          else if c = ch CHR ''{'' then
            (let lower = dropWhile is_cp_digit rest in
             if lower = rest then None
             else
               (case lower of
                  [] \<Rightarrow> None
                | d # after_comma \<Rightarrow>
                    if d = ch CHR ''}'' then Some (after_comma, False)
                    else if d = ch CHR '','' then
                      (let upper = dropWhile is_cp_digit after_comma in
                       if starts_with upper (CHR ''}'')
                       then Some (drop 1 upper, upper = after_comma) else None)
                    else None))
          else None)"

lemma length_repeat_at: "repeat_at cs = Some (rest, open) \<Longrightarrow> length rest < length cs"
proof -
  have "length (dropWhile P xs) \<le> length xs" for P and xs :: "cp list"
    by (rule length_dropWhile_le)
  note le = this
  assume "repeat_at cs = Some (rest, open)"
  then show ?thesis
    using le [of is_cp_digit "tl cs"] le [of is_cp_digit "tl (dropWhile is_cp_digit (tl cs))"]
    by (auto simp: repeat_at_def Let_def split: list.splits if_splits)
qed

function repeats :: "bool option \<Rightarrow> cp list \<Rightarrow> bool option \<times> cp list" where
  "repeats unbounded0 cs =
     (case repeat_at cs of
        Some (rest, open) \<Rightarrow> repeats (Some open) (skip_one (CHR ''?'') rest)
      | None \<Rightarrow> (unbounded0, cs))"
  by pat_completeness auto
termination
  by (relation "measure (\<lambda>(_, cs). length cs)")
    (auto dest!: length_repeat_at intro: le_less_trans [OF length_skip_one])

declare repeats.simps [simp del]

fun push_last :: "'a \<Rightarrow> 'a list list \<Rightarrow> 'a list list" where
  "push_last x [] = []"
| "push_last x [xs] = [xs @ [x]]"
| "push_last x (xs # ys # zs) = xs # push_last x (ys # zs)"

text \<open>What a group opens with: \<open>None\<close> for a flag directive, else where its body begins.\<close>

definition group_open :: "cp list \<Rightarrow> cp list \<times> bool" where
  "group_open cs =
     (if starts_with cs (CHR ''?'') then
        (let cs = drop 1 cs in
         if starts_with cs (CHR ''P'') \<or> starts_with cs (CHR ''<'')
         then (drop 1 (dropWhile (\<lambda>c. c \<noteq> ch CHR ''>'') cs), True)
         else
           (let cs = dropWhile (\<lambda>c. is_ascii_alphabetic c \<or> c = ch CHR ''-'') cs in
            (drop 1 cs, starts_with cs (CHR '':''))))
      else (cs, True))"

fun alternation :: "nat \<Rightarrow> Item list list \<Rightarrow> cp list \<Rightarrow> (Item list list \<times> cp list) option"
  and item :: "nat \<Rightarrow> cp list \<Rightarrow> (Item \<times> cp list) option"
  and group :: "nat \<Rightarrow> cp list \<Rightarrow> (Item list list option \<times> cp list) option"
where
  "alternation 0 alternatives cs = None"
| "alternation (Suc n) alternatives cs =
     (case cs of
        [] \<Rightarrow> Some (alternatives, [])
      | character # rest \<Rightarrow>
          if character = ch CHR '')'' then Some (alternatives, cs)
          else if character = ch CHR ''|'' then alternation n (alternatives @ [[]]) rest
          else
            (case item n cs of
               None \<Rightarrow> None
             | Some (it, rest) \<Rightarrow> alternation n (push_last it alternatives) rest))"
| "item 0 cs = None"
| "item (Suc n) cs =
     (case cs of
        [] \<Rightarrow> None
      | character # rest \<Rightarrow>
          (case (if character = ch CHR ''('' then group n rest
                 else if character = ch CHR ''['' then Some (None, class_end rest)
                 else if character = backslash then Some (None, escape_end cs)
                 else Some (None, rest)) of
             None \<Rightarrow> None
           | Some (g, rest) \<Rightarrow>
               (case repeats None rest of (u, rest) \<Rightarrow> Some (Item g u, rest))))"
| "group 0 cs = None"
| "group (Suc n) cs =
     (case group_open cs of
        (rest, False) \<Rightarrow> Some (None, rest)
      | (rest, True) \<Rightarrow>
          (case alternation n [[]] rest of
             None \<Rightarrow> None
           | Some (body, rest) \<Rightarrow> Some (Some body, drop 1 rest)))"

definition pattern_fuel :: "cp list \<Rightarrow> nat" where
  "pattern_fuel cs = 3 * length cs + 1"

definition backtracking_shape :: "string \<Rightarrow> BacktrackingShape option" where
  "backtracking_shape pattern =
     (let characters = chars pattern in
      case alternation (pattern_fuel characters) [[]] characters of
        None \<Rightarrow> None
      | Some (alternatives, _) \<Rightarrow> first_shape alternatives)"

section \<open>The refusal\<close>

datatype PatternRefusal =
    Uncompilable string
  | Divergent DivergentConstruct
  | Backtracking BacktrackingShape

text \<open>The \<open>regex\<close> crate is the parameter \<open>compile_error pattern flags\<close>: \<open>None\<close> for a pattern it
  builds, else the reason \<open>compile_reason\<close> takes from its report.\<close>

definition refuse_pattern ::
  "(string \<Rightarrow> string \<Rightarrow> string option) \<Rightarrow> string \<Rightarrow> string \<Rightarrow> PatternRefusal option" where
  "refuse_pattern compile_error pattern flags =
     (case compile_error pattern flags of
        Some reason \<Rightarrow> Some (Uncompilable reason)
      | None \<Rightarrow>
          (case divergent_construct pattern of
             Some d \<Rightarrow> Some (Divergent d)
           | None \<Rightarrow> map_option Backtracking (backtracking_shape pattern)))"

end
