(* ===== verification/Registry.thy ===== *)
theory Registry
  imports Json
begin

text \<open>
  The Validation Rule Registry of \<open>rad/domain/validation.rs\<close>: the catalogue of rule names with
  their scope, and how the five shared rules decide a value.  The \<open>regex\<close> crate is the parameter
  \<open>is_match pattern flags value\<close> (\<open>None\<close> for a pattern it does not build), and the rendering of a
  number as text is the parameter \<open>number_text\<close>.
\<close>

datatype RegistryScope = Client | Server | Both

text \<open>The five closures of the table, by the rule that owns them.\<close>

datatype RuleDecider =
    DecideMatchesField
  | DecideNotMatchesField
  | DecideRegex
  | DecideOneOf
  | DecideNotOneOf

record RegistryRule =
  rr_scope :: RegistryScope
  rr_decide :: "RuleDecider option"
  rr_unenforceable :: bool

record RuleContext =
  rc_value :: json
  rc_scope :: "(string \<times> json) list"
  rc_params :: "(string \<times> json) list"

definition decided :: "RuleDecider \<Rightarrow> RegistryRule" where
  "decided d = \<lparr>rr_scope = Both, rr_decide = Some d, rr_unenforceable = False\<rparr>"

definition undecided :: "RegistryScope \<Rightarrow> RegistryRule" where
  "undecided s = \<lparr>rr_scope = s, rr_decide = None, rr_unenforceable = True\<rparr>"

definition registry_rule :: "string \<Rightarrow> RegistryRule option" where
  "registry_rule name =
     (if name = ''matchesField'' then Some (decided DecideMatchesField)
      else if name = ''notMatchesField'' then Some (decided DecideNotMatchesField)
      else if name = ''regex'' then Some (decided DecideRegex)
      else if name = ''oneOf'' then Some (decided DecideOneOf)
      else if name = ''notOneOf'' then Some (decided DecideNotOneOf)
      else if name = ''passwordStrength'' \<or> name = ''async'' then Some (undecided Client)
      else if name = ''unique'' then Some (undecided Server)
      else if name = ''exists'' then Some (undecided Server)
      else if name = ''authorized'' then Some (undecided Server)
      else None)"

definition is_registered :: "string \<Rightarrow> bool" where
  "is_registered name \<longleftrightarrow> registry_rule name \<noteq> None"

fun is_empty :: "json \<Rightarrow> bool" where
  "is_empty Null = True"
| "is_empty (String text) = (text = [])"
| "is_empty (Array items) = (items = [])"
| "is_empty _ = False"

fun js_string :: "(json_number \<Rightarrow> string) \<Rightarrow> json \<Rightarrow> string" where
  "js_string number_text (String text) = text"
| "js_string number_text Null = ''null''"
| "js_string number_text (Bool b) = (if b then ''true'' else ''false'')"
| "js_string number_text (Number n) = number_text n"
| "js_string number_text (Array items) =
     join '','' (map (\<lambda>item. if item = Null then [] else js_string number_text item) items)"
| "js_string number_text (Object _) = ''[object Object]''"

text \<open>A parameter read as text, \<open>""\<close> when it is absent.\<close>

definition param_text :: "(json_number \<Rightarrow> string) \<Rightarrow> RuleContext \<Rightarrow> string \<Rightarrow> string" where
  "param_text number_text context0 key =
     (case map_of (rc_params context0) key of None \<Rightarrow> [] | Some v \<Rightarrow> js_string number_text v)"

definition scope_target :: "(json_number \<Rightarrow> string) \<Rightarrow> RuleContext \<Rightarrow> json" where
  "scope_target number_text context0 =
     (case map_of (rc_scope context0) (param_text number_text context0 ''target'') of
        None \<Rightarrow> Null | Some v \<Rightarrow> v)"

definition param_values :: "RuleContext \<Rightarrow> json list" where
  "param_values context0 = get_arr (Object (rc_params context0)) ''values''"

definition matches_pattern ::
  "(string \<Rightarrow> string \<Rightarrow> string \<Rightarrow> bool option) \<Rightarrow> string \<Rightarrow> string \<Rightarrow> string \<Rightarrow> bool" where
  "matches_pattern is_match pattern flags value =
     (case is_match pattern flags value of None \<Rightarrow> False | Some b \<Rightarrow> b)"

fun decide ::
  "(json_number \<Rightarrow> string) \<Rightarrow> (string \<Rightarrow> string \<Rightarrow> string \<Rightarrow> bool option) \<Rightarrow> RuleDecider \<Rightarrow> RuleContext \<Rightarrow> bool"
where
  "decide nt im DecideMatchesField c = (rc_value c = scope_target nt c)"
| "decide nt im DecideNotMatchesField c = (rc_value c \<noteq> scope_target nt c)"
| "decide nt im DecideRegex c =
     (is_empty (rc_value c) \<or>
      matches_pattern im (param_text nt c ''pattern'') (param_text nt c ''flags'')
        (js_string nt (rc_value c)))"
| "decide nt im DecideOneOf c = (rc_value c \<in> set (param_values c))"
| "decide nt im DecideNotOneOf c = (rc_value c \<notin> set (param_values c))"

end
