(* ===== verification/RuleEngine.thy ===== *)
theory RuleEngine
  imports Topo Pattern Registry
begin

text \<open>
  The rule engine of \<open>rad/domain/engine.rs\<close>: the catalogue of one scope (\<open>ScopeCatalogue\<close>, layout
  containers walked through), the dependency graph its \<open>calculate\<close> and \<open>conditional.logic\<close>
  expressions declare, the evaluation order or the cycle that makes one impossible, and the checks
  a definition passes before it is stored.  A \<open>details\<close> vector is the list of what is pushed.
\<close>

section \<open>The catalogue of a scope\<close>

record Entry =
  e_component :: json
  e_key :: string
  e_path :: string
  calculate_reads :: "References option"
  conditional_reads :: "References option"

definition conditional_logic :: "json \<Rightarrow> json option" where
  "conditional_logic component =
     Option.bind (get component ''conditional'') (\<lambda>conditional. get conditional ''logic'')"

function flatten_one :: "json \<Rightarrow> string \<Rightarrow> Entry list" where
  "flatten_one component here =
     (if role_of component = Some ''layout'' then
        concat (map (\<lambda>(child, child_path). flatten_one child child_path)
                  (container_children_at component here))
      else
        (case data_key component of
           None \<Rightarrow> []
         | Some key \<Rightarrow>
             [\<lparr>e_component = component, e_key = key, e_path = here,
               calculate_reads = map_option references (get component ''calculate''),
               conditional_reads = map_option references (conditional_logic component)\<rparr>]))"
  by pat_completeness auto
termination
  by (relation "measure (\<lambda>(c, p). size c)") (auto dest: size_container_child)

declare flatten_one.simps [simp del]

definition scope_path :: "string \<Rightarrow> nat \<Rightarrow> string" where
  "scope_path path index = (if path = [] then show_nat index else path @ ''.'' @ show_nat index)"

definition flatten :: "json list \<Rightarrow> string \<Rightarrow> Entry list" where
  "flatten components path =
     indexed (\<lambda>index component. flatten_one component (scope_path path index)) components"

lemma mem_flatten:
  "e \<in> set (flatten components path) \<longleftrightarrow>
   (\<exists>i < length components. e \<in> set (flatten_one (components ! i) (scope_path path i)))"
  by (simp add: flatten_def set_indexed)

definition index_of :: "Entry list \<Rightarrow> string \<Rightarrow> nat option" where
  "index_of entries key = map_of (zip (map e_key entries) [0..<length entries]) key"

definition add_edge :: "nat \<Rightarrow> bool \<Rightarrow> nat \<Rightarrow> dep_graph \<Rightarrow> dep_graph" where
  "add_edge dependent0 self_edge dependency g =
     (if self_edge \<or> dependency \<noteq> dependent0 then depends dependent0 dependency g else g)"

definition add_edges ::
  "(string \<Rightarrow> nat option) \<Rightarrow> nat \<Rightarrow> References \<Rightarrow> nat \<Rightarrow> bool \<Rightarrow> dep_graph \<Rightarrow> dep_graph" where
  "add_edges index nodes reads dependent0 self_edge g =
     (if whole_scope reads
      then fold (add_edge dependent0 self_edge) [0..<nodes] g
      else fold (\<lambda>key g. case index key of None \<Rightarrow> g
                         | Some dependency \<Rightarrow> add_edge dependent0 self_edge dependency g)
             (r_keys reads) g)"

definition entry_edges :: "Entry list \<Rightarrow> nat \<times> Entry \<Rightarrow> dep_graph \<Rightarrow> dep_graph" where
  "entry_edges entries = (\<lambda>(at, entry) g.
     let edges = (\<lambda>reads self_edge g.
           case reads of None \<Rightarrow> g
           | Some r \<Rightarrow> add_edges (index_of entries) (length entries) r at self_edge g)
     in edges (conditional_reads entry) False (edges (calculate_reads entry) True g))"

definition catalogue_graph :: "Entry list \<Rightarrow> dep_graph" where
  "catalogue_graph entries =
     fold (entry_edges entries) (enumerate 0 entries) (graph_of (length entries))"

datatype Cycle = Cycle (cycle_keys: "string list")

text \<open>The arrow of the rendering is U+2192, three UTF-8 bytes.\<close>

definition arrow :: string where
  "arrow = [char_of (226 :: nat), char_of (134 :: nat), char_of (146 :: nat)]"

definition describe :: "Cycle \<Rightarrow> string" where
  "describe c =
     (let keys = cycle_keys c;
          chain = (case keys of [] \<Rightarrow> [] | first # _ \<Rightarrow> keys @ [first])
      in ''`'' @ join (''` '' @ arrow @ '' `'') chain @ ''`'')"

definition catalogue_order :: "Entry list \<Rightarrow> (Cycle + json list) option" where
  "catalogue_order entries =
     (case topological (catalogue_graph entries) of
        None \<Rightarrow> None
      | Some (Inr order) \<Rightarrow> Some (Inr (map (\<lambda>at. e_component (entries ! at)) order))
      | Some (Inl loop) \<Rightarrow> Some (Inl (Cycle (map (\<lambda>at. e_key (entries ! at)) loop))))"

definition evaluation_order :: "json list \<Rightarrow> (Cycle + json list) option" where
  "evaluation_order components = catalogue_order (flatten components [])"

section \<open>The checks of one component\<close>

definition component_rules :: "Entry \<Rightarrow> json list" where
  "component_rules entry = get_arr (e_component entry) ''rules''"

definition rule_name :: "json \<Rightarrow> string" where
  "rule_name rule = (case get_str rule ''rule'' of None \<Rightarrow> [] | Some n \<Rightarrow> n)"

definition check_rule_names :: "Entry \<Rightarrow> validation_detail list" where
  "check_rule_names entry =
     indexed (\<lambda>index rule.
       if is_registered (rule_name rule) then []
       else [detail (e_path entry @ ''.rules.'' @ show_nat index) ''rule'' ''RULE_NOT_REGISTERED''
               [rule_name rule, e_key entry]])
       (component_rules entry)"

datatype ParamKind = FieldKey | Text | List

fun holds :: "ParamKind \<Rightarrow> json \<Rightarrow> bool" where
  "holds FieldKey value = is_string value"
| "holds Text value = is_string value"
| "holds List value = is_array value"

fun wanted :: "ParamKind \<Rightarrow> string" where
  "wanted FieldKey = ''a string naming a field''"
| "wanted Text = ''a string''"
| "wanted List = ''a list''"

datatype EmptyVerdict = AcceptsEvery | RefusesEvery

fun says :: "EmptyVerdict \<Rightarrow> string" where
  "says AcceptsEvery = ''accepts every value''"
| "says RefusesEvery = ''refuses every value''"

fun reversed :: "EmptyVerdict \<Rightarrow> EmptyVerdict" where
  "reversed AcceptsEvery = RefusesEvery"
| "reversed RefusesEvery = AcceptsEvery"

record RequiredParam =
  rp_rule :: string
  rp_param :: string
  rp_kind :: ParamKind
  rp_empty :: EmptyVerdict

definition REQUIRED_PARAMS :: "RequiredParam list" where
  "REQUIRED_PARAMS =
     [\<lparr>rp_rule = ''matchesField'', rp_param = ''target'', rp_kind = FieldKey, rp_empty = RefusesEvery\<rparr>,
      \<lparr>rp_rule = ''notMatchesField'', rp_param = ''target'', rp_kind = FieldKey, rp_empty = AcceptsEvery\<rparr>,
      \<lparr>rp_rule = ''regex'', rp_param = ''pattern'', rp_kind = Text, rp_empty = AcceptsEvery\<rparr>,
      \<lparr>rp_rule = ''oneOf'', rp_param = ''values'', rp_kind = List, rp_empty = RefusesEvery\<rparr>,
      \<lparr>rp_rule = ''notOneOf'', rp_param = ''values'', rp_kind = List, rp_empty = AcceptsEvery\<rparr>]"

fun json_kind :: "json \<Rightarrow> string" where
  "json_kind Null = ''null''"
| "json_kind (Bool _) = ''a boolean''"
| "json_kind (Number _) = ''a number''"
| "json_kind (String _) = ''a string''"
| "json_kind (Array _) = ''a list''"
| "json_kind (Object _) = ''an object''"

definition check_param ::
  "string \<Rightarrow> string \<Rightarrow> string list \<Rightarrow> RequiredParam \<Rightarrow> string \<Rightarrow> json option \<Rightarrow> validation_detail list"
where
  "check_param path key scope_keys required name value =
     (let param = rp_param required;
          kind = rp_kind required;
          empty = says (rp_empty required);
          report = (\<lambda>code args. [detail path name code args])
      in case value of
           None \<Rightarrow> report ''RULE_PARAM_MISSING'' [key, name, param, empty, param, wanted kind]
         | Some v \<Rightarrow>
             if \<not> holds kind v then
               report ''RULE_PARAM_INVALID'' [key, name, param, json_kind v, wanted kind]
             else if v = String [] \<or> v = Array [] then
               report ''RULE_PARAM_MISSING'' [key, name, param, empty]
             else if kind = FieldKey \<and> v = String key then
               report ''RULE_PARAM_INVALID'' [key, name, key, says (reversed (rp_empty required))]
             else
               (case v of
                  String target \<Rightarrow>
                    if kind = FieldKey \<and> \<not> bs_contains scope_keys target
                    then report ''RULE_TARGET_NOT_FOUND'' [key, name, target, empty] else []
                | _ \<Rightarrow> []))"

definition check_regex_flags ::
  "Entry \<Rightarrow> nat \<Rightarrow> (string \<times> json) list \<Rightarrow> validation_detail list" where
  "check_regex_flags entry index params =
     (case map_of params ''flags'' of
        None \<Rightarrow> []
      | Some flags \<Rightarrow>
          if is_string flags then []
          else [detail (e_path entry @ ''.rules.'' @ show_nat index @ ''.params.flags'') ''regex''
                  ''RULE_PARAM_INVALID'' [e_key entry, json_kind flags]])"

definition check_rule_params :: "Entry \<Rightarrow> string list \<Rightarrow> validation_detail list" where
  "check_rule_params entry scope_keys =
     indexed (\<lambda>index rule.
       let name = rule_name rule in
       case (find (\<lambda>required. rp_rule required = name) REQUIRED_PARAMS,
             Option.bind (get rule ''params'') as_object) of
         (Some required, Some params) \<Rightarrow>
           check_param
             (e_path entry @ ''.rules.'' @ show_nat index @ ''.params.'' @ rp_param required)
             (e_key entry) scope_keys required name (map_of params (rp_param required)) @
           (if name = ''regex'' then check_regex_flags entry index params else [])
       | _ \<Rightarrow> [])
       (component_rules entry)"

fun divergence_code :: "DivergentConstruct \<Rightarrow> string" where
  "divergence_code (Class _) = ''PATTERN_CLASS_NOT_PINNED''"
| "divergence_code (WordBoundary _) = ''PATTERN_CONSTRUCT_NOT_PORTABLE''"
| "divergence_code (PosixClass _) = ''PATTERN_CLASS_NOT_PINNED''"
| "divergence_code (UnicodeProperty _) = ''PATTERN_CLASS_NOT_PINNED''"

definition refuse ::
  "(string \<Rightarrow> string \<Rightarrow> string option) \<Rightarrow> string \<Rightarrow> string \<Rightarrow> string \<Rightarrow> string \<Rightarrow> string
   \<Rightarrow> validation_detail list" where
  "refuse compile_error pattern flags path rule key =
     (case refuse_pattern compile_error pattern flags of
        None \<Rightarrow> []
      | Some (Uncompilable reason) \<Rightarrow>
          [detail path rule ''PATTERN_NOT_COMPILABLE'' [key, pattern, reason]]
      | Some (Divergent construct) \<Rightarrow>
          [detail path rule (divergence_code construct) [key, pattern]]
      | Some (Backtracking shape) \<Rightarrow>
          [detail path rule ''PATTERN_BACKTRACKING_SHAPE'' [key, pattern]])"

definition check_patterns ::
  "(string \<Rightarrow> string \<Rightarrow> string option) \<Rightarrow> Entry \<Rightarrow> validation_detail list" where
  "check_patterns compile_error entry =
     (case Option.bind (get (e_component entry) ''validation'') (\<lambda>v. get_str v ''pattern'') of
        None \<Rightarrow> []
      | Some pattern \<Rightarrow>
          if pattern = []
          then [detail (e_path entry @ ''.validation.pattern'') ''pattern'' ''RULE_PARAM_MISSING''
                  [e_key entry]]
          else refuse compile_error pattern [] (e_path entry @ ''.validation.pattern'') ''pattern''
                 (e_key entry)) @
     indexed (\<lambda>index rule.
       if get_str rule ''rule'' \<noteq> Some ''regex'' then []
       else
         (case Option.bind (get rule ''params'') (\<lambda>params. get_str params ''pattern'') of
            None \<Rightarrow> []
          | Some pattern \<Rightarrow>
              if pattern = [] then []
              else
                (case (case Option.bind (get rule ''params'') (\<lambda>params. get params ''flags'') of
                         None \<Rightarrow> Some []
                       | Some (String flags) \<Rightarrow> Some flags
                       | Some _ \<Rightarrow> None) of
                   None \<Rightarrow> []
                 | Some flags \<Rightarrow>
                     refuse compile_error pattern flags
                       (e_path entry @ ''.rules.'' @ show_nat index @ ''.params.pattern'')
                       ''regex'' (e_key entry))))
       (component_rules entry)"

definition check_operator_sets :: "Entry \<Rightarrow> validation_detail list" where
  "check_operator_sets entry =
     (case get (e_component entry) ''calculate'' of
        None \<Rightarrow> []
      | Some calculate \<Rightarrow>
          check_operators calculate CALCULATE_OPERATORS (e_path entry @ ''.calculate'')) @
     (case conditional_logic (e_component entry) of
        None \<Rightarrow> []
      | Some logic \<Rightarrow>
          check_operators logic CONDITIONAL_OPERATORS (e_path entry @ ''.conditional.logic''))"

section \<open>One scope, then its rows\<close>

lemma flatten_one_size: "e \<in> set (flatten_one c here) \<Longrightarrow> size (e_component e) \<le> size c"
proof (induction c here rule: flatten_one.induct)
  case (1 c here)
  show ?case
  proof (cases "role_of c = Some ''layout''")
    case True
    with "1.prems" obtain child p where ch: "(child, p) \<in> set (container_children_at c here)"
      "e \<in> set (flatten_one child p)"
      by (auto simp: flatten_one.simps [of c here])
    from "1.IH" [OF True ch(1) refl ch(2)] size_container_child [OF ch(1)] show ?thesis by simp
  next
    case False
    with "1.prems" show ?thesis
      by (auto simp: flatten_one.simps [of c here] split: option.splits)
  qed
qed

lemma flatten_size:
  assumes "e \<in> set (flatten components path)"
  shows "size (e_component e) \<le> size_list size components"
proof -
  from assms obtain c here where "c \<in> set components" "e \<in> set (flatten_one c here)"
    unfolding mem_flatten by (meson nth_mem)
  then show ?thesis
    using flatten_one_size [of e c here] size_list_estimation' [of c components "size c" size]
    by simp
qed

lemma size_row_template_list:
  "row_template component = Some rows \<Longrightarrow> size_list size rows < size component"
proof -
  assume "row_template component = Some rows"
  then have "get component ''components'' = Some (Array rows)"
    by (cases "get component ''components''") (auto simp: row_template_def split: if_splits)
  then show ?thesis using size_get [of component "''components''" "Array rows"] by simp
qed

function check_scope ::
  "(string \<Rightarrow> string \<Rightarrow> string option) \<Rightarrow> json list \<Rightarrow> string \<Rightarrow> validation_detail list" where
  "check_scope compile_error components path =
     (let entries = flatten components path;
          scope_keys = bs_collect (map e_key entries)
      in
      concat (map (\<lambda>entry.
        check_rule_names entry @ check_rule_params entry scope_keys @
        check_operator_sets entry @ check_patterns compile_error entry) entries) @
      (case catalogue_order entries of
         Some (Inl loop) \<Rightarrow>
           (let at = (case find (\<lambda>entry. case cycle_keys loop of [] \<Rightarrow> False
                                       | key # _ \<Rightarrow> key = e_key entry) entries of
                        None \<Rightarrow> path | Some entry \<Rightarrow> e_path entry)
            in [detail at ''cycle'' ''CALCULATION_CYCLE'' [describe loop]])
       | _ \<Rightarrow> []) @
      concat (map (\<lambda>entry.
        case row_template (e_component entry) of
          None \<Rightarrow> []
        | Some rows \<Rightarrow> check_scope compile_error rows (e_path entry @ ''.components'')) entries))"
  by pat_completeness auto
termination
  by (relation "measure (\<lambda>(_, cs, _). size_list size cs)")
    (auto dest!: flatten_size size_row_template_list)

declare check_scope.simps [simp del]

definition definition_errors ::
  "(string \<Rightarrow> string \<Rightarrow> string option) \<Rightarrow> json \<Rightarrow> validation_detail list" where
  "definition_errors compile_error definition0 =
     (case Option.bind (get definition0 ''components'') as_array of
        None \<Rightarrow> []
      | Some components \<Rightarrow> check_scope compile_error components ''definition.components'')"

definition validate_form ::
  "(json \<Rightarrow> (string \<times> string) list) \<Rightarrow> (string \<Rightarrow> string \<Rightarrow> string option) \<Rightarrow> json
   \<Rightarrow> validation_detail list" where
  "validate_form iter_errors compile_error definition0 =
     shape_errors iter_errors definition0 @
     definition_errors compile_error definition0 @ lookup_errors definition0"

section \<open>Computed paths\<close>

function check_computed_paths :: "json \<Rightarrow> string \<Rightarrow> validation_detail list" where
  "check_computed_paths component here =
     concat (map (\<lambda>(property, expression).
       case expression of
         None \<Rightarrow> []
       | Some e \<Rightarrow>
           if reads_computed_path e
           then [detail (here @ ''.'' @ property) ''expressionPath'' ''EXPRESSION_PATH_COMPUTED'' []]
           else [])
       [(''calculate'', get component ''calculate''),
        (''conditional.logic'', conditional_logic component)]) @
     concat (map (\<lambda>(child, child_path). check_computed_paths child child_path)
               (container_children_at component here)) @
     concat (map (\<lambda>(row, row_path). check_computed_paths row row_path)
               (with_paths (here @ ''.components.'') []
                 (case row_template component of None \<Rightarrow> [] | Some rows \<Rightarrow> rows)))"
  by pat_completeness auto
termination
  by (relation "measure (\<lambda>(c, p). size c)")
    (auto dest!: size_container_child mem_with_paths split: option.splits
      dest: size_row_template)

declare check_computed_paths.simps [simp del]

definition computed_path_errors :: "json \<Rightarrow> validation_detail list" where
  "computed_path_errors definition0 =
     (case Option.bind (get definition0 ''components'') as_array of
        None \<Rightarrow> []
      | Some components \<Rightarrow>
          concat (map (\<lambda>(component, here). check_computed_paths component here)
            (with_paths ''definition.components.'' [] components)))"

end
