(* ===== verification/EvalOrder.thy ===== *)
theory EvalOrder
  imports RuleEngine
begin

text \<open>
  What the catalogue of \<open>RuleEngine\<close> guarantees: the graph holds exactly the edges the expressions
  declare, the evaluation order places every field after what it reads, a refusal names a real
  loop, and a definition the publish gate accepts has an order in every scope.
\<close>

section \<open>The edges of a scope\<close>

definition reads_entry :: "Entry list \<Rightarrow> References \<Rightarrow> nat \<Rightarrow> bool" where
  "reads_entry entries r j \<longleftrightarrow>
     j < length entries \<and> (whole_scope r \<or> (\<exists>key \<in> set (r_keys r). index_of entries key = Some j))"

text \<open>Field \<open>i\<close> must run after field \<open>j\<close>: its \<open>calculate\<close> reads it, or its condition reads it and
  it is another field.\<close>

definition must_follow :: "Entry list \<Rightarrow> nat \<Rightarrow> nat \<Rightarrow> bool" where
  "must_follow entries i j \<longleftrightarrow>
     (\<exists>r. calculate_reads (entries ! i) = Some r \<and> reads_entry entries r j) \<or>
     (\<exists>r. conditional_reads (entries ! i) = Some r \<and> reads_entry entries r j \<and> i \<noteq> j)"

definition extends :: "nat \<Rightarrow> (nat \<times> nat) set \<Rightarrow> dep_graph \<Rightarrow> dep_graph \<Rightarrow> bool" where
  "extends n E g g' \<longleftrightarrow>
     (wf_graph g \<and> nodes_of g = n \<longrightarrow>
      wf_graph g' \<and> nodes_of g' = n \<and> (\<forall>k < n. deps g' k = deps g k \<union> {j. (k, j) \<in> E}))"

definition from_node :: "nat \<Rightarrow> (nat \<Rightarrow> bool) \<Rightarrow> (nat \<times> nat) set" where
  "from_node i P = {(k, j). k = i \<and> P j}"

lemma mem_from_node [simp]: "(k, j) \<in> from_node i P \<longleftrightarrow> k = i \<and> P j"
  by (simp add: from_node_def)

lemma from_node_Un: "from_node i P \<union> from_node i Q = from_node i (\<lambda>j. P j \<or> Q j)"
  by (auto simp: from_node_def)

lemma extends_refl: "extends n {} g g"
  by (simp add: extends_def)

lemma extends_trans: "extends n E g g' \<Longrightarrow> extends n F g' g'' \<Longrightarrow> extends n (E \<union> F) g g''"
  by (auto simp: extends_def)

lemma extends_fold:
  assumes "\<And>x g. x \<in> set xs \<Longrightarrow> extends n (E x) g (f x g)"
  shows "extends n (\<Union>x \<in> set xs. E x) g (fold f xs g)"
  using assms
proof (induction xs arbitrary: g)
  case (Cons x xs)
  have "extends n (E x \<union> (\<Union>x \<in> set xs. E x)) g (fold f xs (f x g))"
    using Cons by (intro extends_trans [of n _ g "f x g"]) auto
  then show ?case by simp
qed (simp add: extends_refl)

lemma extends_add_edge:
  assumes "i < n" "j < n"
  shows "extends n (if self \<or> j \<noteq> i then {(i, j)} else {}) g (add_edge i self j g)"
  using assms by (auto simp: extends_def add_edge_def deps_depends)

lemma index_of_bound: "index_of entries key = Some j \<Longrightarrow> j < length entries"
  by (auto simp: index_of_def dest!: map_of_SomeD set_zip_rightD)

lemma extends_add_edges:
  assumes "i < length entries"
  shows "extends (length entries) (from_node i (\<lambda>j. reads_entry entries r j \<and> (self \<or> j \<noteq> i))) g
           (add_edges (index_of entries) (length entries) r i self g)"
proof (cases "whole_scope r")
  case True
  let ?n = "length entries"
  let ?E = "\<lambda>j. if self \<or> j \<noteq> i then {(i, j)} else {}"
  have "extends ?n (\<Union>j \<in> set [0..<?n]. ?E j) g (fold (add_edge i self) [0..<?n] g)"
    using assms by (intro extends_fold extends_add_edge) auto
  moreover have "(\<Union>j \<in> set [0..<?n]. ?E j) =
      from_node i (\<lambda>j. reads_entry entries r j \<and> (self \<or> j \<noteq> i))"
    using True by (auto simp: reads_entry_def split: if_splits)
  ultimately show ?thesis using True by (simp add: add_edges_def)
next
  case False
  let ?n = "length entries"
  let ?f = "\<lambda>key g. case index_of entries key of None \<Rightarrow> g | Some j \<Rightarrow> add_edge i self j g"
  let ?E = "\<lambda>key. case index_of entries key of None \<Rightarrow> {}
                  | Some j \<Rightarrow> if self \<or> j \<noteq> i then {(i, j)} else {}"
  have "extends ?n (?E key) g (?f key g)" for key g
    using extends_add_edge [OF assms] index_of_bound
    by (auto simp: extends_refl split: option.split)
  then have "extends ?n (\<Union>key \<in> set (r_keys r). ?E key) g (fold ?f (r_keys r) g)"
    by (intro extends_fold) auto
  moreover have "(\<Union>key \<in> set (r_keys r). ?E key) =
      (from_node i (\<lambda>j. reads_entry entries r j \<and> (self \<or> j \<noteq> i)))"
    using False
    by (fastforce simp: reads_entry_def dest: index_of_bound split: option.splits if_splits)
  ultimately show ?thesis using False by (simp add: add_edges_def)
qed

definition opt_edges :: "Entry list \<Rightarrow> nat \<Rightarrow> References option \<Rightarrow> bool \<Rightarrow> dep_graph \<Rightarrow> dep_graph" where
  "opt_edges entries i reads self g =
     (case reads of None \<Rightarrow> g
      | Some r \<Rightarrow> add_edges (index_of entries) (length entries) r i self g)"

definition opt_reads :: "Entry list \<Rightarrow> nat \<Rightarrow> References option \<Rightarrow> bool \<Rightarrow> nat \<Rightarrow> bool" where
  "opt_reads entries i reads self j \<longleftrightarrow>
     (\<exists>r. reads = Some r \<and> reads_entry entries r j \<and> (self \<or> j \<noteq> i))"

lemma extends_opt_edges:
  assumes "i < length entries"
  shows "extends (length entries) (from_node i (opt_reads entries i reads self)) g
           (opt_edges entries i reads self g)"
proof (cases reads)
  case None
  then have "from_node i (opt_reads entries i reads self) = {}"
    by (auto simp: from_node_def opt_reads_def)
  with None show ?thesis by (simp add: opt_edges_def extends_refl)
next
  case (Some r)
  then have "opt_reads entries i reads self = (\<lambda>j. reads_entry entries r j \<and> (self \<or> j \<noteq> i))"
    by (auto simp: opt_reads_def fun_eq_iff)
  with Some extends_add_edges [OF assms] show ?thesis by (simp add: opt_edges_def)
qed

lemma entry_edges_opt:
  "entry_edges entries (i, entry) g =
   opt_edges entries i (conditional_reads entry) False
     (opt_edges entries i (calculate_reads entry) True g)"
  by (simp add: entry_edges_def opt_edges_def)

lemma must_follow_opt:
  "must_follow entries i =
   (\<lambda>j. opt_reads entries i (calculate_reads (entries ! i)) True j \<or>
        opt_reads entries i (conditional_reads (entries ! i)) False j)"
  by (auto simp: must_follow_def opt_reads_def fun_eq_iff)

lemma extends_entry_edges:
  assumes "i < length entries"
  shows "extends (length entries) (from_node i (must_follow entries i)) g
           (entry_edges entries (i, entries ! i) g)"
  unfolding entry_edges_opt must_follow_opt from_node_Un [symmetric]
  by (rule extends_trans [OF extends_opt_edges [OF assms] extends_opt_edges [OF assms]])

lemma catalogue_graph:
  shows wf_catalogue_graph: "wf_graph (catalogue_graph entries)"
    and nodes_catalogue_graph: "nodes_of (catalogue_graph entries) = length entries"
    and deps_catalogue_graph: "i < length entries \<Longrightarrow>
      deps (catalogue_graph entries) i = {j. j < length entries \<and> must_follow entries i j}"
proof -
  let ?n = "length entries"
  have "extends ?n (\<Union>x \<in> set (enumerate 0 entries). from_node (fst x) (must_follow entries (fst x)))
      (graph_of ?n) (catalogue_graph entries)"
    unfolding catalogue_graph_def
    by (rule extends_fold) (auto simp: in_set_enumerate_0 intro!: extends_entry_edges)
  moreover have "must_follow entries i j \<Longrightarrow> j < ?n" for i j
    by (auto simp: must_follow_def reads_entry_def)
  ultimately show "wf_graph (catalogue_graph entries)" "nodes_of (catalogue_graph entries) = ?n"
    "i < ?n \<Longrightarrow> deps (catalogue_graph entries) i = {j. j < ?n \<and> must_follow entries i j}"
    by (auto simp: extends_def enumerate_map_nth)
qed

lemma must_follow_bound: "must_follow entries i j \<Longrightarrow> j < length entries"
  by (auto simp: must_follow_def reads_entry_def)

section \<open>The order of a scope\<close>

definition order_ok :: "Entry list \<Rightarrow> nat list \<Rightarrow> bool" where
  "order_ok entries order \<longleftrightarrow>
     distinct order \<and> set order = {..<length entries} \<and>
     (\<forall>k < length order. \<forall>j. must_follow entries (order ! k) j \<longrightarrow> j \<in> set (take k order))"

definition loop_of :: "Entry list \<Rightarrow> nat list \<Rightarrow> bool" where
  "loop_of entries ks \<longleftrightarrow>
     ks \<noteq> [] \<and> distinct ks \<and> set ks \<subseteq> {..<length entries} \<and>
     (\<forall>k < length ks. must_follow entries (ks ! k) (ks ! (Suc k mod length ks)))"

lemma topo_order_catalogue: "topo_order (catalogue_graph entries) order \<longleftrightarrow> order_ok entries order"
proof -
  have "deps (catalogue_graph entries) (order ! k) \<subseteq> S \<longleftrightarrow>
      (\<forall>j. must_follow entries (order ! k) j \<longrightarrow> j \<in> S)"
    if "order ! k < length entries" for k S
    using that must_follow_bound by (auto simp: deps_catalogue_graph)
  then show ?thesis
    unfolding topo_order_def order_ok_def nodes_catalogue_graph
    by (metis lessThan_iff nth_mem)
qed

lemma is_cycle_catalogue: "is_cycle (catalogue_graph entries) ks \<longleftrightarrow> loop_of entries ks"
proof -
  have "(\<forall>k < length ks. ks ! k < length entries) \<longleftrightarrow> set ks \<subseteq> {..<length entries}"
    by (metis in_set_conv_nth lessThan_iff subset_code(1))
  then show ?thesis
    unfolding is_cycle_def loop_of_def nodes_catalogue_graph
    by (auto simp: deps_catalogue_graph dest: must_follow_bound)
qed

lemma catalogue_order_cases:
  obtains (ordered) order where
      "catalogue_order entries = Some (Inr (map (\<lambda>at. e_component (entries ! at)) order))"
      "order_ok entries order"
  | (loop) ks where
      "catalogue_order entries = Some (Inl (Cycle (map (\<lambda>at. e_key (entries ! at)) ks)))"
      "loop_of entries ks"
  using topological_cases [OF wf_catalogue_graph, of entries]
  by (auto simp: catalogue_order_def topo_order_catalogue is_cycle_catalogue)

lemma order_ok_no_loop: "order_ok entries order \<Longrightarrow> loop_of entries ks \<Longrightarrow> False"
  using topo_order_no_cycle topo_order_catalogue is_cycle_catalogue by metis

section \<open>The path of a scope does not change its order\<close>

definition pathless :: "Entry \<Rightarrow> Entry" where
  "pathless e = e\<lparr>e_path := []\<rparr>"

lemma pathless_sel [simp]:
  "e_component (pathless e) = e_component e" "e_key (pathless e) = e_key e"
  "calculate_reads (pathless e) = calculate_reads e"
  "conditional_reads (pathless e) = conditional_reads e"
  by (simp_all add: pathless_def)

lemma catalogue_order_pathless: "catalogue_order (map pathless entries) = catalogue_order entries"
proof -
  have idx: "index_of (map pathless entries) = index_of entries"
    by (rule ext) (simp add: index_of_def comp_def)
  have "entry_edges (map pathless entries) (i, pathless e) = entry_edges entries (i, e)" for i e
    by (rule ext) (simp only: entry_edges_opt opt_edges_def idx length_map pathless_sel)
  then have g: "catalogue_graph (map pathless entries) = catalogue_graph entries"
    by (auto simp: catalogue_graph_def enumerate_map_nth fold_map comp_def intro!: fold_cong)
  have "at < length entries" if "topological (catalogue_graph entries) = Some r"
    "at \<in> set (case r of Inl c \<Rightarrow> c | Inr order \<Rightarrow> order)" for r at
    using that topological_cases [OF wf_catalogue_graph, of entries]
    by (auto simp: topo_order_catalogue is_cycle_catalogue order_ok_def loop_of_def)
  then show ?thesis
    by (auto simp: catalogue_order_def g split: option.split sum.split)
qed

lemma flatten_one_pathless:
  "map pathless (flatten_one c here) = map pathless (flatten_one c here')"
proof (induction c here arbitrary: here' rule: flatten_one.induct)
  case (1 c here)
  show ?case
  proof (cases "role_of c = Some ''layout''")
    case True
    let ?k = "\<lambda>h. container_children_at c h"
    have len: "length (?k here) = length (?k here')"
      by (metis container_children_at_fst length_map)
    have "map pathless (flatten_one (fst (?k here ! i)) (snd (?k here ! i))) =
          map pathless (flatten_one (fst (?k here' ! i)) (snd (?k here' ! i)))"
      if "i < length (?k here)" for i
    proof -
      have "fst (?k here ! i) = fst (?k here' ! i)"
        by (metis container_children_at_fst len nth_map that)
      then show ?thesis
        using "1.IH" [OF True nth_mem [OF that] prod.collapse, of "snd (?k here' ! i)"] by simp
    qed
    then have "map (\<lambda>(a, b). map pathless (flatten_one a b)) (?k here) =
        map (\<lambda>(a, b). map pathless (flatten_one a b)) (?k here')"
      using len by (intro nth_equalityI) (auto simp: case_prod_unfold)
    then show ?thesis
      using True by (simp add: flatten_one.simps [of c] map_concat comp_def case_prod_unfold)
  next
    case False
    then show ?thesis
      by (simp add: flatten_one.simps [of c] pathless_def split: option.split)
  qed
qed

lemma flatten_pathless: "map pathless (flatten cs p) = map pathless (flatten cs q)"
  unfolding flatten_def indexed_def
  by (auto simp: map_concat case_prod_unfold intro!: arg_cong [where f = concat] flatten_one_pathless)

lemma catalogue_order_path: "catalogue_order (flatten cs p) = evaluation_order cs"
  unfolding evaluation_order_def
  by (metis catalogue_order_pathless flatten_pathless)

section \<open>The scopes of a definition\<close>

text \<open>The form's own components, and the row template of every repeater of a scope.\<close>

inductive scope_of :: "json list \<Rightarrow> json list \<Rightarrow> bool" for cs where
  own: "scope_of cs cs"
| rows: "scope_of cs ds \<Longrightarrow> e \<in> set (flatten ds []) \<Longrightarrow>
    row_template (e_component e) = Some rows \<Longrightarrow> scope_of cs rows"

lemma flatten_other_path:
  assumes "e \<in> set (flatten ds p)"
  shows "\<exists>e' \<in> set (flatten ds q). e_component e' = e_component e"
proof -
  from assms have "pathless e \<in> set (map pathless (flatten ds q))"
    using flatten_pathless [of ds p q] by (metis image_eqI list.set_map)
  then show ?thesis by (metis imageE list.set_map pathless_sel(1))
qed

lemma check_scope_rows:
  assumes "e \<in> set (flatten ds p)" "row_template (e_component e) = Some rows"
  shows "set (check_scope ce rows (e_path e @ ''.components'')) \<subseteq> set (check_scope ce ds p)"
  using assms by (subst (2) check_scope.simps) (fastforce simp: Let_def)

lemma check_scope_loop:
  assumes "evaluation_order ds = Some (Inl loop)"
  shows "\<exists>d \<in> set (check_scope ce ds p). vd_code d = ''CALCULATION_CYCLE'' \<and> vd_args d = [describe loop]"
  using assms unfolding catalogue_order_path [of ds p, symmetric]
  by (subst check_scope.simps) (auto simp: Let_def)

lemma scope_of_checked:
  assumes "scope_of cs ds"
  shows "\<exists>p. set (check_scope ce ds p) \<subseteq> set (check_scope ce cs q)"
  using assms
proof induction
  case own
  show ?case by blast
next
  case (rows ds e rows)
  then obtain p where p: "set (check_scope ce ds p) \<subseteq> set (check_scope ce cs q)" by blast
  obtain e' where "e' \<in> set (flatten ds p)" "e_component e' = e_component e"
    using flatten_other_path [OF rows.hyps(2)] by blast
  then have "set (check_scope ce rows (e_path e' @ ''.components'')) \<subseteq> set (check_scope ce ds p)"
    using check_scope_rows rows.hyps(3) by simp
  with p show ?case by blast
qed

lemma evaluation_order_total:
  "(\<exists>order. evaluation_order ds = Some (Inr order)) \<or> (\<exists>loop. evaluation_order ds = Some (Inl loop))"
  unfolding evaluation_order_def by (rule catalogue_order_cases [of "flatten ds []"]) auto

lemma gate_sound:
  assumes "\<forall>d \<in> set (definition_errors ce definition0). vd_code d \<noteq> ''CALCULATION_CYCLE''"
    and "get definition0 ''components'' = Some (Array cs)" and "scope_of cs ds"
  shows "\<exists>order. evaluation_order ds = Some (Inr order)"
proof (rule ccontr)
  assume "\<not> ?thesis"
  then obtain loop where "evaluation_order ds = Some (Inl loop)"
    using evaluation_order_total by blast
  moreover obtain p where "set (check_scope ce ds p) \<subseteq> set (definition_errors ce definition0)"
    using scope_of_checked [OF assms(3), of ce "''definition.components''"] assms(2)
    by (auto simp: definition_errors_def)
  ultimately show False using check_scope_loop [of ds loop ce p] assms(1) by blast
qed

section \<open>Computed paths\<close>

text \<open>Every component of a definition, of every role, down containers and row templates.\<close>

inductive component_under :: "json list \<Rightarrow> json \<Rightarrow> bool" for cs where
  top: "c \<in> set cs \<Longrightarrow> component_under cs c"
| child: "component_under cs c \<Longrightarrow> d \<in> set (container_children c) \<Longrightarrow> component_under cs d"
| row: "component_under cs c \<Longrightarrow> row_template c = Some rows \<Longrightarrow> d \<in> set rows \<Longrightarrow>
    component_under cs d"

definition computed_free :: "json \<Rightarrow> bool" where
  "computed_free c \<longleftrightarrow>
     (\<forall>e. get c ''calculate'' = Some e \<or> conditional_logic c = Some e \<longrightarrow> \<not> reads_computed_path e)"

lemma check_computed_paths_Nil:
  "check_computed_paths c here = [] \<longleftrightarrow>
   computed_free c \<and>
   (\<forall>(d, p) \<in> set (container_children_at c here). check_computed_paths d p = []) \<and>
   (\<forall>(d, p) \<in> set (with_paths (here @ ''.components.'') []
                     (case row_template c of None \<Rightarrow> [] | Some rows \<Rightarrow> rows)).
      check_computed_paths d p = [])"
  by (subst check_computed_paths.simps)
    (auto simp: computed_free_def split: option.splits)

lemma mem_map_fst: "x \<in> set (map fst ps) \<longleftrightarrow> (\<exists>p. (x, p) \<in> set ps)"
  by force

lemma mem_with_paths_iff: "(\<exists>p. (x, p) \<in> set (with_paths a b xs)) \<longleftrightarrow> x \<in> set xs"
  unfolding mem_map_fst [symmetric] fst_with_paths ..

lemma mem_container_children:
  "(\<exists>p. (x, p) \<in> set (container_children_at c h)) \<longleftrightarrow> x \<in> set (container_children c)"
  unfolding mem_map_fst [symmetric] container_children_at_fst ..

lemma computed_clean_below:
  assumes "check_computed_paths c here = []" "component_under [c] d"
  shows "\<exists>p. check_computed_paths d p = []"
  using assms(2)
proof induction
  case (top d)
  with assms(1) show ?case by auto
next
  case (child c' d)
  then obtain p q where "check_computed_paths c' p = []" "(d, q) \<in> set (container_children_at c' p)"
    using mem_container_children by metis
  then show ?case using check_computed_paths_Nil [of c' p] by auto
next
  case (row c' rows d)
  then obtain p where "check_computed_paths c' p = []" by blast
  moreover obtain q where "(d, q) \<in> set (with_paths (p @ ''.components.'') [] rows)"
    using row.hyps(3) mem_with_paths_iff by metis
  ultimately show ?case using check_computed_paths_Nil [of c' p] row.hyps(2) by auto
qed

lemma component_under_trans:
  "component_under [c] d \<Longrightarrow> component_under cs c \<Longrightarrow> component_under cs d"
  by (induction rule: component_under.induct) (auto intro: component_under.intros)

lemma computed_clean_above:
  "(\<And>d. component_under [c] d \<Longrightarrow> computed_free d) \<Longrightarrow> check_computed_paths c here = []"
proof (induction c here rule: check_computed_paths.induct)
  case (1 c here)
  have self: "component_under [c] c" by (rule component_under.top) simp
  have "check_computed_paths d p = []" if "(d, p) \<in> set (container_children_at c here)" for d p
  proof (rule "1.IH"(1) [OF that refl])
    fix x assume "component_under [d] x"
    moreover have "component_under [c] d"
      using self that mem_container_children by (metis component_under.child)
    ultimately show "computed_free x" using "1.prems" component_under_trans by blast
  qed
  moreover have "check_computed_paths d p = []"
    if dp: "(d, p) \<in> set (with_paths (here @ ''.components.'') []
              (case row_template c of None \<Rightarrow> [] | Some rows \<Rightarrow> rows))" for d p
  proof (rule "1.IH"(2) [OF dp refl])
    fix x assume "component_under [d] x"
    moreover have "component_under [c] d"
    proof (cases "row_template c")
      case (Some rows)
      with mem_with_paths [OF dp] show ?thesis using component_under.row [OF self Some] by simp
    qed (use mem_with_paths [OF dp] in simp)
    ultimately show "computed_free x" using "1.prems" component_under_trans by blast
  qed
  ultimately show ?case
    using "1.prems" [OF self] by (subst check_computed_paths_Nil) auto
qed

lemma component_under_split:
  "component_under cs d \<longleftrightarrow> (\<exists>c \<in> set cs. component_under [c] d)"
proof
  show "component_under cs d \<Longrightarrow> \<exists>c \<in> set cs. component_under [c] d"
  proof (induction rule: component_under.induct)
    case (top c)
    then show ?case using component_under.top [of c "[c]"] by auto
  qed (blast intro: component_under.intros)+
  show "\<exists>c \<in> set cs. component_under [c] d \<Longrightarrow> component_under cs d"
    using component_under_trans component_under.top by blast
qed

lemma computed_gate:
  assumes "get definition0 ''components'' = Some (Array cs)"
  shows "computed_path_errors definition0 = [] \<longleftrightarrow> (\<forall>c. component_under cs c \<longrightarrow> computed_free c)"
proof -
  have "computed_path_errors definition0 = [] \<longleftrightarrow>
      (\<forall>(c, p) \<in> set (with_paths ''definition.components.'' [] cs). check_computed_paths c p = [])"
    using assms by (auto simp: computed_path_errors_def)
  also have "\<dots> \<longleftrightarrow> (\<forall>c \<in> set cs. \<forall>d. component_under [c] d \<longrightarrow> computed_free d)"
  proof (intro iffI ballI allI impI)
    fix c d
    assume clean: "\<forall>(c, p) \<in> set (with_paths ''definition.components.'' [] cs). check_computed_paths c p = []"
      and c: "c \<in> set cs" "component_under [c] d"
    then obtain p where "check_computed_paths c p = []" using mem_with_paths_iff by blast
    from computed_clean_below [OF this c(2)] show "computed_free d"
      using check_computed_paths_Nil by blast
  qed (auto intro!: computed_clean_above dest!: mem_with_paths)
  finally show ?thesis by (simp add: component_under_split [of cs]) blast
qed

end
