(* ===== verification/ScopeReads.thy ===== *)
theory ScopeReads
  imports Expr
begin

text \<open>
  What \<open>visit_paths\<close> and \<open>reads_computed_path\<close> guarantee together: in an expression a publish
  accepts, every read of the scope the expression is written in is a path the walk hands out.
  \<open>evaluated\<close> is the abstract account of which subexpressions the engine evaluates in that scope;
  the body of an iterator is not one of them.
\<close>

inductive asks :: "json \<Rightarrow> string \<Rightarrow> bool" where
  name: "asks (String s) s"
| among: "x \<in> set xs \<Longrightarrow> asks x s \<Longrightarrow> asks (Array xs) s"

inductive_cases asks_StringE [elim!]: "asks (String t) s"
inductive_cases asks_ArrayE [elim!]: "asks (Array xs) s"
inductive_simps asks_simps [simp]:
  "asks Null s" "asks (Bool b) s" "asks (Number n) s" "asks (Object m) s"

inductive evaluated :: "json \<Rightarrow> json \<Rightarrow> bool" for e where
  self: "evaluated e e"
| item: "evaluated e (Array xs) \<Longrightarrow> x \<in> set xs \<Longrightarrow> evaluated e x"
| argument: "evaluated e (Object m) \<Longrightarrow> (opr, arg) \<in> set m \<Longrightarrow>
    opr \<notin> {''var'', ''missing'', ''missing_some''} \<union> set ITERATORS \<Longrightarrow> evaluated e arg"
| source: "evaluated e (Object m) \<Longrightarrow> (opr, arg) \<in> set m \<Longrightarrow> opr \<in> set ITERATORS \<Longrightarrow>
    Some x \<in> set (iterator_operands opr arg) \<Longrightarrow> evaluated e x"
| default: "evaluated e (Object m) \<Longrightarrow> (''var'', arg) \<in> set m \<Longrightarrow> var_default arg = Some d \<Longrightarrow>
    evaluated e d"
| amount: "evaluated e (Object m) \<Longrightarrow> (''missing_some'', Array (n # names # rest)) \<in> set m \<Longrightarrow>
    evaluated e n"

text \<open>A \<open>var\<close> operand that is a literal no path can be read from, or the whole scope.\<close>

definition pathless_operand :: "json \<Rightarrow> bool" where
  "pathless_operand v \<longleftrightarrow>
     v = Null \<or> v = Array [] \<or> (\<exists>b. v = Bool b) \<or> (\<exists>n. v = Number n) \<or>
     (\<exists>x xs. v = Array (x # xs) \<and> (x = Null \<or> (\<exists>b. x = Bool b) \<or> (\<exists>n. x = Number n)))"

lemma iterators_disjoint [simp]:
  "''var'' \<notin> set ITERATORS" "''missing'' \<notin> set ITERATORS" "''missing_some'' \<notin> set ITERATORS"
  by (simp_all add: ITERATORS_def)

lemma iterator_operand_sub:
  "Some x \<in> set (iterator_operands opr arg) \<Longrightarrow> \<not> reads_computed_path arg \<Longrightarrow> \<not> reads_computed_path x"
  by (cases arg) (auto simp: iterator_operands_def split: list.splits if_splits)

lemma var_default_sub:
  "var_default arg = Some d \<Longrightarrow> \<not> reads_computed_path arg \<Longrightarrow> \<not> reads_computed_path d"
  by (cases arg) (auto simp: var_default_def split: list.splits json.splits)

text \<open>One operator of an object, as each walk treats it.\<close>

definition visit_operator :: "string \<Rightarrow> json \<Rightarrow> string list" where
  "visit_operator opr arg =
     (if opr = ''var'' then
        (case var_path arg of Some path \<Rightarrow> [path] | None \<Rightarrow> []) @
        (case var_default arg of Some d \<Rightarrow> visit_paths d | None \<Rightarrow> [])
      else if opr = ''missing'' then visit_names arg
      else if opr = ''missing_some'' then
        (case as_array arg of
           Some (count # names # _) \<Rightarrow> visit_paths count @ visit_names names
         | _ \<Rightarrow> visit_names arg)
      else if opr \<in> set ITERATORS then
        concat (map visit_paths (somes (iterator_operands opr arg)))
      else visit_paths arg)"

definition computed_operator :: "string \<Rightarrow> json \<Rightarrow> bool" where
  "computed_operator opr arg \<longleftrightarrow>
     (if opr = ''var'' then is_computed_var arg \<or> reads_computed_path arg
      else if opr = ''missing'' then is_computed_name arg
      else if opr = ''missing_some'' then
        (case as_array arg of
           Some (count # names # _) \<Rightarrow> reads_computed_path count \<or> is_computed_name names
         | _ \<Rightarrow> reads_computed_path arg)
      else reads_computed_path arg)"

lemma visit_paths_Object: "visit_paths (Object m) = concat (map (\<lambda>(opr, arg). visit_operator opr arg) m)"
  unfolding visit_paths.simps visit_operator_def ..

lemma operator_iterator:
  assumes "opr \<in> set ITERATORS"
  shows "visit_operator opr arg = concat (map visit_paths (somes (iterator_operands opr arg)))"
    and "computed_operator opr arg = reads_computed_path arg"
proof -
  have "opr \<noteq> ''var''" "opr \<noteq> ''missing''" "opr \<noteq> ''missing_some''"
    using assms iterators_disjoint by metis+
  then show "visit_operator opr arg = concat (map visit_paths (somes (iterator_operands opr arg)))"
    "computed_operator opr arg = reads_computed_path arg"
    using assms by (simp_all add: visit_operator_def computed_operator_def)
qed

lemma visited_operator:
  "(opr, arg) \<in> set m \<Longrightarrow> p \<in> set (visit_operator opr arg) \<Longrightarrow> p \<in> set (visit_paths (Object m))"
  unfolding visit_paths_Object by force

lemma computed_Object:
  "reads_computed_path (Object m) \<longleftrightarrow> (\<exists>(opr, arg) \<in> set m. computed_operator opr arg)"
  unfolding reads_computed_path.simps computed_operator_def list_ex_iff by (simp only: case_prod_unfold)

lemma computed_operatorI:
  "(opr, arg) \<in> set m \<Longrightarrow> \<not> reads_computed_path (Object m) \<Longrightarrow> \<not> computed_operator opr arg"
  unfolding computed_Object by blast

declare visit_paths.simps(1) [simp del] reads_computed_path.simps(1) [simp del]

lemma not_computed_evaluated:
  "evaluated e x \<Longrightarrow> \<not> reads_computed_path e \<Longrightarrow> \<not> reads_computed_path x"
proof (induction rule: evaluated.induct)
  case (item xs x)
  then show ?case by (auto simp: list_ex_iff)
next
  case (argument m opr arg)
  then show ?case
    using computed_operatorI [OF argument.hyps(2)] by (simp add: computed_operator_def)
next
  case (source m opr arg x)
  then have "\<not> reads_computed_path arg"
    using computed_operatorI [OF source.hyps(2)] by (simp add: operator_iterator)
  then show ?case using source.hyps(4) by (rule iterator_operand_sub [rotated])
next
  case (default m arg d)
  then have "\<not> reads_computed_path arg"
    using computed_operatorI [OF default.hyps(2)] by (simp add: computed_operator_def)
  then show ?case using default.hyps(3) by (rule var_default_sub [rotated])
next
  case (amount m n names rest)
  then show ?case
    using computed_operatorI [OF amount.hyps(2)] by (simp add: computed_operator_def)
qed

lemma visited_evaluated: "evaluated e x \<Longrightarrow> p \<in> set (visit_paths x) \<Longrightarrow> p \<in> set (visit_paths e)"
proof (induction rule: evaluated.induct)
  case (item xs x)
  then show ?case by auto
next
  case (argument m opr arg)
  then have "p \<in> set (visit_operator opr arg)" by (simp add: visit_operator_def)
  then show ?case using argument.IH argument.hyps(2) visited_operator by blast
next
  case (source m opr arg x)
  then have "p \<in> set (visit_operator opr arg)" by (auto simp: operator_iterator)
  then show ?case using source.IH source.hyps(2) visited_operator by blast
next
  case (default m arg d)
  then have "p \<in> set (visit_operator ''var'' arg)" by (simp add: visit_operator_def)
  then show ?case using default.IH default.hyps(2) visited_operator by blast
next
  case (amount m n names rest)
  then have "p \<in> set (visit_operator ''missing_some'' (Array (n # names # rest)))"
    by (simp add: visit_operator_def)
  then show ?case using amount.IH amount.hyps(2) visited_operator by blast
qed

lemma asks_visited: "asks v s \<Longrightarrow> s \<in> set (visit_names v)"
  by (induction rule: asks.induct) auto

lemma var_operand_cases:
  assumes "\<not> is_computed_var v"
  shows "(\<exists>p. var_path v = Some p) \<or> pathless_operand v"
proof (cases v)
  case (Array items)
  then show ?thesis
    using assms by (cases items; cases "hd items") (auto simp: pathless_operand_def)
qed (use assms in \<open>auto simp: pathless_operand_def\<close>)

lemma scope_var_visible:
  assumes "evaluated e (Object m)" "(''var'', arg) \<in> set m" "\<not> reads_computed_path e"
  shows "(\<exists>p. var_path arg = Some p \<and> p \<in> set (visit_paths e)) \<or> pathless_operand arg"
proof -
  have "\<not> is_computed_var arg"
    using not_computed_evaluated [OF assms(1,3)] computed_operatorI [OF assms(2)]
    by (simp add: computed_operator_def)
  from var_operand_cases [OF this] show ?thesis
  proof
    assume "\<exists>p. var_path arg = Some p"
    then obtain p where p: "var_path arg = Some p" by blast
    then have "p \<in> set (visit_operator ''var'' arg)" by (simp add: visit_operator_def)
    then show ?thesis
      using p visited_operator [OF assms(2)] visited_evaluated [OF assms(1)] by blast
  qed simp
qed

lemma scope_name_visible:
  assumes "evaluated e (Object m)" "(''missing'', arg) \<in> set m" "asks arg s"
  shows "s \<in> set (visit_paths e)"
proof -
  have "s \<in> set (visit_operator ''missing'' arg)"
    using asks_visited [OF assms(3)] by (simp add: visit_operator_def)
  then show ?thesis using visited_operator [OF assms(2)] visited_evaluated [OF assms(1)] by blast
qed

section \<open>The keys an expression depends on\<close>

definition head_key :: "string \<Rightarrow> string" where
  "head_key path = takeWhile (\<lambda>c. c \<noteq> CHR ''.'') path"

text \<open>A path declares its head key; the empty path declares the whole scope.\<close>

definition declares :: "References \<Rightarrow> string \<Rightarrow> bool" where
  "declares r path \<longleftrightarrow>
     (if path = [] then whole_scope r else head_key path = [] \<or> head_key path \<in> set (r_keys r))"

lemma add_path_sel:
  "whole_scope (add_path p r) \<longleftrightarrow> whole_scope r \<or> p = []"
  "set (r_keys (add_path p r)) =
     set (r_keys r) \<union> (if p \<noteq> [] \<and> head_key p \<noteq> [] then {head_key p} else {})"
  by (auto simp: add_path_def Let_def hd_split_on head_key_def)

lemma fold_add_path:
  "whole_scope (fold add_path ps r) \<longleftrightarrow> whole_scope r \<or> [] \<in> set ps"
  "set (r_keys (fold add_path ps r)) =
     set (r_keys r) \<union> {head_key p | p. p \<in> set ps \<and> p \<noteq> [] \<and> head_key p \<noteq> []}"
  by (induction ps arbitrary: r) (auto simp: add_path_sel)

lemma references_iff:
  "whole_scope (references e) \<longleftrightarrow> [] \<in> set (visit_paths e)"
  "set (r_keys (references e)) =
     {head_key p | p. p \<in> set (visit_paths e) \<and> p \<noteq> [] \<and> head_key p \<noteq> []}"
  by (auto simp: references_def collect_references_def references_default_def fold_add_path)

lemma visited_declares: "p \<in> set (visit_paths e) \<Longrightarrow> declares (references e) p"
  unfolding declares_def references_iff by auto

end
