(* ===== verification/Hook.thy ===== *)
theory Hook
  imports Json
begin

text \<open>
  The lifecycle hooks of \<open>modules/hook\<close>: the registration vocabulary (\<open>domain.rs\<close>), the core
  handlers and their catalogue (\<open>handlers.rs\<close>), and how a definition's \<open>guards\<close> and \<open>actions\<close> are
  read, merged into a chain and checked at publish (\<open>service.rs\<close>).  The JSON Logic evaluator is
  the \<open>datalogic-rs\<close> crate's: the parameter \<open>evaluate expression data\<close>, whose left results are
  its errors.  An \<open>i32\<close> is the integer it holds; the one narrowing cast (\<open>priority as i32\<close>) is
  written with its wrap-around.
\<close>

section \<open>Sources and handler references\<close>

datatype HookSource = CoreSource | DocumentTypeSource | WorkflowSource | PluginSource

fun source_as_db :: "HookSource \<Rightarrow> string" where
  "source_as_db CoreSource = ''CORE''"
| "source_as_db DocumentTypeSource = ''DOCUMENT_TYPE''"
| "source_as_db WorkflowSource = ''WORKFLOW''"
| "source_as_db PluginSource = ''PLUGIN''"

fun band_floor :: "HookSource \<Rightarrow> int" where
  "band_floor CoreSource = 0"
| "band_floor DocumentTypeSource = 100"
| "band_floor WorkflowSource = 300"
| "band_floor PluginSource = 500"

definition band_holds :: "HookSource \<Rightarrow> int \<Rightarrow> bool" where
  "band_holds s priority =
     (let floor0 = band_floor s in
      case s of
        CoreSource \<Rightarrow> floor0 \<le> priority \<and> priority < 100
      | DocumentTypeSource \<Rightarrow> floor0 \<le> priority \<and> priority < 300
      | WorkflowSource \<Rightarrow> floor0 \<le> priority \<and> priority < 500
      | PluginSource \<Rightarrow> priority \<ge> floor0)"

datatype HandlerReference = CoreHandlerRef string | PluginRef string string

definition is_ascii_lowercase :: "char \<Rightarrow> bool" where
  "is_ascii_lowercase c \<longleftrightarrow> CHR ''a'' \<le> c \<and> c \<le> CHR ''z''"

definition is_snake :: "string \<Rightarrow> bool" where
  "is_snake value =
     (case value of
        [] \<Rightarrow> False
      | first # rest \<Rightarrow>
          is_ascii_lowercase first \<and>
          list_all (\<lambda>c. is_ascii_lowercase c \<or> is_ascii_digit c \<or> c = CHR ''_'') rest)"

definition is_kebab :: "string \<Rightarrow> bool" where
  "is_kebab value =
     (case value of
        [] \<Rightarrow> False
      | first # rest \<Rightarrow>
          is_ascii_lowercase first \<and>
          list_all (\<lambda>c. is_ascii_lowercase c \<or> is_ascii_digit c \<or> c = CHR ''-'') rest)"

definition handler_parse :: "string \<Rightarrow> HandlerReference option" where
  "handler_parse value =
     (case split_on (CHR '':'') value of
        [scheme, handler] \<Rightarrow>
          if scheme = ''core'' \<and> is_snake handler then Some (CoreHandlerRef handler) else None
      | [scheme, plugin, handler] \<Rightarrow>
          if scheme = ''plugin'' \<and> is_kebab plugin \<and> is_snake handler
          then Some (PluginRef plugin handler) else None
      | _ \<Rightarrow> None)"

fun handler_text :: "HandlerReference \<Rightarrow> string" where
  "handler_text (CoreHandlerRef handler) = ''core:'' @ handler"
| "handler_text (PluginRef plugin handler) = ''plugin:'' @ plugin @ '':'' @ handler"

text \<open>The references the grammar of LHCS 2 allows.\<close>

fun wf_handler :: "HandlerReference \<Rightarrow> bool" where
  "wf_handler (CoreHandlerRef handler) = is_snake handler"
| "wf_handler (PluginRef plugin handler) = (is_kebab plugin \<and> is_snake handler)"

datatype HandlerKind = Before | After | BothHalves

definition serves_before :: "HandlerKind \<Rightarrow> bool" where
  "serves_before k \<longleftrightarrow> k = Before \<or> k = BothHalves"

definition serves_after :: "HandlerKind \<Rightarrow> bool" where
  "serves_after k \<longleftrightarrow> k = After \<or> k = BothHalves"

record Registration =
  reg_hook :: string
  reg_handler :: HandlerReference
  reg_priority :: int
  reg_config :: json
  reg_source :: HookSource

lemma colon_free:
  "is_snake s \<Longrightarrow> CHR '':'' \<notin> set s" "is_kebab s \<Longrightarrow> CHR '':'' \<notin> set s"
  by (cases s; auto simp: is_snake_def is_kebab_def is_ascii_lowercase_def is_ascii_digit_def
      list_all_iff less_eq_char_def)+

lemma split_on_absent: "c \<notin> set s \<Longrightarrow> split_on c s = [s]"
  by (induction s) auto

lemma split_on_append: "c \<notin> set a \<Longrightarrow> split_on c (a @ c # b) = a # split_on c b"
  by (induction a) auto

lemma join_split_on: "join [c] (split_on c s) = s"
proof (induction s)
  case (Cons x xs)
  then show ?case by (cases "split_on c xs") (auto, (metis append_Cons join.simps list.exhaust)?)
qed simp

lemma handler_parse_text:
  assumes "wf_handler h"
  shows "handler_parse (handler_text h) = Some h"
proof (cases h)
  case (CoreHandlerRef name)
  with assms show ?thesis
    using split_on_absent [OF colon_free(1)] by (simp add: handler_parse_def)
next
  case (PluginRef plugin name)
  with assms have "split_on (CHR '':'') (plugin @ CHR '':'' # name) = [plugin, name]"
    by (simp add: split_on_append split_on_absent colon_free)
  with PluginRef assms show ?thesis by (simp add: handler_parse_def)
qed

lemma handler_parse_Some:
  assumes "handler_parse s = Some h"
  shows "handler_text h = s \<and> wf_handler h"
proof -
  have s: "join '':'' (split_on (CHR '':'') s) = s" by (rule join_split_on)
  from assms consider
      (core) name where "split_on (CHR '':'') s = [''core'', name]" "is_snake name"
        "h = CoreHandlerRef name"
    | (plugin) p name where "split_on (CHR '':'') s = [''plugin'', p, name]" "is_kebab p"
        "is_snake name" "h = PluginRef p name"
    by (auto simp: handler_parse_def split: list.splits if_splits)
  then show ?thesis using s by cases auto
qed

section \<open>Results of a handler\<close>

record Rejection =
  rej_code :: string
  rej_message :: string
  rej_details :: "(string \<times> string) list"

definition new_rejection :: "string \<Rightarrow> string \<Rightarrow> Rejection" where
  "new_rejection code message = \<lparr>rej_code = code, rej_message = message, rej_details = []\<rparr>"

datatype HookResult =
    Continue
  | Modify (form_data: "json option") (metadata: "json option")
  | Reject Rejection

fun result_as_db :: "HookResult \<Rightarrow> string" where
  "result_as_db Continue = ''CONTINUE''"
| "result_as_db (Modify _ _) = ''MODIFY''"
| "result_as_db (Reject _) = ''REJECT''"

definition setting :: "json \<Rightarrow> string \<Rightarrow> string option" where
  "setting config key = get_str config key"

definition form_data_of :: "json \<Rightarrow> (string \<times> json) list" where
  "form_data_of payload =
     (case Option.bind (get payload ''formData'') as_object of None \<Rightarrow> [] | Some m \<Rightarrow> m)"

section \<open>The core handlers\<close>

type_synonym evaluator = "json \<Rightarrow> json \<Rightarrow> string + json"
type_synonym handler = "evaluator \<Rightarrow> json \<Rightarrow> HookResult"

definition continue_always :: handler where
  "continue_always evaluate payload = Continue"

definition set_form_field :: handler where
  "set_form_field evaluate payload =
     (let config = (case get payload ''config'' of None \<Rightarrow> Null | Some c \<Rightarrow> c) in
      case setting config ''field'' of
        None \<Rightarrow> Continue
      | Some field \<Rightarrow>
          Modify
            (Some (Object (map_insert field
              (case get config ''value'' of None \<Rightarrow> Null | Some v \<Rightarrow> v) (form_data_of payload))))
            None)"

text \<open>A dash of the code's prose, in UTF-8.\<close>

definition em_dash :: string where
  "em_dash = [CHR 0xE2, CHR 0x80, CHR 0x94]"

definition reject_when :: handler where
  "reject_when evaluate payload =
     (let config = (case get payload ''config'' of None \<Rightarrow> Null | Some c \<Rightarrow> c) in
      case get config ''condition'' of
        None \<Rightarrow> Continue
      | Some condition \<Rightarrow>
          (case evaluate condition payload of
             Inr (Bool True) \<Rightarrow>
               Reject (new_rejection
                 (case setting config ''code'' of None \<Rightarrow> ''HOOK_CONDITION_MET'' | Some c \<Rightarrow> c)
                 (case setting config ''message'' of
                    None \<Rightarrow> ''a guard on this transition refused it'' | Some m \<Rightarrow> m))
           | Inr _ \<Rightarrow> Continue
           | Inl _ \<Rightarrow>
               Reject (new_rejection ''HOOK_CONDITION_UNDECIDABLE''
                 (''a guard on this transition is decided by an expression, and that expression '' @
                  ''produced no value '' @ em_dash @ '' so it is refused rather than treated as passed''))))"

definition resolve :: "string \<Rightarrow> (handler \<times> HandlerKind) option" where
  "resolve name =
     (if name = ''continue_always'' then Some (continue_always, BothHalves)
      else if name = ''set_form_field'' then Some (set_form_field, Before)
      else if name = ''reject_when'' then Some (reject_when, Before)
      else None)"

definition NAMES :: "string list" where
  "NAMES = [''continue_always'', ''set_form_field'', ''reject_when'']"

definition listed :: "string list \<Rightarrow> string" where
  "listed names = join '', '' (map (\<lambda>name. ''`core:'' @ name @ ''`'') names)"

definition available :: string where
  "available = listed NAMES"

definition available_for :: "(HandlerKind \<Rightarrow> bool) \<Rightarrow> string" where
  "available_for serves =
     listed (filter (\<lambda>name. case resolve name of None \<Rightarrow> False | Some (_, kind) \<Rightarrow> serves kind) NAMES)"

lemma resolve_iff: "resolve name \<noteq> None \<longleftrightarrow> name \<in> set NAMES"
  by (simp add: resolve_def NAMES_def)

lemma NAMES_snake: "name \<in> set NAMES \<Longrightarrow> is_snake name"
  by (auto simp: NAMES_def is_snake_def is_ascii_lowercase_def is_ascii_digit_def less_eq_char_def)

section \<open>Chains\<close>

definition BEFORE_WORKFLOW_TRANSITION :: string where
  "BEFORE_WORKFLOW_TRANSITION = ''before_workflow_transition''"

definition AFTER_WORKFLOW_TRANSITION :: string where
  "AFTER_WORKFLOW_TRANSITION = ''after_workflow_transition''"

definition merge_chain :: "Registration list \<Rightarrow> Registration list \<Rightarrow> Registration list" where
  "merge_chain registry workflow = sort_key reg_priority (registry @ workflow)"

text \<open>\<open>priority as i32\<close> keeps the low 32 bits.\<close>

definition as_i32 :: "int \<Rightarrow> int" where
  "as_i32 i = (i + 2 ^ 31) mod 2 ^ 32 - 2 ^ 31"

definition entries_of :: "json \<Rightarrow> string \<Rightarrow> string \<Rightarrow> Registration list" where
  "entries_of transition key hook =
     somes (map (\<lambda>entry.
       case Option.bind (get_str entry ''handler'') handler_parse of
         None \<Rightarrow> None
       | Some handler \<Rightarrow>
           Some \<lparr>reg_hook = hook, reg_handler = handler,
             reg_priority =
               (case Option.bind (get entry ''priority'') as_i64 of
                  None \<Rightarrow> band_floor WorkflowSource | Some priority \<Rightarrow> as_i32 priority),
             reg_config = (case get entry ''config'' of None \<Rightarrow> Object [] | Some c \<Rightarrow> c),
             reg_source = WorkflowSource\<rparr>)
       (filter (\<lambda>entry. get_bool_or True entry ''isEnabled'') (get_arr transition key)))"

definition guards_of :: "json \<Rightarrow> Registration list" where
  "guards_of transition = entries_of transition ''guards'' BEFORE_WORKFLOW_TRANSITION"

definition actions_of :: "json \<Rightarrow> Registration list" where
  "actions_of transition = entries_of transition ''actions'' AFTER_WORKFLOW_TRANSITION"

section \<open>The publish check\<close>

definition kind_mismatch_args :: "HandlerReference \<Rightarrow> bool \<Rightarrow> string list" where
  "kind_mismatch_args handler after =
     (if after then [handler_text handler, available_for serves_after]
      else [handler_text handler, available_for serves_before])"

definition check_entry :: "json \<Rightarrow> string \<Rightarrow> string \<Rightarrow> validation_detail list" where
  "check_entry entry path implied =
     (case get_str entry ''hook'' of
        None \<Rightarrow> []
      | Some declared \<Rightarrow>
          if declared \<noteq> implied then
            [detail (path @ ''.hook'') ''LHCS-3.2'' ''HOOK_NAME_MISMATCH''
               [declared, (case rev (split_on (CHR ''.'') path) of _ # key # _ \<Rightarrow> key | _ \<Rightarrow> ''guards''),
                implied]]
          else []) @
     (case get_str entry ''handler'' of
        None \<Rightarrow> []
      | Some reference \<Rightarrow>
          (case handler_parse reference of
             None \<Rightarrow> [detail (path @ ''.handler'') ''LHCS-2'' ''HANDLER_REFERENCE_INVALID'' [reference]]
           | Some (CoreHandlerRef name) \<Rightarrow>
               (case resolve name of
                  None \<Rightarrow> [detail (path @ ''.handler'') ''LHCS-2'' ''HANDLER_NOT_FOUND''
                             [handler_text (CoreHandlerRef name), available]]
                | Some (_, kind) \<Rightarrow>
                    let after = (implied = AFTER_WORKFLOW_TRANSITION);
                        serves = (if after then serves_after kind else serves_before kind)
                    in if serves then []
                       else [detail (path @ ''.handler'') ''LHCS-3.2'' ''HANDLER_KIND_MISMATCH''
                               (kind_mismatch_args (CoreHandlerRef name) after)])
           | Some (PluginRef plugin name) \<Rightarrow>
               [detail (path @ ''.handler'') ''LHCS-2'' ''HANDLER_PLUGIN_UNKNOWN''
                  [handler_text (PluginRef plugin name), plugin]]))"

definition registration_errors :: "json \<Rightarrow> validation_detail list" where
  "registration_errors definition0 =
     indexed (\<lambda>index transition.
       concat (map (\<lambda>(key, implied).
         indexed (\<lambda>at entry.
           check_entry entry
             (''definition.transitions.'' @ show_nat index @ ''.'' @ key @ ''.'' @ show_nat at) implied)
           (get_arr transition key))
         [(''guards'', BEFORE_WORKFLOW_TRANSITION), (''actions'', AFTER_WORKFLOW_TRANSITION)]))
       (get_arr definition0 ''transitions'')"

end
