(* ===== verification/TaskType.thy ===== *)
theory TaskType
  imports Prelude
begin

text \<open>
  \<open>workflow/domain/task_type.rs\<close>: the task types this engine performs, the vocabulary it knows,
  and why a declared value is refused.  \<open>str::trim\<close> removes the characters with the Unicode
  property \<open>White_Space\<close>, listed by their UTF-8 encodings.
\<close>

section \<open>Trimming\<close>

definition WHITE_SPACE_CODES :: "nat list list" where
  "WHITE_SPACE_CODES =
     [[9], [10], [11], [12], [13], [32], [194, 133], [194, 160], [225, 154, 128]] @
     map (\<lambda>c. [226, 128, c]) [128..<139] @
     [[226, 128, 168], [226, 128, 169], [226, 128, 175], [226, 129, 159], [227, 128, 128]]"

definition WHITE_SPACE :: "string list" where
  "WHITE_SPACE = map (map char_of) WHITE_SPACE_CODES"

definition strip_one :: "string list \<Rightarrow> string \<Rightarrow> string option" where
  "strip_one ws s = first_some (map (\<lambda>w. strip_prefix w s) ws)"

lemma strip_one_Some: "strip_one ws s = Some r \<Longrightarrow> \<exists>w \<in> set ws. s = w @ r"
  unfolding strip_one_def
  by (drule first_some_SomeD) (auto dest!: sym [of "Some r"] simp: strip_prefix_Some_iff)

lemma strip_one_None: "strip_one ws s = None \<longleftrightarrow> (\<forall>w \<in> set ws. strip_prefix w s = None)"
  by (auto simp: strip_one_def)

text \<open>No white space is encoded with a printable ASCII byte.\<close>

lemma white_space_codes: "\<forall>w \<in> set WHITE_SPACE_CODES. w \<noteq> [] \<and> (\<forall>c \<in> set w. (c \<le> 32 \<or> 127 < c) \<and> c < 256)"
  by (auto simp: WHITE_SPACE_CODES_def)

lemma white_space_bytes:
  assumes "w \<in> set WHITE_SPACE"
  shows "w \<noteq> []" and "c \<in> set w \<Longrightarrow> of_char c \<le> (32 :: nat) \<or> 127 < (of_char c :: nat)"
proof -
  from assms obtain v where v: "v \<in> set WHITE_SPACE_CODES" "w = map char_of v"
    by (auto simp: WHITE_SPACE_def)
  with white_space_codes show "w \<noteq> []" by auto
  assume "c \<in> set w"
  with v obtain n where "n \<in> set v" "c = char_of n" by auto
  with v(1) white_space_codes show "of_char c \<le> (32 :: nat) \<or> 127 < (of_char c :: nat)" by auto
qed

lemma strip_prefix_hd: "w \<noteq> [] \<Longrightarrow> hd w \<noteq> c \<Longrightarrow> strip_prefix w (c # s) = None"
  by (cases w) auto

definition printable :: "char \<Rightarrow> bool" where
  "printable c \<longleftrightarrow> 32 < (of_char c :: nat) \<and> of_char c \<le> (127 :: nat)"

lemma strip_one_printable:
  assumes "printable c"
  shows "strip_one WHITE_SPACE (c # s) = None" "strip_one (map rev WHITE_SPACE) (c # s) = None"
proof -
  have "\<not> printable (hd w)" "\<not> printable (hd (rev w))" if "w \<in> set WHITE_SPACE" for w
    using white_space_bytes(2) [OF that, of "hd w"] white_space_bytes(2) [OF that, of "last w"]
      white_space_bytes(1) [OF that]
    by (auto simp: printable_def hd_rev)
  with assms show "strip_one WHITE_SPACE (c # s) = None"
    "strip_one (map rev WHITE_SPACE) (c # s) = None"
    unfolding strip_one_None using white_space_bytes(1)
    by (auto intro!: strip_prefix_hd)
qed

function trim_with :: "string list \<Rightarrow> string \<Rightarrow> string" where
  "trim_with ws s =
     (if [] \<in> set ws then s
      else (case strip_one ws s of None \<Rightarrow> s | Some r \<Rightarrow> trim_with ws r))"
  by pat_completeness auto
termination
  by (relation "measure (\<lambda>(ws, s). length s)") (auto dest!: strip_one_Some)

declare trim_with.simps [simp del]

definition trim_start :: "string \<Rightarrow> string" where
  "trim_start = trim_with WHITE_SPACE"

definition trim_end :: "string \<Rightarrow> string" where
  "trim_end s = rev (trim_with (map rev WHITE_SPACE) (rev s))"

definition trim :: "string \<Rightarrow> string" where
  "trim s = trim_end (trim_start s)"

lemma trim_with_fixed: "strip_one ws s = None \<Longrightarrow> trim_with ws s = s"
  by (subst trim_with.simps) simp

lemma trim_printable: "printable c \<Longrightarrow> printable d \<Longrightarrow> trim (c # s @ [d]) = c # s @ [d]"
  by (simp add: trim_def trim_end_def trim_start_def trim_with_fixed strip_one_printable)

section \<open>The vocabulary\<close>

datatype TaskType = Approval | Service

fun task_type_as_db :: "TaskType \<Rightarrow> string" where
  "task_type_as_db Approval = ''APPROVAL_TASK''"
| "task_type_as_db Service = ''SERVICE_TASK''"

definition is_human :: "TaskType \<Rightarrow> bool" where
  "is_human t \<longleftrightarrow> t = Approval"

definition DECLARED :: "string list" where
  "DECLARED =
     [''USER_TASK'', ''APPROVAL_TASK'', ''REVIEW_TASK'', ''SERVICE_TASK'', ''SIGNATURE_TASK'',
      ''DATA_ENTRY_TASK'']"

datatype TaskTypeRefusal = NotImplemented string | NotDeclared string

text \<open>The values the two refusals interpolate; a signature task earns a sentence of its own.\<close>

fun refusal_args :: "TaskTypeRefusal \<Rightarrow> string list" where
  "refusal_args (NotImplemented value) =
     [value, if value = ''SIGNATURE_TASK'' then ''signature'' else []]"
| "refusal_args (NotDeclared value) =
     [value, join '', '' (map (\<lambda>declared. ''`'' @ declared @ ''`'') DECLARED)]"

definition parse_task_type :: "string option \<Rightarrow> TaskTypeRefusal + TaskType" where
  "parse_task_type value =
     (case (case map_option trim value of Some v \<Rightarrow> (if v = [] then None else Some v) | None \<Rightarrow> None) of
        None \<Rightarrow> Inr Approval
      | Some v \<Rightarrow>
          if v = ''APPROVAL_TASK'' then Inr Approval
          else if v = ''SERVICE_TASK'' then Inr Service
          else
            (case find (\<lambda>declared. declared = v) DECLARED of
               Some declared \<Rightarrow> Inl (NotImplemented declared)
             | None \<Rightarrow> Inl (NotDeclared v)))"

lemma trim_as_db: "trim (task_type_as_db t) = task_type_as_db t"
  using trim_printable [of "CHR ''A''" "CHR ''K''" "''PPROVAL_TAS''"]
    trim_printable [of "CHR ''S''" "CHR ''K''" "''ERVICE_TAS''"]
  by (cases t) (simp_all add: printable_def)

lemma find_eq: "find (\<lambda>y. y = x) ys = (if x \<in> set ys then Some x else None)"
  by (induction ys) auto

text \<open>What a declared value means, as the specification states it.\<close>

lemma parse_task_type_Some:
  "parse_task_type (Some v) =
     (if trim v = [] \<or> trim v = task_type_as_db Approval then Inr Approval
      else if trim v = task_type_as_db Service then Inr Service
      else if trim v \<in> set DECLARED then Inl (NotImplemented (trim v))
      else Inl (NotDeclared (trim v)))"
  by (simp add: parse_task_type_def find_eq)

lemma parse_task_type_None [simp]: "parse_task_type None = Inr Approval"
  by (simp add: parse_task_type_def)

lemma parse_task_type_as_db: "parse_task_type (Some (task_type_as_db t)) = Inr t"
  unfolding parse_task_type_Some trim_as_db by (cases t) simp_all

end
