(* ===== verification/WfGraph.thy ===== *)
theory WfGraph
  imports Hook TaskType
begin

text \<open>
  \<open>workflow/domain/graph.rs\<close>: the workflow definition as the engine reads it.  The parser is total
  and lenient - an element that cannot be read is absent - so what it drops is part of the model.
  \<open>due_in_seconds\<close> (floating-point arithmetic on a deadline) is not modelled; the number it starts
  from is kept.
\<close>

section \<open>Actions and assignment rules\<close>

datatype TransitionAction =
    SubmitAction | ApproveAction | RejectAction | ReturnAction | ResubmitAction
  | DelegateAction | EscalateAction | CancelAction | CompleteAction | AutoAction

fun action_as_db :: "TransitionAction \<Rightarrow> string" where
  "action_as_db SubmitAction = ''SUBMIT''"
| "action_as_db ApproveAction = ''APPROVE''"
| "action_as_db RejectAction = ''REJECT''"
| "action_as_db ReturnAction = ''RETURN''"
| "action_as_db ResubmitAction = ''RESUBMIT''"
| "action_as_db DelegateAction = ''DELEGATE''"
| "action_as_db EscalateAction = ''ESCALATE''"
| "action_as_db CancelAction = ''CANCEL''"
| "action_as_db CompleteAction = ''COMPLETE''"
| "action_as_db AutoAction = ''AUTO''"

definition action_parse :: "string \<Rightarrow> TransitionAction option" where
  "action_parse value =
     (if value = ''SUBMIT'' then Some SubmitAction
      else if value = ''APPROVE'' then Some ApproveAction
      else if value = ''REJECT'' then Some RejectAction
      else if value = ''RETURN'' then Some ReturnAction
      else if value = ''RESUBMIT'' then Some ResubmitAction
      else if value = ''DELEGATE'' then Some DelegateAction
      else if value = ''ESCALATE'' then Some EscalateAction
      else if value = ''CANCEL'' then Some CancelAction
      else if value = ''COMPLETE'' then Some CompleteAction
      else if value = ''AUTO'' then Some AutoAction
      else None)"

interpretation transition_action: db_code action_as_db action_parse
proof
  show "action_parse (action_as_db x) = Some x" for x
    by (cases x) (simp_all add: action_parse_def)
  show "action_parse s = Some x \<Longrightarrow> action_as_db x = s" for s x
    by (auto simp: action_parse_def split: if_splits)
qed

datatype AssigneeType = User | Role | DepartmentRole | Owner

definition assignee_parse :: "string \<Rightarrow> AssigneeType option" where
  "assignee_parse value =
     (if value = ''USER'' then Some User
      else if value = ''ROLE'' then Some Role
      else if value = ''DEPARTMENT_ROLE'' then Some DepartmentRole
      else if value = ''OWNER'' then Some Owner
      else None)"

record AssignmentRule =
  assignee_type :: AssigneeType
  user_id :: "string option"
  role_code :: "string option"
  department_scope :: "string option"

definition shorthand :: "string \<Rightarrow> AssignmentRule option" where
  "shorthand value =
     (if value = ''OWNER'' then
        Some \<lparr>assignee_type = Owner, user_id = None, role_code = None, department_scope = None\<rparr>
      else
        (case split_once (CHR '':'') value of
           None \<Rightarrow> None
         | Some (kind, name) \<Rightarrow>
             if kind = ''ROLE'' then
               Some \<lparr>assignee_type = Role, user_id = None, role_code = Some name,
                     department_scope = None\<rparr>
             else if kind = ''USER'' then
               Some \<lparr>assignee_type = User, user_id = Some name, role_code = None,
                     department_scope = None\<rparr>
             else None))"

definition rule_parse :: "json \<Rightarrow> AssignmentRule option" where
  "rule_parse value =
     (case as_str value of
        Some text \<Rightarrow> shorthand text
      | None \<Rightarrow>
          (case Option.bind (get_str value ''assigneeType'') assignee_parse of
             None \<Rightarrow> None
           | Some kind \<Rightarrow>
               Some \<lparr>assignee_type = kind, user_id = get_str value ''userId'',
                     role_code = get_str value ''roleCode'',
                     department_scope = get_str value ''departmentScope''\<rparr>))"

section \<open>States, transitions and the graph\<close>

record TaskSpec =
  task_definition_key :: string
  task_name :: string
  task_type :: TaskType
  assignment :: AssignmentRule
  priority :: string
  due_in_hours :: "json_number option"

record State =
  code :: string
  state_name :: string
  maps_to_document_status :: string
  is_final :: bool
  task :: "TaskSpec option"

record Transition =
  t_from :: string
  t_to :: string
  t_action :: TransitionAction
  allowed_by :: "AssignmentRule option"
  condition :: "json option"
  requires_comment :: bool
  guards :: "Registration list"
  actions :: "Registration list"

record VariableDeclaration =
  var_key :: string
  data_type :: string
  var_source :: "json option"

record Graph =
  workflow_key :: string
  revision :: int
  initial_state :: string
  states :: "State list"
  transitions :: "Transition list"
  variables :: "VariableDeclaration list"

definition or_default :: "'a \<Rightarrow> 'a option \<Rightarrow> 'a" where
  "or_default d v = (case v of None \<Rightarrow> d | Some x \<Rightarrow> x)"

definition parse_task :: "json \<Rightarrow> TaskSpec option" where
  "parse_task value =
     (case get_str value ''taskDefinitionKey'' of
        None \<Rightarrow> None
      | Some key \<Rightarrow>
          (case parse_task_type (get_str value ''taskType'') of
             Inl _ \<Rightarrow> None
           | Inr kind \<Rightarrow>
               (case Option.bind (get value ''assignment'') rule_parse of
                  None \<Rightarrow> None
                | Some rule \<Rightarrow>
                    Some \<lparr>task_definition_key = key,
                          task_name = or_default [] (get_str value ''taskName''),
                          task_type = kind, assignment = rule,
                          priority = or_default ''NORMAL'' (get_str value ''priority''),
                          due_in_hours = Option.bind (get value ''dueInHours'') as_f64\<rparr>)))"

definition parse_state :: "json \<Rightarrow> State option" where
  "parse_state value =
     (case get_str value ''code'' of
        None \<Rightarrow> None
      | Some c \<Rightarrow>
          (case get_str value ''mapsToDocumentStatus'' of
             None \<Rightarrow> None
           | Some status \<Rightarrow>
               Some \<lparr>code = c, state_name = or_default [] (get_str value ''name''),
                     maps_to_document_status = status,
                     is_final = get_bool_or False value ''isFinal'',
                     task = Option.bind (get value ''task'') parse_task\<rparr>))"

definition parse_transition :: "json \<Rightarrow> Transition option" where
  "parse_transition value =
     (case get_str value ''from'' of
        None \<Rightarrow> None
      | Some from0 \<Rightarrow>
          (case get_str value ''to'' of
             None \<Rightarrow> None
           | Some to0 \<Rightarrow>
               (case Option.bind (get_str value ''action'') action_parse of
                  None \<Rightarrow> None
                | Some act \<Rightarrow>
                    Some \<lparr>t_from = from0, t_to = to0, t_action = act,
                          allowed_by = Option.bind (get value ''allowedBy'') rule_parse,
                          condition = get value ''condition'',
                          requires_comment = get_bool_or False value ''requiresComment'',
                          guards = guards_of value,
                          actions = actions_of value\<rparr>)))"

definition parse_variable :: "json \<Rightarrow> VariableDeclaration option" where
  "parse_variable value =
     (case get_str value ''key'' of
        None \<Rightarrow> None
      | Some key \<Rightarrow>
          Some \<lparr>var_key = key, data_type = or_default ''STRING'' (get_str value ''dataType''),
                var_source = get value ''source''\<rparr>)"

definition parse_graph :: "json \<Rightarrow> int \<Rightarrow> Graph" where
  "parse_graph definition0 rev0 =
     \<lparr>workflow_key = or_default [] (get_str definition0 ''workflowKey''),
      revision = rev0,
      initial_state = or_default [] (get_str definition0 ''initialState''),
      states = somes (map parse_state (get_arr definition0 ''states'')),
      transitions = somes (map parse_transition (get_arr definition0 ''transitions'')),
      variables = somes (map parse_variable (get_arr definition0 ''variables''))\<rparr>"

definition state_of :: "Graph \<Rightarrow> string \<Rightarrow> State option" where
  "state_of g c = find (\<lambda>state. code state = c) (states g)"

definition candidates :: "Graph \<Rightarrow> string \<Rightarrow> TransitionAction \<Rightarrow> Transition list" where
  "candidates g from0 act =
     sort_key (\<lambda>transition. condition transition = None)
       (filter (\<lambda>transition. t_from transition = from0 \<and> t_action transition = act) (transitions g))"

definition actions_from :: "Graph \<Rightarrow> string \<Rightarrow> Transition list" where
  "actions_from g from0 = filter (\<lambda>transition. t_from transition = from0) (transitions g)"

section \<open>The roles and departments a definition names\<close>

definition RESERVED_DEPARTMENT_SCOPES :: "string list" where
  "RESERVED_DEPARTMENT_SCOPES = [''REQUESTED_DEPARTMENT'', ''OWNER_DEPARTMENT'']"

record RoleReference =
  rr_path :: string
  rr_role_code :: string

record DepartmentReference =
  dr_path :: string
  dr_department_code :: string

definition rule_places :: "json \<Rightarrow> (string \<times> json) list" where
  "rule_places definition0 =
     indexed (\<lambda>index state.
       case Option.bind (get state ''task'') (\<lambda>t. get t ''assignment'') of
         None \<Rightarrow> []
       | Some rule \<Rightarrow> [(''definition.states.'' @ show_nat index @ ''.task.assignment'', rule)])
       (get_arr definition0 ''states'') @
     indexed (\<lambda>index transition.
       case get transition ''allowedBy'' of
         None \<Rightarrow> []
       | Some rule \<Rightarrow> [(''definition.transitions.'' @ show_nat index @ ''.allowedBy'', rule)])
       (get_arr definition0 ''transitions'')"

definition role_references :: "json \<Rightarrow> RoleReference list" where
  "role_references definition0 =
     somes (map (\<lambda>(path, value).
       case rule_parse value of
         None \<Rightarrow> None
       | Some rule \<Rightarrow>
           if assignee_type rule \<notin> {Role, DepartmentRole} then None
           else
             (case role_code rule of
                None \<Rightarrow> None
              | Some role \<Rightarrow>
                  Some \<lparr>rr_path = (if is_string value then path else path @ ''.roleCode''),
                        rr_role_code = role\<rparr>))
       (rule_places definition0))"

definition department_references :: "json \<Rightarrow> DepartmentReference list" where
  "department_references definition0 =
     somes (map (\<lambda>(path, value).
       case rule_parse value of
         None \<Rightarrow> None
       | Some rule \<Rightarrow>
           if assignee_type rule \<noteq> DepartmentRole then None
           else
             (case department_scope rule of
                None \<Rightarrow> None
              | Some scope \<Rightarrow>
                  if scope \<in> set RESERVED_DEPARTMENT_SCOPES then None
                  else Some \<lparr>dr_path = path @ ''.departmentScope'', dr_department_code = scope\<rparr>))
       (rule_places definition0))"

section \<open>Facts\<close>

text \<open>A stable sort on a flag is a partition: the conditioned edges, then the fallbacks.\<close>

lemma insort_flag:
  assumes "\<forall>y \<in> set ys. \<not> f y" "\<forall>z \<in> set zs. f z"
  shows "insort_key (f :: 'a \<Rightarrow> bool) x (ys @ zs) = (if f x then ys @ x # zs else x # ys @ zs)"
  using assms
proof (induction ys)
  case Nil
  then show ?case by (cases zs; cases "f x") simp_all
next
  case (Cons y ys)
  then show ?case by (cases "f x") simp_all
qed

lemma sort_key_bool: "sort_key (f :: 'a \<Rightarrow> bool) xs = filter (\<lambda>x. \<not> f x) xs @ filter f xs"
proof (induction xs)
  case (Cons x xs)
  have "insort_key f x (filter (\<lambda>x. \<not> f x) xs @ filter f xs) =
      (if f x then filter (\<lambda>x. \<not> f x) xs @ x # filter f xs
       else x # filter (\<lambda>x. \<not> f x) xs @ filter f xs)"
    by (rule insort_flag) simp_all
  with Cons.IH show ?case by (cases "f x") simp_all
qed simp

lemma candidates_partition:
  "candidates g from0 act =
     filter (\<lambda>t. t_from t = from0 \<and> t_action t = act \<and> condition t \<noteq> None) (transitions g) @
     filter (\<lambda>t. t_from t = from0 \<and> t_action t = act \<and> condition t = None) (transitions g)"
  unfolding candidates_def sort_key_bool by (simp add: conj_ac cong: filter_cong)

lemma set_candidates: "set (candidates g from0 act) =
    {t \<in> set (transitions g). t_from t = from0 \<and> t_action t = act}"
  by (simp add: candidates_def)

lemma parse_state_Some:
  "parse_state v = Some s \<Longrightarrow>
   get v ''code'' = Some (String (code s)) \<and> is_final s = get_bool_or False v ''isFinal'' \<and>
   get v ''mapsToDocumentStatus'' = Some (String (maps_to_document_status s)) \<and>
   task s = Option.bind (get v ''task'') parse_task"
  by (auto simp: parse_state_def get_str_Some split: option.splits)

lemma parse_task_Some:
  "parse_task v = Some t \<Longrightarrow> Option.bind (get v ''assignment'') rule_parse = Some (assignment t)"
  by (auto simp: parse_task_def split: option.splits sum.splits)

lemma parse_transition_Some:
  "parse_transition v = Some t \<Longrightarrow>
   get v ''from'' = Some (String (t_from t)) \<and> get v ''to'' = Some (String (t_to t)) \<and>
   get v ''action'' = Some (String (action_as_db (t_action t))) \<and>
   condition t = get v ''condition'' \<and>
   allowed_by t = Option.bind (get v ''allowedBy'') rule_parse \<and>
   guards t = guards_of v \<and> actions t = actions_of v"
  by (auto simp: parse_transition_def get_str_Some bind_eq_Some_conv
      transition_action.of_text_iff split: option.splits)

lemma mem_states: "s \<in> set (states (parse_graph d r)) \<longleftrightarrow>
    (\<exists>i < length (get_arr d ''states''). parse_state (get_arr d ''states'' ! i) = Some s)"
  unfolding parse_graph_def Graph.simps by (rule mem_somes_map)

lemma mem_transitions: "t \<in> set (transitions (parse_graph d r)) \<longleftrightarrow>
    (\<exists>i < length (get_arr d ''transitions''). parse_transition (get_arr d ''transitions'' ! i) = Some t)"
  unfolding parse_graph_def Graph.simps by (rule mem_somes_map)

lemma states_parse: "s \<in> set (states (parse_graph d r)) \<longleftrightarrow>
    (\<exists>v \<in> set (get_arr d ''states''). parse_state v = Some s)"
  unfolding mem_states by (metis in_set_conv_nth)

lemma transitions_parse: "t \<in> set (transitions (parse_graph d r)) \<longleftrightarrow>
    (\<exists>v \<in> set (get_arr d ''transitions''). parse_transition v = Some t)"
  unfolding mem_transitions by (metis in_set_conv_nth)

text \<open>The rules the engine resolves, by the graph.\<close>

definition engine_rules :: "Graph \<Rightarrow> AssignmentRule set" where
  "engine_rules g =
     {assignment spec | spec s. s \<in> set (states g) \<and> task s = Some spec} \<union>
     {rule. \<exists>t \<in> set (transitions g). allowed_by t = Some rule}"

lemma engine_rule_place:
  assumes "rule \<in> engine_rules (parse_graph d r)"
  shows "\<exists>path value. (path, value) \<in> set (rule_places d) \<and> rule_parse value = Some rule"
proof -
  from assms consider
      (task) spec s where "s \<in> set (states (parse_graph d r))" "task s = Some spec"
        "rule = assignment spec"
    | (edge) t where "t \<in> set (transitions (parse_graph d r))" "allowed_by t = Some rule"
    by (auto simp: engine_rules_def)
  then show ?thesis
  proof cases
    case task
    then obtain i where i: "i < length (get_arr d ''states'')"
      "parse_state (get_arr d ''states'' ! i) = Some s" by (auto simp: mem_states)
    with task obtain tv where tv: "get (get_arr d ''states'' ! i) ''task'' = Some tv"
      "parse_task tv = Some spec"
      by (auto dest!: parse_state_Some simp: bind_eq_Some_conv)
    from parse_task_Some [OF tv(2)] obtain v where
      "get tv ''assignment'' = Some v" "rule_parse v = Some rule"
      using task(3) by (auto simp: bind_eq_Some_conv)
    with i tv show ?thesis by (fastforce simp: rule_places_def set_indexed)
  next
    case edge
    then obtain i where i: "i < length (get_arr d ''transitions'')"
      "parse_transition (get_arr d ''transitions'' ! i) = Some t" by (auto simp: mem_transitions)
    with edge(2) obtain v where "get (get_arr d ''transitions'' ! i) ''allowedBy'' = Some v"
      "rule_parse v = Some rule"
      by (auto dest!: parse_transition_Some simp: bind_eq_Some_conv)
    with i show ?thesis by (fastforce simp: rule_places_def set_indexed)
  qed
qed

lemma engine_role_referenced:
  assumes "rule \<in> engine_rules (parse_graph d r)" "assignee_type rule \<in> {Role, DepartmentRole}"
    and "role_code rule = Some role"
  shows "role \<in> rr_role_code ` set (role_references d)"
proof -
  obtain path v where pv: "(path, v) \<in> set (rule_places d)" "rule_parse v = Some rule"
    using engine_rule_place [OF assms(1)] by blast
  let ?ref = "\<lparr>rr_path = (if is_string v then path else path @ ''.roleCode''), rr_role_code = role\<rparr>"
  have "?ref \<in> set (role_references d)"
    unfolding role_references_def using pv assms(2,3) by (force simp: image_iff)
  then show ?thesis by force
qed

lemma engine_department_referenced:
  assumes "rule \<in> engine_rules (parse_graph d r)" "assignee_type rule = DepartmentRole"
    and "department_scope rule = Some scope" "scope \<notin> set RESERVED_DEPARTMENT_SCOPES"
  shows "scope \<in> dr_department_code ` set (department_references d)"
proof -
  obtain path v where pv: "(path, v) \<in> set (rule_places d)" "rule_parse v = Some rule"
    using engine_rule_place [OF assms(1)] by blast
  have "\<lparr>dr_path = path @ ''.departmentScope'', dr_department_code = scope\<rparr> \<in> set (department_references d)"
    unfolding department_references_def using pv assms(2-4) by (force simp: image_iff)
  then show ?thesis by force
qed

end
