(* ===== verification/Search.thy ===== *)
theory Search
  imports Prelude
begin

text \<open>
  The breadth-first \<open>walk\<close> of \<open>workflow/domain/jwss.rs\<close> over an adjacency \<open>BTreeMap\<close>, and the contract
  its two callers use: an adjacency that holds the edges of a relation makes the walk the set of
  what the relation reaches.
\<close>

type_synonym adjacency = "(string \<times> string list) list"

definition successors :: "adjacency \<Rightarrow> string \<Rightarrow> string list" where
  "successors edges node = (case map_of edges node of None \<Rightarrow> [] | Some ns \<Rightarrow> ns)"

text \<open>\<open>if seen.insert(x) { queue.push_back(x) }\<close>, for each element.\<close>

definition visit :: "string \<Rightarrow> string list \<times> string list \<Rightarrow> string list \<times> string list" where
  "visit x = (\<lambda>(seen, queue).
     if bs_contains seen x then (seen, queue) else (bs_insert x seen, queue @ [x]))"

definition targets :: "adjacency \<Rightarrow> string set" where
  "targets edges = set (concat (map snd edges))"

lemma successors_targets: "set (successors edges node) \<subseteq> targets edges"
proof
  fix x assume "x \<in> set (successors edges node)"
  then obtain ns where "(node, ns) \<in> set edges" "x \<in> set ns"
    by (cases "map_of edges node") (auto simp: successors_def dest!: map_of_SomeD)
  then show "x \<in> targets edges" by (force simp: targets_def)
qed

lemma visit_simps:
  "x \<in> set seen \<Longrightarrow> visit x (seen, queue) = (seen, queue)"
  "x \<notin> set seen \<Longrightarrow> visit x (seen, queue) = (bs_insert x seen, queue @ [x])"
  by (simp_all add: visit_def)

lemma fold_visit:
  "fold visit xs (seen, queue) = (seen', queue') \<Longrightarrow>
   set seen' = set xs \<union> set seen \<and> (\<exists>new. queue' = queue @ new \<and> distinct new \<and>
     set new = set xs - set seen)"
proof (induction xs arbitrary: seen queue)
  case (Cons x xs)
  show ?case
  proof (cases "x \<in> set seen")
    case True
    with Cons.prems have "fold visit xs (seen, queue) = (seen', queue')" by (simp add: visit_simps)
    from Cons.IH [OF this] True show ?thesis by auto
  next
    case False
    with Cons.prems have "fold visit xs (bs_insert x seen, queue @ [x]) = (seen', queue')"
      by (simp add: visit_simps)
    from Cons.IH [OF this] obtain new where "set seen' = set xs \<union> insert x (set seen)"
      "queue' = queue @ x # new" "distinct new" "set new = set xs - insert x (set seen)" by auto
    with False show ?thesis by (intro conjI exI [of _ "x # new"]) auto
  qed
qed simp

lemma fold_visit_measure:
  assumes "fold visit xs (seen, queue) = (seen', queue')" "set xs \<subseteq> U" "finite U"
  shows "card (U - set seen') + length queue' = card (U - set seen) + length queue"
proof -
  from fold_visit [OF assms(1)] obtain new where
    n: "set seen' = set xs \<union> set seen" "queue' = queue @ new" "distinct new"
      "set new = set xs - set seen" by blast
  then have "U - set seen' = (U - set seen) - set new" "set new \<subseteq> U - set seen" using assms(2) by auto
  then have "card (U - set seen') = card (U - set seen) - length new"
    using assms(3) n(3) by (simp add: card_Diff_subset distinct_card)
  moreover have "length new \<le> card (U - set seen)"
    using \<open>set new \<subseteq> U - set seen\<close> assms(3) n(3) by (metis card_mono distinct_card finite_Diff)
  ultimately show ?thesis using n(2) by simp
qed

function walk_loop :: "adjacency \<Rightarrow> string list \<Rightarrow> string list \<Rightarrow> string list" where
  "walk_loop edges seen queue =
     (case queue of
        [] \<Rightarrow> seen
      | node # queue \<Rightarrow>
          (case fold visit (successors edges node) (seen, queue) of
             (seen, queue) \<Rightarrow> walk_loop edges seen queue))"
  by pat_completeness auto
termination
proof (relation "measure (\<lambda>(edges, seen, queue). card (targets edges - set seen) + length queue)",
    goal_cases)
  case (2 edges seen queue node rest seen' queue')
  have "card (targets edges - set seen') + length queue' = card (targets edges - set seen) + length rest"
    using 2(2) successors_targets by (intro fold_visit_measure [of "successors edges node"])
      (auto simp: targets_def)
  with 2(1) show ?case by simp
qed simp

declare walk_loop.simps [simp del]

definition walk :: "adjacency \<Rightarrow> string list \<Rightarrow> string list" where
  "walk edges roots =
     (case fold visit roots ([], []) of (seen, queue) \<Rightarrow> walk_loop edges seen queue)"

section \<open>The walk reaches what the relation reaches\<close>

definition edge_rel :: "adjacency \<Rightarrow> (string \<times> string) set" where
  "edge_rel edges = {(a, b). b \<in> set (successors edges a)}"

definition walk_inv :: "adjacency \<Rightarrow> string set \<Rightarrow> string list \<Rightarrow> string list \<Rightarrow> bool" where
  "walk_inv edges roots seen queue \<longleftrightarrow>
     roots \<subseteq> set seen \<and> set queue \<subseteq> set seen \<and> set seen \<subseteq> (edge_rel edges)\<^sup>* `` roots \<and>
     (\<forall>a \<in> set seen - set queue. set (successors edges a) \<subseteq> set seen)"

lemma walk_inv_step:
  assumes inv: "walk_inv edges roots seen (node # queue)"
    and step: "fold visit (successors edges node) (seen, queue) = (seen', queue')"
  shows "walk_inv edges roots seen' queue'"
proof -
  from fold_visit [OF step] obtain new where
    n: "set seen' = set (successors edges node) \<union> set seen" "queue' = queue @ new"
      "set new = set (successors edges node) - set seen" by blast
  from inv have node: "node \<in> set seen" and reach: "set seen \<subseteq> (edge_rel edges)\<^sup>* `` roots"
    by (auto simp: walk_inv_def)
  have "set (successors edges node) \<subseteq> (edge_rel edges)\<^sup>* `` roots"
  proof
    fix b assume "b \<in> set (successors edges node)"
    then have "(node, b) \<in> edge_rel edges" by (simp add: edge_rel_def)
    moreover from node reach obtain a where "a \<in> roots" "(a, node) \<in> (edge_rel edges)\<^sup>*" by blast
    ultimately show "b \<in> (edge_rel edges)\<^sup>* `` roots" by (blast intro: rtrancl_into_rtrancl)
  qed
  moreover have "set (successors edges a) \<subseteq> set seen'" if "a \<in> set seen' - set queue'" for a
  proof (cases "a = node")
    case False
    with that n have "a \<in> set seen - set (node # queue)" by auto
    with inv n(1) show ?thesis by (auto simp: walk_inv_def)
  qed (use n in auto)
  ultimately show ?thesis using inv n by (auto simp: walk_inv_def)
qed

lemma walk_inv_done:
  assumes "walk_inv edges roots seen []"
  shows "set seen = (edge_rel edges)\<^sup>* `` roots"
proof -
  from assms have inv: "roots \<subseteq> set seen" "set seen \<subseteq> (edge_rel edges)\<^sup>* `` roots"
    "edge_rel edges `` set seen \<subseteq> set seen"
    by (auto simp: walk_inv_def edge_rel_def)
  have "(edge_rel edges)\<^sup>* `` set seen \<subseteq> set seen" using inv(3) by (simp add: Image_closed_trancl)
  with inv(1,2) show ?thesis by (meson Image_mono order_antisym order_refl order_trans)
qed

lemma walk_loop_inv:
  "walk_inv edges roots seen queue \<Longrightarrow> set (walk_loop edges seen queue) = (edge_rel edges)\<^sup>* `` roots"
proof (induction edges seen queue rule: walk_loop.induct)
  case (1 edges seen queue)
  show ?case
  proof (cases queue)
    case Nil
    with 1 walk_inv_done show ?thesis by (subst walk_loop.simps) simp
  next
    case (Cons node rest)
    obtain seen' queue' where step: "fold visit (successors edges node) (seen, rest) = (seen', queue')"
      by (meson surj_pair)
    from 1(2) have "walk_inv edges roots seen (node # rest)" unfolding Cons .
    from "1.IH" [OF Cons step [symmetric] walk_inv_step [OF this step]] Cons step show ?thesis
      by (subst walk_loop.simps) simp
  qed
qed

lemma set_walk: "set (walk edges roots) = (edge_rel edges)\<^sup>* `` set roots"
proof -
  obtain seen queue where s: "fold visit roots ([], []) = (seen, queue)" by (meson surj_pair)
  from fold_visit [OF this] have "set seen = set roots" "set queue = set roots" by auto
  then have "walk_inv edges (set roots) seen queue" by (auto simp: walk_inv_def)
  from walk_loop_inv [OF this] s show ?thesis by (simp add: walk_def)
qed

section \<open>The contract of an adjacency\<close>

text \<open>
  A client builds an adjacency from its own data and only relies on one law: the successors of a
  node are its images under the relation the client means.
\<close>

locale search_graph =
  fixes adj :: "'d \<Rightarrow> adjacency"
    and rel :: "'d \<Rightarrow> (string \<times> string) set"
  assumes successors_rel: "set (successors (adj d) a) = rel d `` {a}"
begin

lemma edge_rel_adj: "edge_rel (adj d) = rel d"
  by (auto simp: edge_rel_def successors_rel)

lemma walk_reaches: "set (walk (adj d) roots) = (rel d)\<^sup>* `` set roots"
  by (simp add: set_walk edge_rel_adj)

lemma unreached_iff:
  "x \<in> set (bs_difference nodes (walk (adj d) roots)) \<longleftrightarrow>
     x \<in> set nodes \<and> (\<forall>r \<in> set roots. (r, x) \<notin> (rel d)\<^sup>*)"
  by (auto simp: walk_reaches)

end

end
