(* ===== verification/Jwss.thy ===== *)
theory Jwss
  imports Jfss WfGraph Search
begin

text \<open>
  \<open>workflow/domain/jwss.rs\<close>: validating a stored workflow definition.  Every check that pushes
  onto a \<open>details\<close> vector is the list of what it pushes; the loops of \<open>structural_errors\<close> that
  carry sets from one state or transition to the next keep them in a record.  The meta-schema
  validator is the \<open>jsonschema\<close> crate's (\<open>iter_errors\<close>, as in \<open>Jfss\<close>), and the text of a JSON
  value that is not a string is the parameter \<open>json_text\<close>.
\<close>

section \<open>Vocabulary\<close>

definition DOCUMENT_STATUSES :: "string list" where
  "DOCUMENT_STATUSES =
     [''DRAFT'', ''SUBMITTED'', ''IN_REVIEW'', ''PENDING_APPROVAL'', ''APPROVED'', ''REJECTED'',
      ''RETURNED'', ''COMPLETED'', ''ARCHIVED'', ''CANCELLED'']"

definition RESOLVABLE_ASSIGNEE_TYPES :: "string list" where
  "RESOLVABLE_ASSIGNEE_TYPES = [''USER'', ''ROLE'', ''DEPARTMENT_ROLE'', ''OWNER'']"

definition DOCUMENT_FACTS :: "string list" where
  "DOCUMENT_FACTS = [''status'', ''documentTypeId'', ''documentNumber'', ''documentTypeKey'']"

definition ACTOR_FACTS :: "string list" where
  "ACTOR_FACTS = [''userId'', ''roles'', ''departmentId'']"

definition GUARDED_ROOTS :: "string list" where
  "GUARDED_ROOTS = [''document'', ''actor'', ''variables'']"

abbreviation def_states :: "json \<Rightarrow> json list" where
  "def_states definition0 \<equiv> get_arr definition0 ''states''"

abbreviation def_transitions :: "json \<Rightarrow> json list" where
  "def_transitions definition0 \<equiv> get_arr definition0 ''transitions''"

definition at_state :: "nat \<Rightarrow> string \<Rightarrow> string" where
  "at_state index rest = ''definition.states.'' @ show_nat index @ rest"

definition at_transition :: "nat \<Rightarrow> string \<Rightarrow> string" where
  "at_transition index rest = ''definition.transitions.'' @ show_nat index @ rest"

definition at_variable :: "nat \<Rightarrow> string \<Rightarrow> string" where
  "at_variable index rest = ''definition.variables.'' @ show_nat index @ rest"

text \<open>A check made of a value when it is there.\<close>

definition if_some :: "'a option \<Rightarrow> ('a \<Rightarrow> 'b list) \<Rightarrow> 'b list" where
  "if_some v f = (case v of None \<Rightarrow> [] | Some x \<Rightarrow> f x)"

lemma if_some_Nil [simp]: "if_some v f = [] \<longleftrightarrow> (\<forall>x. v = Some x \<longrightarrow> f x = [])"
  by (auto simp: if_some_def split: option.split)

section \<open>Tasks, operators and assignments\<close>

definition task_type_errors :: "json \<Rightarrow> validation_detail list" where
  "task_type_errors definition0 =
     indexed (\<lambda>index state.
       if_some (get state ''task'') (\<lambda>task0.
         case parse_task_type (get_str task0 ''taskType'') of
           Inl refusal \<Rightarrow>
             [detail (at_state index ''.task.taskType'') ''S3'' ''TASK_TYPE_NOT_PERFORMED''
                (refusal_args refusal)]
         | Inr _ \<Rightarrow> []))
       (def_states definition0)"

definition jwss_shape_errors ::
  "(json \<Rightarrow> (string \<times> string) list) \<Rightarrow> json \<Rightarrow> validation_detail list" where
  "jwss_shape_errors iter_errors definition0 =
     map (\<lambda>(instance_path, message).
       let dotted = dotted_path instance_path;
           dotted = (if dotted = [] then ''definition'' else ''definition.'' @ dotted)
       in detail dotted ''jwss'' ''INVALID_DEFINITION'' [message])
       (iter_errors definition0)"

definition operator_errors :: "json \<Rightarrow> validation_detail list" where
  "operator_errors definition0 =
     indexed (\<lambda>index transition.
       if_some (get transition ''condition'') (\<lambda>condition0.
         check_operators condition0 CONDITIONAL_OPERATORS (at_transition index ''.condition'')) @
       if_some (Option.bind (get transition ''allowedBy'') (\<lambda>rule. get rule ''expression''))
         (\<lambda>expression. check_operators expression CONDITIONAL_OPERATORS
                         (at_transition index ''.allowedBy.expression'')))
       (def_transitions definition0) @
     indexed (\<lambda>index variable.
       if_some (get variable ''source'') (\<lambda>source.
         check_operators source CONDITIONAL_OPERATORS (at_variable index ''.source'')))
       (get_arr definition0 ''variables'') @
     indexed (\<lambda>index state.
       if_some (Option.bind (Option.bind (get state ''task'') (\<lambda>t. get t ''assignment''))
                  (\<lambda>rule. get rule ''expression''))
         (\<lambda>expression. check_operators expression CONDITIONAL_OPERATORS
                         (at_state index ''.task.assignment.expression'')))
       (def_states definition0)"

definition check_assignee_type :: "json \<Rightarrow> string \<Rightarrow> validation_detail list" where
  "check_assignee_type rule path =
     if_some (get_str rule ''assigneeType'') (\<lambda>kind.
       if kind \<in> set RESOLVABLE_ASSIGNEE_TYPES then []
       else [detail (path @ ''.assigneeType'') ''registry'' ''ASSIGNEE_TYPE_NOT_RESOLVABLE''
               [kind, join '', '' RESOLVABLE_ASSIGNEE_TYPES]])"

definition assignment_errors :: "json \<Rightarrow> validation_detail list" where
  "assignment_errors definition0 =
     indexed (\<lambda>index state.
       if_some (Option.bind (get state ''task'') (\<lambda>t. get t ''assignment'')) (\<lambda>rule.
         check_assignee_type rule (at_state index ''.task.assignment'')))
       (def_states definition0) @
     indexed (\<lambda>index transition.
       if_some (get transition ''allowedBy'') (\<lambda>rule.
         check_assignee_type rule (at_transition index ''.allowedBy'')))
       (def_transitions definition0)"

section \<open>Checks against the tenant\<close>

definition dead_role_errors :: "RoleReference list \<Rightarrow> string list \<Rightarrow> validation_detail list" where
  "dead_role_errors references0 live =
     map (\<lambda>reference. detail (rr_path reference) ''liveRole'' ''ROLE_NOT_LIVE'' [rr_role_code reference])
       (filter (\<lambda>reference. \<not> bs_contains live (rr_role_code reference)) references0)"

definition dead_department_errors ::
  "DepartmentReference list \<Rightarrow> string list \<Rightarrow> validation_detail list" where
  "dead_department_errors references0 live =
     map (\<lambda>reference. detail (dr_path reference) ''liveDepartment'' ''DEPARTMENT_NOT_LIVE''
                        [dr_department_code reference])
       (filter (\<lambda>reference. \<not> bs_contains live (dr_department_code reference)) references0)"

text \<open>\<open>role_scope_errors\<close> spells out the same two iterators \<open>rule_places\<close> chains.\<close>

definition role_scope_errors :: "(json \<Rightarrow> string) \<Rightarrow> json \<Rightarrow> validation_detail list" where
  "role_scope_errors json_text definition0 =
     concat (map (\<lambda>(path, rule).
       if get_str rule ''assigneeType'' \<noteq> Some ''ROLE'' then []
       else
         if_some (get rule ''departmentScope'') (\<lambda>scope.
           let text = (case as_str scope of None \<Rightarrow> json_text scope | Some s \<Rightarrow> s) in
           [detail (path @ ''.departmentScope'') ''roleScope'' ''ROLE_TAKES_NO_SCOPE'' [text]]))
       (rule_places definition0))"

section \<open>The paths of a condition\<close>

definition is_built :: "string \<Rightarrow> string list \<Rightarrow> bool" where
  "is_built path declared \<longleftrightarrow>
     (if path = [] then True
      else
        (case (case split_once (CHR ''.'') path of
                 Some (root, rest) \<Rightarrow> (root, Some rest) | None \<Rightarrow> (path, None)) of
           (root, None) \<Rightarrow> root \<in> {''document'', ''actor'', ''formData'', ''variables''}
         | (root, Some key) \<Rightarrow>
             if root = ''formData'' then True
             else if root = ''document'' then key \<in> set DOCUMENT_FACTS
             else if root = ''actor'' then
               key \<in> set ACTOR_FACTS \<or>
               (case strip_prefix ''roles.'' key of
                  None \<Rightarrow> False
                | Some index \<Rightarrow> index \<noteq> [] \<and> list_all is_ascii_digit index)
             else if root = ''variables'' then
               bs_contains declared (hd (split_on (CHR ''.'') key))
             else False))"

definition names_the_context :: "json \<Rightarrow> bool" where
  "names_the_context operand \<longleftrightarrow>
     operand = Null \<or>
     (case as_array operand of Some [] \<Rightarrow> True | Some [x] \<Rightarrow> x = Null | _ \<Rightarrow> False) \<or>
     (case var_path operand of None \<Rightarrow> False | Some path \<Rightarrow> path = [] \<or> path \<in> set GUARDED_ROOTS)"

function (sequential) reads_the_context :: "json \<Rightarrow> bool" where
  "reads_the_context (Object m) =
     list_ex (\<lambda>(operator, argument).
       if operator = ''var'' then
         names_the_context argument \<or>
         (case var_default argument of None \<Rightarrow> False | Some d \<Rightarrow> reads_the_context d)
       else if operator \<in> set ITERATORS then
         list_ex reads_the_context (somes (iterator_operands operator argument))
       else reads_the_context argument) m"
| "reads_the_context (Array items) = list_ex reads_the_context items"
| "reads_the_context _ = False"
  by pat_completeness auto
termination
  by (relation "measure size")
    (fastforce dest: size_array_mem size_object_mem size_var_default size_iterator_operands)+

function (sequential) hands_an_iterator_the_context :: "json \<Rightarrow> bool" where
  "hands_an_iterator_the_context (Object m) =
     list_ex (\<lambda>(operator, argument).
       if operator \<in> set ITERATORS then
         list_ex reads_the_context (somes (iterator_operands operator argument))
       else hands_an_iterator_the_context argument) m"
| "hands_an_iterator_the_context (Array items) = list_ex hands_an_iterator_the_context items"
| "hands_an_iterator_the_context _ = False"
  by pat_completeness auto
termination
  by (relation "measure size") (fastforce dest: size_array_mem size_object_mem)+

text \<open>The paths read that the engine does not build, each once, in the order they are read.\<close>

definition unbuilt_paths :: "string list \<Rightarrow> json \<Rightarrow> string list" where
  "unbuilt_paths declared expression =
     snd (fold (\<lambda>read (seen, unbuilt).
       if \<not> is_built read declared \<and> \<not> bs_contains seen read
       then (bs_insert read seen, unbuilt @ [read]) else (seen, unbuilt))
       (visit_paths expression) ([], []))"

definition check_condition ::
  "string list \<Rightarrow> string \<Rightarrow> json \<Rightarrow> bool \<Rightarrow> validation_detail list" where
  "check_condition declared path expression stored_whole =
     map (\<lambda>read. detail path ''conditionPath'' ''CONDITION_PATH_NOT_BUILT'' [read])
       (unbuilt_paths declared expression) @
     (let holds_the_context =
            (if stored_whole then reads_the_context expression
             else hands_an_iterator_the_context expression)
      in if reads_computed_path expression \<or> holds_the_context
         then [detail path ''conditionPath'' ''CONDITION_PATH_COMPUTED'' []] else [])"

definition declared_variables :: "json \<Rightarrow> string list" where
  "declared_variables definition0 =
     bs_collect (somes (map (\<lambda>variable. get_str variable ''key'') (get_arr definition0 ''variables'')))"

definition condition_path_errors :: "json \<Rightarrow> validation_detail list" where
  "condition_path_errors definition0 =
     indexed (\<lambda>index transition.
       if_some (get transition ''condition'') (\<lambda>condition0.
         check_condition (declared_variables definition0) (at_transition index ''.condition'')
           condition0 False))
       (def_transitions definition0) @
     indexed (\<lambda>index variable.
       if_some (get variable ''source'') (\<lambda>source.
         check_condition (declared_variables definition0) (at_variable index ''.source'') source
           (get_str variable ''dataType'' = Some ''JSON'')))
       (get_arr definition0 ''variables'')"

end
