(* ===== verification/Structure.thy ===== *)
theory Structure
  imports Jwss
begin

text \<open>
  The structural rules of \<open>workflow/domain/jwss.rs\<close> (S1-S4, S6, S7 and S9 of the JWSS), and
  \<open>validate_definition\<close>, which every check of a stored workflow goes through.  The state the two
  loops of \<open>structural_errors\<close> thread is a record each; the two adjacency maps of
  \<open>reachability_errors\<close> are built by one loop, as in the code.
\<close>

section \<open>S1-S4 and S9\<close>

record StateScan =
  sc_codes :: "string list"
  sc_finals :: "string list"
  sc_mapped :: "string list"
  sc_details :: "validation_detail list"

definition scan_state :: "nat \<times> json \<Rightarrow> StateScan \<Rightarrow> StateScan" where
  "scan_state = (\<lambda>(index, state) sc.
     case get_str state ''code'' of
       None \<Rightarrow> sc
     | Some c \<Rightarrow>
         let duplicate =
               (if bs_contains (sc_codes sc) c
                then [detail (at_state index ''.code'') ''S3'' ''DUPLICATE_STATE'' [c]] else []);
             mapped = get_str state ''mapsToDocumentStatus'';
             unknown =
               (case mapped of
                  Some status \<Rightarrow>
                    if status \<in> set DOCUMENT_STATUSES then []
                    else [detail (at_state index ''.mapsToDocumentStatus'') ''S9''
                            ''UNKNOWN_DOCUMENT_STATUS'' [status]]
                | None \<Rightarrow> [])
         in \<lparr>sc_codes = bs_insert c (sc_codes sc),
             sc_finals = (if get_bool_or False state ''isFinal'' then bs_insert c (sc_finals sc)
                          else sc_finals sc),
             sc_mapped =
               (case mapped of
                  Some status \<Rightarrow>
                    if status \<in> set DOCUMENT_STATUSES then bs_insert status (sc_mapped sc)
                    else sc_mapped sc
                | None \<Rightarrow> sc_mapped sc),
             sc_details = sc_details sc @ duplicate @ unknown\<rparr>)"

definition scan_states :: "json list \<Rightarrow> StateScan" where
  "scan_states states0 =
     fold scan_state (enumerate 0 states0)
       \<lparr>sc_codes = [], sc_finals = [], sc_mapped = [], sc_details = []\<rparr>"

text \<open>S1: what it reports, and the initial state S6 walks from.\<close>

definition check_initial ::
  "string option \<Rightarrow> string list \<Rightarrow> string list \<Rightarrow> validation_detail list \<times> string option" where
  "check_initial declared codes finals =
     (case declared of
        None \<Rightarrow> ([], None)
      | Some initial \<Rightarrow>
          if \<not> bs_contains codes initial then
            ([detail ''definition.initialState'' ''S1'' ''UNDECLARED_STATE'' [initial]], None)
          else if bs_contains finals initial then
            ([detail ''definition.initialState'' ''S1'' ''INITIAL_STATE_IS_FINAL'' [initial]],
             Some initial)
          else ([], Some initial))"

definition str_or_empty :: "json \<Rightarrow> string \<Rightarrow> string" where
  "str_or_empty v key = (case get_str v key of None \<Rightarrow> [] | Some s \<Rightarrow> s)"

definition scan_transition ::
  "string list \<Rightarrow> string list \<Rightarrow> nat \<times> json
   \<Rightarrow> (string \<times> string \<times> string) list \<times> validation_detail list
   \<Rightarrow> (string \<times> string \<times> string) list \<times> validation_detail list" where
  "scan_transition codes finals = (\<lambda>(index, transition) (triples, details).
     let from0 = str_or_empty transition ''from'';
         to0 = str_or_empty transition ''to'';
         act = str_or_empty transition ''action'';
         ends = concat (map (\<lambda>(end0, c).
           if c \<noteq> [] \<and> \<not> bs_contains codes c
           then [detail (at_transition index (''.'' @ end0)) ''S2'' ''UNDECLARED_STATE'' [c]] else [])
           [(''from'', from0), (''to'', to0)]);
         duplicate =
           (if bs_contains triples (from0, act, to0)
            then [detail (at_transition index []) ''S3'' ''DUPLICATE_TRANSITION'' [from0, act, to0]]
            else []);
         leaves =
           (if bs_contains finals from0
            then [detail (at_transition index ''.from'') ''S4'' ''TRANSITION_FROM_FINAL'' [from0]]
            else [])
     in (bs_insert (from0, act, to0) triples, details @ ends @ duplicate @ leaves))"

section \<open>S6: reachability\<close>

definition edge_of :: "string list \<Rightarrow> json \<Rightarrow> (string \<times> string) option" where
  "edge_of codes transition =
     (case (get_str transition ''from'', get_str transition ''to'') of
        (Some from0, Some to0) \<Rightarrow>
          if \<not> bs_contains codes from0 \<or> \<not> bs_contains codes to0 then None else Some (from0, to0)
      | _ \<Rightarrow> None)"

definition push_edge :: "string \<Rightarrow> string \<Rightarrow> adjacency \<Rightarrow> adjacency" where
  "push_edge from0 to0 edges = bm_entry from0 [] (\<lambda>targets. targets @ [to0]) edges"

definition adjacencies :: "string list \<Rightarrow> json list \<Rightarrow> adjacency \<times> adjacency" where
  "adjacencies codes transitions0 =
     fold (\<lambda>transition (forward, backward).
       case edge_of codes transition of
         None \<Rightarrow> (forward, backward)
       | Some (from0, to0) \<Rightarrow> (push_edge from0 to0 forward, push_edge to0 from0 backward))
       transitions0 ([], [])"

definition reachability_errors ::
  "string option \<Rightarrow> string list \<Rightarrow> string list \<Rightarrow> json list \<Rightarrow> validation_detail list" where
  "reachability_errors initial codes finals transitions0 =
     (if codes = [] then []
      else
        (case adjacencies codes transitions0 of
           (forward, backward) \<Rightarrow>
             if_some initial (\<lambda>initial.
               map (\<lambda>orphan. detail ''definition.states'' ''S6'' ''UNREACHABLE_STATE'' [orphan])
                 (bs_difference codes (walk forward [initial]))) @
             concat (map (\<lambda>state.
               if bs_contains finals state then []
               else [detail ''definition.states'' ''S6'' ''DEAD_END_STATE'' [state]])
               (bs_difference codes (walk backward finals)))))"

section \<open>S7: fallbacks\<close>

definition fallback_key :: "json \<Rightarrow> string \<times> string" where
  "fallback_key transition = (str_or_empty transition ''from'', str_or_empty transition ''action'')"

definition count_fallbacks :: "json list \<Rightarrow> ((string \<times> string) \<times> nat) list" where
  "count_fallbacks transitions0 =
     fold (\<lambda>transition fallbacks.
       if get transition ''condition'' \<noteq> None then fallbacks
       else bm_entry (fallback_key transition) 0 Suc fallbacks) transitions0 []"

definition fallback_errors :: "json list \<Rightarrow> validation_detail list" where
  "fallback_errors transitions0 =
     concat (map (\<lambda>((from0, act), count).
       if count > 1
       then [detail ''definition.transitions'' ''S7'' ''AMBIGUOUS_FALLBACK'' [show_nat count, from0, act]]
       else []) (count_fallbacks transitions0))"

section \<open>The whole validator\<close>

definition structural_errors :: "json \<Rightarrow> validation_detail list" where
  "structural_errors definition0 =
     (let states0 = def_states definition0;
          transitions0 = def_transitions definition0;
          sc = scan_states states0;
          codes = sc_codes sc;
          finals = sc_finals sc
      in case check_initial (get_str definition0 ''initialState'') codes finals of
           (initial_details, initial) \<Rightarrow>
             sc_details sc @ initial_details @
             snd (fold (scan_transition codes finals) (enumerate 0 transitions0) ([], [])) @
             reachability_errors initial codes finals transitions0 @
             fallback_errors transitions0 @
             (if states0 \<noteq> [] \<and> \<not> bs_contains (sc_mapped sc) ''COMPLETED'' \<and>
                 \<not> bs_contains (sc_mapped sc) ''CANCELLED''
              then [detail ''definition.states'' ''S9'' ''NO_TERMINAL_STATUS'' []] else []))"

definition validate_definition ::
  "(json \<Rightarrow> (string \<times> string) list) \<Rightarrow> json \<Rightarrow> validation_detail list" where
  "validate_definition iter_errors definition0 =
     jwss_shape_errors iter_errors definition0 @ operator_errors definition0 @
     assignment_errors definition0 @ task_type_errors definition0 @
     registration_errors definition0 @ structural_errors definition0"

section \<open>What the state loop collects\<close>

definition coded :: "json list \<Rightarrow> (string \<times> json) list" where
  "coded states0 = somes (map (\<lambda>s. map_option (\<lambda>c. (c, s)) (get_str s ''code'')) states0)"

definition scan_grows :: "json list \<Rightarrow> StateScan \<Rightarrow> StateScan \<Rightarrow> bool" where
  "scan_grows states0 sc0 sc \<longleftrightarrow>
     set (sc_codes sc) = set (map fst (coded states0)) \<union> set (sc_codes sc0) \<and>
     set (sc_finals sc) =
       {c. \<exists>s. (c, s) \<in> set (coded states0) \<and> get_bool_or False s ''isFinal''} \<union> set (sc_finals sc0) \<and>
     set (sc_mapped sc) =
       {m. \<exists>c s. (c, s) \<in> set (coded states0) \<and> get_str s ''mapsToDocumentStatus'' = Some m \<and>
          m \<in> set DOCUMENT_STATUSES} \<union> set (sc_mapped sc0) \<and>
     (bs_wf (sc_codes sc0) \<longrightarrow> bs_wf (sc_codes sc)) \<and>
     (bs_wf (sc_finals sc0) \<longrightarrow> bs_wf (sc_finals sc))"

lemma coded_Cons: "coded (s # ss) = coded [s] @ coded ss"
  by (cases "get_str s ''code''") (simp_all add: coded_def)

lemma scan_grows_step: "scan_grows [s] sc (scan_state (n, s) sc)"
  by (auto simp: scan_grows_def scan_state_def coded_def Let_def split: option.split)

lemma scan_grows_trans:
  "scan_grows [s] sc0 sc1 \<Longrightarrow> scan_grows ss sc1 sc2 \<Longrightarrow> scan_grows (s # ss) sc0 sc2"
  unfolding scan_grows_def coded_Cons [of s ss] by auto

lemma scan_grows_fold: "scan_grows states0 sc (fold scan_state (enumerate n states0) sc)"
proof (induction states0 arbitrary: n sc)
  case (Cons s states0)
  show ?case
    using scan_grows_trans [OF scan_grows_step Cons.IH] by simp
qed (simp add: scan_grows_def coded_def)

lemma scan_states_sets:
  shows "set (sc_codes (scan_states states0)) = set (map fst (coded states0))"
    and "set (sc_finals (scan_states states0)) =
      {c. \<exists>s. (c, s) \<in> set (coded states0) \<and> get_bool_or False s ''isFinal''}"
    and "set (sc_mapped (scan_states states0)) =
      {m. \<exists>c s. (c, s) \<in> set (coded states0) \<and> get_str s ''mapsToDocumentStatus'' = Some m \<and>
         m \<in> set DOCUMENT_STATUSES}"
    and "bs_wf (sc_codes (scan_states states0))" "bs_wf (sc_finals (scan_states states0))"
  using scan_grows_fold [of states0 "\<lparr>sc_codes = [], sc_finals = [], sc_mapped = [], sc_details = []\<rparr>" 0]
  by (simp_all add: scan_grows_def scan_states_def)

text \<open>Its details: empty exactly when the codes are distinct and every status is known.\<close>

lemma scan_details_grow:
  "set (sc_details sc) \<subseteq> set (sc_details (fold scan_state xs sc))"
proof (induction xs arbitrary: sc)
  case (Cons x xs)
  have "set (sc_details sc) \<subseteq> set (sc_details (scan_state x sc))"
    by (cases x) (auto simp: scan_state_def Let_def split: option.split)
  with Cons [of "scan_state x sc"] show ?case by auto
qed simp

lemma scan_details_Nil:
  "sc_details (fold scan_state (enumerate n states0) sc) = [] \<Longrightarrow>
   distinct (map fst (coded states0)) \<and> set (map fst (coded states0)) \<inter> set (sc_codes sc) = {}"
proof (induction states0 arbitrary: n sc)
  case (Cons s states0)
  let ?sc1 = "scan_state (n, s) sc"
  from Cons.prems have nil: "sc_details (fold scan_state (enumerate (Suc n) states0) ?sc1) = []" by simp
  with scan_details_grow [of ?sc1 "enumerate (Suc n) states0"] have "sc_details ?sc1 = []" by simp
  moreover from scan_grows_step [of s sc n]
  have "set (sc_codes ?sc1) = set (map fst (coded [s])) \<union> set (sc_codes sc)" by (simp add: scan_grows_def)
  ultimately show ?case
    using Cons.IH [OF nil] unfolding coded_Cons [of s states0]
    by (cases "get_str s ''code''") (auto simp: coded_def scan_state_def Let_def split: if_splits)
qed (simp add: coded_def)

section \<open>The adjacencies are the edges, forwards and backwards\<close>

definition code_edges :: "string list \<times> json list \<Rightarrow> (string \<times> string) set" where
  "code_edges = (\<lambda>(codes, transitions0). {e. \<exists>t \<in> set transitions0. edge_of codes t = Some e})"

lemma successors_push:
  "bm_wf edges \<Longrightarrow> set (successors (push_edge x y edges) a) =
     set (successors edges a) \<union> (if a = x then {y} else {})"
  by (cases "a = x"; cases "map_of edges x")
    (simp_all add: successors_def push_edge_def map_of_bm_entry)

lemma bm_wf_push [simp, intro]: "bm_wf edges \<Longrightarrow> bm_wf (push_edge x y edges)"
  by (simp add: push_edge_def)

definition adj_inv :: "(string \<times> string) set \<Rightarrow> adjacency \<times> adjacency \<Rightarrow> bool" where
  "adj_inv E = (\<lambda>(fwd, bwd). bm_wf fwd \<and> bm_wf bwd \<and>
     (\<forall>a. set (successors fwd a) = E `` {a}) \<and> (\<forall>a. set (successors bwd a) = E\<inverse> `` {a}))"

lemma adjacencies_inv: "adj_inv (code_edges (codes, transitions0)) (adjacencies codes transitions0)"
proof -
  let ?f = "\<lambda>t (fwd, bwd). case edge_of codes t of None \<Rightarrow> (fwd, bwd)
      | Some (x, y) \<Rightarrow> (push_edge x y fwd, push_edge y x bwd)"
  have step: "adj_inv (E \<union> {e. edge_of codes t = Some e}) (?f t p)" if "adj_inv E p" for E t p
    using that by (cases p; cases "edge_of codes t") (auto simp: adj_inv_def successors_push split: if_splits)
  have "adj_inv (E \<union> code_edges (codes, ts)) (fold ?f ts p)" if "adj_inv E p" for E ts p
    using that
  proof (induction ts arbitrary: E p)
    case (Cons t ts)
    have "E \<union> code_edges (codes, t # ts) = (E \<union> {e. edge_of codes t = Some e}) \<union> code_edges (codes, ts)"
      by (auto simp: code_edges_def)
    then show ?case using Cons.IH [OF step [OF Cons.prems]] by simp
  qed (simp add: code_edges_def)
  from this [of "{}" "([], [])" transitions0] show ?thesis
    by (simp add: adj_inv_def adjacencies_def successors_def)
qed

abbreviation forward_of :: "string list \<times> json list \<Rightarrow> adjacency" where
  "forward_of d \<equiv> fst (adjacencies (fst d) (snd d))"

abbreviation backward_of :: "string list \<times> json list \<Rightarrow> adjacency" where
  "backward_of d \<equiv> snd (adjacencies (fst d) (snd d))"

lemma adjacencies_successors:
  "set (successors (forward_of d) a) = code_edges d `` {a}"
  "set (successors (backward_of d) a) = (code_edges d)\<inverse> `` {a}"
  using adjacencies_inv [of "fst d" "snd d"] by (simp_all add: adj_inv_def case_prod_unfold)

interpretation forward: search_graph forward_of code_edges
  by unfold_locales (rule adjacencies_successors)

interpretation backward: search_graph backward_of "\<lambda>d. (code_edges d)\<inverse>"
  by unfold_locales (rule adjacencies_successors)

section \<open>S6 says exactly which states are stranded\<close>

lemma unreachable_reported:
  assumes "codes \<noteq> []"
  shows "detail ''definition.states'' ''S6'' ''UNREACHABLE_STATE'' [s] \<in>
      set (reachability_errors (Some initial) codes finals ts) \<longleftrightarrow>
    s \<in> set codes \<and> (initial, s) \<notin> (code_edges (codes, ts))\<^sup>*"
  using assms forward.unreached_iff [of s codes "(codes, ts)" "[initial]"]
  by (auto simp: reachability_errors_def if_some_def case_prod_unfold split: if_splits)

lemma dead_end_reported:
  assumes "codes \<noteq> []"
  shows "detail ''definition.states'' ''S6'' ''DEAD_END_STATE'' [s] \<in>
      set (reachability_errors initial codes finals ts) \<longleftrightarrow>
    s \<in> set codes \<and> s \<notin> set finals \<and>
    (\<forall>f \<in> set finals. (s, f) \<notin> (code_edges (codes, ts))\<^sup>*)"
  using assms backward.unreached_iff [of s codes "(codes, ts)" finals]
  by (auto simp: reachability_errors_def if_some_def case_prod_unfold rtrancl_converse
      split: if_splits option.splits)

lemma reachability_Nil:
  assumes "reachability_errors initial codes finals ts = []"
  shows "initial = Some i \<Longrightarrow> s \<in> set codes \<Longrightarrow> (i, s) \<in> (code_edges (codes, ts))\<^sup>*"
    and "s \<in> set codes \<Longrightarrow> \<exists>f \<in> set finals. (s, f) \<in> (code_edges (codes, ts))\<^sup>*"
proof -
  show "(i, s) \<in> (code_edges (codes, ts))\<^sup>*" if "initial = Some i" "s \<in> set codes"
    using unreachable_reported [of codes s i finals ts] assms that by fastforce
  show "\<exists>f \<in> set finals. (s, f) \<in> (code_edges (codes, ts))\<^sup>*" if "s \<in> set codes"
    using dead_end_reported [of codes s initial finals ts] assms that by fastforce
qed

section \<open>S7 counts the fallbacks of each decision\<close>

lemma count_fallbacks_inv:
  fixes ts :: "json list" and m :: "((string \<times> string) \<times> nat) list"
  assumes "bm_wf m"
  defines "m' \<equiv> fold (\<lambda>t fb. if get t ''condition'' \<noteq> None then fb
                          else bm_entry (fallback_key t) 0 Suc fb) ts m"
  shows "bm_wf m' \<and>
    (\<forall>k. (case map_of m' k of None \<Rightarrow> 0 | Some n \<Rightarrow> n) =
       (case map_of m k of None \<Rightarrow> 0 | Some n \<Rightarrow> n) +
       length (filter (\<lambda>t. get t ''condition'' = None \<and> fallback_key t = k) ts))"
  unfolding m'_def using assms(1)
proof (induction ts arbitrary: m)
  case (Cons t ts)
  show ?case
  proof (cases "get t ''condition''")
    case None
    let ?m = "bm_entry (fallback_key t) 0 Suc m"
    have count: "(case map_of ?m k of None \<Rightarrow> 0 | Some n \<Rightarrow> n) =
        (case map_of m k of None \<Rightarrow> 0 | Some n \<Rightarrow> n) + (if fallback_key t = k then 1 else 0)" for k
      using Cons.prems by (simp add: map_of_bm_entry split: option.split)
    show ?thesis using Cons.IH [of ?m] Cons.prems None by (simp add: count)
  qed (use Cons in simp)
qed simp

lemma count_fallbacks:
  "bm_wf (count_fallbacks ts)"
  "(case map_of (count_fallbacks ts) k of None \<Rightarrow> 0 | Some n \<Rightarrow> n) =
     length (filter (\<lambda>t. get t ''condition'' = None \<and> fallback_key t = k) ts)"
  using count_fallbacks_inv [of "[]" ts, THEN conjunct1]
    count_fallbacks_inv [of "[]" ts, THEN conjunct2, rule_format, of k]
  by (simp_all add: count_fallbacks_def)

lemma fallback_errors_Nil:
  "fallback_errors ts = [] \<longleftrightarrow>
   (\<forall>k. length (filter (\<lambda>t. get t ''condition'' = None \<and> fallback_key t = k) ts) \<le> 1)"
proof
  assume nil: "fallback_errors ts = []"
  show "\<forall>k. length (filter (\<lambda>t. get t ''condition'' = None \<and> fallback_key t = k) ts) \<le> 1"
  proof
    fix k
    have "n \<le> 1" if "map_of (count_fallbacks ts) k = Some n" for n
      using nil map_of_SomeD [OF that] unfolding fallback_errors_def concat_map_Nil_iff
      by (cases k) (auto dest!: bspec split: if_splits)
    then show "length (filter (\<lambda>t. get t ''condition'' = None \<and> fallback_key t = k) ts) \<le> 1"
      unfolding count_fallbacks(2) [symmetric] by (simp split: option.split)
  qed
next
  assume le: "\<forall>k. length (filter (\<lambda>t. get t ''condition'' = None \<and> fallback_key t = k) ts) \<le> 1"
  have "n \<le> 1" if "(k, n) \<in> set (count_fallbacks ts)" for k n
  proof -
    have "map_of (count_fallbacks ts) k = Some n"
      using that bm_wf_map_of [OF count_fallbacks(1)] by metis
    with spec [OF le, of k] count_fallbacks(2) [of ts k] show ?thesis by simp
  qed
  then show "fallback_errors ts = []" by (fastforce simp: fallback_errors_def)
qed

section \<open>What a clean structure guarantees\<close>

text \<open>The declared states, the final ones and the edges between declared states of a definition.\<close>

definition state_codes :: "json \<Rightarrow> string set" where
  "state_codes d = {c. \<exists>s \<in> set (def_states d). get_str s ''code'' = Some c}"

definition final_codes :: "json \<Rightarrow> string set" where
  "final_codes d =
     {c. \<exists>s \<in> set (def_states d). get_str s ''code'' = Some c \<and> get_bool_or False s ''isFinal''}"

definition moves :: "json \<Rightarrow> (string \<times> string) set" where
  "moves d = {(a, b). \<exists>t \<in> set (def_transitions d). get_str t ''from'' = Some a \<and> get_str t ''to'' = Some b}"

lemma mem_coded: "(c, s) \<in> set (coded ss) \<longleftrightarrow> s \<in> set ss \<and> get_str s ''code'' = Some c"
proof -
  have "Some (c, s) = map_option (\<lambda>c. (c, x)) v \<longleftrightarrow> v = Some c \<and> x = s" for x v
    by (cases v) auto
  then show ?thesis by (auto simp: coded_def image_iff)
qed

lemma fst_coded: "set (map fst (coded ss)) = {c. \<exists>s. (c, s) \<in> set (coded ss)}"
  by force

lemma scanned_codes [simp]:
  "set (sc_codes (scan_states (def_states d))) = state_codes d"
  "set (sc_finals (scan_states (def_states d))) = final_codes d"
  unfolding scan_states_sets fst_coded by (auto simp: mem_coded state_codes_def final_codes_def)

lemma structural_parts:
  assumes "structural_errors d = []"
  defines "sc \<equiv> scan_states (def_states d)"
  shows "sc_details sc = []"
    and "fst (check_initial (get_str d ''initialState'') (sc_codes sc) (sc_finals sc)) = []"
    and "snd (fold (scan_transition (sc_codes sc) (sc_finals sc))
           (enumerate 0 (def_transitions d)) ([], [])) = []"
    and "reachability_errors (snd (check_initial (get_str d ''initialState'') (sc_codes sc) (sc_finals sc)))
           (sc_codes sc) (sc_finals sc) (def_transitions d) = []"
    and "fallback_errors (def_transitions d) = []"
  using assms(1) unfolding structural_errors_def sc_def Let_def
  by (simp_all split: prod.splits)

lemma scan_transition_grow:
  "set (snd acc) \<subseteq> set (snd (fold (scan_transition codes finals) xs acc))"
proof (induction xs arbitrary: acc)
  case (Cons x xs)
  have "set (snd acc) \<subseteq> set (snd (scan_transition codes finals x acc))"
    by (cases x; cases acc) (simp add: scan_transition_def Let_def)
  with Cons [of "scan_transition codes finals x acc"] show ?case by auto
qed simp

lemma scan_transition_member:
  assumes "snd (fold (scan_transition codes finals) xs acc) = []" "(i, t) \<in> set xs"
  shows "snd (scan_transition codes finals (i, t) ([], [])) = []"
  using assms
proof (induction xs arbitrary: acc)
  case (Cons x xs)
  let ?acc = "scan_transition codes finals x acc"
  from Cons.prems(1) have nil: "snd (fold (scan_transition codes finals) xs ?acc) = []" by simp
  show ?case
  proof (cases "x = (i, t)")
    case True
    from scan_transition_grow [of ?acc codes finals xs] nil have "snd ?acc = []" by simp
    with True show ?thesis
      by (cases acc) (auto simp: scan_transition_def Let_def split: if_splits)
  next
    case False
    with Cons.IH [OF nil] Cons.prems(2) show ?thesis by simp
  qed
qed simp

lemma scan_transition_clean:
  assumes "snd (fold (scan_transition codes finals) (enumerate 0 ts) acc) = []" "t \<in> set ts"
  shows "get_str t ''from'' = Some a \<Longrightarrow> a \<noteq> [] \<Longrightarrow> a \<in> set codes"
    and "get_str t ''to'' = Some b \<Longrightarrow> b \<noteq> [] \<Longrightarrow> b \<in> set codes"
    and "get_str t ''from'' = Some a \<Longrightarrow> a \<notin> set finals"
proof -
  from assms(2) obtain i where "i < length ts" "ts ! i = t" by (auto simp: in_set_conv_nth)
  then have "(i, t) \<in> set (enumerate 0 ts)" by (simp add: in_set_enumerate_0)
  from scan_transition_member [OF assms(1) this]
  have *: "snd (scan_transition codes finals (i, t) ([], [])) = []" .
  show "get_str t ''from'' = Some a \<Longrightarrow> a \<noteq> [] \<Longrightarrow> a \<in> set codes"
    using * by (auto simp: scan_transition_def Let_def str_or_empty_def split: if_splits)
  show "get_str t ''to'' = Some b \<Longrightarrow> b \<noteq> [] \<Longrightarrow> b \<in> set codes"
    using * by (auto simp: scan_transition_def Let_def str_or_empty_def split: if_splits)
  show "get_str t ''from'' = Some a \<Longrightarrow> a \<notin> set finals"
    using * by (auto simp: scan_transition_def Let_def str_or_empty_def split: if_splits)
qed

lemma structural_gate:
  assumes "structural_errors d = []"
  shows "distinct (map fst (coded (def_states d)))"
    and "get_str d ''initialState'' = Some i \<Longrightarrow> i \<in> state_codes d - final_codes d"
    and "(a, b) \<in> moves d \<Longrightarrow> a \<noteq> [] \<Longrightarrow> b \<noteq> [] \<Longrightarrow> a \<in> state_codes d - final_codes d \<and> b \<in> state_codes d"
    and "get_str d ''initialState'' = Some i \<Longrightarrow> c \<in> state_codes d \<Longrightarrow> (i, c) \<in> (moves d)\<^sup>*"
    and "c \<in> state_codes d \<Longrightarrow> \<exists>f \<in> final_codes d. (c, f) \<in> (moves d)\<^sup>*"
proof -
  note parts = structural_parts [OF assms]
  let ?sc = "scan_states (def_states d)"
  show "distinct (map fst (coded (def_states d)))"
    using parts(1) scan_details_Nil unfolding scan_states_def by blast
  have init: "i \<in> state_codes d - final_codes d \<and>
      snd (check_initial (get_str d ''initialState'') (sc_codes ?sc) (sc_finals ?sc)) = Some i"
    if "get_str d ''initialState'' = Some i" for i
    using parts(2) that by (auto simp: check_initial_def split: if_splits)
  then show "get_str d ''initialState'' = Some i \<Longrightarrow> i \<in> state_codes d - final_codes d" by blast
  show "(a, b) \<in> moves d \<Longrightarrow> a \<noteq> [] \<Longrightarrow> b \<noteq> [] \<Longrightarrow> a \<in> state_codes d - final_codes d \<and> b \<in> state_codes d"
    using scan_transition_clean [OF parts(3)] by (fastforce simp: moves_def)
  have "code_edges (sc_codes ?sc, def_transitions d) \<subseteq> moves d"
    by (auto simp: code_edges_def moves_def edge_of_def split: option.splits if_splits)
  note mono = rtrancl_mono [OF this]
  show "(i, c) \<in> (moves d)\<^sup>*" if i: "get_str d ''initialState'' = Some i" and "c \<in> state_codes d"
    using reachability_Nil(1) [OF parts(4), of i c] init [OF i] that mono by auto
  show "\<exists>f \<in> final_codes d. (c, f) \<in> (moves d)\<^sup>*" if "c \<in> state_codes d"
    using reachability_Nil(2) [OF parts(4), of c] that mono by auto
qed

lemma structural_fallbacks:
  "structural_errors d = [] \<Longrightarrow>
   length (filter (\<lambda>t. get t ''condition'' = None \<and> fallback_key t = k) (def_transitions d)) \<le> 1"
  using structural_parts(5) fallback_errors_Nil by blast

end
