(* ===== verification/WorkflowGate.thy ===== *)
theory WorkflowGate
  imports ScopeReads Structure
begin

text \<open>
  What the checks of \<open>Jwss\<close> and \<open>Structure\<close> guarantee to the engine, which runs the graph
  \<open>WfGraph\<close> parses: fallbacks are unique and come last, nothing leaves a final state, every role
  and department the engine resolves was looked up, every handler a chain runs resolves, and every
  path a condition reads is one the engine builds.
\<close>

section \<open>The engine's graph\<close>

lemma length_filter_somes:
  assumes "\<And>v t. f v = Some t \<Longrightarrow> P t \<Longrightarrow> Q v"
  shows "length (filter P (somes (map f vs))) \<le> length (filter Q vs)"
proof (induction vs)
  case (Cons v vs)
  then show ?case using assms [of v] by (cases "f v") auto
qed simp

lemma parsed_fallback_key:
  assumes "parse_transition v = Some t"
  shows "fallback_key v = (t_from t, action_as_db (t_action t))" "get v ''condition'' = condition t"
  using parse_transition_Some [OF assms] by (simp_all add: fallback_key_def str_or_empty_def get_str_def)

lemma engine_fallbacks:
  assumes "structural_errors d = []"
  shows "length (filter (\<lambda>t. condition t = None) (candidates (parse_graph d r) from0 act)) \<le> 1"
proof -
  let ?k = "(from0, action_as_db act)"
  have "filter (\<lambda>t. condition t = None) (filter (\<lambda>t. t_from t = from0 \<and> t_action t = act \<and> condition t \<noteq> None) ts) = []"
    "filter (\<lambda>t. condition t = None) (filter (\<lambda>t. t_from t = from0 \<and> t_action t = act \<and> condition t = None) ts) =
     filter (\<lambda>t. t_from t = from0 \<and> t_action t = act \<and> condition t = None) ts"
    for ts :: "Transition list"
    by (induction ts) simp_all
  then have eq: "filter (\<lambda>t. condition t = None) (candidates (parse_graph d r) from0 act) =
      filter (\<lambda>t. t_from t = from0 \<and> t_action t = act \<and> condition t = None)
        (somes (map parse_transition (def_transitions d)))"
    by (simp only: candidates_partition filter_append append_Nil) (simp only: parse_graph_def Graph.simps)
  have "length (filter (\<lambda>t. t_from t = from0 \<and> t_action t = act \<and> condition t = None)
        (somes (map parse_transition (def_transitions d)))) \<le>
      length (filter (\<lambda>v. get v ''condition'' = None \<and> fallback_key v = ?k) (def_transitions d))"
    by (rule length_filter_somes) (simp add: parsed_fallback_key)
  with structural_fallbacks [OF assms, of ?k] show ?thesis unfolding eq by (rule order_trans [rotated])
qed

lemma engine_final_states:
  assumes "structural_errors d = []" "s \<in> set (states (parse_graph d r))" "is_final s"
  shows "actions_from (parse_graph d r) (code s) = []"
proof -
  obtain v where v: "v \<in> set (def_states d)" "parse_state v = Some s"
    using assms(2) by (auto simp: states_parse)
  then have "code s \<in> final_codes d"
    using assms(3) parse_state_Some [OF v(2)] by (auto simp: final_codes_def get_str_Some)
  moreover have "t_from t \<notin> final_codes d" if t: "t \<in> set (transitions (parse_graph d r))" for t
  proof -
    obtain w where w: "w \<in> set (def_transitions d)" "parse_transition w = Some t"
      using t by (auto simp: transitions_parse)
    with parse_transition_Some [OF w(2)] show ?thesis
      using scan_transition_clean(3) [OF structural_parts(3) [OF assms(1)] w(1)]
      by (simp add: get_str_Some)
  qed
  ultimately show ?thesis unfolding actions_from_def filter_empty_conv by metis
qed

section \<open>Roles, departments and handlers\<close>

lemma live_role:
  assumes "dead_role_errors (role_references d) live = []"
    and "rule \<in> engine_rules (parse_graph d r)" "assignee_type rule \<in> {Role, DepartmentRole}"
    and "role_code rule = Some role"
  shows "role \<in> set live"
  using engine_role_referenced [OF assms(2-4)] assms(1)
  by (auto simp: dead_role_errors_def filter_empty_conv)

lemma live_department:
  assumes "dead_department_errors (department_references d) live = []"
    and "rule \<in> engine_rules (parse_graph d r)" "assignee_type rule = DepartmentRole"
    and "department_scope rule = Some scope" "scope \<notin> set RESERVED_DEPARTMENT_SCOPES"
  shows "scope \<in> set live"
  using engine_department_referenced [OF assms(2-5)] assms(1)
  by (auto simp: dead_department_errors_def filter_empty_conv)

definition serves :: "string \<Rightarrow> HandlerKind \<Rightarrow> bool" where
  "serves hook kind \<longleftrightarrow> (if hook = AFTER_WORKFLOW_TRANSITION then serves_after kind else serves_before kind)"

lemma check_entry_resolves:
  assumes "check_entry entry path hook = []" "get_str entry ''handler'' = Some text"
    and "handler_parse text = Some h"
  shows "\<exists>name run kind. h = CoreHandlerRef name \<and> resolve name = Some (run, kind) \<and> serves hook kind"
  using assms by (cases h) (auto simp: check_entry_def serves_def Let_def split: option.splits if_splits)

lemma entries_of_resolves:
  assumes "\<forall>entry \<in> set (get_arr t key). \<exists>path. check_entry entry path hook = []"
    and "reg \<in> set (entries_of t key hook)"
  shows "\<exists>name run kind. reg_handler reg = CoreHandlerRef name \<and> resolve name = Some (run, kind) \<and>
    serves hook kind"
proof -
  from assms(2) obtain entry where e: "entry \<in> set (get_arr t key)"
    "Option.bind (get_str entry ''handler'') handler_parse = Some (reg_handler reg)"
    by (auto simp: entries_of_def split: option.splits)
  with assms(1) obtain path where "check_entry entry path hook = []" by blast
  moreover from e(2) obtain reference where "get_str entry ''handler'' = Some reference"
    "handler_parse reference = Some (reg_handler reg)" by (auto simp: bind_eq_Some_conv)
  ultimately show ?thesis by (rule check_entry_resolves)
qed

lemma registrations_resolve:
  assumes "registration_errors d = []" "t \<in> set (def_transitions d)"
  shows "reg \<in> set (guards_of t) \<Longrightarrow>
      \<exists>name run kind. reg_handler reg = CoreHandlerRef name \<and> resolve name = Some (run, kind) \<and>
        serves_before kind"
    and "reg \<in> set (actions_of t) \<Longrightarrow>
      \<exists>name run kind. reg_handler reg = CoreHandlerRef name \<and> resolve name = Some (run, kind) \<and>
        serves_after kind"
proof -
  from assms(2) obtain i where i: "i < length (def_transitions d)" "def_transitions d ! i = t"
    by (auto simp: in_set_conv_nth)
  have clean: "\<forall>entry \<in> set (get_arr t key). \<exists>path. check_entry entry path hook = []"
    if "(key, hook) \<in> {(''guards'', BEFORE_WORKFLOW_TRANSITION), (''actions'', AFTER_WORKFLOW_TRANSITION)}"
    for key hook
    using assms(1) i that unfolding registration_errors_def indexed_Nil_iff
    by (fastforce simp: indexed_Nil_iff in_set_conv_nth)
  show "\<exists>name run kind. reg_handler reg = CoreHandlerRef name \<and> resolve name = Some (run, kind) \<and>
        serves_before kind" if "reg \<in> set (guards_of t)"
    using entries_of_resolves [OF clean [of "''guards''" BEFORE_WORKFLOW_TRANSITION]] that
    by (auto simp: guards_of_def serves_def BEFORE_WORKFLOW_TRANSITION_def AFTER_WORKFLOW_TRANSITION_def)
  show "\<exists>name run kind. reg_handler reg = CoreHandlerRef name \<and> resolve name = Some (run, kind) \<and>
        serves_after kind" if "reg \<in> set (actions_of t)"
    using entries_of_resolves [OF clean [of "''actions''" AFTER_WORKFLOW_TRANSITION]] that
    by (auto simp: actions_of_def serves_def)
qed

section \<open>Conditions\<close>

lemma unbuilt_paths_spec:
  "set (unbuilt_paths declared e) = {p \<in> set (visit_paths e). \<not> is_built p declared}"
  "distinct (unbuilt_paths declared e)"
proof -
  let ?f = "\<lambda>read (seen, unbuilt). if \<not> is_built read declared \<and> \<not> bs_contains seen read
       then (bs_insert read seen, unbuilt @ [read]) else (seen, unbuilt)"
  have "set (fst acc) = set (snd acc) \<and> distinct (snd acc) \<Longrightarrow>
      set (snd (fold ?f ps acc)) = set (snd acc) \<union> {p \<in> set ps. \<not> is_built p declared} \<and>
      distinct (snd (fold ?f ps acc))" for ps acc
  proof (induction ps arbitrary: acc)
    case (Cons p ps)
    obtain seen unbuilt where acc: "acc = (seen, unbuilt)" by (cases acc)
    with Cons.prems have "set (fst (?f p acc)) = set (snd (?f p acc)) \<and> distinct (snd (?f p acc))"
      "set (snd (?f p acc)) = set (snd acc) \<union> {q. q = p \<and> \<not> is_built q declared}" by auto
    with Cons.IH [of "?f p acc"] show ?case by auto
  qed simp
  from this [of "([], [])" "visit_paths e"]
  show "set (unbuilt_paths declared e) = {p \<in> set (visit_paths e). \<not> is_built p declared}"
    "distinct (unbuilt_paths declared e)"
    by (simp_all add: unbuilt_paths_def)
qed

lemma check_condition_Nil:
  "check_condition declared path e whole = [] \<longleftrightarrow>
   (\<forall>p \<in> set (visit_paths e). is_built p declared) \<and> \<not> reads_computed_path e \<and>
   \<not> (if whole then reads_the_context e else hands_an_iterator_the_context e)"
proof -
  have "unbuilt_paths declared e = [] \<longleftrightarrow> (\<forall>p \<in> set (visit_paths e). is_built p declared)"
    unfolding set_empty [symmetric] unbuilt_paths_spec(1) by blast
  then show ?thesis by (simp add: check_condition_def Let_def)
qed

lemma condition_checked:
  assumes "condition_path_errors d = []" "t \<in> set (def_transitions d)" "get t ''condition'' = Some e"
  shows "\<exists>path. check_condition (declared_variables d) path e False = []"
proof -
  from assms(2) obtain i where "i < length (def_transitions d)" "def_transitions d ! i = t"
    by (auto simp: in_set_conv_nth)
  with assms(1,3) show ?thesis
    unfolding condition_path_errors_def append_is_Nil_conv indexed_Nil_iff if_some_Nil by blast
qed

text \<open>Neither walk lets an iterator see the context, wherever the expression is evaluated.\<close>

lemma reads_the_context_sub:
  "\<not> reads_the_context (Array xs) \<Longrightarrow> x \<in> set xs \<Longrightarrow> \<not> reads_the_context x"
  "\<not> hands_an_iterator_the_context (Array xs) \<Longrightarrow> x \<in> set xs \<Longrightarrow> \<not> hands_an_iterator_the_context x"
  by (auto simp: list_ex_iff)

definition context_operator :: "string \<Rightarrow> json \<Rightarrow> bool" where
  "context_operator opr arg \<longleftrightarrow>
     (if opr = ''var'' then
        names_the_context arg \<or>
        (case var_default arg of None \<Rightarrow> False | Some d \<Rightarrow> reads_the_context d)
      else if opr \<in> set ITERATORS then list_ex reads_the_context (somes (iterator_operands opr arg))
      else reads_the_context arg)"

definition hands_operator :: "string \<Rightarrow> json \<Rightarrow> bool" where
  "hands_operator opr arg \<longleftrightarrow>
     (if opr \<in> set ITERATORS then list_ex reads_the_context (somes (iterator_operands opr arg))
      else hands_an_iterator_the_context arg)"

lemma context_operatorI:
  "(opr, arg) \<in> set m \<Longrightarrow> \<not> reads_the_context (Object m) \<Longrightarrow> \<not> context_operator opr arg"
  "(opr, arg) \<in> set m \<Longrightarrow> \<not> hands_an_iterator_the_context (Object m) \<Longrightarrow> \<not> hands_operator opr arg"
  unfolding reads_the_context.simps hands_an_iterator_the_context.simps
    context_operator_def hands_operator_def list_ex_iff case_prod_unfold
  by (metis fst_conv snd_conv)+

declare reads_the_context.simps(1) [simp del] hands_an_iterator_the_context.simps(1) [simp del]

lemma var_default_mem: "var_default arg = Some d \<Longrightarrow> \<exists>xs. arg = Array xs \<and> d \<in> set xs"
  by (cases arg) (auto simp: var_default_def split: list.splits json.splits)

lemma argument_step:
  assumes "(opr, arg) \<in> set m" "opr \<noteq> ''var''" "opr \<notin> set ITERATORS"
  shows "reads_the_context arg \<Longrightarrow> reads_the_context (Object m)"
    and "hands_an_iterator_the_context arg \<Longrightarrow> hands_an_iterator_the_context (Object m)"
  using context_operatorI [OF assms(1)] assms(2,3)
  unfolding context_operator_def hands_operator_def by (metis, metis)

lemma source_step:
  assumes "(opr, arg) \<in> set m" "opr \<in> set ITERATORS" "Some x \<in> set (iterator_operands opr arg)"
    and "reads_the_context x"
  shows "reads_the_context (Object m)" "hands_an_iterator_the_context (Object m)"
proof -
  have "opr \<noteq> ''var''" using assms(2) iterators_disjoint by metis
  moreover have "list_ex reads_the_context (somes (iterator_operands opr arg))"
    using assms(3,4) by (auto simp: list_ex_iff)
  ultimately show "reads_the_context (Object m)" "hands_an_iterator_the_context (Object m)"
    using context_operatorI [OF assms(1)] assms(2)
    unfolding context_operator_def hands_operator_def by (metis, metis)
qed

lemma default_step:
  assumes "(''var'', arg) \<in> set m" "var_default arg = Some d"
  shows "reads_the_context d \<Longrightarrow> reads_the_context (Object m)"
    and "hands_an_iterator_the_context d \<Longrightarrow> hands_an_iterator_the_context (Object m)"
proof -
  show "reads_the_context d \<Longrightarrow> reads_the_context (Object m)"
    using context_operatorI(1) [OF assms(1)] assms(2) by (auto simp: context_operator_def)
  assume "hands_an_iterator_the_context d"
  then have "hands_an_iterator_the_context arg"
    using var_default_mem [OF assms(2)] reads_the_context_sub(2) by metis
  then show "hands_an_iterator_the_context (Object m)"
    using context_operatorI(2) [OF assms(1)] by (auto simp: hands_operator_def)
qed

definition hidden_in :: "json \<Rightarrow> json \<Rightarrow> bool" where
  "hidden_in e x \<longleftrightarrow>
     (\<not> reads_the_context e \<longrightarrow> \<not> reads_the_context x) \<and>
     (\<not> hands_an_iterator_the_context e \<longrightarrow>
        \<not> hands_an_iterator_the_context x \<or> \<not> reads_the_context x)"

lemma context_hidden: "evaluated e x \<Longrightarrow> hidden_in e x"
proof (induction rule: evaluated.induct)
  case self
  show ?case by (simp add: hidden_in_def)
next
  case (item xs x)
  then show ?case using reads_the_context_sub unfolding hidden_in_def by metis
next
  case (argument m opr arg)
  then have "opr \<noteq> ''var''" "opr \<notin> set ITERATORS" by auto
  then show ?case
    using argument.IH argument_step [OF argument.hyps(2)] unfolding hidden_in_def by metis
next
  case (source m opr arg x)
  then show ?case using source_step [OF source.hyps(2-4)] unfolding hidden_in_def by metis
next
  case (default m arg d)
  then show ?case using default_step [OF default.hyps(2,3)] unfolding hidden_in_def by metis
next
  case (amount m n names rest)
  have "''missing_some'' \<noteq> ''var''" "n \<in> set (n # names # rest)" by simp_all
  then show ?case
    using amount.IH argument_step [OF amount.hyps(2) _ iterators_disjoint(3)]
      reads_the_context_sub [of "n # names # rest" n]
    unfolding hidden_in_def by metis
qed

lemma iterator_hidden:
  assumes "\<not> hands_an_iterator_the_context e" "evaluated e (Object m)" "(opr, arg) \<in> set m"
    and "opr \<in> set ITERATORS" "Some x \<in> set (iterator_operands opr arg)"
  shows "\<not> reads_the_context x"
proof -
  have "opr \<noteq> ''var''" using assms(4) iterators_disjoint by metis
  moreover have "\<not> context_operator opr arg \<or> \<not> hands_operator opr arg"
    using context_hidden [OF assms(2)] assms(1) context_operatorI [OF assms(3)]
    unfolding hidden_in_def by blast
  ultimately show ?thesis
    using assms(4,5) by (auto simp: context_operator_def hands_operator_def list_ex_iff)
qed

lemma context_never_named:
  assumes "\<not> reads_the_context x" "evaluated x (Object m)" "(''var'', arg) \<in> set m"
  shows "\<not> names_the_context arg"
  using context_hidden [OF assms(2)] assms(1) context_operatorI(1) [OF assms(3)]
  by (auto simp: context_operator_def hidden_in_def)

end
