(* ===== verification/Errors.thy ===== *)
theory Errors
  imports Prelude "HOL-Library.Word"
begin

text \<open>
  The error type that crosses the HTTP boundary (\<open>error.rs\<close>) and the envelope it is rendered into
  (\<open>response.rs\<close>).  \<open>anyhow::Error\<close> is the text of its cause, a \<open>u64\<close> is a \<open>64 word\<close>, and the
  \<open>sqlx::Error\<close> a statement fails with is one of the variants the code distinguishes or another.
\<close>

section \<open>The error\<close>

datatype AppError =
    NotFound string
  | Validation "validation_detail list"
  | BadRequest string
  | UnsupportedMediaType
  | Unauthorized
  | Forbidden
  | Conflict string
  | CodedConflict string string
  | CodedUnprocessable string string
  | Upstream string string bool
  | TooManyRequests "64 word"
  | Internal string

fun error_code :: "AppError \<Rightarrow> string" where
  "error_code (NotFound _) = ''NOT_FOUND''"
| "error_code (Validation _) = ''VALIDATION_ERROR''"
| "error_code (BadRequest _) = ''BAD_REQUEST''"
| "error_code UnsupportedMediaType = ''UNSUPPORTED_MEDIA_TYPE''"
| "error_code Unauthorized = ''UNAUTHORIZED''"
| "error_code Forbidden = ''FORBIDDEN''"
| "error_code (Conflict _) = ''CONFLICT''"
| "error_code (CodedConflict c _) = c"
| "error_code (CodedUnprocessable c _) = c"
| "error_code (Upstream c _ _) = c"
| "error_code (TooManyRequests _) = ''TOO_MANY_REQUESTS''"
| "error_code (Internal _) = ''INTERNAL_ERROR''"

fun error_status :: "AppError \<Rightarrow> nat" where
  "error_status (NotFound _) = 404"
| "error_status (Validation _) = 422"
| "error_status (BadRequest _) = 400"
| "error_status UnsupportedMediaType = 415"
| "error_status Unauthorized = 401"
| "error_status Forbidden = 403"
| "error_status (Conflict _) = 409"
| "error_status (CodedConflict _ _) = 409"
| "error_status (CodedUnprocessable _ _) = 422"
| "error_status (Upstream _ _ overtime) = (if overtime then 504 else 502)"
| "error_status (TooManyRequests _) = 429"
| "error_status (Internal _) = 500"

fun error_message :: "AppError \<Rightarrow> string" where
  "error_message (NotFound resource) = resource @ '' not found''"
| "error_message (Validation _) = ''Validation failed''"
| "error_message (BadRequest m) = m"
| "error_message UnsupportedMediaType =
     ''Request body must be JSON with a Content-Type of application/json''"
| "error_message Unauthorized = ''Authentication required''"
| "error_message Forbidden = ''You do not have permission to perform this action''"
| "error_message (Conflict m) = m"
| "error_message (CodedConflict _ m) = m"
| "error_message (CodedUnprocessable _ m) = m"
| "error_message (Upstream _ m _) = m"
| "error_message (TooManyRequests wait) =
     ''Too many attempts. Try again in '' @ show_nat (unat wait) @ '' seconds.''"
| "error_message (Internal _) = ''An unexpected error occurred''"

fun error_details :: "AppError \<Rightarrow> validation_detail list" where
  "error_details (Validation ds) = ds"
| "error_details _ = []"

datatype SqlxError =
  RowNotFound | UniqueViolation string | ForeignKeyViolation string | OtherSqlx string

fun from_sqlx :: "SqlxError \<Rightarrow> AppError" where
  "from_sqlx RowNotFound = NotFound ''Record''"
| "from_sqlx (UniqueViolation e) = Internal e"
| "from_sqlx (ForeignKeyViolation e) = Internal e"
| "from_sqlx (OtherSqlx e) = Internal e"

section \<open>The response\<close>

record ErrorBody =
  eb_code :: string
  eb_message :: string
  eb_details :: "validation_detail list"

record ErrorEnvelope =
  ee_success :: bool
  ee_error :: ErrorBody

definition new_envelope :: "string \<Rightarrow> string \<Rightarrow> validation_detail list \<Rightarrow> ErrorEnvelope" where
  "new_envelope code message details =
     \<lparr>ee_success = False,
      ee_error = \<lparr>eb_code = code, eb_message = message, eb_details = details\<rparr>\<rparr>"

record Response =
  rs_status :: nat
  rs_body :: ErrorEnvelope
  rs_retry_after :: "string option"

text \<open>The decimal rendering of a number is a legal header value, so the header is always set.\<close>

definition into_response :: "AppError \<Rightarrow> Response" where
  "into_response e =
     \<lparr>rs_status = error_status e,
      rs_body = new_envelope (error_code e) (error_message e) (error_details e),
      rs_retry_after =
        (case e of TooManyRequests wait \<Rightarrow> Some (show_nat (unat wait)) | _ \<Rightarrow> None)\<rparr>"

section \<open>What a response shows\<close>

text \<open>The cause of an internal error never reaches the client.\<close>

lemma internal_is_opaque: "into_response (Internal e) = into_response (Internal e')"
  by (simp add: into_response_def)

lemma retry_after_iff: "rs_retry_after (into_response e) \<noteq> None \<longleftrightarrow> rs_status (into_response e) = 429"
  by (cases e) (simp_all add: into_response_def)

lemma details_only_of_validation:
  "eb_details (ee_error (rs_body (into_response e))) \<noteq> [] \<Longrightarrow>
     rs_status (into_response e) = 422 \<and>
     eb_code (ee_error (rs_body (into_response e))) = ''VALIDATION_ERROR''"
  by (cases e) (simp_all add: into_response_def new_envelope_def)

lemma from_sqlx_not_validation [simp]: "from_sqlx e \<noteq> Validation ds"
  by (cases e) simp_all

end
