(* ===== verification/HookChain.thy ===== *)
theory HookChain
  imports Hook Errors
begin

text \<open>
  Running a hook chain (\<open>modules/hook/service.rs\<close>, \<open>domain.rs\<close> and the statements of
  \<open>repository.rs\<close>): the before-chain that may change or veto a transition, and the after-chain
  with its circuit breaker.  The database and the clock are explicit: \<open>ChainState\<close> holds the
  execution log, newest row first as its \<open>ORDER BY\<close> reads it, and \<open>World\<close> holds what the run
  cannot decide - the evaluator, the measured times (nanoseconds), and which statement fails.
  A statement is numbered, so a fault of any one of them can be expressed.
\<close>

section \<open>The payload\<close>

record Invocation =
  hook_name :: string
  inv_source :: HookSource
  tenant_id :: string
  document_id :: string
  document_type_key :: string
  current_status :: "string option"
  target_status :: "string option"
  actor_user_id :: "string option"
  inv_form_data :: json
  inv_metadata :: json
  inv_workflow_context :: json
  inv_subject :: json
  inv_config :: json
  correlation_id :: string

fun nullable :: "string option \<Rightarrow> json" where
  "nullable None = Null"
| "nullable (Some s) = String s"

text \<open>\<open>Stage::Transition\<close> is the only stage; an id is the text it serializes to.\<close>

definition as_json :: "string \<Rightarrow> Invocation \<Rightarrow> json" where
  "as_json invoked_at0 call = json_object
     [(''hookName'', String (hook_name call)),
      (''stage'', String ''TRANSITION''),
      (''source'', String (source_as_db (inv_source call))),
      (''tenantId'', String (tenant_id call)),
      (''documentId'', String (document_id call)),
      (''documentTypeKey'', String (document_type_key call)),
      (''currentStatus'', nullable (current_status call)),
      (''targetStatus'', nullable (target_status call)),
      (''actorUserId'', nullable (actor_user_id call)),
      (''formData'', inv_form_data call),
      (''metadata'', inv_metadata call),
      (''workflowContext'', inv_workflow_context call),
      (''subject'', inv_subject call),
      (''config'', inv_config call),
      (''correlationId'', String (correlation_id call)),
      (''invokedAt'', String invoked_at0)]"

text \<open>Every key is present, so a handler reads the field it was given.\<close>

lemma get_as_json:
  "get (as_json now call) ''config'' = Some (inv_config call)"
  "get (as_json now call) ''formData'' = Some (inv_form_data call)"
  unfolding as_json_def by (subst get_json_object; simp)+

section \<open>The circuit breaker\<close>

record RecentExecution =
  is_error :: bool
  cooled :: bool

definition BREAKER_THRESHOLD :: nat where
  "BREAKER_THRESHOLD = 5"

text \<open>Ten minutes, in nanoseconds as every time here.\<close>

definition BREAKER_COOL_DOWN :: nat where
  "BREAKER_COOL_DOWN = 10 * 60 * 1000000000"

definition breaker_is_open :: "RecentExecution list \<Rightarrow> bool" where
  "breaker_is_open recent \<longleftrightarrow>
     length recent \<ge> BREAKER_THRESHOLD \<and>
     list_all is_error (take BREAKER_THRESHOLD recent) \<and>
     \<not> cooled (recent ! 0)"

definition breaker_opened_by_latest :: "RecentExecution list \<Rightarrow> bool" where
  "breaker_opened_by_latest recent \<longleftrightarrow>
     length recent \<ge> BREAKER_THRESHOLD \<and>
     list_all is_error (take BREAKER_THRESHOLD recent) \<and>
     (length recent > BREAKER_THRESHOLD \<longrightarrow> \<not> is_error (recent ! BREAKER_THRESHOLD))"

section \<open>The database and the clock\<close>

record Execution =
  ex_tenant_id :: string
  ex_source :: HookSource
  ex_transition_ref :: "string option"
  ex_document_id :: string
  ex_hook_name :: string
  ex_handler_reference :: string
  ex_result :: string
  ex_duration_ms :: nat
  ex_error_message :: "string list option"
  ex_executed_at :: nat

record World =
  evaluate :: evaluator
  chain_elapsed :: "nat \<Rightarrow> nat"
  handler_elapsed :: "nat \<Rightarrow> nat"
  invoked_at :: "nat \<Rightarrow> string"
  db_now :: nat
  db_fault :: "nat \<Rightarrow> SqlxError option"
  admin_role :: "string option"
  role_recipients :: "string \<Rightarrow> string list"

record ChainState =
  cs_log :: "Execution list"
  cs_told :: "(string \<times> string) list"
  cs_statements :: nat
  cs_inv :: Invocation

type_synonym 'a outcome = "ChainState \<times> (AppError + 'a)"

text \<open>One statement: the fault the world has for it, or its effect.\<close>

definition db :: "World \<Rightarrow> (ChainState \<Rightarrow> ChainState \<times> 'a) \<Rightarrow> ChainState \<Rightarrow> 'a outcome" where
  "db w operation st =
     (case db_fault w (cs_statements st) of
        Some e \<Rightarrow> (st, Inl (from_sqlx e))
      | None \<Rightarrow>
          (case operation st of
             (st', x) \<Rightarrow> (st'\<lparr>cs_statements := Suc (cs_statements st)\<rparr>, Inr x)))"

definition record_row :: "World \<Rightarrow> Execution \<Rightarrow> ChainState \<Rightarrow> unit outcome" where
  "record_row w execution = db w (\<lambda>st. (st\<lparr>cs_log := execution # cs_log st\<rparr>, ()))"

definition recent_executions :: "World \<Rightarrow> string \<Rightarrow> nat \<Rightarrow> ChainState \<Rightarrow> RecentExecution list outcome" where
  "recent_executions w reference limit = db w (\<lambda>st. (st,
     take limit
       (map (\<lambda>row. \<lparr>is_error = (ex_result row = ''ERROR''),
                    cooled = (ex_executed_at row + BREAKER_COOL_DOWN \<le> db_now w)\<rparr>)
         (filter (\<lambda>row. ex_tenant_id row = tenant_id (cs_inv st) \<and>
                        ex_hook_name row = hook_name (cs_inv st) \<and>
                        ex_handler_reference row = reference) (cs_log st)))))"

definition HANDLER_BUDGET :: nat where
  "HANDLER_BUDGET = 2 * 1000000000"

definition CHAIN_BUDGET :: nat where
  "CHAIN_BUDGET = 5 * 1000000000"

definition duration_ms :: "nat \<Rightarrow> nat" where
  "duration_ms elapsed = min (elapsed div 1000000) (2 ^ 31 - 1)"

section \<open>The before-chain\<close>

definition HOOK_REJECTED :: string where
  "HOOK_REJECTED = ''HOOK_REJECTED''"

definition rejected :: "Rejection \<Rightarrow> HandlerReference \<Rightarrow> string \<Rightarrow> AppError" where
  "rejected rejection handler hook =
     Validation
       (map (\<lambda>(field, message). detail field ''hook'' HOOK_REJECTED [message]) (rej_details rejection) @
        [detail ''_hook'' ''hook'' HOOK_REJECTED [rej_code rejection, handler_text handler, hook]])"

definition timed_out :: "HandlerReference \<Rightarrow> string \<Rightarrow> string \<Rightarrow> AppError" where
  "timed_out handler hook what =
     rejected
       (new_rejection ''HOOK_TIMEOUT''
          (what @ '' on this transition took too long and was refused''))
       handler hook"

definition run_handler :: "evaluator \<Rightarrow> HandlerReference \<Rightarrow> json \<Rightarrow> HookResult" where
  "run_handler evaluate0 handler payload =
     (case handler of
        CoreHandlerRef name \<Rightarrow>
          (case resolve name of
             Some (run, _) \<Rightarrow> run evaluate0 payload
           | None \<Rightarrow>
               Reject (new_rejection ''HOOK_HANDLER_UNKNOWN''
                 (''`'' @ handler_text handler @ ''` is not a handler this build performs'')))
      | PluginRef _ _ \<Rightarrow>
          Reject (new_rejection ''HOOK_PLUGIN_UNAVAILABLE''
            (''`'' @ handler_text handler @
             ''` is a plugin handler and this build runs no plugins'')))"

definition enter :: "Registration \<Rightarrow> Invocation \<Rightarrow> Invocation" where
  "enter entry call = call\<lparr>inv_source := reg_source entry, inv_config := reg_config entry\<rparr>"

text \<open>What a \<open>CONTINUE\<close> or a \<open>MODIFY\<close> leaves for the next handler, and whether it modified.\<close>

definition apply_result :: "HookResult \<Rightarrow> Invocation \<Rightarrow> Invocation \<times> bool" where
  "apply_result result call =
     (case result of
        Modify fd md \<Rightarrow>
          ((case md of None \<Rightarrow> \<lambda>i. i | Some m \<Rightarrow> \<lambda>i. i\<lparr>inv_metadata := m\<rparr>)
             ((case fd of None \<Rightarrow> \<lambda>i. i | Some f \<Rightarrow> \<lambda>i. i\<lparr>inv_form_data := f\<rparr>) call),
           fd \<noteq> None \<or> md \<noteq> None)
      | _ \<Rightarrow> (call, False))"

definition execution_row ::
  "World \<Rightarrow> string option \<Rightarrow> Registration \<Rightarrow> Invocation \<Rightarrow> string \<Rightarrow> nat \<Rightarrow> string list option \<Rightarrow> Execution" where
  "execution_row w ref entry call result duration message =
     \<lparr>ex_tenant_id = tenant_id call, ex_source = reg_source entry, ex_transition_ref = ref,
      ex_document_id = document_id call, ex_hook_name = hook_name call,
      ex_handler_reference = handler_text (reg_handler entry), ex_result = result,
      ex_duration_ms = duration, ex_error_message = message, ex_executed_at = db_now w\<rparr>"

text \<open>One turn of the loop: whether the entry modified the payload, or the refusal.\<close>

definition before_step :: "World \<Rightarrow> string option \<Rightarrow> nat \<Rightarrow> Registration \<Rightarrow> ChainState \<Rightarrow> bool outcome" where
  "before_step w ref at entry st =
     (if chain_elapsed w at > CHAIN_BUDGET
      then (st, Inl (timed_out (reg_handler entry) (hook_name (cs_inv st)) ''the chain''))
      else
        (let call = enter entry (cs_inv st);
             st = st\<lparr>cs_inv := call\<rparr>;
             result = run_handler (evaluate w) (reg_handler entry) (as_json (invoked_at w at) call);
             elapsed = handler_elapsed w at;
             overran = elapsed > HANDLER_BUDGET
         in case record_row w
                   (execution_row w ref entry call (if overran then ''ERROR'' else result_as_db result)
                      (duration_ms elapsed) (if overran then Some [] else None)) st of
              (st, Inl e) \<Rightarrow> (st, Inl e)
            | (st, Inr _) \<Rightarrow>
                if overran then (st, Inl (timed_out (reg_handler entry) (hook_name call) ''a handler''))
                else
                  (case result of
                     Reject rejection \<Rightarrow>
                       (st, Inl (rejected rejection (reg_handler entry) (hook_name call)))
                   | _ \<Rightarrow>
                       (case apply_result result call of
                          (call, modified) \<Rightarrow> (st\<lparr>cs_inv := call\<rparr>, Inr modified)))))"

record ChainOutcome =
  out_form_data :: json
  out_modified :: bool

fun before_loop ::
  "World \<Rightarrow> string option \<Rightarrow> nat \<Rightarrow> bool \<Rightarrow> Registration list \<Rightarrow> ChainState \<Rightarrow> ChainOutcome outcome"
where
  "before_loop w ref at modified [] st =
     (st, Inr \<lparr>out_form_data = inv_form_data (cs_inv st), out_modified = modified\<rparr>)"
| "before_loop w ref at modified (entry # chain) st =
     (case before_step w ref at entry st of
        (st, Inl e) \<Rightarrow> (st, Inl e)
      | (st, Inr m) \<Rightarrow> before_loop w ref (Suc at) (modified \<or> m) chain st)"

definition run_before_chain ::
  "World \<Rightarrow> Registration list \<Rightarrow> string option \<Rightarrow> ChainState \<Rightarrow> ChainOutcome outcome" where
  "run_before_chain w chain ref st = before_loop w ref 0 False chain st"

section \<open>The after-chain\<close>

datatype AfterError = Returned string | NotPerformed string | PluginHandler string | Overran

datatype AfterFailure = ChainExceeded HandlerReference | Paused string | Failed string AfterError

fun notify_all :: "World \<Rightarrow> string \<Rightarrow> string list \<Rightarrow> ChainState \<Rightarrow> unit outcome" where
  "notify_all w reference [] st = (st, Inr ())"
| "notify_all w reference (recipient # rs) st =
     (case db w (\<lambda>st. (st\<lparr>cs_told := cs_told st @ [(recipient, reference)]\<rparr>, ())) st of
        (st, Inl e) \<Rightarrow> (st, Inl e)
      | (st, Inr _) \<Rightarrow> notify_all w reference rs st)"

definition report_if_opened :: "World \<Rightarrow> string \<Rightarrow> ChainState \<Rightarrow> unit outcome" where
  "report_if_opened w reference st =
     (case recent_executions w reference (BREAKER_THRESHOLD + 1) st of
        (st, Inl e) \<Rightarrow> (st, Inl e)
      | (st, Inr recent) \<Rightarrow>
          if \<not> breaker_opened_by_latest recent then (st, Inr ())
          else
            (case db w (\<lambda>st. (st, admin_role w)) st of
               (st, Inl e) \<Rightarrow> (st, Inl e)
             | (st, Inr None) \<Rightarrow> (st, Inr ())
             | (st, Inr (Some role)) \<Rightarrow>
                 (case db w (\<lambda>st. (st, role_recipients w role)) st of
                    (st, Inl e) \<Rightarrow> (st, Inl e)
                  | (st, Inr recipients) \<Rightarrow> notify_all w reference recipients st)))"

definition after_outcome :: "World \<Rightarrow> nat \<Rightarrow> HandlerReference \<Rightarrow> json \<Rightarrow> AfterError option" where
  "after_outcome w at handler payload =
     (if handler_elapsed w at > HANDLER_BUDGET then Some Overran
      else
        (case handler of
           CoreHandlerRef name \<Rightarrow>
             (case resolve name of
                Some (run, _) \<Rightarrow>
                  (case run (evaluate w) payload of
                     Continue \<Rightarrow> None
                   | other \<Rightarrow> Some (Returned (result_as_db other)))
              | None \<Rightarrow> Some (NotPerformed (handler_text handler)))
         | PluginRef _ _ \<Rightarrow> Some (PluginHandler (handler_text handler))))"

fun after_error_args :: "AfterError \<Rightarrow> string list" where
  "after_error_args (Returned r) = [r]"
| "after_error_args (NotPerformed r) = [r]"
| "after_error_args (PluginHandler r) = [r]"
| "after_error_args Overran = []"

definition before_only :: "HandlerReference \<Rightarrow> bool" where
  "before_only handler =
     (case handler of
        CoreHandlerRef name \<Rightarrow>
          (case resolve name of Some (_, kind) \<Rightarrow> \<not> serves_after kind | None \<Rightarrow> False)
      | PluginRef _ _ \<Rightarrow> False)"

text \<open>An \<open>ERROR\<close> row, then the report when that row is the one that opened the breaker.\<close>

definition record_error ::
  "World \<Rightarrow> string option \<Rightarrow> Registration \<Rightarrow> nat \<Rightarrow> string list \<Rightarrow> ChainState \<Rightarrow> unit outcome" where
  "record_error w ref entry duration message st =
     (case record_row w (execution_row w ref entry (cs_inv st) ''ERROR'' duration (Some message)) st of
        (st, Inl e) \<Rightarrow> (st, Inl e)
      | (st, Inr _) \<Rightarrow> report_if_opened w (handler_text (reg_handler entry)) st)"

text \<open>One turn of the loop: the failures it adds.\<close>

definition after_step ::
  "World \<Rightarrow> string option \<Rightarrow> nat \<Rightarrow> Registration \<Rightarrow> ChainState \<Rightarrow> AfterFailure list outcome" where
  "after_step w ref at entry st =
     (let st = st\<lparr>cs_inv := enter entry (cs_inv st)\<rparr>;
          reference = handler_text (reg_handler entry)
      in if before_only (reg_handler entry) then
           (case record_error w ref entry 0 [reference] st of
              (st, Inl e) \<Rightarrow> (st, Inl e)
            | (st, Inr _) \<Rightarrow> (st, Inr []))
         else
           (case recent_executions w reference BREAKER_THRESHOLD st of
              (st, Inl e) \<Rightarrow> (st, Inl e)
            | (st, Inr recent) \<Rightarrow>
                if breaker_is_open recent then (st, Inr [Paused reference])
                else
                  (case after_outcome w at (reg_handler entry)
                          (as_json (invoked_at w at) (cs_inv st)) of
                     None \<Rightarrow>
                       (case record_row w
                               (execution_row w ref entry (cs_inv st) ''CONTINUE''
                                  (duration_ms (handler_elapsed w at)) None) st of
                          (st, Inl e) \<Rightarrow> (st, Inl e)
                        | (st, Inr _) \<Rightarrow> (st, Inr []))
                   | Some why \<Rightarrow>
                       (case record_error w ref entry (duration_ms (handler_elapsed w at))
                               (after_error_args why) st of
                          (st, Inl e) \<Rightarrow> (st, Inl e)
                        | (st, Inr _) \<Rightarrow> (st, Inr [Failed reference why])))))"

fun after_loop ::
  "World \<Rightarrow> string option \<Rightarrow> nat \<Rightarrow> AfterFailure list \<Rightarrow> Registration list \<Rightarrow> ChainState
   \<Rightarrow> AfterFailure list outcome"
where
  "after_loop w ref at failures [] st = (st, Inr failures)"
| "after_loop w ref at failures (entry # chain) st =
     (if chain_elapsed w at > CHAIN_BUDGET
      then (st, Inr (failures @ [ChainExceeded (reg_handler entry)]))
      else
        (case after_step w ref at entry st of
           (st, Inl e) \<Rightarrow> (st, Inl e)
         | (st, Inr fs) \<Rightarrow> after_loop w ref (Suc at) (failures @ fs) chain st))"

definition run_after_chain ::
  "World \<Rightarrow> Registration list \<Rightarrow> string option \<Rightarrow> ChainState \<Rightarrow> AfterFailure list outcome" where
  "run_after_chain w chain ref st = after_loop w ref 0 [] chain st"

section \<open>What a statement does to the state\<close>

lemma db_Inr: "db w f st = (st', Inr x) \<Longrightarrow>
    \<exists>st1. f st = (st1, x) \<and> st' = st1\<lparr>cs_statements := Suc (cs_statements st)\<rparr>"
  by (auto simp: db_def split: option.splits prod.splits)

lemma db_Inl: "db w f st = (st', Inl e) \<Longrightarrow> st' = st \<and> (\<exists>m. e = from_sqlx m)"
  by (auto simp: db_def split: option.splits prod.splits)

lemma record_row_Inr: "record_row w row st = (st', Inr u) \<Longrightarrow>
    cs_log st' = row # cs_log st \<and> cs_inv st' = cs_inv st \<and> cs_told st' = cs_told st"
  by (auto simp: record_row_def dest!: db_Inr)

lemma record_row_Inl:
  "record_row w row st = (st', Inl e) \<Longrightarrow> st' = st \<and> (\<forall>ds. e \<noteq> Validation ds)"
  by (auto simp: record_row_def dest!: db_Inl)

lemma recent_executions_Inr: "recent_executions w reference n st = (st', Inr recent) \<Longrightarrow>
    cs_log st' = cs_log st \<and> cs_inv st' = cs_inv st \<and> cs_told st' = cs_told st"
  by (auto simp: recent_executions_def dest!: db_Inr)

lemma notify_all_Inr: "notify_all w reference rs st = (st', Inr u) \<Longrightarrow>
    cs_log st' = cs_log st \<and> cs_inv st' = cs_inv st \<and>
    cs_told st' = cs_told st @ map (\<lambda>r. (r, reference)) rs"
  by (induction w reference rs st rule: notify_all.induct)
    (fastforce dest!: db_Inr split: prod.splits sum.splits)+

lemma report_if_opened_Inr: "report_if_opened w reference st = (st', Inr u) \<Longrightarrow>
    cs_log st' = cs_log st \<and> cs_inv st' = cs_inv st"
  by (auto simp: report_if_opened_def dest!: db_Inr recent_executions_Inr notify_all_Inr
      split: prod.splits sum.splits if_splits option.splits)

lemma record_error_Inr: "record_error w ref entry d msg st = (st', Inr u) \<Longrightarrow>
    cs_log st' = execution_row w ref entry (cs_inv st) ''ERROR'' d (Some msg) # cs_log st \<and>
    cs_inv st' = cs_inv st"
  unfolding record_error_def
  by (auto dest!: record_row_Inr report_if_opened_Inr split: prod.splits sum.splits)

lemma enter_sel [simp]:
  "tenant_id (enter r call) = tenant_id call" "hook_name (enter r call) = hook_name call"
  "document_id (enter r call) = document_id call"
  "inv_form_data (enter r call) = inv_form_data call"
  by (simp_all add: enter_def)

lemma execution_row_sel [simp]:
  "ex_handler_reference (execution_row w ref entry call res d m) = handler_text (reg_handler entry)"
  "ex_result (execution_row w ref entry call res d m) = res"
  "ex_hook_name (execution_row w ref entry call res d m) = hook_name call"
  "ex_tenant_id (execution_row w ref entry call res d m) = tenant_id call"
  by (simp_all add: execution_row_def)

section \<open>Facts of the before-chain\<close>

lemma apply_result_sel:
  "hook_name (fst (apply_result r call)) = hook_name call"
  "\<not> snd (apply_result r call) \<Longrightarrow> fst (apply_result r call) = call"
  by (cases r; auto simp: apply_result_def split: option.splits)+

text \<open>The row a passing turn writes.\<close>

definition passed_row :: "Registration \<Rightarrow> Execution \<Rightarrow> bool" where
  "passed_row entry row \<longleftrightarrow>
     ex_handler_reference row = handler_text (reg_handler entry) \<and>
     (ex_result row = ''CONTINUE'' \<or> ex_result row = ''MODIFY'')"

lemma result_as_db_passed:
  "(\<forall>r. result \<noteq> Reject r) \<Longrightarrow> result_as_db result = ''CONTINUE'' \<or> result_as_db result = ''MODIFY''"
  by (cases result) auto

lemma before_step_Inr:
  assumes "before_step w ref at entry st = (st', Inr m)"
  shows "\<exists>row. cs_log st' = row # cs_log st \<and> passed_row entry row"
    and "hook_name (cs_inv st') = hook_name (cs_inv st)"
    and "\<not> m \<Longrightarrow> inv_form_data (cs_inv st') = inv_form_data (cs_inv st)"
proof -
  let ?call = "enter entry (cs_inv st)"
  let ?st = "st\<lparr>cs_inv := ?call\<rparr>"
  let ?res = "run_handler (evaluate w) (reg_handler entry) (as_json (invoked_at w at) ?call)"
  let ?row = "execution_row w ref entry ?call (result_as_db ?res) (duration_ms (handler_elapsed w at)) None"
  have *: "\<exists>st1 u. record_row w ?row ?st = (st1, Inr u) \<and>
      (\<forall>r. ?res \<noteq> Reject r) \<and> cs_inv st' = fst (apply_result ?res ?call) \<and>
      m = snd (apply_result ?res ?call) \<and> cs_log st' = cs_log st1"
    using assms unfolding before_step_def Let_def
    by (auto split: if_splits prod.splits sum.splits HookResult.splits)
  then obtain st1 u where st1: "record_row w ?row ?st = (st1, Inr u)" and
    res: "\<forall>r. ?res \<noteq> Reject r" "cs_inv st' = fst (apply_result ?res ?call)"
      "m = snd (apply_result ?res ?call)" "cs_log st' = cs_log st1" by blast
  from record_row_Inr [OF st1] res(1,4)
  show "\<exists>row. cs_log st' = row # cs_log st \<and> passed_row entry row"
    by (auto simp: passed_row_def dest!: result_as_db_passed)
  show "hook_name (cs_inv st') = hook_name (cs_inv st)"
    using res(2) by (simp add: apply_result_sel)
  show "\<not> m \<Longrightarrow> inv_form_data (cs_inv st') = inv_form_data (cs_inv st)"
    using res(2,3) by (simp add: apply_result_sel)
qed

lemma before_loop_Inr:
  assumes "before_loop w ref at modified chain st = (st', Inr out)"
  shows "\<exists>rows. cs_log st' = rows @ cs_log st \<and> list_all2 passed_row chain (rev rows)"
    and "out_form_data out = inv_form_data (cs_inv st')"
    and "\<not> out_modified out \<Longrightarrow> \<not> modified \<and> out_form_data out = inv_form_data (cs_inv st)"
    and "hook_name (cs_inv st') = hook_name (cs_inv st)"
  using assms
proof (induction w ref at modified chain st rule: before_loop.induct)
  case (1 w ref at modified st)
  { case 1 then show ?case by simp
  next case 2 then show ?case by auto
  next case 3 then show ?case by auto
  next case 4 then show ?case by simp }
next
  case (2 w ref at modified entry chain st)
  have step: "\<exists>st1 m. before_step w ref at entry st = (st1, Inr m) \<and>
      before_loop w ref (Suc at) (modified \<or> m) chain st1 = (st', Inr out)"
    if "before_loop w ref at modified (entry # chain) st = (st', Inr out)"
    using that by (auto split: prod.splits sum.splits)
  { case 1
    then obtain st1 m where s: "before_step w ref at entry st = (st1, Inr m)"
      "before_loop w ref (Suc at) (modified \<or> m) chain st1 = (st', Inr out)" using step by blast
    obtain row rows where "cs_log st1 = row # cs_log st" "passed_row entry row"
      "cs_log st' = rows @ cs_log st1" "list_all2 passed_row chain (rev rows)"
      using before_step_Inr(1) [OF s(1)] "2.IH"(1) [OF s(1) [symmetric] refl s(2)] by blast
    then show ?case by (intro exI [of _ "rows @ [row]"]) simp
  next case 2
    then obtain st1 m where s: "before_step w ref at entry st = (st1, Inr m)"
      "before_loop w ref (Suc at) (modified \<or> m) chain st1 = (st', Inr out)" using step by blast
    from "2.IH"(2) [OF s(1) [symmetric] refl s(2)] show ?case .
  next case 3
    then obtain st1 m where s: "before_step w ref at entry st = (st1, Inr m)"
      "before_loop w ref (Suc at) (modified \<or> m) chain st1 = (st', Inr out)" using step by blast
    from "2.IH"(3) [OF s(1) [symmetric] refl 3(1) s(2)] before_step_Inr(3) [OF s(1)] show ?case
      by simp
  next case 4
    then obtain st1 m where s: "before_step w ref at entry st = (st1, Inr m)"
      "before_loop w ref (Suc at) (modified \<or> m) chain st1 = (st', Inr out)" using step by blast
    from "2.IH"(4) [OF s(1) [symmetric] refl s(2)] before_step_Inr(2) [OF s(1)] show ?case by simp }
qed

lemma before_loop_Inl:
  "before_loop w ref at modified chain st = (st', Inl e) \<Longrightarrow>
   \<exists>pre entry post st1 out. chain = pre @ entry # post \<and>
     before_loop w ref at modified pre st = (st1, Inr out) \<and>
     before_step w ref (at + length pre) entry st1 = (st', Inl e)"
proof (induction w ref at modified chain st rule: before_loop.induct)
  case (2 w ref at modified entry chain st)
  show ?case
  proof (cases "before_step w ref at entry st")
    case (Pair st1 r)
    show ?thesis
    proof (cases r)
      case (Inl e')
      with Pair "2.prems" show ?thesis by (intro exI [of _ "[]"]) auto
    next
      case (Inr m)
      with Pair "2.prems" have "before_loop w ref (Suc at) (modified \<or> m) chain st1 = (st', Inl e)"
        by simp
      from "2.IH" [OF Pair [symmetric] Inr this] obtain pre e0 post st2 out where
        *: "chain = pre @ e0 # post" "before_loop w ref (Suc at) (modified \<or> m) pre st1 = (st2, Inr out)"
          "before_step w ref (Suc at + length pre) e0 st2 = (st', Inl e)" by blast
      show ?thesis
        by (rule exI [of _ "entry # pre"], rule exI [of _ e0], rule exI [of _ post],
            rule exI [of _ st2], rule exI [of _ out]) (use * Pair Inr in simp)
    qed
  qed
qed simp

definition refusal_of :: "Registration \<Rightarrow> string \<Rightarrow> validation_detail list \<Rightarrow> bool" where
  "refusal_of entry hook ds \<longleftrightarrow>
     ds \<noteq> [] \<and> list_all (\<lambda>d. vd_code d = HOOK_REJECTED) ds \<and>
     (\<exists>code. last ds = detail ''_hook'' ''hook'' HOOK_REJECTED
                         [code, handler_text (reg_handler entry), hook])"

lemma refusal_of_rejected:
  "rejected r (reg_handler entry) hook = Validation ds \<Longrightarrow> refusal_of entry hook ds"
  by (auto simp: rejected_def refusal_of_def list_all_iff)

text \<open>
  A refusal does not carry the handler's message: the response a \<open>REJECT\<close> becomes is a function of
  its code and its details, under the code and the message of every validation failure.
\<close>

lemma rejected_ignores_message:
  "rejected (r\<lparr>rej_message := m\<rparr>) handler hook = rejected r handler hook"
  by (simp add: rejected_def)

lemma rejected_response:
  "error_code (rejected r handler hook) = ''VALIDATION_ERROR''"
  "error_message (rejected r handler hook) = ''Validation failed''"
  "error_status (rejected r handler hook) = 422"
  by (simp_all add: rejected_def)

text \<open>A handler that says \<open>REJECT\<close> in time has the transition refused with it.\<close>

lemma before_step_reject:
  assumes "\<not> chain_elapsed w at > CHAIN_BUDGET" "\<not> handler_elapsed w at > HANDLER_BUDGET"
    and "run_handler (evaluate w) (reg_handler entry)
           (as_json (invoked_at w at) (enter entry (cs_inv st))) = Reject r"
    and "db_fault w (cs_statements st) = None"
  shows "snd (before_step w ref at entry st) = Inl (rejected r (reg_handler entry) (hook_name (cs_inv st)))"
  using assms by (simp add: before_step_def Let_def record_row_def db_def)

lemma before_step_Inl:
  assumes "before_step w ref at entry st = (st', Inl (Validation ds))"
  shows "refusal_of entry (hook_name (cs_inv st)) ds"
    and "\<exists>rows. cs_log st' = rows @ cs_log st \<and> length rows \<le> 1 \<and>
      (\<forall>row \<in> set rows. ex_handler_reference row = handler_text (reg_handler entry) \<and>
         (ex_result row = ''REJECT'' \<or> ex_result row = ''ERROR''))"
proof -
  let ?call = "enter entry (cs_inv st)"
  let ?st = "st\<lparr>cs_inv := ?call\<rparr>"
  let ?res = "run_handler (evaluate w) (reg_handler entry) (as_json (invoked_at w at) ?call)"
  let ?over = "handler_elapsed w at > HANDLER_BUDGET"
  let ?row = "execution_row w ref entry ?call (if ?over then ''ERROR'' else result_as_db ?res)
      (duration_ms (handler_elapsed w at)) (if ?over then Some [] else None)"
  have main: "\<exists>r. rejected r (reg_handler entry) (hook_name (cs_inv st)) = Validation ds"
    "st' = st \<or> (\<exists>u. record_row w ?row ?st = (st', Inr u) \<and> (?over \<or> (\<exists>r. ?res = Reject r)))"
    using assms unfolding before_step_def Let_def timed_out_def
    by (fastforce dest: record_row_Inl
        split: if_splits prod.splits sum.splits HookResult.splits)+
  from main(1) show "refusal_of entry (hook_name (cs_inv st)) ds"
    by (blast intro: refusal_of_rejected)
  from main(2) show "\<exists>rows. cs_log st' = rows @ cs_log st \<and> length rows \<le> 1 \<and>
      (\<forall>row \<in> set rows. ex_handler_reference row = handler_text (reg_handler entry) \<and>
         (ex_result row = ''REJECT'' \<or> ex_result row = ''ERROR''))"
  proof (elim disjE exE conjE)
    assume "st' = st"
    then show ?thesis by (intro exI [of _ "[]"]) simp
  next
    fix u assume "record_row w ?row ?st = (st', Inr u)" and ?over
    then show ?thesis by (intro exI [of _ "[?row]"]) (auto dest!: record_row_Inr)
  next
    fix u r assume "record_row w ?row ?st = (st', Inr u)" "?res = Reject r"
    then show ?thesis by (intro exI [of _ "[?row]"]) (auto dest!: record_row_Inr)
  qed
qed

section \<open>Facts of the after-chain\<close>

text \<open>The row a turn that fails nothing writes.\<close>

definition settled_row :: "Registration \<Rightarrow> Execution \<Rightarrow> bool" where
  "settled_row entry row \<longleftrightarrow>
     ex_handler_reference row = handler_text (reg_handler entry) \<and>
     ex_result row = (if before_only (reg_handler entry) then ''ERROR'' else ''CONTINUE'')"

lemma after_step_settled:
  assumes "after_step w ref at entry st = (st', Inr [])"
  shows "\<exists>row. cs_log st' = row # cs_log st \<and> settled_row entry row"
  using assms unfolding after_step_def Let_def
  by (auto simp: settled_row_def dest!: record_error_Inr record_row_Inr recent_executions_Inr
      split: if_splits prod.splits sum.splits option.splits)

lemma after_loop_prefix: "after_loop w ref at failures chain st = (st', Inr fs) \<Longrightarrow>
    \<exists>more. fs = failures @ more"
  by (induction w ref at failures chain st rule: after_loop.induct)
    (auto split: if_splits prod.splits sum.splits)

lemma after_loop_settled:
  "after_loop w ref at failures chain st = (st', Inr failures) \<Longrightarrow>
   \<exists>rows. cs_log st' = rows @ cs_log st \<and> list_all2 settled_row chain (rev rows)"
proof (induction w ref at failures chain st rule: after_loop.induct)
  case (2 w ref at failures entry chain st)
  obtain st1 fs where s: "\<not> chain_elapsed w at > CHAIN_BUDGET"
    "after_step w ref at entry st = (st1, Inr fs)"
    "after_loop w ref (Suc at) (failures @ fs) chain st1 = (st', Inr failures)"
    using "2.prems" by (auto split: if_splits prod.splits sum.splits)
  with after_loop_prefix [OF s(3)] have "fs = []" by simp
  with s have s2: "after_loop w ref (Suc at) (failures @ []) chain st1 = (st', Inr (failures @ []))"
    by simp
  obtain row where "cs_log st1 = row # cs_log st" "settled_row entry row"
    using after_step_settled s(2) \<open>fs = []\<close> by blast
  moreover obtain rows where "cs_log st' = rows @ cs_log st1" "list_all2 settled_row chain (rev rows)"
    using "2.IH" [OF s(1) s(2) [symmetric], of fs] s2 \<open>fs = []\<close> by auto
  ultimately show ?case by (intro exI [of _ "rows @ [row]"]) simp
qed simp

text \<open>An open breaker stops the run and the row, and the delivery is retried.\<close>

lemma after_step_paused:
  assumes "\<not> before_only (reg_handler entry)"
    and "recent_executions w (handler_text (reg_handler entry)) BREAKER_THRESHOLD
           (st\<lparr>cs_inv := enter entry (cs_inv st)\<rparr>) = (st1, Inr recent)"
    and "breaker_is_open recent"
  shows "after_step w ref at entry st = (st1, Inr [Paused (handler_text (reg_handler entry))])"
  using assms by (simp add: after_step_def Let_def)

text \<open>A report follows only a row that opened the breaker, and reaches every recipient.\<close>

lemma report_if_opened_told:
  assumes "report_if_opened w reference st = (st', Inr u)"
  shows "cs_told st' = cs_told st \<or>
    (\<exists>role recent st1. recent_executions w reference (BREAKER_THRESHOLD + 1) st = (st1, Inr recent) \<and>
      breaker_opened_by_latest recent \<and> admin_role w = Some role \<and>
      cs_told st' = cs_told st @ map (\<lambda>r. (r, reference)) (role_recipients w role))"
  using assms unfolding report_if_opened_def
  by (auto dest!: db_Inr recent_executions_Inr notify_all_Inr
      split: prod.splits sum.splits if_splits option.splits)

section \<open>Facts of the breaker\<close>

lemma opened_iff:
  "breaker_opened_by_latest h \<longleftrightarrow>
     5 \<le> length h \<and> (\<forall>k < 5. is_error (h ! k)) \<and> (5 < length h \<longrightarrow> \<not> is_error (h ! 5))"
  by (auto simp: breaker_opened_by_latest_def BREAKER_THRESHOLD_def list_all_length)

lemma opened_take: "breaker_opened_by_latest (take (BREAKER_THRESHOLD + 1) h) = breaker_opened_by_latest h"
  by (simp add: breaker_opened_by_latest_def BREAKER_THRESHOLD_def min_def)

lemma opened_apart:
  assumes "breaker_opened_by_latest (drop i h)" "breaker_opened_by_latest (drop j h)" "i < j"
  shows "\<exists>k. i < k \<and> k < j \<and> \<not> is_error (h ! k)"
proof -
  from assms(2) have j: "j + 5 \<le> length h" "\<forall>k < 5. is_error (h ! (j + k))"
    by (auto simp: opened_iff nth_drop)
  with assms(1,3) have i: "\<not> is_error (h ! (i + 5))" by (auto simp: opened_iff nth_drop)
  have "\<not> (j \<le> i + 5)"
  proof
    assume "j \<le> i + 5"
    with assms(3) have "i + 5 - j < 5" "j + (i + 5 - j) = i + 5" by auto
    with j(2) i show False by metis
  qed
  with i show ?thesis by (intro exI [of _ "i + 5"]) simp
qed

text \<open>The trial: an open breaker closes on its cool-down, and again on any success.\<close>

lemma breaker_trial:
  "breaker_is_open recent \<Longrightarrow> \<not> breaker_is_open (recent[0 := (recent ! 0)\<lparr>cooled := True\<rparr>])"
  "\<not> is_error r \<Longrightarrow> \<not> breaker_is_open (r # recent)"
  by (cases recent; simp add: breaker_is_open_def BREAKER_THRESHOLD_def)+

end
