(* ===== verification/PatternFacts.thy ===== *)
theory PatternFacts
  imports Pattern
begin

text \<open>
  What the scanners of \<open>Pattern\<close> guarantee: the fuel of the recursive descent is enough, a reported
  construct occurs in the pattern, and a backtracking shape is reported exactly when some group
  under an unbounded quantifier has a body of a refused shape.
\<close>

section \<open>The descent always answers\<close>

lemma length_class_members: "length (class_members cs) \<le> length cs"
proof (induction cs rule: class_members.induct)
  case (1 cs)
  show ?case
  proof (cases cs)
    case (Cons c rest)
    consider "c = backslash" | "c \<noteq> backslash" "c = ch CHR '']''" | "c \<noteq> backslash" "c \<noteq> ch CHR '']''"
      by blast
    then show ?thesis
    proof cases
      case 1
      have "length (class_members (escape_end cs)) \<le> length (escape_end cs)"
        using "1.IH"(1) [OF Cons] 1 by simp
      also have "\<dots> \<le> length cs" using length_escape_end [of c rest] Cons by simp
      finally show ?thesis using Cons 1 by (subst class_members.simps) simp
    next
      case 3
      then show ?thesis using "1.IH"(2) [OF Cons] Cons by (subst class_members.simps) simp
    qed (use Cons in \<open>subst class_members.simps, simp\<close>)
  qed (subst class_members.simps, simp)
qed

lemma length_class_end: "length (class_end cs) \<le> length cs"
  unfolding class_end_def using length_class_members length_skip_one order_trans by blast

lemma length_repeats: "repeats u cs = (u', rest) \<Longrightarrow> length rest \<le> length cs"
proof (induction u cs rule: repeats.induct)
  case (1 u cs)
  show ?case
  proof (cases "repeat_at cs")
    case None
    with "1.prems" show ?thesis by (simp add: repeats.simps [of u])
  next
    case (Some p)
    obtain r b where p: "p = (r, b)" by (cases p)
    have "repeats (Some b) (skip_one (CHR ''?'') r) = (u', rest)"
      using "1.prems" Some p by (simp add: repeats.simps [of u])
    from "1.IH" [OF Some p [symmetric] this] length_repeat_at [of cs r b] Some p length_skip_one [of "CHR ''?''" r]
    show ?thesis by simp
  qed
qed

lemma length_group_open: "group_open cs = (rest, b) \<Longrightarrow> length rest \<le> length cs"
proof -
  assume "group_open cs = (rest, b)"
  moreover have "length (drop 1 (dropWhile P (drop 1 cs))) \<le> length cs" for P
    using length_dropWhile_le [of P "drop 1 cs"] by (simp; arith)
  ultimately show ?thesis by (auto simp: group_open_def Let_def split: if_splits)
qed

definition answers :: "nat \<Rightarrow> bool" where
  "answers n \<longleftrightarrow>
     (\<forall>alts cs. 3 * length cs + 1 \<le> n \<longrightarrow>
        (\<exists>alts' rest. alternation n alts cs = Some (alts', rest) \<and> length rest \<le> length cs \<and>
           (rest = [] \<or> starts_with rest (CHR '')'')))) \<and>
     (\<forall>cs. cs \<noteq> [] \<and> 3 * length cs \<le> n \<longrightarrow>
        (\<exists>it rest. item n cs = Some (it, rest) \<and> length rest < length cs)) \<and>
     (\<forall>cs. 3 * length cs + 2 \<le> n \<longrightarrow>
        (\<exists>g rest. group n cs = Some (g, rest) \<and> length rest \<le> length cs))"

lemma answersD:
  assumes "answers n"
  shows "3 * length cs + 1 \<le> n \<Longrightarrow>
      \<exists>alts' rest. alternation n alts cs = Some (alts', rest) \<and> length rest \<le> length cs \<and>
        (rest = [] \<or> starts_with rest (CHR '')''))"
    and "cs \<noteq> [] \<Longrightarrow> 3 * length cs \<le> n \<Longrightarrow>
      \<exists>it rest. item n cs = Some (it, rest) \<and> length rest < length cs"
    and "3 * length cs + 2 \<le> n \<Longrightarrow>
      \<exists>g rest. group n cs = Some (g, rest) \<and> length rest \<le> length cs"
  using assms unfolding answers_def by blast+

lemma answers_item:
  assumes "answers n" "cs \<noteq> []" "3 * length cs \<le> Suc n"
  shows "\<exists>it rest. item (Suc n) cs = Some (it, rest) \<and> length rest < length cs"
proof -
  obtain c rest where cs: "cs = c # rest" using assms(2) by (cases cs) auto
  let ?r = "if c = ch CHR ''('' then group n rest
            else if c = ch CHR ''['' then Some (None, class_end rest)
            else if c = backslash then Some (None, escape_end cs)
            else Some (None, rest)"
  have "\<exists>g rest'. ?r = Some (g, rest') \<and> length rest' \<le> length rest"
    using answersD(3) [OF assms(1), of rest] assms(3) cs length_class_end [of rest]
      length_escape_end [of backslash rest]
    by simp
  then obtain g rest' where r: "?r = Some (g, rest')" "length rest' \<le> length rest" by blast
  obtain u rest'' where u: "repeats None rest' = (u, rest'')" by (meson surj_pair)
  have "item (Suc n) cs = Some (Item g u, rest'')"
    unfolding cs item.simps list.case using r(1) u unfolding cs by simp
  with length_repeats [OF u] r(2) cs show ?thesis by simp
qed

lemma answers_alternation:
  assumes "answers n" "3 * length cs + 1 \<le> Suc n"
  shows "\<exists>alts' rest. alternation (Suc n) alts cs = Some (alts', rest) \<and> length rest \<le> length cs \<and>
    (rest = [] \<or> starts_with rest (CHR '')''))"
proof (cases cs)
  case (Cons c rest)
  have more: "\<exists>alts'' rest''. alternation n alts' rest' = Some (alts'', rest'') \<and>
      length rest'' \<le> length rest' \<and> (rest'' = [] \<or> starts_with rest'' (CHR '')''))"
    if "length rest' < length cs" for alts' rest'
    using answersD(1) [OF assms(1), of rest' alts'] assms(2) that by simp
  consider "c = ch CHR '')''" | "c \<noteq> ch CHR '')''" "c = ch CHR ''|''" | "c \<noteq> ch CHR '')''" "c \<noteq> ch CHR ''|''"
    by blast
  then show ?thesis
  proof cases
    case 1
    with Cons show ?thesis by simp
  next
    case 2
    with Cons have "alternation (Suc n) alts cs = alternation n (alts @ [[]]) rest" by simp
    with more [of rest "alts @ [[]]"] Cons show ?thesis by force
  next
    case 3
    have "\<exists>it rest'. item n cs = Some (it, rest') \<and> length rest' < length cs"
      using answersD(2) [OF assms(1), of cs] assms(2) Cons by simp
    then obtain it rest' where it: "item n cs = Some (it, rest')" "length rest' < length cs" by blast
    with Cons 3 have "alternation (Suc n) alts cs = alternation n (push_last it alts) rest'" by simp
    with more [OF it(2), of "push_last it alts"] it(2) show ?thesis by force
  qed
qed simp

lemma answers_group:
  assumes "answers n" "3 * length cs + 2 \<le> Suc n"
  shows "\<exists>g rest. group (Suc n) cs = Some (g, rest) \<and> length rest \<le> length cs"
proof -
  obtain rest b where o: "group_open cs = (rest, b)" by (meson surj_pair)
  show ?thesis
  proof (cases b)
    case True
    have "3 * length rest + 1 \<le> n" using length_group_open [OF o] assms(2) by simp
    then obtain body rest' where "alternation n [[]] rest = Some (body, rest')"
      "length rest' \<le> length rest"
      using answersD(1) [OF assms(1), of rest "[[]]"] by blast
    with o True length_group_open [OF o] show ?thesis by simp
  qed (use o length_group_open [OF o] in simp)
qed

lemma answers_all: "answers n"
proof (induction n)
  case 0
  show ?case by (simp add: answers_def)
next
  case (Suc n)
  show ?case
    unfolding answers_def
    using answers_alternation [OF Suc] answers_item [OF Suc] answers_group [OF Suc] by blast
qed

lemma alternation_answers:
  "\<exists>alts rest. alternation (pattern_fuel cs) [[]] cs = Some (alts, rest) \<and>
     (rest = [] \<or> starts_with rest (CHR '')''))"
  using answersD(1) [OF answers_all, of cs "pattern_fuel cs" "[[]]"] unfolding pattern_fuel_def by blast

section \<open>A reported shape is in the pattern, and a shape in it is reported\<close>

inductive occurs_in :: "Item list list \<Rightarrow> Item \<Rightarrow> bool" where
  here: "alt \<in> set alts \<Longrightarrow> it \<in> set alt \<Longrightarrow> occurs_in alts it"
| inside: "alt \<in> set alts \<Longrightarrow> it \<in> set alt \<Longrightarrow> item_group it = Some body \<Longrightarrow> occurs_in body it' \<Longrightarrow>
    occurs_in alts it'"

lemma occurs_unfold:
  "occurs_in alts it' \<longleftrightarrow>
   (\<exists>it \<in> set (concat alts). it' = it \<or> (\<exists>body. item_group it = Some body \<and> occurs_in body it'))"
  by (subst occurs_in.simps) auto

definition risky :: "Item \<Rightarrow> bool" where
  "risky it \<longleftrightarrow>
     (case item_group it of
        None \<Rightarrow> False
      | Some body \<Rightarrow> unbounded it = Some True \<and> repeated_body body \<noteq> None)"

lemma first_shape_iff: "first_shape alts \<noteq> None \<longleftrightarrow> (\<exists>it. occurs_in alts it \<and> risky it)"
proof (induction alts rule: first_shape.induct)
  case (1 alts)
  have IH: "first_shape body \<noteq> None \<longleftrightarrow> (\<exists>it. occurs_in body it \<and> risky it)"
    if "it \<in> set (concat alts)" "item_group it = Some body" "\<not> risky it" for it body
  proof -
    have "(if unbounded it = Some True then repeated_body body else None) = None"
      using that(2,3) by (auto simp: risky_def)
    from "1.IH" [OF that(1,2) this] show ?thesis .
  qed
  let ?F = "\<lambda>item. case item_group item of
        None \<Rightarrow> None
      | Some body \<Rightarrow>
          (case (if unbounded item = Some True then repeated_body body else None) of
             Some own \<Rightarrow> Some own
           | None \<Rightarrow> first_shape body)"
  have F: "?F it \<noteq> None \<longleftrightarrow>
      risky it \<or> (\<exists>body. item_group it = Some body \<and> first_shape body \<noteq> None)" for it
  proof (cases "item_group it")
    case (Some body)
    then show ?thesis
      by (cases "unbounded it = Some True"; cases "repeated_body body") (simp_all add: risky_def)
  qed (simp add: risky_def)
  have "first_shape alts \<noteq> None \<longleftrightarrow> (\<exists>it \<in> set (concat alts). ?F it \<noteq> None)"
    unfolding first_shape.simps [of alts] by (rule first_some_map)
  then have first: "first_shape alts \<noteq> None \<longleftrightarrow>
      (\<exists>it \<in> set (concat alts). risky it \<or>
         (\<exists>body. item_group it = Some body \<and> first_shape body \<noteq> None))"
    unfolding F .
  have step: "(risky it \<or> (\<exists>body. item_group it = Some body \<and> first_shape body \<noteq> None)) \<longleftrightarrow>
      (\<exists>it'. (it' = it \<or> (\<exists>body. item_group it = Some body \<and> occurs_in body it')) \<and> risky it')"
    if "it \<in> set (concat alts)" for it
  proof (cases "risky it")
    case False
    then show ?thesis using IH [OF that _ False] by metis
  qed blast
  have "(\<exists>it'. occurs_in alts it' \<and> risky it') \<longleftrightarrow> (\<exists>it \<in> set (concat alts).
      \<exists>it'. (it' = it \<or> (\<exists>body. item_group it = Some body \<and> occurs_in body it')) \<and> risky it')"
    unfolding occurs_unfold [of alts] by blast
  then show ?case unfolding first by (simp only: step cong: bex_cong)
qed

text \<open>What a body must look like: a choice, or one item that repeats, under any plain groups.\<close>

inductive repeats_inside :: "Item list list \<Rightarrow> bool" where
  choice: "length body > 1 \<Longrightarrow> repeats_inside body"
| quantified: "unbounded it = Some True \<Longrightarrow> repeats_inside [[it]]"
| wrapped: "unbounded it = None \<Longrightarrow> item_group it = Some inner \<Longrightarrow> repeats_inside inner \<Longrightarrow>
    repeats_inside [[it]]"

inductive_simps repeats_inside_single: "repeats_inside [[it]]"

lemma repeats_inside_other: "(\<nexists>it. body = [[it]]) \<Longrightarrow> repeats_inside body \<longleftrightarrow> length body > 1"
  by (subst repeats_inside.simps) auto

lemma repeated_body_iff: "repeated_body body \<noteq> None \<longleftrightarrow> repeats_inside body"
proof (induction body rule: repeated_body.induct)
  case (1 body)
  show ?case
  proof (cases "\<exists>it. body = [[it]]")
    case True
    then obtain it where b: "body = [[it]]" by blast
    show ?thesis
    proof (cases "unbounded it = None \<and> (\<exists>inner. item_group it = Some inner)")
      case True
      then obtain inner where i: "unbounded it = None" "item_group it = Some inner" by blast
      have "repeated_body body = repeated_body inner" unfolding b using i by (simp add: repeated_body.simps [of "[[it]]"])
      moreover have "repeated_body inner \<noteq> None \<longleftrightarrow> repeats_inside inner"
        using "1.IH" [of "[it]" "[]" it "[]" "None" "Some inner" inner] b i by simp
      ultimately show ?thesis using b i by (auto elim: repeats_inside.cases intro: wrapped)
    next
      case False
      then show ?thesis unfolding b
        by (cases "unbounded it"; cases "item_group it")
          (auto simp: repeats_inside_single repeated_body.simps [of "[[it]]"] split: bool.split)
    qed
  next
    case False
    then have "length body \<le> 1 \<Longrightarrow> body = [] \<or> body = [[]] \<or> (\<exists>x y zs. body = [x # y # zs])"
      by (cases body; cases "hd body"; cases "tl (hd body)") auto
    with False show ?thesis unfolding repeats_inside_other [OF False]
      by (auto simp: repeated_body.simps [of body])
  qed
qed

section \<open>A reported divergence is in the pattern\<close>

fun construct_at :: "DivergentConstruct \<Rightarrow> cp list \<Rightarrow> bool" where
  "construct_at (Class c) cs \<longleftrightarrow>
     (\<exists>rest. cs = backslash # c # rest) \<and> c \<in> set (map of_char ''dDwWsS'')"
| "construct_at (UnicodeProperty c) cs \<longleftrightarrow>
     (\<exists>rest. cs = backslash # c # rest) \<and> c \<in> set (map of_char ''pP'')"
| "construct_at (WordBoundary c) cs \<longleftrightarrow>
     (\<exists>rest. cs = backslash # c # rest) \<and> c \<in> set (map of_char ''bB'')"
| "construct_at (PosixClass name) cs \<longleftrightarrow>
     name \<noteq> [] \<and> (\<exists>rest. cs = map of_char ''[:'' @ name @ map of_char '':]'' @ rest)"

lemma posix_class_name_take:
  "posix_class_name name cs = Some full \<Longrightarrow>
   full \<noteq> [] \<and> (\<exists>rest. name @ cs = full @ map of_char '':]'' @ rest)"
  by (induction name cs rule: posix_class_name.induct) (auto split: if_splits)

lemma skip_one_suffix: "\<exists>k. skip_one c cs = drop k cs"
  unfolding skip_one_def by (metis drop0)

lemma divergent_scan_found:
  "divergent_scan in_class cs = Some d \<Longrightarrow> \<exists>k. construct_at d (drop k cs)"
proof (induction in_class cs rule: divergent_scan.induct)
  case (2 in_class character rest)
  have later: "\<exists>k. construct_at d (drop k (character # rest))" if "\<exists>k. construct_at d (drop k rest)"
    using that by (metis drop_Suc_Cons)
  show ?case
  proof (cases "character = backslash")
    case True
    show ?thesis
    proof (cases rest)
      case (Cons escaped more)
      have "\<exists>k. construct_at d (drop k rest)" if "\<exists>k. construct_at d (drop k more)"
        using that Cons by (metis drop_Suc_Cons)
      with "2.prems" "2.IH"(1) [OF True Cons] later show ?thesis
        unfolding Cons True by (auto split: if_splits intro!: exI [of _ 0])
    qed (use "2.prems" True in simp)
  next
    case bs: False
    show ?thesis
    proof (cases "\<not> in_class \<and> character = ch CHR ''[''")
      case True
      then have "divergent_scan True (skip_one (CHR '']'') (skip_one (CHR ''^'') rest)) = Some d"
        using "2.prems" bs by simp
      from "2.IH"(2) [OF bs True this] show ?thesis
        using later skip_one_suffix by (metis drop_drop)
    next
      case False
      let ?p = "if in_class \<and> character = ch CHR ''['' \<and> starts_with rest (CHR '':'')
          then posix_class_name [] (drop 1 rest) else None"
      show ?thesis
      proof (cases ?p)
        case None
        have "divergent_scan in_class (character # rest) =
            divergent_scan (in_class \<and> character \<noteq> ch CHR '']'') rest"
          by (simp only: divergent_scan.simps bs False None if_False option.case)
        with "2.prems" have "divergent_scan (in_class \<and> character \<noteq> ch CHR '']'') rest = Some d"
          by (simp only:)
        from "2.IH"(3) [OF bs False None this] later show ?thesis by blast
      next
        case (Some name)
        then have p: "character = ch CHR ''[''" "starts_with rest (CHR '':'')"
          "posix_class_name [] (drop 1 rest) = Some name" by (auto split: if_splits)
        have "divergent_scan in_class (character # rest) = Some (PosixClass name)"
          by (simp only: divergent_scan.simps bs False Some if_False option.case)
        with "2.prems" have "d = PosixClass name" by (simp only: option.inject)
        moreover obtain more where "rest = ch CHR '':'' # name @ map of_char '':]'' @ more" "name \<noteq> []"
          using p(2) posix_class_name_take [OF p(3)] by (cases rest) auto
        ultimately show ?thesis using p(1) by (intro exI [of _ 0]) simp
      qed
    qed
  qed
qed simp

end
