(* ===== verification/JfssFacts.thy ===== *)
theory JfssFacts
  imports RuleEngine
begin

text \<open>
  What the form checks guarantee when they report nothing: every operator of an expression is
  approved, every lookup component is bound to a known source, and every rule parameter is present,
  of its kind and about another field.
\<close>

section \<open>Operators\<close>

inductive applies :: "json \<Rightarrow> string \<Rightarrow> json \<Rightarrow> bool" where
  here: "(opr, arg) \<in> set m \<Longrightarrow> applies (Object m) opr arg"
| argument: "(opr', arg') \<in> set m \<Longrightarrow> applies arg' opr arg \<Longrightarrow> applies (Object m) opr arg"
| item: "x \<in> set xs \<Longrightarrow> applies x opr arg \<Longrightarrow> applies (Array xs) opr arg"

inductive_cases applies_ArrayE: "applies (Array xs) opr arg"
inductive_cases applies_ObjectE: "applies (Object m) opr arg"
inductive_simps applies_simps [simp]:
  "applies Null opr arg" "applies (Bool b) opr arg" "applies (Number n) opr arg"
  "applies (String s) opr arg"

definition approved_use :: "string list \<Rightarrow> string \<Rightarrow> json \<Rightarrow> bool" where
  "approved_use approved opr arg \<longleftrightarrow>
     opr \<in> set approved \<and> (opr = ''sum'' \<longrightarrow> (\<forall>xs. arg = Array xs \<longrightarrow> length xs = 1))"

lemma check_sum_arity_Nil: "check_sum_arity arg path = [] \<longleftrightarrow> (\<forall>xs. arg = Array xs \<longrightarrow> length xs = 1)"
  by (cases arg) (auto simp: check_sum_arity_def)

lemma check_operator_one:
  "(if opr \<notin> set approved then [detail path ''operator'' ''OPERATOR_NOT_REGISTERED'' [opr]] else []) @
   (if opr = ''sum'' then check_sum_arity arg path else []) = [] \<longleftrightarrow> approved_use approved opr arg"
  by (auto simp: approved_use_def check_sum_arity_Nil)

lemma check_operators_Object:
  "check_operators (Object m) approved path = [] \<longleftrightarrow>
   (\<forall>(opr, arg) \<in> set m. approved_use approved opr arg \<and> check_operators arg approved path = [])"
proof -
  have "check_operators (Object m) approved path = [] \<longleftrightarrow>
      (\<forall>(opr, arg) \<in> set m.
        ((if opr \<notin> set approved then [detail path ''operator'' ''OPERATOR_NOT_REGISTERED'' [opr]] else []) @
         (if opr = ''sum'' then check_sum_arity arg path else [])) @
        check_operators arg approved path = [])"
    by (simp only: check_operators.simps concat_map_Nil_iff append_assoc case_prod_unfold)
  then show ?thesis by (simp only: append_is_Nil_conv [of "_ @ _"] check_operator_one)
qed

declare check_operators.simps(1) [simp del]

lemma check_operators_iff:
  "check_operators e approved path = [] \<longleftrightarrow>
   (\<forall>opr arg. applies e opr arg \<longrightarrow> approved_use approved opr arg)"
proof (induction e approved path rule: check_operators.induct)
  case (1 m approved path)
  then have IH: "check_operators arg approved path = [] \<longleftrightarrow>
      (\<forall>o' a. applies arg o' a \<longrightarrow> approved_use approved o' a)" if "(opr, arg) \<in> set m" for opr arg
    using that by blast
  have "(\<forall>(opr, arg) \<in> set m. approved_use approved opr arg \<and> check_operators arg approved path = []) \<longleftrightarrow>
      (\<forall>(opr, arg) \<in> set m. approved_use approved opr arg \<and>
        (\<forall>o' a. applies arg o' a \<longrightarrow> approved_use approved o' a))"
    using IH by blast
  also have "\<dots> \<longleftrightarrow> (\<forall>opr arg. applies (Object m) opr arg \<longrightarrow> approved_use approved opr arg)"
    by (blast elim: applies_ObjectE intro: applies.intros)
  finally show ?case unfolding check_operators_Object .
next
  case (2 items approved path)
  then show ?case by (auto elim!: applies_ArrayE intro: applies.intros)
qed simp_all

section \<open>Lookups\<close>

definition bindings_of :: "json \<Rightarrow> (string \<times> json) list" where
  "bindings_of d =
     (case Option.bind (get d ''settings'') (\<lambda>settings. get settings ''lookups'') of
        Some (Object m) \<Rightarrow> m | _ \<Rightarrow> [])"

abbreviation data_components :: "json \<Rightarrow> DataComponent list" where
  "data_components d \<equiv> collect_data_components d ''definition.components''"

lemma check_binding_Nil:
  "check_binding id0 source cs = [] \<longleftrightarrow>
   (\<exists>s component. source = String (lookup_key s) \<and>
      filter (\<lambda>c. dc_id c = Some id0) cs = [component] \<and> \<not> has_options component)"
proof (cases source)
  case (String src)
  show ?thesis
  proof (cases "filter (\<lambda>c. dc_id c = Some id0) cs")
    case (Cons c rest)
    with String show ?thesis
      by (cases rest) (auto simp: check_binding_def Let_def lookup_source.unknown_iff)
  qed (use String in \<open>simp add: check_binding_def Let_def\<close>)
qed (simp_all add: check_binding_def Let_def)

lemma lookup_errors_bound:
  assumes "lookup_errors d = []"
  shows "(id0, source) \<in> set (bindings_of d) \<Longrightarrow>
      \<exists>s component. source = String (lookup_key s) \<and>
        filter (\<lambda>c. dc_id c = Some id0) (data_components d) = [component] \<and> \<not> has_options component"
    and "c \<in> set (data_components d) \<Longrightarrow> component_type c = Some LOOKUP_TYPE \<Longrightarrow>
      \<exists>id0 source. dc_id c = Some id0 \<and> (id0, source) \<in> set (bindings_of d)"
proof -
  let ?b = "Option.bind (get d ''settings'') (\<lambda>settings. get settings ''lookups'')"
  note split = assms [unfolded lookup_errors_def Let_def append_is_Nil_conv concat_map_Nil_iff]
  show "\<exists>s component. source = String (lookup_key s) \<and>
        filter (\<lambda>c. dc_id c = Some id0) (data_components d) = [component] \<and> \<not> has_options component"
    if "(id0, source) \<in> set (bindings_of d)"
  proof -
    obtain m where m: "?b = Some (Object m)" "(id0, source) \<in> set m"
    proof (cases ?b)
      case (Some v)
      then show thesis using that \<open>(id0, source) \<in> set (bindings_of d)\<close>
        by (cases v) (auto simp: bindings_of_def)
    qed (use \<open>(id0, source) \<in> set (bindings_of d)\<close> in \<open>simp add: bindings_of_def\<close>)
    with split have "check_binding id0 source (data_components d) = []"
      by (auto simp: case_prod_unfold)
    then show ?thesis unfolding check_binding_Nil .
  qed
  show "\<exists>id0 source. dc_id c = Some id0 \<and> (id0, source) \<in> set (bindings_of d)"
    if "c \<in> set (data_components d)" "component_type c = Some LOOKUP_TYPE"
  proof -
    have "set (case ?b of Some (Object m) \<Rightarrow> map fst m | _ \<Rightarrow> []) = fst ` set (bindings_of d)"
    proof (cases ?b)
      case (Some v)
      then show ?thesis by (cases v) (simp_all add: bindings_of_def)
    qed (simp add: bindings_of_def)
    with conjunct2 [OF split] that show ?thesis
      by (fastforce split: option.splits if_splits)
  qed
qed

section \<open>Rule parameters\<close>

lemma check_param_Nil:
  "check_param path key scope_keys required name value = [] \<longleftrightarrow>
   (\<exists>v. value = Some v \<and> holds (rp_kind required) v \<and> v \<noteq> String [] \<and> v \<noteq> Array [] \<and>
      (rp_kind required = FieldKey \<longrightarrow> (\<exists>t. v = String t \<and> t \<noteq> key \<and> t \<in> set scope_keys)))"
proof (cases "value")
  case (Some v)
  then show ?thesis
    by (cases v; cases "rp_kind required")
      (auto simp: check_param_def Let_def is_string_def is_array_def)
qed (simp add: check_param_def Let_def)

text \<open>The two pairs of the registry answer each other's opposite.\<close>

lemma decide_pairs:
  "decide nt im DecideNotMatchesField c \<longleftrightarrow> \<not> decide nt im DecideMatchesField c"
  "decide nt im DecideNotOneOf c \<longleftrightarrow> \<not> decide nt im DecideOneOf c"
  by simp_all

end
