(* ===== verification/Samples.thy ===== *)
theory Samples
  imports EvalOrder WorkflowGate HookChain PatternFacts JfssFacts
begin

text \<open>
  Two small documents the witnesses evaluate: a workflow with a conditioned edge, a fallback, a
  guard and an after-action, and a form with two calculated fields, a lookup and a repeater whose
  row calculates in its own scope.
\<close>

section \<open>A workflow\<close>

definition sample_condition :: json where
  "sample_condition =
     Object [(''<='', Array [Object [(''var'', String ''formData.amount'')],
                             Object [(''var'', String ''variables.limit'')]])]"

definition sample_approve :: json where
  "sample_approve = Object
     [(''action'', String ''APPROVE''),
      (''actions'', Array [Object [(''handler'', String ''core:continue_always'')]]),
      (''allowedBy'', Object [(''assigneeType'', String ''DEPARTMENT_ROLE''),
                              (''departmentScope'', String ''FIN''),
                              (''roleCode'', String ''APPROVER'')]),
      (''condition'', sample_condition),
      (''from'', String ''OPEN''),
      (''guards'', Array [Object [(''handler'', String ''core:set_form_field'')]]),
      (''to'', String ''DONE'')]"

definition sample_fallback :: json where
  "sample_fallback = Object
     [(''action'', String ''APPROVE''), (''allowedBy'', String ''OWNER''),
      (''from'', String ''OPEN''), (''to'', String ''BACK'')]"

definition sample_workflow :: json where
  "sample_workflow = Object
     [(''initialState'', String ''OPEN''),
      (''states'', Array
        [Object [(''code'', String ''OPEN''), (''mapsToDocumentStatus'', String ''SUBMITTED''),
                 (''task'', Object [(''assignment'', String ''ROLE:APPROVER''),
                                    (''taskDefinitionKey'', String ''approve'')])],
         Object [(''code'', String ''DONE''), (''isFinal'', Bool True),
                 (''mapsToDocumentStatus'', String ''COMPLETED'')],
         Object [(''code'', String ''BACK''), (''isFinal'', Bool True),
                 (''mapsToDocumentStatus'', String ''REJECTED'')]]),
      (''transitions'', Array [sample_fallback, sample_approve]),
      (''variables'', Array [Object [(''key'', String ''limit'')]])]"

lemma sample_structure: "structural_errors sample_workflow = []"
  by code_simp

lemma sample_registrations: "registration_errors sample_workflow = []"
  by code_simp

lemma sample_conditions: "condition_path_errors sample_workflow = []"
  by code_simp

section \<open>A form\<close>

definition plain_field :: "string \<Rightarrow> json" where
  "plain_field k = Object [(''key'', String k), (''role'', String ''data'')]"

definition calculated :: "string \<Rightarrow> json \<Rightarrow> json" where
  "calculated k e = Object [(''calculate'', e), (''key'', String k), (''role'', String ''data'')]"

definition plus :: "json \<Rightarrow> json" where
  "plus x = Object [(''+'', Array [x, Number (PosInt 1)])]"

definition var0 :: "string \<Rightarrow> json" where
  "var0 p = Object [(''var'', String p)]"

definition sample_rows :: "json list" where
  "sample_rows = [calculated ''t'' (plus (var0 ''q'')), plain_field ''q'']"

definition sample_components :: "json list" where
  "sample_components =
     [Object [(''components'', Array [calculated ''b'' (plus (var0 ''a'')), plain_field ''a'']),
              (''role'', String ''layout'')],
      Object [(''components'', Array sample_rows), (''key'', String ''r''), (''role'', String ''data'')]]"

definition sample_form :: json where
  "sample_form = Object [(''components'', Array sample_components)]"

lemma sample_form_clean: "definition_errors (\<lambda>_ _. None) sample_form = []"
  by code_simp

lemma sample_form_paths: "computed_path_errors sample_form = []"
  by code_simp

definition sample_lookup :: json where
  "sample_lookup = Object
     [(''components'', Array
        [Object [(''id'', String ''s''), (''key'', String ''s''), (''role'', String ''data''),
                 (''type'', String ''lookup'')]]),
      (''settings'', Object [(''lookups'', Object [(''s'', String ''supplier'')])])]"

lemma sample_lookup_components:
  "data_components sample_lookup =
     [\<lparr>dc_path = ''definition.components.0'', dc_id = Some ''s'', component_type = Some ''lookup'',
       has_options = False\<rparr>]"
proof -
  have "show_nat 0 = ''0''" by code_simp
  moreover have "collect_data_components (Object m) p = []" if "map_of m ''components'' = None" for m p
    using that by (subst collect_data_components.simps) (simp add: get_arr_def with_paths_def)
  ultimately show ?thesis
    unfolding sample_lookup_def
    by (subst collect_data_components.simps)
      (simp add: get_arr_def with_paths_def get_str_def child_containers_def SLOT_KEYS_def)
qed

lemma sample_lookup_clean: "lookup_errors sample_lookup = []"
  unfolding lookup_errors_def sample_lookup_components Let_def
  by (simp add: sample_lookup_def check_binding_def Let_def from_key_def SOURCES_def LOOKUP_TYPE_def)

text \<open>A form whose two calculated fields read each other.\<close>

definition looping_components :: "json list" where
  "looping_components = [calculated ''x'' (plus (var0 ''y'')), calculated ''y'' (plus (var0 ''x''))]"

lemma looping_order: "evaluation_order looping_components = Some (Inl (Cycle [''x'', ''y'']))"
  by code_simp

section \<open>A chain\<close>

definition registration :: "string \<Rightarrow> Registration" where
  "registration name =
     \<lparr>reg_hook = BEFORE_WORKFLOW_TRANSITION, reg_handler = CoreHandlerRef name, reg_priority = 300,
      reg_config = Object [(''condition'', Bool True), (''field'', String ''f'')],
      reg_source = WorkflowSource\<rparr>"

definition sample_invocation :: Invocation where
  "sample_invocation =
     \<lparr>hook_name = BEFORE_WORKFLOW_TRANSITION, inv_source = WorkflowSource, tenant_id = ''t'',
      document_id = ''d'', document_type_key = ''k'', current_status = None, target_status = None,
      actor_user_id = None, inv_form_data = Object [], inv_metadata = Object [],
      inv_workflow_context = Null, inv_subject = Null, inv_config = Object [],
      correlation_id = ''c''\<rparr>"

text \<open>An evaluator that answers the expression itself, and a database that never fails.\<close>

definition sample_world :: World where
  "sample_world =
     \<lparr>evaluate = (\<lambda>e d. Inr e), chain_elapsed = (\<lambda>_. 0), handler_elapsed = (\<lambda>_. 0),
      invoked_at = (\<lambda>_. ''now''), db_now = 0, db_fault = (\<lambda>_. None), admin_role = Some ''admin'',
      role_recipients = (\<lambda>_. [''ada''])\<rparr>"

definition failed_row :: Execution where
  "failed_row =
     \<lparr>ex_tenant_id = ''t'', ex_source = WorkflowSource, ex_transition_ref = None,
      ex_document_id = ''d'', ex_hook_name = BEFORE_WORKFLOW_TRANSITION,
      ex_handler_reference = ''core:continue_always'', ex_result = ''ERROR'', ex_duration_ms = 0,
      ex_error_message = Some [], ex_executed_at = 0\<rparr>"

definition state_with :: "Execution list \<Rightarrow> ChainState" where
  "state_with log0 =
     \<lparr>cs_log = log0, cs_told = [], cs_statements = 0, cs_inv = sample_invocation\<rparr>"

lemmas chain_evaluation =
  run_before_chain_def before_step_def run_after_chain_def after_step_def after_outcome_def
  record_error_def report_if_opened_def recent_executions_def record_row_def db_def Let_def
  sample_world_def state_with_def sample_invocation_def registration_def enter_def
  execution_row_def apply_result_def CHAIN_BUDGET_def HANDLER_BUDGET_def BREAKER_THRESHOLD_def
  breaker_is_open_def breaker_opened_by_latest_def before_only_def run_handler_def resolve_def
  serves_after_def continue_always_def set_form_field_def reject_when_def get_as_json setting_def
  get_str_def rejected_def new_rejection_def timed_out_def

lemma sample_chain_passes:
  "\<exists>st out. run_before_chain sample_world [registration ''set_form_field''] None (state_with []) =
     (st, Inr out) \<and> out_modified out"
  by (simp add: chain_evaluation)

lemma sample_chain_refuses:
  "\<exists>st ds. run_before_chain sample_world [registration ''reject_when''] None (state_with []) =
     (st, Inl (Validation ds))"
  by (simp add: chain_evaluation)

lemma sample_after_settles:
  "\<exists>st. run_after_chain sample_world [registration ''continue_always'', registration ''reject_when'']
     None (state_with []) = (st, Inr [])"
  by (simp add: chain_evaluation)

lemma sample_breaker_open:
  "\<exists>st recent. recent_executions sample_world ''core:continue_always'' BREAKER_THRESHOLD
     ((state_with (replicate 5 failed_row))
        \<lparr>cs_inv := enter (registration ''continue_always'') sample_invocation\<rparr>) = (st, Inr recent) \<and>
     breaker_is_open recent"
  by (simp add: chain_evaluation failed_row_def BREAKER_COOL_DOWN_def list_all_iff)

end
