(* ===== verification/Lifecycle.thy ===== *)
theory Lifecycle
  imports Errors TaskType Pattern WfGraph
begin

text \<open>
  The statuses a document, an instance and a task move through (\<open>document/domain/status.rs\<close>,
  \<open>workflow/domain/instance.rs\<close>, \<open>workflow/domain/task.rs\<close>) and the refusals of the task surface.
  A status read from the database falls back on a fixed one when the text is unknown, so reading is
  a left inverse of writing and not the other way round; \<open>parse_document_status\<close> checks the round
  trip and is the exact inverse.
\<close>

section \<open>Documents\<close>

datatype DocumentStatus =
    DocDraft | DocSubmitted | DocInReview | DocPendingApproval | DocApproved | DocRejected
  | DocReturned | DocCompleted | DocArchived | DocCancelled

definition ALL_STATUSES :: "DocumentStatus list" where
  "ALL_STATUSES =
     [DocDraft, DocSubmitted, DocInReview, DocPendingApproval, DocApproved, DocRejected,
      DocReturned, DocCompleted, DocArchived, DocCancelled]"

fun status_as_db :: "DocumentStatus \<Rightarrow> string" where
  "status_as_db DocDraft = ''DRAFT''"
| "status_as_db DocSubmitted = ''SUBMITTED''"
| "status_as_db DocInReview = ''IN_REVIEW''"
| "status_as_db DocPendingApproval = ''PENDING_APPROVAL''"
| "status_as_db DocApproved = ''APPROVED''"
| "status_as_db DocRejected = ''REJECTED''"
| "status_as_db DocReturned = ''RETURNED''"
| "status_as_db DocCompleted = ''COMPLETED''"
| "status_as_db DocArchived = ''ARCHIVED''"
| "status_as_db DocCancelled = ''CANCELLED''"

definition status_from_db :: "string \<Rightarrow> DocumentStatus" where
  "status_from_db value =
     (if value = ''SUBMITTED'' then DocSubmitted
      else if value = ''IN_REVIEW'' then DocInReview
      else if value = ''PENDING_APPROVAL'' then DocPendingApproval
      else if value = ''APPROVED'' then DocApproved
      else if value = ''REJECTED'' then DocRejected
      else if value = ''RETURNED'' then DocReturned
      else if value = ''COMPLETED'' then DocCompleted
      else if value = ''ARCHIVED'' then DocArchived
      else if value = ''CANCELLED'' then DocCancelled
      else DocDraft)"

definition parse_document_status :: "string \<Rightarrow> DocumentStatus option" where
  "parse_document_status value =
     (let parsed = status_from_db value in if status_as_db parsed = value then Some parsed else None)"

interpretation document_status: db_code status_as_db parse_document_status
proof
  show "parse_document_status (status_as_db x) = Some x" for x
    by (cases x) (simp_all add: parse_document_status_def status_from_db_def)
  show "parse_document_status s = Some x \<Longrightarrow> status_as_db x = s" for s x
    by (auto simp: parse_document_status_def Let_def split: if_splits)
qed

lemma status_from_db_as_db [simp]: "status_from_db (status_as_db s) = s"
  by (cases s) (simp_all add: status_from_db_def)

definition is_editable :: "DocumentStatus \<Rightarrow> bool" where
  "is_editable s \<longleftrightarrow> s = DocDraft \<or> s = DocReturned"

definition is_discardable :: "DocumentStatus \<Rightarrow> bool" where
  "is_discardable s \<longleftrightarrow> s = DocDraft"

fun may_move_to :: "DocumentStatus \<Rightarrow> DocumentStatus list" where
  "may_move_to DocDraft = []"
| "may_move_to DocSubmitted =
     [DocInReview, DocApproved, DocRejected, DocReturned, DocCancelled]"
| "may_move_to DocInReview = [DocApproved, DocRejected, DocReturned, DocCancelled]"
| "may_move_to DocReturned = [DocSubmitted, DocCancelled]"
| "may_move_to DocApproved = [DocCompleted, DocCancelled]"
| "may_move_to DocRejected = [DocCancelled]"
| "may_move_to DocPendingApproval = []"
| "may_move_to DocCompleted = []"
| "may_move_to DocArchived = []"
| "may_move_to DocCancelled = []"

text \<open>The three sentences of the refusal, told apart by what they interpolate.\<close>

definition check_move_to :: "DocumentStatus \<Rightarrow> DocumentStatus \<Rightarrow> AppError + unit" where
  "check_move_to s target =
     (if target \<in> set (may_move_to s) then Inr ()
      else
        Inl (Validation [detail ''status'' ''transition'' ''ILLEGAL_TRANSITION''
          (if s = DocDraft \<and> target = DocSubmitted then []
           else if may_move_to s = [] then [status_as_db s]
           else [status_as_db s, status_as_db target,
                 join '', '' (map status_as_db (may_move_to s))])]))"

fun add_count :: "DocumentStatus \<Rightarrow> int \<Rightarrow> (DocumentStatus \<times> int) list \<Rightarrow> (DocumentStatus \<times> int) list" where
  "add_count status n [] = []"
| "add_count status n ((s, c) # counts) =
     (if s = status then (s, c + n) # counts else (s, c) # add_count status n counts)"

definition every_status :: "(DocumentStatus \<times> int) list \<Rightarrow> (DocumentStatus \<times> int) list" where
  "every_status counted =
     fold (\<lambda>(status, n). add_count status n) counted (map (\<lambda>s. (s, 0)) ALL_STATUSES)"

section \<open>The moves a person can make\<close>

inductive moves :: "DocumentStatus \<Rightarrow> DocumentStatus \<Rightarrow> bool" where
  stay: "moves s s"
| step: "moves s t \<Longrightarrow> check_move_to t u = Inr () \<Longrightarrow> moves s u"

code_pred moves .

lemma check_move_to_ok [simp]: "check_move_to s t = Inr () \<longleftrightarrow> t \<in> set (may_move_to s)"
  by (simp add: check_move_to_def)

inductive_cases moves_from: "moves s t"

text \<open>A document that has left the draft never comes back to it, and no move enters a workflow's
  own states.\<close>

lemma moves_closed:
  assumes "moves s t" and "s \<noteq> t"
  shows "t \<noteq> DocDraft \<and> t \<noteq> DocPendingApproval \<and> t \<noteq> DocArchived"
  using assms
proof (induction rule: moves.induct)
  case (step s t u)
  then show ?case by (cases t) auto
qed simp

lemma live_can_be_cancelled:
  "s \<noteq> DocDraft \<Longrightarrow> may_move_to s = [] \<or> DocCancelled \<in> set (may_move_to s)"
  by (cases s) auto

lemma no_self_move: "s \<notin> set (may_move_to s)"
  by (cases s) auto

text \<open>A round of \<open>every_status\<close>: each status once, in declaration order, with its counts summed.\<close>

lemma add_count_map:
  "distinct ss \<Longrightarrow> add_count status n (map (\<lambda>s. (s, f s)) ss) =
     map (\<lambda>s. (s, if s = status then f s + n else f s)) ss"
  by (induction ss) auto

lemma add_counts_map:
  "distinct ss \<Longrightarrow> fold (\<lambda>(status, n). add_count status n) counted (map (\<lambda>s. (s, f s)) ss) =
     map (\<lambda>s. (s, f s + sum_list (map snd (filter (\<lambda>c. fst c = s) counted)))) ss"
proof (induction counted arbitrary: f)
  case (Cons c counted)
  then show ?case by (cases c) (auto simp: add_count_map)
qed simp

lemma every_status_eq:
  "every_status counted =
     map (\<lambda>s. (s, sum_list (map snd (filter (\<lambda>c. fst c = s) counted)))) ALL_STATUSES"
  unfolding every_status_def
  using add_counts_map [of ALL_STATUSES counted "\<lambda>_. 0"] by (simp add: ALL_STATUSES_def)

section \<open>Instances\<close>

datatype InstanceStatus =
    InstStarted | InstRunning | InstSuspended | InstCompleted | InstCancelled | InstFailed

fun instance_as_db :: "InstanceStatus \<Rightarrow> string" where
  "instance_as_db InstStarted = ''STARTED''"
| "instance_as_db InstRunning = ''RUNNING''"
| "instance_as_db InstSuspended = ''SUSPENDED''"
| "instance_as_db InstCompleted = ''COMPLETED''"
| "instance_as_db InstCancelled = ''CANCELLED''"
| "instance_as_db InstFailed = ''FAILED''"

definition instance_from_db :: "string \<Rightarrow> InstanceStatus" where
  "instance_from_db value =
     (if value = ''STARTED'' then InstStarted
      else if value = ''RUNNING'' then InstRunning
      else if value = ''SUSPENDED'' then InstSuspended
      else if value = ''COMPLETED'' then InstCompleted
      else if value = ''CANCELLED'' then InstCancelled
      else InstFailed)"

definition is_live :: "InstanceStatus \<Rightarrow> bool" where
  "is_live s \<longleftrightarrow> s = InstStarted \<or> s = InstRunning \<or> s = InstSuspended"

lemma instance_from_db_as_db [simp]: "instance_from_db (instance_as_db s) = s"
  by (cases s) (simp_all add: instance_from_db_def)

datatype InstanceOutcome = OutApproved | OutRejected | OutReturned | OutCancelled

fun outcome_as_db :: "InstanceOutcome \<Rightarrow> string" where
  "outcome_as_db OutApproved = ''APPROVED''"
| "outcome_as_db OutRejected = ''REJECTED''"
| "outcome_as_db OutReturned = ''RETURNED''"
| "outcome_as_db OutCancelled = ''CANCELLED''"

definition outcome_from_db :: "string \<Rightarrow> InstanceOutcome option" where
  "outcome_from_db value =
     (if value = ''APPROVED'' then Some OutApproved
      else if value = ''REJECTED'' then Some OutRejected
      else if value = ''RETURNED'' then Some OutReturned
      else if value = ''CANCELLED'' then Some OutCancelled
      else None)"

definition from_document_status :: "string \<Rightarrow> InstanceOutcome option" where
  "from_document_status status =
     (if status = ''APPROVED'' \<or> status = ''COMPLETED'' then Some OutApproved
      else if status = ''REJECTED'' then Some OutRejected
      else if status = ''RETURNED'' then Some OutReturned
      else if status = ''CANCELLED'' \<or> status = ''ARCHIVED'' then Some OutCancelled
      else None)"

interpretation instance_outcome: db_code outcome_as_db outcome_from_db
proof
  show "outcome_from_db (outcome_as_db x) = Some x" for x
    by (cases x) (simp_all add: outcome_from_db_def)
  show "outcome_from_db s = Some x \<Longrightarrow> outcome_as_db x = s" for s x
    by (auto simp: outcome_from_db_def split: if_splits)
qed

text \<open>
  A stored variable is text with a declared type.  The text of a number and of a JSON value, and the
  parsers that read them back, are the parameters of the two functions below.
\<close>

definition wrong_variable_type :: "string \<Rightarrow> string \<Rightarrow> string \<Rightarrow> AppError" where
  "wrong_variable_type key data_type0 expected =
     Validation [detail (''variables.'' @ key) ''type'' ''WRONG_VARIABLE_TYPE''
       [key, data_type0, expected]]"

definition show_bool :: "bool \<Rightarrow> string" where
  "show_bool b = (if b then ''true'' else ''false'')"

definition write_variable ::
  "(json \<Rightarrow> string) \<Rightarrow> string \<Rightarrow> json \<Rightarrow> string \<Rightarrow> AppError + string" where
  "write_variable json_text key v data_type0 =
     (if data_type0 = ''NUMBER'' then
        (case v of Number n \<Rightarrow> Inr (json_text (Number n))
         | _ \<Rightarrow> Inl (wrong_variable_type key data_type0 ''a number''))
      else if data_type0 = ''BOOLEAN'' then
        (case v of Bool b \<Rightarrow> Inr (show_bool b)
         | _ \<Rightarrow> Inl (wrong_variable_type key data_type0 ''a boolean''))
      else if data_type0 = ''JSON'' then Inr (json_text v)
      else
        (case v of
           String s \<Rightarrow> Inr s
         | Number n \<Rightarrow> Inr (json_text (Number n))
         | Bool b \<Rightarrow> Inr (show_bool b)
         | _ \<Rightarrow> Inl (wrong_variable_type key data_type0 ''a string'')))"

definition read_variable ::
  "(string \<Rightarrow> json_number option) \<Rightarrow> (string \<Rightarrow> json option) \<Rightarrow> string \<Rightarrow> string \<Rightarrow> json" where
  "read_variable parse_f64 parse_json v data_type0 =
     (if data_type0 = ''NUMBER'' then
        (case parse_f64 v of Some n \<Rightarrow> Number n | None \<Rightarrow> String v)
      else if data_type0 = ''BOOLEAN'' then
        (if v = ''true'' then Bool True else if v = ''false'' then Bool False else String v)
      else if data_type0 = ''JSON'' then (case parse_json v of Some j \<Rightarrow> j | None \<Rightarrow> String v)
      else String v)"

lemma boolean_variable_round_trip:
  "write_variable json_text key v ''BOOLEAN'' = Inr t \<Longrightarrow>
   read_variable parse_f64 parse_json t ''BOOLEAN'' = v"
  by (cases v) (auto simp: write_variable_def read_variable_def show_bool_def split: if_splits)

section \<open>Tasks\<close>

datatype TaskStatus =
    TaskCreated | TaskAssigned | TaskInProgress | TaskCompleted | TaskDelegated | TaskEscalated
  | TaskCancelled

fun task_as_db :: "TaskStatus \<Rightarrow> string" where
  "task_as_db TaskCreated = ''CREATED''"
| "task_as_db TaskAssigned = ''ASSIGNED''"
| "task_as_db TaskInProgress = ''IN_PROGRESS''"
| "task_as_db TaskCompleted = ''COMPLETED''"
| "task_as_db TaskDelegated = ''DELEGATED''"
| "task_as_db TaskEscalated = ''ESCALATED''"
| "task_as_db TaskCancelled = ''CANCELLED''"

definition task_from_db :: "string \<Rightarrow> TaskStatus" where
  "task_from_db value =
     (if value = ''CREATED'' then TaskCreated
      else if value = ''ASSIGNED'' then TaskAssigned
      else if value = ''IN_PROGRESS'' then TaskInProgress
      else if value = ''COMPLETED'' then TaskCompleted
      else if value = ''DELEGATED'' then TaskDelegated
      else if value = ''ESCALATED'' then TaskEscalated
      else TaskCancelled)"

definition is_open :: "TaskStatus \<Rightarrow> bool" where
  "is_open s \<longleftrightarrow> s = TaskCreated \<or> s = TaskAssigned \<or> s = TaskInProgress"

lemma task_from_db_as_db [simp]: "task_from_db (task_as_db s) = s"
  by (cases s) (simp_all add: task_from_db_def)

text \<open>The list of open statuses the statements and the index spell out is the predicate.\<close>

definition OPEN_STATUSES :: "string list" where
  "OPEN_STATUSES = [''CREATED'', ''ASSIGNED'', ''IN_PROGRESS'']"

lemma is_open_from_db: "is_open (task_from_db v) \<longleftrightarrow> v \<in> set OPEN_STATUSES"
  by (auto simp: is_open_def task_from_db_def OPEN_STATUSES_def)

definition LIVE_STATUSES :: "string list" where
  "LIVE_STATUSES = [''STARTED'', ''RUNNING'', ''SUSPENDED'']"

lemma is_live_from_db: "is_live (instance_from_db v) \<longleftrightarrow> v \<in> set LIVE_STATUSES"
  by (auto simp: is_live_def instance_from_db_def LIVE_STATUSES_def)

datatype DecisionAction = DecideApprove | DecideReject | DecideReturn

fun decision_as_db :: "DecisionAction \<Rightarrow> string" where
  "decision_as_db DecideApprove = ''APPROVE''"
| "decision_as_db DecideReject = ''REJECT''"
| "decision_as_db DecideReturn = ''RETURN''"

fun decision_transition :: "DecisionAction \<Rightarrow> TransitionAction" where
  "decision_transition DecideApprove = ApproveAction"
| "decision_transition DecideReject = RejectAction"
| "decision_transition DecideReturn = ReturnAction"

lemma decision_transition_as_db [simp]:
  "action_as_db (decision_transition a) = decision_as_db a"
  by (cases a) simp_all

end
