(* ===== verification/TaskRules.thy ===== *)
theory TaskRules
  imports Lifecycle
begin

text \<open>
  What may be done to a task, and by whom (\<open>workflow/domain/task.rs\<close>): the comment of a decision,
  the target of a reassign, and the refusals the task service raises.  A \<open>Conflict\<close> carries the
  message the code sends; a validation refusal carries the values its message interpolates.  An id
  is its text.
\<close>

type_synonym uuid = string

section \<open>Comments\<close>

definition MAX_COMMENT_LENGTH :: nat where
  "MAX_COMMENT_LENGTH = 4000"

definition normalize_comment :: "string option \<Rightarrow> AppError + string option" where
  "normalize_comment comment =
     (case comment of
        None \<Rightarrow> Inr None
      | Some text \<Rightarrow>
          if trim text = [] then Inr None
          else if length (chars (trim text)) > MAX_COMMENT_LENGTH then
            Inl (Validation [detail ''comment'' ''maxLength'' ''TOO_LONG'' [show_nat MAX_COMMENT_LENGTH]])
          else Inr (Some (trim text)))"

definition comment_required :: "string \<Rightarrow> string \<Rightarrow> AppError" where
  "comment_required state action =
     Validation [detail ''comment'' ''requiresComment'' ''COMMENT_REQUIRED'' [action, state]]"

lemma normalize_comment_Some:
  "normalize_comment c = Inr (Some t) \<Longrightarrow>
     t \<noteq> [] \<and> length (chars t) \<le> MAX_COMMENT_LENGTH \<and> (\<exists>text. c = Some text \<and> t = trim text)"
  by (auto simp: normalize_comment_def split: option.splits if_splits)

section \<open>The target of a reassign\<close>

record ReassignTaskRequest =
  rq_user_id :: "uuid option"
  rq_role_code :: "string option"
  rq_comment :: "string option"

datatype ReassignTarget = ToUser uuid | ToRole string

definition one_target :: AppError where
  "one_target =
     Validation (map (\<lambda>path. detail path ''oneOf'' ''ONE_TARGET_REQUIRED'' []) [''userId'', ''roleCode''])"

definition reassign_target :: "ReassignTaskRequest \<Rightarrow> AppError + ReassignTarget" where
  "reassign_target request =
     (let role_code0 =
        (case rq_role_code request of
           None \<Rightarrow> None
         | Some c \<Rightarrow> if trim c = [] then None else Some (trim c))
      in case (rq_user_id request, role_code0) of
           (Some user, None) \<Rightarrow> Inr (ToUser user)
         | (None, Some role) \<Rightarrow> Inr (ToRole role)
         | (Some _, Some _) \<Rightarrow> Inl one_target
         | (None, None) \<Rightarrow> Inl one_target)"

section \<open>Refusals\<close>

definition reassign_closed :: "TaskStatus \<Rightarrow> AppError" where
  "reassign_closed status =
     Conflict (''this task is '' @ task_as_db status @
       '' and no longer open; only an open task is reassigned'')"

definition target_cannot_decide :: "string \<Rightarrow> string \<Rightarrow> string list \<Rightarrow> AppError" where
  "target_cannot_decide field state needs =
     Validation [detail field ''canDecide'' ''TARGET_CANNOT_DECIDE''
       [state, join '' or '' needs, if field = ''roleCode'' then ''role'' else ''user'']]"

definition refuse_unless_held_by :: "uuid \<Rightarrow> uuid option \<Rightarrow> AppError + unit" where
  "refuse_unless_held_by caller assignee =
     (case assignee of
        Some a \<Rightarrow> if a = caller then Inr () else Inl Forbidden
      | None \<Rightarrow>
          Inl (Conflict (''this task is offered to a role and nobody has taken it, so there is '' @
            ''nothing yet to hand over; claim it first, then delegate it'')))"

definition refuse_self_delegation :: "uuid \<Rightarrow> uuid \<Rightarrow> AppError + unit" where
  "refuse_self_delegation caller delegate0 =
     (if caller \<noteq> delegate0 then Inr ()
      else Inl (Validation [detail ''delegateUserId'' ''notSelf'' ''DELEGATE_IS_HOLDER'' []]))"

definition delegate_unavailable :: AppError where
  "delegate_unavailable = Validation [detail ''delegateUserId'' ''exists'' ''NOT_AVAILABLE'' []]"

definition refuse_unless_open :: "TaskStatus \<Rightarrow> bool \<Rightarrow> AppError + unit" where
  "refuse_unless_open status decided =
     (if is_open status then Inr ()
      else if decided then
        Inl (Conflict (''this task is '' @ task_as_db status @
          '' and a decision has already been recorded against it; '' @
          ''recording a second one would be a signature on a decision somebody else made''))
      else
        Inl (Conflict (''this task is '' @ task_as_db status @ '' and no longer open; '' @
          ''it was closed without being decided, so there is nothing left on it to act on'')))"

definition refuse_unless_theirs :: "uuid \<Rightarrow> uuid option \<Rightarrow> bool \<Rightarrow> AppError + unit" where
  "refuse_unless_theirs caller assignee holds_candidate_role =
     (case assignee of
        Some a \<Rightarrow> if a = caller then Inr () else Inl Forbidden
      | None \<Rightarrow> if holds_candidate_role then Inr () else Inl Forbidden)"

definition claim_lost :: "TaskStatus \<Rightarrow> uuid option \<Rightarrow> AppError" where
  "claim_lost status assignee =
     (if assignee \<noteq> None then
        Conflict ''this task was claimed by somebody else while this claim was being applied''
      else Conflict (''this task is '' @ task_as_db status @ '' and cannot be claimed''))"

definition claim_undecidable :: AppError where
  "claim_undecidable = Validation [detail ''allowedBy'' ''assignment'' ''ASSIGNMENT_UNRESOLVED'' []]"

lemma refuse_unless_open_Inr [simp]: "refuse_unless_open s d = Inr u \<longleftrightarrow> is_open s"
  by (simp add: refuse_unless_open_def)

lemma refuse_unless_theirs_Inr [simp]:
  "refuse_unless_theirs c a h = Inr u \<longleftrightarrow> a = Some c \<or> a = None \<and> h"
  by (auto simp: refuse_unless_theirs_def split: option.splits)

lemma refuse_unless_held_by_Inr [simp]: "refuse_unless_held_by c a = Inr u \<longleftrightarrow> a = Some c"
  by (auto simp: refuse_unless_held_by_def split: option.splits)

end
