(* ===== verification/Store.thy ===== *)
theory Store
  imports HookChain TaskRules
begin

text \<open>
  The database the workflow module works against, and the shape of a step over it.  A table is the
  list of its rows; every row carries its tenant, and a row the product removes keeps its place with
  its deletion flag set, as the statements' \<open>deleted_at IS NULL\<close> reads it.  A step takes the store
  and returns it with a result or an error; a statement may also fault, which the environment
  decides by the statement's number, and a unique index is a fault of its own.  A transaction that
  ends in an error leaves the store as it found it.
\<close>

section \<open>Rows\<close>

record user_row =
  us_tenant :: uuid
  us_id :: uuid
  us_status :: string
  us_department :: "uuid option"
  us_deleted :: bool

record role_row =
  ro_tenant :: uuid
  ro_id :: uuid
  ro_code :: string
  ro_deleted :: bool

record department_row =
  de_tenant :: uuid
  de_id :: uuid
  de_code :: string
  de_deleted :: bool

record grant_row =
  gr_tenant :: uuid
  gr_user :: uuid
  gr_role :: uuid
  gr_department :: "uuid option"
  gr_valid_from :: "int option"
  gr_valid_to :: "int option"
  gr_deleted :: bool

record delegation_row =
  dl_tenant :: uuid
  dl_id :: uuid
  dl_delegator :: uuid
  dl_delegate :: uuid
  dl_scope :: string
  dl_document_type :: "uuid option"
  dl_starts :: int
  dl_ends :: int
  dl_active :: bool
  dl_created :: int
  dl_deleted :: bool

record definition_row =
  df_tenant :: uuid
  df_id :: uuid
  df_json :: json
  df_key :: string
  df_version :: int
  df_status :: string
  df_deleted :: bool

record projection_row =
  pr_tenant :: uuid
  pr_definition :: uuid
  pr_from :: string
  pr_to :: string
  pr_action :: string
  pr_allowed_by :: json
  pr_condition :: "json option"

record hook_row =
  hk_tenant :: uuid
  hk_hook :: string
  hk_document_type :: "uuid option"
  hk_handler :: string
  hk_priority :: int
  hk_config :: json
  hk_enabled :: bool
  hk_created :: "int \<times> uuid"
  hk_deleted :: bool

record metadata_row =
  md_tenant :: uuid
  md_document :: uuid
  md_key :: string
  md_value :: string
  md_type :: string
  md_deleted :: bool

record type_row =
  ty_tenant :: uuid
  ty_id :: uuid
  ty_code :: string
  ty_form :: "uuid option"
  ty_target :: "string option"
  ty_deleted :: bool

record form_row =
  fm_tenant :: uuid
  fm_id :: uuid
  fm_definition :: json

record binding_row =
  bi_tenant :: uuid
  bi_type :: uuid
  bi_definition :: uuid
  bi_condition :: "string option"
  bi_status :: string
  bi_valid_from :: "int option"
  bi_valid_to :: "int option"
  bi_priority :: int
  bi_created :: int
  bi_deleted :: bool

record rule_row =
  ru_tenant :: uuid
  ru_id :: uuid
  ru_type :: uuid
  ru_template :: string
  ru_scope :: string
  ru_padding :: int
  ru_allow_gaps :: bool
  ru_active :: bool
  ru_deleted :: bool

record bucket_row =
  bu_tenant :: uuid
  bu_type :: uuid
  bu_key :: string
  bu_next :: int

record party_row =
  pa_tenant :: uuid
  pa_id :: uuid
  pa_record_status :: string
  pa_status :: string
  pa_external :: "string option"
  pa_description :: "string option"
  pa_attributes :: json
  pa_deleted :: bool

record facility_row =
  fa_tenant :: uuid
  fa_id :: uuid
  fa_record_status :: string
  fa_name :: string
  fa_type :: "string option"
  fa_attributes :: json
  fa_deleted :: bool

record change_row =
  ch_tenant :: uuid
  ch_id :: uuid
  ch_document :: uuid
  ch_entity_type :: string
  ch_entity :: uuid
  ch_previous :: string
  ch_outcome :: "string option"
  ch_resolved :: "int option"

record document_row =
  do_tenant :: uuid
  do_id :: uuid
  do_ref :: string
  do_type :: uuid
  do_form :: "uuid option"
  do_number :: "string option"
  do_title :: string
  do_status :: string
  do_form_data :: json
  do_created_by :: "uuid option"
  do_priority :: string
  do_entity_type :: "string option"
  do_entity :: "uuid option"
  do_requested_by :: "uuid option"
  do_requested_department :: "uuid option"
  do_requested_facility :: "uuid option"
  do_submitted :: "int option"
  do_instance :: "uuid option"
  do_completed :: "int option"
  do_deleted :: bool

record status_history_row =
  sh_tenant :: uuid
  sh_document :: uuid
  sh_old :: "string option"
  sh_new :: string
  sh_changed_by :: "uuid option"
  sh_reason :: "string option"

record instance_row =
  in_tenant :: uuid
  in_id :: uuid
  in_ref :: string
  in_definition :: uuid
  in_document :: uuid
  in_business_key :: "string option"
  in_status :: string
  in_state :: string
  in_outcome :: "string option"
  in_started_by :: "uuid option"
  in_completed :: "int option"
  in_deleted :: bool

record variable_row =
  va_tenant :: uuid
  va_instance :: uuid
  va_key :: string
  va_value :: string
  va_type :: string
  va_deleted :: bool

record task_row =
  ta_tenant :: uuid
  ta_id :: uuid
  ta_ref :: string
  ta_instance :: uuid
  ta_document :: uuid
  ta_key :: string
  ta_name :: string
  ta_type :: string
  ta_status :: string
  ta_priority :: string
  ta_assignee :: "uuid option"
  ta_role :: "uuid option"
  ta_department :: "uuid option"
  ta_delegated_from :: "uuid option"
  ta_due :: "int option"
  ta_action :: "string option"
  ta_comment :: "string option"
  ta_completed_by :: "uuid option"
  ta_created :: int
  ta_deleted :: bool

record task_history_row =
  th_tenant :: uuid
  th_task :: uuid
  th_instance :: uuid
  th_document :: uuid
  th_from :: "string option"
  th_to :: string
  th_action :: "string option"
  th_comment :: "string option"
  th_actor :: "uuid option"

record history_row =
  hi_tenant :: uuid
  hi_instance :: uuid
  hi_document :: uuid
  hi_from :: "string option"
  hi_to :: string
  hi_action :: "string option"
  hi_task :: "uuid option"
  hi_comment :: "string option"
  hi_actor :: "uuid option"
  hi_on_behalf_of :: "uuid option"
  hi_routing :: "json option"

record decision_row =
  dc_tenant :: uuid
  dc_document :: uuid
  dc_instance :: uuid
  dc_task :: uuid
  dc_approver :: uuid
  dc_role :: "uuid option"
  dc_decision :: string
  dc_level :: "string option"
  dc_comment :: "string option"

record event_row =
  ev_id :: uuid
  ev_tenant :: uuid
  ev_aggregate_type :: string
  ev_aggregate :: uuid
  ev_type :: string
  ev_payload :: json
  ev_correlation :: string
  ev_status :: string
  ev_attempts :: int
  ev_next_attempt :: "int option"
  ev_last_error :: "string option"

record notification_row =
  nt_tenant :: uuid
  nt_recipient :: uuid
  nt_document :: "uuid option"
  nt_instance :: "uuid option"
  nt_task :: "uuid option"
  nt_type :: string
  nt_title :: string
  nt_body :: string
  nt_actor :: "uuid option"

record activity_row =
  ac_tenant :: uuid
  ac_document :: "uuid option"
  ac_instance :: "uuid option"
  ac_task :: "uuid option"
  ac_type :: string
  ac_actor :: "uuid option"
  ac_details :: json

record Store =
  db_users :: "user_row list"
  db_roles :: "role_row list"
  db_departments :: "department_row list"
  db_grants :: "grant_row list"
  db_delegations :: "delegation_row list"
  db_definitions :: "definition_row list"
  db_projection :: "projection_row list"
  db_hooks :: "hook_row list"
  db_metadata :: "metadata_row list"
  db_types :: "type_row list"
  db_forms :: "form_row list"
  db_bindings :: "binding_row list"
  db_rules :: "rule_row list"
  db_buckets :: "bucket_row list"
  db_parties :: "party_row list"
  db_facilities :: "facility_row list"
  db_changes :: "change_row list"
  db_documents :: "document_row list"
  db_status_history :: "status_history_row list"
  db_instances :: "instance_row list"
  db_variables :: "variable_row list"
  db_tasks :: "task_row list"
  db_task_history :: "task_history_row list"
  db_history :: "history_row list"
  db_decisions :: "decision_row list"
  db_events :: "event_row list"
  db_sequences :: "(uuid \<times> string \<times> nat) list"
  db_references :: "(uuid \<times> string \<times> nat) list"
  db_notifications :: "notification_row list"
  db_activity :: "activity_row list"
  db_hook_log :: "Execution list"
  db_statements :: nat
  db_fresh :: nat

text \<open>
  What a run cannot decide.  \<open>hooks\<close> is what a hook chain already needed (the evaluator, measured
  times, the clock of the log, faults); the rest is the \<open>uuid\<close> crate's parser, the ids \<open>now_v7\<close>
  hands out, the clocks, the text of a JSON value, and the deadline arithmetic in floating point.
\<close>

record Env =
  hooks :: World
  parse_uuid :: "string \<Rightarrow> uuid option"
  fresh :: "nat \<Rightarrow> uuid"
  year :: int
  month :: nat
  now :: int
  today :: int
  json_text :: "json \<Rightarrow> string"
  parse_f64 :: "string \<Rightarrow> json_number option"
  parse_json :: "string \<Rightarrow> json option"
  due_in_seconds :: "TaskSpec \<Rightarrow> int option"
  occurred_at :: string

section \<open>Steps\<close>

type_synonym 'a tx = "Store \<Rightarrow> Store \<times> (AppError + 'a)"

definition ret :: "'a \<Rightarrow> 'a tx" where
  "ret x st = (st, Inr x)"

definition fail :: "AppError \<Rightarrow> 'a tx" where
  "fail e st = (st, Inl e)"

definition seq :: "'a tx \<Rightarrow> ('a \<Rightarrow> 'b tx) \<Rightarrow> 'b tx" where
  "seq m f st = (case m st of (st', Inl e) \<Rightarrow> (st', Inl e) | (st', Inr x) \<Rightarrow> f x st')"

text \<open>A pure refusal or value as a step, and \<open>Option::ok_or\<close>.\<close>

definition lift_result :: "AppError + 'a \<Rightarrow> 'a tx" where
  "lift_result r st = (st, r)"

definition need :: "AppError \<Rightarrow> 'a option \<Rightarrow> 'a tx" where
  "need e x = (case x of None \<Rightarrow> fail e | Some y \<Rightarrow> ret y)"

definition refuse_if :: "bool \<Rightarrow> AppError \<Rightarrow> unit tx" where
  "refuse_if b e = (if b then fail e else ret ())"

definition sql ::
  "Env \<Rightarrow> (SqlxError \<Rightarrow> AppError) \<Rightarrow> (Store \<Rightarrow> SqlxError + (Store \<times> 'a)) \<Rightarrow> 'a tx" where
  "sql env conv operation st =
     (case db_fault (hooks env) (db_statements st) of
        Some e \<Rightarrow> (st, Inl (conv e))
      | None \<Rightarrow>
          (case operation st of
             Inl e \<Rightarrow> (st, Inl (conv e))
           | Inr (st', x) \<Rightarrow> (st'\<lparr>db_statements := Suc (db_statements st)\<rparr>, Inr x)))"

definition fetch :: "Env \<Rightarrow> (Store \<Rightarrow> 'a) \<Rightarrow> 'a tx" where
  "fetch env f = sql env from_sqlx (\<lambda>st. Inr (st, f st))"

definition execute :: "Env \<Rightarrow> (Store \<Rightarrow> Store) \<Rightarrow> unit tx" where
  "execute env f = sql env from_sqlx (\<lambda>st. Inr (f st, ()))"

definition fresh_id :: "Env \<Rightarrow> uuid tx" where
  "fresh_id env st = (st\<lparr>db_fresh := Suc (db_fresh st)\<rparr>, Inr (fresh env (db_fresh st)))"

definition transaction :: "'a tx \<Rightarrow> 'a tx" where
  "transaction m st = (case m st of (st', Inl e) \<Rightarrow> (st, Inl e) | r \<Rightarrow> r)"

fun for_each :: "('a \<Rightarrow> unit tx) \<Rightarrow> 'a list \<Rightarrow> unit tx" where
  "for_each f [] = ret ()"
| "for_each f (x # xs) = seq (f x) (\<lambda>_. for_each f xs)"

section \<open>Reasoning about a step\<close>

text \<open>
  \<open>keeps P m\<close>: the step keeps \<open>P\<close>, whether it succeeds or fails.  \<open>gives\<close> is the behaviour of a
  step that succeeds.
\<close>

definition keeps :: "(Store \<Rightarrow> bool) \<Rightarrow> 'a tx \<Rightarrow> bool" where
  "keeps P m \<longleftrightarrow> (\<forall>st. P st \<longrightarrow> P (fst (m st)))"

named_theorems steps \<open>what a step that succeeds did\<close>
named_theorems keeping \<open>steps that keep a property of the store\<close>

lemma ret_Inr [steps]: "ret x st = (st', Inr y) \<longleftrightarrow> st' = st \<and> y = x"
  by (auto simp: ret_def)

lemma fail_Inr [steps]: "fail e st = (st', Inr y) \<longleftrightarrow> False"
  by (simp add: fail_def)

lemma seq_Inr [steps]:
  "seq m f st = (st', Inr y) \<longleftrightarrow> (\<exists>st1 x. m st = (st1, Inr x) \<and> f x st1 = (st', Inr y))"
  by (auto simp: seq_def split: prod.splits sum.splits)

lemma lift_result_Inr [steps]: "lift_result r st = (st', Inr y) \<longleftrightarrow> st' = st \<and> r = Inr y"
  by (auto simp: lift_result_def)

lemma need_Inr [steps]: "need e x st = (st', Inr y) \<longleftrightarrow> st' = st \<and> x = Some y"
  by (auto simp: need_def steps split: option.splits)

lemma refuse_if_Inr [steps]: "refuse_if b e st = (st', Inr y) \<longleftrightarrow> st' = st \<and> \<not> b"
  by (auto simp: refuse_if_def steps)

lemma sql_Inr:
  "sql env conv op st = (st', Inr y) \<longleftrightarrow>
     db_fault (hooks env) (db_statements st) = None \<and>
     (\<exists>st1. op st = Inr (st1, y) \<and> st' = st1\<lparr>db_statements := Suc (db_statements st)\<rparr>)"
  by (auto simp: sql_def split: option.splits sum.splits)

definition counted :: "Store \<Rightarrow> Store \<Rightarrow> Store" where
  "counted st0 st = st\<lparr>db_statements := Suc (db_statements st0)\<rparr>"

lemma fetch_Inr [steps]:
  "fetch env f st = (st', Inr y) \<longleftrightarrow>
     db_fault (hooks env) (db_statements st) = None \<and> y = f st \<and> st' = counted st st"
  by (auto simp: fetch_def sql_Inr counted_def)

lemma execute_Inr [steps]:
  "execute env f st = (st', Inr y) \<longleftrightarrow>
     db_fault (hooks env) (db_statements st) = None \<and> st' = counted st (f st)"
  by (auto simp: execute_def sql_Inr counted_def)

lemma fresh_id_Inr [steps]:
  "fresh_id env st = (st', Inr y) \<longleftrightarrow>
     y = fresh env (db_fresh st) \<and> st' = st\<lparr>db_fresh := Suc (db_fresh st)\<rparr>"
  by (auto simp: fresh_id_def)

lemma transaction_Inr [steps]: "transaction m st = (st', Inr y) \<longleftrightarrow> m st = (st', Inr y)"
  by (auto simp: transaction_def split: prod.splits sum.splits)

text \<open>A transaction that fails leaves nothing behind.\<close>

lemma transaction_Inl: "transaction m st = (st', Inl e) \<Longrightarrow> st' = st"
  by (auto simp: transaction_def split: prod.splits sum.splits)

lemma counted_sel [simp]:
  "db_users (counted st0 st) = db_users st" "db_roles (counted st0 st) = db_roles st"
  "db_departments (counted st0 st) = db_departments st" "db_grants (counted st0 st) = db_grants st"
  "db_delegations (counted st0 st) = db_delegations st"
  "db_projection (counted st0 st) = db_projection st"
  "db_definitions (counted st0 st) = db_definitions st" "db_hooks (counted st0 st) = db_hooks st"
  "db_metadata (counted st0 st) = db_metadata st" "db_types (counted st0 st) = db_types st"
  "db_documents (counted st0 st) = db_documents st"
  "db_status_history (counted st0 st) = db_status_history st"
  "db_instances (counted st0 st) = db_instances st"
  "db_variables (counted st0 st) = db_variables st"
  "db_tasks (counted st0 st) = db_tasks st"
  "db_task_history (counted st0 st) = db_task_history st"
  "db_history (counted st0 st) = db_history st" "db_decisions (counted st0 st) = db_decisions st"
  "db_events (counted st0 st) = db_events st" "db_sequences (counted st0 st) = db_sequences st"
  "db_references (counted st0 st) = db_references st"
  "db_notifications (counted st0 st) = db_notifications st"
  "db_activity (counted st0 st) = db_activity st"
  "db_forms (counted st0 st) = db_forms st" "db_bindings (counted st0 st) = db_bindings st"
  "db_rules (counted st0 st) = db_rules st" "db_buckets (counted st0 st) = db_buckets st"
  "db_parties (counted st0 st) = db_parties st" "db_facilities (counted st0 st) = db_facilities st"
  "db_changes (counted st0 st) = db_changes st"
  "db_hook_log (counted st0 st) = db_hook_log st"
  by (simp_all add: counted_def)

lemma keepsD: "keeps P m \<Longrightarrow> P st \<Longrightarrow> m st = (st', r) \<Longrightarrow> P st'"
  unfolding keeps_def by (metis fst_conv)

lemma keeps_ret [keeping]: "keeps P (ret x)"
  by (simp add: keeps_def ret_def)

lemma keeps_fail [keeping]: "keeps P (fail e)"
  by (simp add: keeps_def fail_def)

lemma keeps_lift_result [keeping]: "keeps P (lift_result r)"
  by (simp add: keeps_def lift_result_def)

lemma keeps_need [keeping]: "keeps P (need e x)"
  by (cases x) (simp_all add: need_def keeping)

lemma keeps_refuse_if [keeping]: "keeps P (refuse_if b e)"
  by (simp add: refuse_if_def keeping)

lemma keeps_seq [keeping]: "keeps P m \<Longrightarrow> (\<And>x. keeps P (f x)) \<Longrightarrow> keeps P (seq m f)"
  unfolding keeps_def seq_def by (auto split: prod.splits sum.splits; metis fst_conv)

lemma keeps_if: "(b \<Longrightarrow> keeps P m) \<Longrightarrow> (\<not> b \<Longrightarrow> keeps P n) \<Longrightarrow> keeps P (if b then m else n)"
  by simp

lemma keeps_sql:
  assumes "\<And>st st' y. op st = Inr (st', y) \<Longrightarrow> P st \<Longrightarrow> P (counted st st')"
  shows "keeps P (sql env conv op)"
  using assms unfolding keeps_def sql_def counted_def
  by (auto split: option.splits sum.splits)

lemma keeps_fetch: "(\<And>st. P st \<Longrightarrow> P (counted st st)) \<Longrightarrow> keeps P (fetch env f)"
  unfolding fetch_def by (rule keeps_sql) auto

lemma keeps_execute: "(\<And>st. P st \<Longrightarrow> P (counted st (f st))) \<Longrightarrow> keeps P (execute env f)"
  unfolding execute_def by (rule keeps_sql) auto

lemma keeps_for_each [keeping]: "(\<And>x. x \<in> set xs \<Longrightarrow> keeps P (f x)) \<Longrightarrow> keeps P (for_each f xs)"
  by (induction xs) (auto intro!: keeping)

lemma keeps_transaction [keeping]: "keeps P m \<Longrightarrow> keeps P (transaction m)"
  unfolding keeps_def transaction_def by (auto split: prod.splits sum.splits)

section \<open>Statements over a table\<close>

text \<open>An \<open>UPDATE ... WHERE\<close>: the rows it changes, and how many.\<close>

definition update_where :: "('r \<Rightarrow> bool) \<Rightarrow> ('r \<Rightarrow> 'r) \<Rightarrow> 'r list \<Rightarrow> 'r list" where
  "update_where p f rows = map (\<lambda>r. if p r then f r else r) rows"

definition count_where :: "('r \<Rightarrow> bool) \<Rightarrow> 'r list \<Rightarrow> nat" where
  "count_where p rows = length (filter p rows)"

lemma count_where_0 [simp]: "count_where p rows = 0 \<longleftrightarrow> (\<forall>r \<in> set rows. \<not> p r)"
  by (auto simp: count_where_def filter_empty_conv)

lemma length_update_where [simp]: "length (update_where p f rows) = length rows"
  by (simp add: update_where_def)

lemma set_update_where: "r \<in> set (update_where p f rows) \<longleftrightarrow>
    (\<exists>r0 \<in> set rows. r = (if p r0 then f r0 else r0))"
  by (auto simp: update_where_def)

lemma find_cong_map:
  "(\<And>r. p r \<Longrightarrow> q (f r) = q r) \<Longrightarrow> find q (update_where p f rows) =
     map_option (\<lambda>r. if p r then f r else r) (find q rows)"
  by (induction rows) (auto simp: update_where_def)


definition update_rows ::
  "Env \<Rightarrow> (Store \<Rightarrow> 'r list) \<Rightarrow> (('r list \<Rightarrow> 'r list) \<Rightarrow> Store \<Rightarrow> Store) \<Rightarrow> ('r \<Rightarrow> bool) \<Rightarrow> ('r \<Rightarrow> 'r) \<Rightarrow> nat tx"
where
  "update_rows env rows upd p f =
     sql env from_sqlx (\<lambda>st. Inr (upd (update_where p f) st, count_where p (rows st)))"

text \<open>
  \<open>chars().count()\<close>, and what a \<open>VARCHAR(n)\<close> column makes of a text: characters past its length are
  cut when they are all blanks, and refused otherwise.
\<close>

definition char_count :: "string \<Rightarrow> nat" where
  "char_count s = length (filter (\<lambda>c. (of_char c :: nat) div 64 \<noteq> 2) s)"

definition clipped :: "nat \<Rightarrow> string \<Rightarrow> string" where
  "clipped n s = take (length s - (char_count s - n)) s"

definition overlong :: "nat \<Rightarrow> string \<Rightarrow> bool" where
  "overlong n s \<longleftrightarrow> \<not> list_all (\<lambda>c. c = CHR '' '') (drop (length s - (char_count s - n)) s)"

definition too_long :: "nat \<Rightarrow> SqlxError" where
  "too_long n = OtherSqlx (''value too long for type character varying('' @ show_nat n @ '')'')"

definition first_too_long :: "(nat \<times> string option) list \<Rightarrow> SqlxError option" where
  "first_too_long columns =
     (case filter (\<lambda>(n, v). case v of None \<Rightarrow> False | Some s \<Rightarrow> overlong n s) columns of
        [] \<Rightarrow> None
      | (n, _) # _ \<Rightarrow> Some (too_long n))"

lemma clipped_short [simp]: "char_count s \<le> n \<Longrightarrow> clipped n s = s \<and> \<not> overlong n s"
  by (simp add: clipped_def overlong_def)

text \<open>An update of a table whose columns bound what it may write: a row it would break refuses it.\<close>

definition update_checked ::
  "Env \<Rightarrow> (Store \<Rightarrow> 'r list) \<Rightarrow> (('r list \<Rightarrow> 'r list) \<Rightarrow> Store \<Rightarrow> Store) \<Rightarrow> ('r \<Rightarrow> bool) \<Rightarrow>
   ('r \<Rightarrow> SqlxError option) \<Rightarrow> ('r \<Rightarrow> 'r) \<Rightarrow> nat tx"
where
  "update_checked env rows upd p broken f = sql env from_sqlx (\<lambda>st.
     case somes (map broken (filter p (rows st))) of
       e # _ \<Rightarrow> Inl e
     | [] \<Rightarrow> Inr (upd (update_where p f) st, count_where p (rows st)))"

definition append_row ::
  "Env \<Rightarrow> (('r list \<Rightarrow> 'r list) \<Rightarrow> Store \<Rightarrow> Store) \<Rightarrow> 'r \<Rightarrow> unit tx" where
  "append_row env upd row = execute env (upd (\<lambda>rows. rows @ [row]))"

text \<open>An insert that a unique index may refuse.\<close>

definition insert_unique ::
  "Env \<Rightarrow> (SqlxError \<Rightarrow> AppError) \<Rightarrow> (Store \<Rightarrow> 'r list) \<Rightarrow> (('r list \<Rightarrow> 'r list) \<Rightarrow> Store \<Rightarrow> Store) \<Rightarrow>
   ('r \<Rightarrow> 'r \<Rightarrow> bool) \<Rightarrow> string \<Rightarrow> 'r \<Rightarrow> unit tx" where
  "insert_unique env conv rows upd clash table row =
     sql env conv (\<lambda>st.
       if list_ex (clash row) (rows st) then Inl (UniqueViolation table)
       else Inr (upd (\<lambda>rs. rs @ [row]) st, ()))"

lemma update_rows_Inr [steps]:
  "update_rows env rows upd p f st = (st', Inr n) \<longleftrightarrow>
     db_fault (hooks env) (db_statements st) = None \<and> n = count_where p (rows st) \<and>
     st' = counted st (upd (update_where p f) st)"
  by (auto simp: update_rows_def sql_Inr counted_def)

lemma append_row_Inr [steps]:
  "append_row env upd row st = (st', Inr u) \<longleftrightarrow>
     db_fault (hooks env) (db_statements st) = None \<and> st' = counted st (upd (\<lambda>rs. rs @ [row]) st)"
  by (simp add: append_row_def execute_Inr)

lemma insert_unique_Inr [steps]:
  "insert_unique env conv rows upd clash table row st = (st', Inr u) \<longleftrightarrow>
     db_fault (hooks env) (db_statements st) = None \<and> \<not> list_ex (clash row) (rows st) \<and>
     st' = counted st (upd (\<lambda>rs. rs @ [row]) st)"
  by (auto simp: insert_unique_def sql_Inr counted_def)

lemma keeps_update_rows:
  "(\<And>st. P st \<Longrightarrow> P (counted st (upd (update_where p f) st))) \<Longrightarrow> keeps P (update_rows env rows upd p f)"
  unfolding update_rows_def by (rule keeps_sql) auto

lemma keeps_append_row:
  "(\<And>st. P st \<Longrightarrow> P (counted st (upd (\<lambda>rs. rs @ [row]) st))) \<Longrightarrow> keeps P (append_row env upd row)"
  unfolding append_row_def by (rule keeps_execute)

lemma keeps_insert_unique:
  "(\<And>st. P st \<Longrightarrow> \<not> list_ex (clash row) (rows st) \<Longrightarrow> P (counted st (upd (\<lambda>rs. rs @ [row]) st))) \<Longrightarrow>
   keeps P (insert_unique env conv rows upd clash table row)"
  unfolding insert_unique_def by (rule keeps_sql) (auto split: if_splits)

section \<open>What a step leaves alone\<close>

text \<open>
  \<open>leaves f m\<close>: the step does not change the part \<open>f\<close> of the store, whether it succeeds or not.
\<close>

definition leaves :: "(Store \<Rightarrow> 'p) \<Rightarrow> 'a tx \<Rightarrow> bool" where
  "leaves f m \<longleftrightarrow> (\<forall>st. f (fst (m st)) = f st)"

named_theorems leaving \<open>steps that leave a part of the store alone\<close>

lemma leavesD: "leaves f m \<Longrightarrow> m st = (st', r) \<Longrightarrow> f st' = f st"
  unfolding leaves_def by (metis fst_conv)

lemma keeps_leaves: "leaves f m \<Longrightarrow> (\<And>st st'. f st' = f st \<Longrightarrow> P st \<Longrightarrow> P st') \<Longrightarrow> keeps P m"
  unfolding leaves_def keeps_def by metis

lemma leaves_ret [leaving]: "leaves f (ret x)"
  by (simp add: leaves_def ret_def)

lemma leaves_fail [leaving]: "leaves f (fail e)"
  by (simp add: leaves_def fail_def)

lemma leaves_lift_result [leaving]: "leaves f (lift_result r)"
  by (simp add: leaves_def lift_result_def)

lemma leaves_need [leaving]: "leaves f (need e x)"
  by (cases x) (simp_all add: need_def leaving)

lemma leaves_refuse_if [leaving]: "leaves f (refuse_if b e)"
  by (simp add: refuse_if_def leaving)

lemma leaves_seq [leaving]: "leaves f m \<Longrightarrow> (\<And>x. leaves f (g x)) \<Longrightarrow> leaves f (seq m g)"
  unfolding leaves_def seq_def by (auto split: prod.splits sum.splits; metis fst_conv)

lemma leaves_if [leaving]: "(b \<Longrightarrow> leaves f m) \<Longrightarrow> (\<not> b \<Longrightarrow> leaves f n) \<Longrightarrow> leaves f (if b then m else n)"
  by simp

lemma leaves_option [leaving]:
  "leaves f m \<Longrightarrow> (\<And>x. leaves f (g x)) \<Longrightarrow> leaves f (case v of None \<Rightarrow> m | Some x \<Rightarrow> g x)"
  by (cases v) auto

lemma leaves_for_each [leaving]: "(\<And>x. leaves f (g x)) \<Longrightarrow> leaves f (for_each g xs)"
  by (induction xs) (auto intro!: leaving)

lemma leaves_transaction [leaving]: "leaves f m \<Longrightarrow> leaves f (transaction m)"
  unfolding leaves_def transaction_def by (auto split: prod.splits sum.splits; metis fst_conv)

lemma leaves_sql:
  "(\<And>st st' y. op st = Inr (st', y) \<Longrightarrow> f (counted st st') = f st) \<Longrightarrow> leaves f (sql env conv op)"
  unfolding leaves_def sql_def counted_def by (auto split: option.splits sum.splits)

lemma leaves_fetch: "(\<And>st. f (counted st st) = f st) \<Longrightarrow> leaves f (fetch env g)"
  unfolding fetch_def by (rule leaves_sql) auto

lemma leaves_execute: "(\<And>st. f (counted st (g st)) = f st) \<Longrightarrow> leaves f (execute env g)"
  unfolding execute_def by (rule leaves_sql) auto

lemma leaves_update_rows:
  "(\<And>st. f (counted st (upd (update_where p g) st)) = f st) \<Longrightarrow> leaves f (update_rows env rows upd p g)"
  unfolding update_rows_def by (rule leaves_sql) auto

lemma leaves_append_row:
  "(\<And>st. f (counted st (upd (\<lambda>rs. rs @ [row]) st)) = f st) \<Longrightarrow> leaves f (append_row env upd row)"
  unfolding append_row_def by (rule leaves_execute)

lemma leaves_insert_unique:
  "(\<And>st. f (counted st (upd (\<lambda>rs. rs @ [row]) st)) = f st) \<Longrightarrow>
   leaves f (insert_unique env conv rows upd clash table row)"
  unfolding insert_unique_def by (rule leaves_sql) (auto split: if_splits)

lemma leaves_fresh_id: "(\<And>st n. f (st\<lparr>db_fresh := n\<rparr>) = f st) \<Longrightarrow> leaves f (fresh_id env)"
  by (simp add: leaves_def fresh_id_def)

lemma leaves_update_checked:
  "(\<And>st. f (counted st (upd (update_where p g) st)) = f st) \<Longrightarrow> leaves f (update_checked env rows upd p broken g)"
  unfolding update_checked_def by (rule leaves_sql) (auto split: list.splits)

lemmas leaves_statement =
  leaves_fetch leaves_execute leaves_update_rows leaves_update_checked leaves_append_row leaves_insert_unique
  leaves_fresh_id leaves_sql

text \<open>The store without its counters: what a read leaves alone.\<close>

definition tables :: "Store \<Rightarrow> Store" where
  "tables st = st\<lparr>db_statements := 0, db_fresh := 0\<rparr>"

lemma tables_counted [simp]: "tables (counted st0 st) = tables st"
  by (simp add: counted_def tables_def)

lemma tables_fresh [simp]: "tables (st\<lparr>db_fresh := n\<rparr>) = tables st"
  by (simp add: tables_def)

lemma reads_fetch [leaving]: "leaves tables (fetch env g)"
  by (rule leaves_fetch) simp

lemma leaves_reads: "leaves tables m \<Longrightarrow> (\<And>st. f st = f (tables st)) \<Longrightarrow> leaves f m"
  unfolding leaves_def by metis

lemma tables_sel:
  "db_users (tables st) = db_users st" "db_roles (tables st) = db_roles st"
  "db_departments (tables st) = db_departments st" "db_grants (tables st) = db_grants st"
  "db_delegations (tables st) = db_delegations st" "db_definitions (tables st) = db_definitions st"
  "db_projection (tables st) = db_projection st"
  "db_hooks (tables st) = db_hooks st" "db_metadata (tables st) = db_metadata st"
  "db_types (tables st) = db_types st" "db_documents (tables st) = db_documents st"
  "db_status_history (tables st) = db_status_history st"
  "db_instances (tables st) = db_instances st" "db_variables (tables st) = db_variables st"
  "db_tasks (tables st) = db_tasks st" "db_task_history (tables st) = db_task_history st"
  "db_history (tables st) = db_history st" "db_decisions (tables st) = db_decisions st"
  "db_events (tables st) = db_events st" "db_sequences (tables st) = db_sequences st"
  "db_references (tables st) = db_references st"
  "db_notifications (tables st) = db_notifications st" "db_activity (tables st) = db_activity st"
  "db_forms (tables st) = db_forms st" "db_bindings (tables st) = db_bindings st"
  "db_rules (tables st) = db_rules st" "db_buckets (tables st) = db_buckets st"
  "db_parties (tables st) = db_parties st" "db_facilities (tables st) = db_facilities st"
  "db_changes (tables st) = db_changes st" "db_hook_log (tables st) = db_hook_log st"
  by (simp_all add: tables_def)

text \<open>An environment in which no statement fails: what the database contract alone decides.\<close>

definition faultless :: "Env \<Rightarrow> bool" where
  "faultless env \<longleftrightarrow> (\<forall>n. db_fault (hooks env) n = None)"

lemma fetch_faultless: "faultless env \<Longrightarrow> fetch env g st = (counted st st, Inr (g st))"
  by (simp add: faultless_def fetch_def sql_def counted_def)

end
