(* ===== verification/Tables.thy ===== *)
theory Tables
  imports Store
begin

text \<open>
  The statements of the workflow module's repositories (\<open>repository/instance.rs\<close>, \<open>task.rs\<close>,
  \<open>history.rs\<close>, \<open>reference.rs\<close>, \<open>definition.rs\<close>) and of the modules a transition writes through
  (documents, delegations, notifications, the activity log, the outbox, the hook registry).  A unique
  index is a condition of the insert; foreign keys, and columns nothing in the model reads
  (\<open>created_by\<close>, \<open>updated_at\<close> and their like), are not modelled.
\<close>

section \<open>Workflow instances\<close>

record LockedInstance =
  li_id :: uuid
  li_definition :: uuid
  li_document :: uuid
  li_state :: string
  li_status :: InstanceStatus

definition live_row :: "instance_row \<Rightarrow> bool" where
  "live_row r \<longleftrightarrow> in_status r \<in> set LIVE_STATUSES \<and> \<not> in_deleted r"

definition instance_clash :: "instance_row \<Rightarrow> instance_row \<Rightarrow> bool" where
  "instance_clash new old \<longleftrightarrow>
     in_id old = in_id new \<or>
     (in_tenant old = in_tenant new \<and> in_ref old = in_ref new \<and> \<not> in_deleted old \<and> \<not> in_deleted new) \<or>
     (in_document old = in_document new \<and> live_row old \<and> live_row new)"

definition new_instance ::
  "uuid \<Rightarrow> uuid \<Rightarrow> string \<Rightarrow> uuid \<Rightarrow> uuid \<Rightarrow> string option \<Rightarrow> string \<Rightarrow> uuid option \<Rightarrow> instance_row"
where
  "new_instance tenant ident ref definition0 document key state started_by =
     \<lparr>in_tenant = tenant, in_id = ident, in_ref = ref, in_definition = definition0,
      in_document = document, in_business_key = key, in_status = ''RUNNING'', in_state = state,
      in_outcome = None, in_started_by = started_by, in_completed = None, in_deleted = False\<rparr>"

text \<open>What the live-instance index refuses, as the engine reports it.\<close>

fun second_live_instance :: "SqlxError \<Rightarrow> AppError" where
  "second_live_instance (UniqueViolation _) =
     Conflict (''this document already has a live approval; a second one would mean two '' @
       ''processes deciding one document'')"
| "second_live_instance e = from_sqlx e"

definition insert_instance :: "Env \<Rightarrow> instance_row \<Rightarrow> unit tx" where
  "insert_instance env row =
     insert_unique env second_live_instance db_instances db_instances_update instance_clash
       ''workflow_instances'' row"

definition the_instance :: "uuid \<Rightarrow> uuid \<Rightarrow> instance_row \<Rightarrow> bool" where
  "the_instance tenant ident r \<longleftrightarrow> in_tenant r = tenant \<and> in_id r = ident \<and> \<not> in_deleted r"

definition lock_instance :: "Env \<Rightarrow> uuid \<Rightarrow> uuid \<Rightarrow> LockedInstance option tx" where
  "lock_instance env tenant ident = fetch env (\<lambda>st.
     map_option
       (\<lambda>r. \<lparr>li_id = in_id r, li_definition = in_definition r, li_document = in_document r,
             li_state = in_state r, li_status = instance_from_db (in_status r)\<rparr>)
       (find (the_instance tenant ident) (db_instances st)))"

record StateMove =
  mv_id :: uuid
  mv_from :: string
  mv_to :: string
  mv_final :: bool
  mv_outcome :: "InstanceOutcome option"

definition move_state :: "Env \<Rightarrow> uuid \<Rightarrow> StateMove \<Rightarrow> nat tx" where
  "move_state env tenant mv =
     update_rows env db_instances db_instances_update
       (\<lambda>r. the_instance tenant (mv_id mv) r \<and> in_state r = mv_from mv)
       (\<lambda>r. r\<lparr>in_state := mv_to mv,
              in_status := (if mv_final mv then ''COMPLETED'' else in_status r),
              in_outcome := (case mv_outcome mv of Some o' \<Rightarrow> Some (outcome_as_db o') | None \<Rightarrow> in_outcome r),
              in_completed := (if mv_final mv then Some (now env) else in_completed r)\<rparr>)"

definition live_instance_of_document :: "Env \<Rightarrow> uuid \<Rightarrow> uuid \<Rightarrow> uuid option tx" where
  "live_instance_of_document env tenant document = fetch env (\<lambda>st.
     map_option in_id
       (find (\<lambda>r. in_tenant r = tenant \<and> in_document r = document \<and> live_row r) (db_instances st)))"

text \<open>The instance with the definition it runs; the join has no row when the definition has none.\<close>

definition find_instance :: "Env \<Rightarrow> uuid \<Rightarrow> uuid \<Rightarrow> instance_row option tx" where
  "find_instance env tenant ident = fetch env (\<lambda>st.
     find (\<lambda>r. the_instance tenant ident r \<and> list_ex (\<lambda>d. df_id d = in_definition r) (db_definitions st))
       (db_instances st))"

definition variable_clash :: "variable_row \<Rightarrow> variable_row \<Rightarrow> bool" where
  "variable_clash new old \<longleftrightarrow>
     va_instance old = va_instance new \<and> va_key old = va_key new \<and> \<not> va_deleted old \<and> \<not> va_deleted new"

text \<open>The variables, as \<open>(key, data type, stored text)\<close>.\<close>

definition insert_variables ::
  "Env \<Rightarrow> uuid \<Rightarrow> uuid \<Rightarrow> (string \<times> string \<times> string) list \<Rightarrow> unit tx" where
  "insert_variables env tenant inst vars =
     for_each (\<lambda>(key, data_type0, v).
       insert_unique env from_sqlx db_variables db_variables_update variable_clash ''workflow_variables''
         \<lparr>va_tenant = tenant, va_instance = inst, va_key = key, va_value = v, va_type = data_type0,
          va_deleted = False\<rparr>) vars"

definition variables_of :: "Env \<Rightarrow> uuid \<Rightarrow> uuid \<Rightarrow> (string \<times> json) list tx" where
  "variables_of env tenant inst = fetch env (\<lambda>st.
     map (\<lambda>r. (va_key r, read_variable (parse_f64 env) (parse_json env) (va_value r) (va_type r)))
       (sort_key va_key
         (filter (\<lambda>r. va_tenant r = tenant \<and> va_instance r = inst \<and> \<not> va_deleted r) (db_variables st))))"

section \<open>References\<close>

datatype RefKind = InstanceRef | TaskRef

fun ref_prefix :: "RefKind \<Rightarrow> string" where
  "ref_prefix InstanceRef = ''WFI''"
| "ref_prefix TaskRef = ''TASK''"

definition show_int :: "int \<Rightarrow> string" where
  "show_int i = (if i < 0 then CHR ''-'' # show_nat (nat (- i)) else show_nat (nat i))"

text \<open>\<open>{sequence:06}\<close>.\<close>

definition padded :: "nat \<Rightarrow> string" where
  "padded n = replicate (6 - length (show_nat n)) (CHR ''0'') @ show_nat n"

text \<open>The counter of a key: it starts at 2 having issued 1, and each use issues one more.\<close>

definition issued :: "uuid \<Rightarrow> string \<Rightarrow> (uuid \<times> string \<times> nat) list \<Rightarrow> nat" where
  "issued tenant key rows =
     (case find (\<lambda>(t, k, _). t = tenant \<and> k = key) rows of None \<Rightarrow> 1 | Some (_, _, n) \<Rightarrow> n)"

definition advance ::
  "uuid \<Rightarrow> string \<Rightarrow> (uuid \<times> string \<times> nat) list \<Rightarrow> (uuid \<times> string \<times> nat) list" where
  "advance tenant key rows =
     (if list_ex (\<lambda>(t, k, _). t = tenant \<and> k = key) rows
      then update_where (\<lambda>(t, k, _). t = tenant \<and> k = key) (\<lambda>(t, k, n). (t, k, Suc n)) rows
      else rows @ [(tenant, key, 2)])"

definition allocate :: "Env \<Rightarrow> uuid \<Rightarrow> RefKind \<Rightarrow> string tx" where
  "allocate env tenant kind =
     (let key = ref_prefix kind @ ''-'' @ show_int (year env)
      in sql env from_sqlx (\<lambda>st.
           Inr (db_sequences_update (advance tenant key) st,
                key @ ''-'' @ padded (issued tenant key (db_sequences st)))))"

section \<open>Tasks\<close>

record LockedTask =
  lt_id :: uuid
  lt_instance :: uuid
  lt_document :: uuid
  lt_status :: TaskStatus
  lt_assignee :: "uuid option"
  lt_role :: "uuid option"
  lt_department :: "uuid option"
  lt_delegated_from :: "uuid option"
  lt_decided :: bool

definition open_row :: "task_row \<Rightarrow> bool" where
  "open_row r \<longleftrightarrow> ta_status r \<in> set OPEN_STATUSES \<and> \<not> ta_deleted r"

definition task_clash :: "task_row \<Rightarrow> task_row \<Rightarrow> bool" where
  "task_clash new old \<longleftrightarrow>
     ta_id old = ta_id new \<or>
     (ta_tenant old = ta_tenant new \<and> ta_ref old = ta_ref new \<and> \<not> ta_deleted old \<and> \<not> ta_deleted new) \<or>
     (ta_instance old = ta_instance new \<and> open_row old \<and> open_row new)"

fun second_open_task :: "SqlxError \<Rightarrow> AppError" where
  "second_open_task (UniqueViolation _) =
     Conflict (''this process already has an open task; Kelir runs approvals '' @
       ''sequentially (FR-WF-016 is unscheduled)'')"
| "second_open_task e = from_sqlx e"

text \<open>The columns the caller gives; the statement derives the status and stamps the deadline.\<close>

record NewTask =
  nk_id :: uuid
  nk_ref :: string
  nk_instance :: uuid
  nk_document :: uuid
  nk_key :: string
  nk_name :: string
  nk_type :: string
  nk_priority :: string
  nk_assignee :: "uuid option"
  nk_role :: "uuid option"
  nk_department :: "uuid option"
  nk_delegated_from :: "uuid option"
  nk_due :: "int option"

definition assigned_status :: "uuid option \<Rightarrow> TaskStatus" where
  "assigned_status assignee = (if assignee = None then TaskCreated else TaskAssigned)"

definition insert_task :: "Env \<Rightarrow> uuid \<Rightarrow> NewTask \<Rightarrow> unit tx" where
  "insert_task env tenant new =
     insert_unique env second_open_task db_tasks db_tasks_update task_clash ''workflow_tasks''
       \<lparr>ta_tenant = tenant, ta_id = nk_id new, ta_ref = nk_ref new, ta_instance = nk_instance new,
        ta_document = nk_document new, ta_key = nk_key new, ta_name = nk_name new,
        ta_type = nk_type new, ta_status = task_as_db (assigned_status (nk_assignee new)),
        ta_priority = nk_priority new, ta_assignee = nk_assignee new, ta_role = nk_role new,
        ta_department = nk_department new, ta_delegated_from = nk_delegated_from new,
        ta_due = map_option (\<lambda>seconds. now env + seconds) (nk_due new), ta_action = None,
        ta_comment = None, ta_completed_by = None, ta_created = now env, ta_deleted = False\<rparr>"

definition locked_task :: "task_row \<Rightarrow> LockedTask" where
  "locked_task r =
     \<lparr>lt_id = ta_id r, lt_instance = ta_instance r, lt_document = ta_document r,
      lt_status = task_from_db (ta_status r), lt_assignee = ta_assignee r, lt_role = ta_role r,
      lt_department = ta_department r, lt_delegated_from = ta_delegated_from r,
      lt_decided = (ta_action r \<noteq> None)\<rparr>"

definition the_task :: "uuid \<Rightarrow> uuid \<Rightarrow> task_row \<Rightarrow> bool" where
  "the_task tenant ident r \<longleftrightarrow> ta_tenant r = tenant \<and> ta_id r = ident \<and> \<not> ta_deleted r"

definition lock_task :: "Env \<Rightarrow> uuid \<Rightarrow> uuid \<Rightarrow> LockedTask option tx" where
  "lock_task env tenant ident =
     fetch env (\<lambda>st. map_option locked_task (find (the_task tenant ident) (db_tasks st)))"

definition lock_open_task_of_instance :: "Env \<Rightarrow> uuid \<Rightarrow> uuid \<Rightarrow> LockedTask option tx" where
  "lock_open_task_of_instance env tenant inst = fetch env (\<lambda>st.
     map_option locked_task
       (find (\<lambda>r. ta_tenant r = tenant \<and> ta_instance r = inst \<and> open_row r) (db_tasks st)))"

definition find_task :: "Env \<Rightarrow> uuid \<Rightarrow> uuid \<Rightarrow> task_row option tx" where
  "find_task env tenant ident = fetch env (\<lambda>st. find (the_task tenant ident) (db_tasks st))"

abbreviation update_tasks :: "Env \<Rightarrow> (task_row \<Rightarrow> bool) \<Rightarrow> (task_row \<Rightarrow> task_row) \<Rightarrow> nat tx" where
  "update_tasks env \<equiv> update_rows env db_tasks db_tasks_update"

definition claim :: "Env \<Rightarrow> uuid \<Rightarrow> uuid \<Rightarrow> uuid \<Rightarrow> nat tx" where
  "claim env tenant ident claimant =
     update_tasks env
       (\<lambda>r. the_task tenant ident r \<and> ta_assignee r = None \<and> ta_status r = ''CREATED'')
       (\<lambda>r. r\<lparr>ta_assignee := Some claimant, ta_status := ''ASSIGNED''\<rparr>)"

definition complete :: "Env \<Rightarrow> uuid \<Rightarrow> uuid \<Rightarrow> DecisionAction \<Rightarrow> string option \<Rightarrow> uuid \<Rightarrow> nat tx" where
  "complete env tenant ident action comment actor =
     update_tasks env (\<lambda>r. the_task tenant ident r \<and> open_row r)
       (\<lambda>r. r\<lparr>ta_status := ''COMPLETED'', ta_action := Some (decision_as_db action),
              ta_comment := comment, ta_completed_by := Some actor,
              ta_assignee := (case ta_assignee r of Some a \<Rightarrow> Some a | None \<Rightarrow> Some actor)\<rparr>)"

definition close_for_resubmit :: "Env \<Rightarrow> uuid \<Rightarrow> uuid \<Rightarrow> uuid option \<Rightarrow> nat tx" where
  "close_for_resubmit env tenant ident actor =
     update_tasks env (\<lambda>r. the_task tenant ident r \<and> open_row r)
       (\<lambda>r. r\<lparr>ta_status := ''COMPLETED'', ta_completed_by := actor\<rparr>)"

text \<open>\<open>NULLIF(COALESCE(delegated_from, $4), $3)\<close>: the first authority in the chain, unless the task
  has come back to them.\<close>

definition delegated_from_after :: "uuid option \<Rightarrow> uuid \<Rightarrow> uuid \<Rightarrow> uuid option" where
  "delegated_from_after old from delegate0 =
     (let authority = (case old of Some o' \<Rightarrow> o' | None \<Rightarrow> from)
      in if authority = delegate0 then None else Some authority)"

definition delegate_row :: "Env \<Rightarrow> uuid \<Rightarrow> uuid \<Rightarrow> uuid \<Rightarrow> uuid \<Rightarrow> nat tx" where
  "delegate_row env tenant ident delegate0 from =
     update_tasks env (\<lambda>r. the_task tenant ident r \<and> ta_assignee r = Some from \<and> open_row r)
       (\<lambda>r. r\<lparr>ta_assignee := Some delegate0,
              ta_delegated_from := delegated_from_after (ta_delegated_from r) from delegate0\<rparr>)"

record ResolvedAssignment =
  ra_assignee :: "uuid option"
  ra_role :: "uuid option"
  ra_department :: "uuid option"
  ra_delegated_from :: "uuid option"

definition reassign_row :: "Env \<Rightarrow> uuid \<Rightarrow> uuid \<Rightarrow> ResolvedAssignment \<Rightarrow> nat tx" where
  "reassign_row env tenant ident a =
     update_tasks env (\<lambda>r. the_task tenant ident r \<and> open_row r)
       (\<lambda>r. r\<lparr>ta_assignee := ra_assignee a, ta_role := ra_role a, ta_department := ra_department a,
              ta_delegated_from := ra_delegated_from a,
              ta_status := task_as_db (assigned_status (ra_assignee a))\<rparr>)"

datatype TaskHistoryAction = TransitionTaken TransitionAction | Reassigned

fun history_action_as_db :: "TaskHistoryAction \<Rightarrow> string" where
  "history_action_as_db (TransitionTaken a) = action_as_db a"
| "history_action_as_db Reassigned = ''REASSIGN''"

definition record_task_history ::
  "Env \<Rightarrow> uuid \<Rightarrow> uuid \<Rightarrow> uuid \<Rightarrow> uuid \<Rightarrow> TaskStatus option \<Rightarrow> TaskStatus \<Rightarrow>
   TaskHistoryAction option \<Rightarrow> string option \<Rightarrow> uuid option \<Rightarrow> unit tx" where
  "record_task_history env tenant ident inst document from to action comment actor =
     append_row env db_task_history_update
       \<lparr>th_tenant = tenant, th_task = ident, th_instance = inst, th_document = document,
        th_from = map_option task_as_db from, th_to = task_as_db to,
        th_action = map_option history_action_as_db action, th_comment = comment, th_actor = actor\<rparr>"

definition record_decision ::
  "Env \<Rightarrow> uuid \<Rightarrow> uuid \<Rightarrow> uuid \<Rightarrow> uuid \<Rightarrow> uuid \<Rightarrow> uuid option \<Rightarrow> DecisionAction \<Rightarrow>
   string option \<Rightarrow> string option \<Rightarrow> unit tx" where
  "record_decision env tenant document inst ident approver role action level comment =
     append_row env db_decisions_update
       \<lparr>dc_tenant = tenant, dc_document = document, dc_instance = inst, dc_task = ident,
        dc_approver = approver, dc_role = role, dc_decision = decision_as_db action,
        dc_level = level, dc_comment = comment\<rparr>"

section \<open>Roles, departments, users and delegations\<close>

text \<open>A grant that is in force today and, when a department is asked for, covers it.\<close>

definition grant_holds :: "int \<Rightarrow> uuid option \<Rightarrow> grant_row \<Rightarrow> bool" where
  "grant_holds today0 department g \<longleftrightarrow>
     \<not> gr_deleted g \<and>
     (case gr_valid_from g of None \<Rightarrow> True | Some d \<Rightarrow> d \<le> today0) \<and>
     (case gr_valid_to g of None \<Rightarrow> True | Some d \<Rightarrow> today0 \<le> d) \<and>
     (department = None \<or> gr_department g = None \<or> gr_department g = department)"

definition holds_role_in :: "Env \<Rightarrow> uuid \<Rightarrow> uuid \<Rightarrow> uuid \<Rightarrow> uuid option \<Rightarrow> Store \<Rightarrow> bool" where
  "holds_role_in env tenant user role department st \<longleftrightarrow>
     list_ex (\<lambda>g. gr_tenant g = tenant \<and> gr_user g = user \<and> gr_role g = role \<and>
                  grant_holds (today env) department g \<and>
                  list_ex (\<lambda>r. ro_id r = role \<and> ro_tenant r = gr_tenant g \<and> \<not> ro_deleted r) (db_roles st))
       (db_grants st)"

definition holds_role :: "Env \<Rightarrow> uuid \<Rightarrow> uuid \<Rightarrow> uuid \<Rightarrow> uuid option \<Rightarrow> bool tx" where
  "holds_role env tenant user role department = fetch env (holds_role_in env tenant user role department)"

text \<open>\<open>SELECT DISTINCT ... ORDER BY\<close> of the active users with such a grant.\<close>

definition holders_of_role_in :: "Env \<Rightarrow> uuid \<Rightarrow> uuid \<Rightarrow> uuid option \<Rightarrow> Store \<Rightarrow> uuid list" where
  "holders_of_role_in env tenant role department st =
     bs_collect
       (map gr_user
         (filter (\<lambda>g. gr_tenant g = tenant \<and> gr_role g = role \<and> grant_holds (today env) department g \<and>
                      list_ex (\<lambda>u. us_id u = gr_user g \<and> \<not> us_deleted u \<and> us_status u = ''ACTIVE'')
                        (db_users st))
           (db_grants st)))"

definition holders_of_role :: "Env \<Rightarrow> uuid \<Rightarrow> uuid \<Rightarrow> uuid option \<Rightarrow> uuid list tx" where
  "holders_of_role env tenant role department = fetch env (holders_of_role_in env tenant role department)"

definition live_user :: "Env \<Rightarrow> uuid \<Rightarrow> uuid \<Rightarrow> bool tx" where
  "live_user env tenant ident =
     fetch env (\<lambda>st. list_ex (\<lambda>u. us_tenant u = tenant \<and> us_id u = ident \<and> \<not> us_deleted u) (db_users st))"

definition user_is_available :: "Env \<Rightarrow> uuid \<Rightarrow> uuid \<Rightarrow> bool tx" where
  "user_is_available env tenant ident = fetch env (\<lambda>st.
     list_ex (\<lambda>u. us_tenant u = tenant \<and> us_id u = ident \<and> \<not> us_deleted u \<and> us_status u = ''ACTIVE'')
       (db_users st))"

definition live_role_of_code :: "Env \<Rightarrow> uuid \<Rightarrow> string \<Rightarrow> uuid option tx" where
  "live_role_of_code env tenant c = fetch env (\<lambda>st.
     map_option ro_id (find (\<lambda>r. ro_tenant r = tenant \<and> ro_code r = c \<and> \<not> ro_deleted r) (db_roles st)))"

definition live_department :: "Env \<Rightarrow> uuid \<Rightarrow> uuid \<Rightarrow> uuid option tx" where
  "live_department env tenant ident = fetch env (\<lambda>st.
     map_option de_id
       (find (\<lambda>d. de_tenant d = tenant \<and> de_id d = ident \<and> \<not> de_deleted d) (db_departments st)))"

definition live_department_of_code :: "Env \<Rightarrow> uuid \<Rightarrow> string \<Rightarrow> uuid option tx" where
  "live_department_of_code env tenant c = fetch env (\<lambda>st.
     map_option de_id
       (find (\<lambda>d. de_tenant d = tenant \<and> de_code d = c \<and> \<not> de_deleted d) (db_departments st)))"

text \<open>\<open>ORDER BY (scope = 'DOCUMENT_TYPE') DESC, created_at DESC, id DESC LIMIT 1\<close>: the ascending
  key of the last row.\<close>

definition delegation_open :: "Env \<Rightarrow> uuid \<Rightarrow> uuid \<Rightarrow> uuid option \<Rightarrow> Store \<Rightarrow> delegation_row \<Rightarrow> bool" where
  "delegation_open env tenant delegator document_type st d \<longleftrightarrow>
     dl_tenant d = tenant \<and> dl_delegator d = delegator \<and> \<not> dl_deleted d \<and> dl_active d \<and>
     dl_starts d \<le> now env \<and> now env < dl_ends d \<and>
     (dl_scope d = ''ALL'' \<or>
      dl_scope d = ''DOCUMENT_TYPE'' \<and> document_type \<noteq> None \<and> dl_document_type d = document_type) \<and>
     list_ex (\<lambda>u. us_id u = dl_delegate d \<and> us_tenant u = dl_tenant d \<and> \<not> us_deleted u \<and>
                  us_status u = ''ACTIVE'') (db_users st)"

definition active_delegate_of :: "Env \<Rightarrow> uuid \<Rightarrow> uuid \<Rightarrow> uuid option \<Rightarrow> uuid option tx" where
  "active_delegate_of env tenant delegator document_type = fetch env (\<lambda>st.
     (let open_windows = filter (delegation_open env tenant delegator document_type st) (db_delegations st)
      in if open_windows = [] then None
         else Some (dl_delegate (last
           (sort_key (\<lambda>d. (dl_scope d = ''DOCUMENT_TYPE'', dl_created d, dl_id d)) open_windows)))))"

section \<open>The history of a process\<close>

definition record_history :: "Env \<Rightarrow> history_row \<Rightarrow> unit tx" where
  "record_history env row = append_row env db_history_update row"

definition position_of_latest :: "Env \<Rightarrow> uuid \<Rightarrow> uuid \<Rightarrow> nat tx" where
  "position_of_latest env tenant inst = fetch env (\<lambda>st.
     count_where (\<lambda>r. hi_tenant r = tenant \<and> hi_instance r = inst) (db_history st))"

section \<open>Definitions, documents and the hook registry\<close>

definition lock_for_start :: "Env \<Rightarrow> uuid \<Rightarrow> uuid \<Rightarrow> string option tx" where
  "lock_for_start env tenant ident = fetch env (\<lambda>st.
     map_option df_status
       (find (\<lambda>d. df_tenant d = tenant \<and> df_id d = ident \<and> \<not> df_deleted d) (db_definitions st)))"

definition definition_of_instance :: "Env \<Rightarrow> uuid \<Rightarrow> uuid \<Rightarrow> definition_row option tx" where
  "definition_of_instance env tenant ident = fetch env (\<lambda>st.
     (case find (\<lambda>d. df_id d = ident) (db_definitions st) of
        None \<Rightarrow> None
      | Some d \<Rightarrow> if df_tenant d = tenant then Some d else None))"

definition the_document :: "uuid \<Rightarrow> uuid \<Rightarrow> document_row \<Rightarrow> bool" where
  "the_document tenant ident d \<longleftrightarrow> do_tenant d = tenant \<and> do_id d = ident \<and> \<not> do_deleted d"

definition find_document :: "Env \<Rightarrow> uuid \<Rightarrow> uuid \<Rightarrow> document_row option tx" where
  "find_document env tenant ident = fetch env (\<lambda>st. find (the_document tenant ident) (db_documents st))"

definition set_status_from_workflow :: "Env \<Rightarrow> uuid \<Rightarrow> uuid \<Rightarrow> DocumentStatus \<Rightarrow> nat tx" where
  "set_status_from_workflow env tenant ident status =
     update_rows env db_documents db_documents_update (the_document tenant ident)
       (\<lambda>d. d\<lparr>do_status := status_as_db status,
              do_completed := (if status = DocCompleted then Some (now env) else do_completed d)\<rparr>)"

definition document_form_data :: "Env \<Rightarrow> uuid \<Rightarrow> uuid \<Rightarrow> json option tx" where
  "document_form_data env tenant ident =
     fetch env (\<lambda>st. map_option do_form_data (find (the_document tenant ident) (db_documents st)))"

definition registry_chain :: "Env \<Rightarrow> uuid \<Rightarrow> uuid \<Rightarrow> string \<Rightarrow> Registration list tx" where
  "registry_chain env tenant document_type hook = fetch env (\<lambda>st.
     somes (map (\<lambda>r.
       case handler_parse (hk_handler r) of
         None \<Rightarrow> None
       | Some handler \<Rightarrow>
           Some \<lparr>reg_hook = hook, reg_handler = handler, reg_priority = hk_priority r,
                 reg_config = hk_config r, reg_source = DocumentTypeSource\<rparr>)
       (sort_key (\<lambda>r. (hk_priority r, hk_created r))
         (filter (\<lambda>r. hk_tenant r = tenant \<and> \<not> hk_deleted r \<and> hk_enabled r \<and> hk_hook r = hook \<and>
                      (hk_document_type r = None \<or> hk_document_type r = Some document_type))
           (db_hooks st)))))"

definition metadata_of :: "Env \<Rightarrow> uuid \<Rightarrow> uuid \<Rightarrow> json tx" where
  "metadata_of env tenant document = fetch env (\<lambda>st.
     json_object
       (map (\<lambda>r. (md_key r, String (md_value r)))
         (sort_key md_key
           (filter (\<lambda>r. md_tenant r = tenant \<and> md_document r = document \<and> \<not> md_deleted r)
             (db_metadata st)))))"

definition type_code_of :: "Env \<Rightarrow> uuid \<Rightarrow> uuid \<Rightarrow> string option tx" where
  "type_code_of env tenant ident = fetch env (\<lambda>st.
     map_option ty_code (find (\<lambda>r. ty_tenant r = tenant \<and> ty_id r = ident) (db_types st)))"

section \<open>What a transition writes beside the process\<close>

definition notify ::
  "Env \<Rightarrow> notification_row \<Rightarrow> unit tx" where
  "notify env row = append_row env db_notifications_update row"

definition record_activity :: "Env \<Rightarrow> activity_row \<Rightarrow> unit tx" where
  "record_activity env row = append_row env db_activity_update row"

end
