(* ===== verification/Assignment.thy ===== *)
theory Assignment
  imports Tables
begin

text \<open>
  Who a task is for and who may take an edge (\<open>workflow/service/assignment.rs\<close>): the rule becomes a
  principal, the principal is read against the tenant's tables, and an open delegation window
  redirects a person's work.  A refusal carries the values its message interpolates; the reason the
  question adds is told apart by its name.
\<close>

section \<open>The vocabulary\<close>

definition ra_user :: "uuid \<Rightarrow> ResolvedAssignment" where
  "ra_user ident =
     \<lparr>ra_assignee = Some ident, ra_role = None, ra_department = None, ra_delegated_from = None\<rparr>"

definition ra_of_role :: "uuid \<Rightarrow> uuid option \<Rightarrow> ResolvedAssignment" where
  "ra_of_role role department =
     \<lparr>ra_assignee = None, ra_role = Some role, ra_department = department, ra_delegated_from = None\<rparr>"

datatype OwnerDepartment = Unset | LiveDepartment uuid | GoneDepartment uuid

record AssignmentContext =
  ac_document_type :: uuid
  ac_owner :: "uuid option"
  ac_requested :: "uuid option"
  ac_owner_department :: OwnerDepartment

datatype ScopeWord = RequestedWord | OwnerWord

datatype DepartmentScope = NoScope | ScopeId uuid ScopeWord | ScopeCode string

datatype Principal = UserPrincipal uuid | RolePrincipal string "DepartmentScope option"

datatype Question = AskAssignee | AskDecider | AskRaise

fun question_name :: "Question \<Rightarrow> string" where
  "question_name AskAssignee = ''assignee''"
| "question_name AskDecider = ''decider''"
| "question_name AskRaise = ''raise''"

definition unresolvable :: "Question \<Rightarrow> string \<Rightarrow> string \<Rightarrow> string list \<Rightarrow> AppError" where
  "unresolvable question path field args =
     Validation [detail (path @ ''.'' @ field) ''assignment'' ''ASSIGNMENT_UNRESOLVED''
       (question_name question # args)]"

definition not_reassignable :: "string \<Rightarrow> string list \<Rightarrow> AppError" where
  "not_reassignable field args = Validation [detail field ''assignment'' ''ASSIGNMENT_UNRESOLVED'' args]"

definition owner_department_of :: "Env \<Rightarrow> uuid \<Rightarrow> uuid \<Rightarrow> OwnerDepartment tx" where
  "owner_department_of env tenant owner = fetch env (\<lambda>st.
     (case find (\<lambda>u. us_tenant u = tenant \<and> us_id u = owner) (db_users st) of
        None \<Rightarrow> Unset
      | Some u \<Rightarrow>
          (case us_department u of
             None \<Rightarrow> Unset
           | Some named \<Rightarrow>
               if list_ex (\<lambda>d. de_id d = named \<and> de_tenant d = tenant \<and> \<not> de_deleted d)
                    (db_departments st)
               then LiveDepartment named else GoneDepartment named)))"

definition context_of_document ::
  "Env \<Rightarrow> uuid \<Rightarrow> uuid \<Rightarrow> uuid option \<Rightarrow> uuid option \<Rightarrow> AssignmentContext tx" where
  "context_of_document env tenant document_type created_by requested =
     seq (case created_by of None \<Rightarrow> ret Unset | Some owner \<Rightarrow> owner_department_of env tenant owner)
       (\<lambda>department. ret \<lparr>ac_document_type = document_type, ac_owner = created_by,
                          ac_requested = requested, ac_owner_department = department\<rparr>)"

section \<open>The steps\<close>

definition owner_scope :: "Question \<Rightarrow> string \<Rightarrow> OwnerDepartment \<Rightarrow> AppError + DepartmentScope" where
  "owner_scope question path owner_department =
     (case owner_department of
        LiveDepartment ident \<Rightarrow> Inr (ScopeId ident OwnerWord)
      | Unset \<Rightarrow> Inl (unresolvable question path ''departmentScope'' [''OWNER_DEPARTMENT''])
      | GoneDepartment ident \<Rightarrow> Inl (unresolvable question path ''departmentScope'' [ident]))"

definition normalize ::
  "Env \<Rightarrow> AssignmentRule \<Rightarrow> AssignmentContext \<Rightarrow> string \<Rightarrow> Question \<Rightarrow> AppError + Principal" where
  "normalize env rule context0 path question =
     (case assignee_type rule of
        User \<Rightarrow>
          (let raw = or_default [] (user_id rule) in
           case parse_uuid env raw of
             None \<Rightarrow> Inl (unresolvable question path ''userId'' [raw])
           | Some ident \<Rightarrow> Inr (UserPrincipal ident))
      | Owner \<Rightarrow>
          (case ac_owner context0 of
             Some owner \<Rightarrow> Inr (UserPrincipal owner)
           | None \<Rightarrow> Inl (unresolvable question path ''assigneeType'' [''OWNER'']))
      | Role \<Rightarrow> Inr (RolePrincipal (or_default [] (role_code rule)) None)
      | DepartmentRole \<Rightarrow>
          (case (case department_scope rule of
                   None \<Rightarrow> Inr NoScope
                 | Some scope \<Rightarrow>
                     if scope = ''REQUESTED_DEPARTMENT'' then
                       (case ac_requested context0 of
                          Some ident \<Rightarrow> Inr (ScopeId ident RequestedWord)
                        | None \<Rightarrow> Inl (unresolvable question path ''departmentScope''
                                    [''REQUESTED_DEPARTMENT'']))
                     else if scope = ''OWNER_DEPARTMENT'' then
                       owner_scope question path (ac_owner_department context0)
                     else Inr (ScopeCode scope)) of
             Inl e \<Rightarrow> Inl e
           | Inr department \<Rightarrow>
               Inr (RolePrincipal (or_default [] (role_code rule)) (Some department))))"

text \<open>The department of a scope; \<open>None\<close> narrows nothing.\<close>

definition direct_department ::
  "Env \<Rightarrow> uuid \<Rightarrow> DepartmentScope option \<Rightarrow> (string \<Rightarrow> string list \<Rightarrow> AppError) \<Rightarrow> uuid option tx" where
  "direct_department env tenant department refuse0 =
     (case department of
        None \<Rightarrow> ret None
      | Some NoScope \<Rightarrow> ret None
      | Some (ScopeId ident word) \<Rightarrow>
          seq (live_department env tenant ident) (\<lambda>found.
          seq (need (refuse0 ''departmentScope'' [ident]) found) (\<lambda>d. ret (Some d)))
      | Some (ScopeCode c) \<Rightarrow>
          seq (live_department_of_code env tenant c) (\<lambda>found.
          seq (need (refuse0 ''departmentScope'' [c]) found) (\<lambda>d. ret (Some d))))"

definition direct ::
  "Env \<Rightarrow> uuid \<Rightarrow> Principal \<Rightarrow> (string \<Rightarrow> string list \<Rightarrow> AppError) \<Rightarrow> ResolvedAssignment tx" where
  "direct env tenant who refuse0 =
     (case who of
        UserPrincipal ident \<Rightarrow>
          seq (live_user env tenant ident) (\<lambda>exists.
          seq (refuse_if (\<not> exists) (refuse0 ''userId'' [ident])) (\<lambda>_.
          ret (ra_user ident)))
      | RolePrincipal role department \<Rightarrow>
          seq (live_role_of_code env tenant role) (\<lambda>found.
          seq (need (refuse0 ''roleCode'' [role]) found) (\<lambda>role_id.
          seq (direct_department env tenant department refuse0) (\<lambda>department_id.
          ret (ra_of_role role_id department_id)))))"

text \<open>A rule, answered: \<open>normalize\<close> then \<open>direct\<close>.\<close>

definition resolve_rule ::
  "Env \<Rightarrow> uuid \<Rightarrow> AssignmentRule \<Rightarrow> AssignmentContext \<Rightarrow> string \<Rightarrow> Question \<Rightarrow> ResolvedAssignment tx"
where
  "resolve_rule env tenant rule context0 path question =
     seq (lift_result (normalize env rule context0 path question)) (\<lambda>who.
     direct env tenant who (unresolvable question path))"

definition redirect ::
  "Env \<Rightarrow> uuid \<Rightarrow> ResolvedAssignment \<Rightarrow> AssignmentContext \<Rightarrow> ResolvedAssignment tx" where
  "redirect env tenant resolved context0 =
     (case ra_assignee resolved of
        None \<Rightarrow> ret resolved
      | Some delegator \<Rightarrow>
          seq (active_delegate_of env tenant delegator (Some (ac_document_type context0))) (\<lambda>found.
          case found of
            None \<Rightarrow> ret resolved
          | Some delegate0 \<Rightarrow>
              ret (resolved\<lparr>ra_assignee := Some delegate0, ra_delegated_from := Some delegator\<rparr>)))"

definition resolve_assignment ::
  "Env \<Rightarrow> uuid \<Rightarrow> AssignmentRule \<Rightarrow> AssignmentContext \<Rightarrow> string \<Rightarrow> ResolvedAssignment tx" where
  "resolve_assignment env tenant rule context0 path =
     seq (resolve_rule env tenant rule context0 path AskAssignee) (\<lambda>resolved.
     redirect env tenant resolved context0)"

fun permitted_as ::
  "Env \<Rightarrow> uuid \<Rightarrow> ResolvedAssignment \<Rightarrow> uuid list \<Rightarrow> bool tx" where
  "permitted_as env tenant resolved [] = ret False"
| "permitted_as env tenant resolved (candidate # rest) =
     (if ra_assignee resolved = Some candidate then ret True
      else
        (case ra_role resolved of
           None \<Rightarrow> permitted_as env tenant resolved rest
         | Some role \<Rightarrow>
             seq (holds_role env tenant candidate role (ra_department resolved)) (\<lambda>holds0.
             if holds0 then ret True else permitted_as env tenant resolved rest)))"

definition permits ::
  "Env \<Rightarrow> uuid \<Rightarrow> AssignmentRule \<Rightarrow> AssignmentContext \<Rightarrow> uuid option \<Rightarrow> uuid option \<Rightarrow> string \<Rightarrow> bool tx"
where
  "permits env tenant rule context0 actor on_behalf_of path =
     (case actor of
        None \<Rightarrow> ret False
      | Some a \<Rightarrow>
          seq (resolve_rule env tenant rule context0 path AskDecider) (\<lambda>resolved.
          permitted_as env tenant resolved (somes [Some a, on_behalf_of])))"

definition reassign_to :: "Env \<Rightarrow> uuid \<Rightarrow> ReassignTarget \<Rightarrow> ResolvedAssignment tx" where
  "reassign_to env tenant target =
     direct env tenant
       (case target of ToUser ident \<Rightarrow> UserPrincipal ident | ToRole role \<Rightarrow> RolePrincipal role None)
       not_reassignable"

definition of_role :: "AssignmentRule \<Rightarrow> bool" where
  "of_role rule \<longleftrightarrow> assignee_type rule \<in> {Role, DepartmentRole}"

definition names_role ::
  "Env \<Rightarrow> uuid \<Rightarrow> AssignmentRule \<Rightarrow> AssignmentContext \<Rightarrow> uuid \<Rightarrow> string \<Rightarrow> bool tx" where
  "names_role env tenant rule context0 role path =
     (if \<not> of_role rule then ret False
      else
        seq (resolve_rule env tenant rule context0 path AskDecider) (\<lambda>resolved.
        ret (ra_role resolved = Some role)))"

text \<open>Once per role, in the order of the codes, with the path of the first edge that names it.\<close>

fun deciding_roles :: "(string \<times> AssignmentRule) list \<Rightarrow> (string \<times> string) list \<Rightarrow> (string \<times> string) list" where
  "deciding_roles [] roles = roles"
| "deciding_roles ((path, rule) # edges) roles =
     deciding_roles edges
       (if of_role rule then bm_entry (or_default [] (role_code rule)) path (\<lambda>first. first) roles
        else roles)"

definition hold_deciding_roles :: "Env \<Rightarrow> uuid \<Rightarrow> (string \<times> AssignmentRule) list \<Rightarrow> unit tx" where
  "hold_deciding_roles env tenant edges =
     for_each (\<lambda>(role, path).
       seq (live_role_of_code env tenant role) (\<lambda>live.
       refuse_if (live = None)
         (Validation [detail (path @ ''.roleCode'') ''assignment'' ''ASSIGNMENT_UNRESOLVED'' [role]])))
       (deciding_roles edges [])"

definition decision_action :: "TransitionAction \<Rightarrow> bool" where
  "decision_action act \<longleftrightarrow> act \<in> {ApproveAction, RejectAction, ReturnAction}"

text \<open>The path a refusal of an edge's \<open>allowedBy\<close> is reported at.\<close>

definition allowed_by_path :: "string \<Rightarrow> TransitionAction \<Rightarrow> string" where
  "allowed_by_path from act = ''transitions.'' @ from @ ''.'' @ action_as_db act @ ''.allowedBy''"

text \<open>Running a step for its answer: a refusal is a value, whatever was read.\<close>

definition attempt :: "'a tx \<Rightarrow> (AppError + 'a) tx" where
  "attempt m st = (case m st of (st', r) \<Rightarrow> (st', Inr r))"

fun edge_resolves ::
  "Env \<Rightarrow> uuid \<Rightarrow> AssignmentContext \<Rightarrow> Transition list \<Rightarrow> validation_detail list \<Rightarrow> unit tx" where
  "edge_resolves env tenant context0 [] refusals =
     refuse_if (refusals \<noteq> []) (Validation refusals)"
| "edge_resolves env tenant context0 (edge # edges) refusals =
     (if \<not> decision_action (t_action edge) then edge_resolves env tenant context0 edges refusals
      else
        (case allowed_by edge of
           None \<Rightarrow> ret ()
         | Some rule \<Rightarrow>
             seq (attempt (resolve_rule env tenant rule context0
                    (allowed_by_path (t_from edge) (t_action edge)) AskRaise)) (\<lambda>resolved.
             case resolved of
               Inr _ \<Rightarrow> ret ()
             | Inl (Validation details) \<Rightarrow> edge_resolves env tenant context0 edges (refusals @ details)
             | Inl other \<Rightarrow> fail other)))"

definition refuse_unless_an_edge_resolves ::
  "Env \<Rightarrow> uuid \<Rightarrow> AssignmentContext \<Rightarrow> Transition list \<Rightarrow> unit tx" where
  "refuse_unless_an_edge_resolves env tenant context0 edges = edge_resolves env tenant context0 edges []"


section \<open>What a rule resolves to\<close>

text \<open>
  The reference: the holder a rule names, if it names one.  It reads the tables directly and knows
  neither statements nor refusals.
\<close>

definition is_live_user :: "uuid \<Rightarrow> Store \<Rightarrow> uuid \<Rightarrow> bool" where
  "is_live_user tenant st ident \<longleftrightarrow>
     list_ex (\<lambda>u. us_tenant u = tenant \<and> us_id u = ident \<and> \<not> us_deleted u) (db_users st)"

definition role_named :: "uuid \<Rightarrow> Store \<Rightarrow> string \<Rightarrow> uuid option" where
  "role_named tenant st c =
     map_option ro_id (find (\<lambda>r. ro_tenant r = tenant \<and> ro_code r = c \<and> \<not> ro_deleted r) (db_roles st))"

definition department_held :: "uuid \<Rightarrow> Store \<Rightarrow> uuid \<Rightarrow> uuid option" where
  "department_held tenant st ident =
     map_option de_id
       (find (\<lambda>d. de_tenant d = tenant \<and> de_id d = ident \<and> \<not> de_deleted d) (db_departments st))"

definition department_named :: "uuid \<Rightarrow> Store \<Rightarrow> string \<Rightarrow> uuid option" where
  "department_named tenant st c =
     map_option de_id
       (find (\<lambda>d. de_tenant d = tenant \<and> de_code d = c \<and> \<not> de_deleted d) (db_departments st))"

definition scope_department :: "uuid \<Rightarrow> Store \<Rightarrow> AssignmentContext \<Rightarrow> string option \<Rightarrow> uuid option option" where
  "scope_department tenant st context0 scope =
     (case scope of
        None \<Rightarrow> Some None
      | Some s \<Rightarrow>
          map_option Some
            (if s = ''REQUESTED_DEPARTMENT'' then Option.bind (ac_requested context0) (department_held tenant st)
             else if s = ''OWNER_DEPARTMENT'' then
               (case ac_owner_department context0 of
                  LiveDepartment d \<Rightarrow> department_held tenant st d | _ \<Rightarrow> None)
             else department_named tenant st s))"

definition resolution ::
  "Env \<Rightarrow> uuid \<Rightarrow> AssignmentRule \<Rightarrow> AssignmentContext \<Rightarrow> Store \<Rightarrow> ResolvedAssignment option" where
  "resolution env tenant rule context0 st =
     (let role = role_named tenant st (or_default [] (role_code rule));
          live = (\<lambda>who. Option.bind who (\<lambda>ident. if is_live_user tenant st ident then Some (ra_user ident) else None))
      in case assignee_type rule of
           User \<Rightarrow> live (parse_uuid env (or_default [] (user_id rule)))
         | Owner \<Rightarrow> live (ac_owner context0)
         | Role \<Rightarrow> map_option (\<lambda>r. ra_of_role r None) role
         | DepartmentRole \<Rightarrow>
             (case role of
                None \<Rightarrow> None
              | Some r \<Rightarrow> map_option (ra_of_role r) (scope_department tenant st context0 (department_scope rule))))"

lemma read_tables [simp]:
  "department_held tenant (tables st) = department_held tenant st"
  "department_named tenant (tables st) = department_named tenant st"
  "role_named tenant (tables st) = role_named tenant st"
  "is_live_user tenant (tables st) = is_live_user tenant st"
  by (simp_all add: department_held_def department_named_def role_named_def is_live_user_def
      tables_sel fun_eq_iff)

lemma resolution_tables: "resolution env tenant rule c (tables st) = resolution env tenant rule c st"
proof -
  have "scope_department tenant (tables st) = scope_department tenant st"
    unfolding fun_eq_iff scope_department_def read_tables by simp
  then have "scope_department tenant (tables st) c = scope_department tenant st c" by (rule fun_cong)
  then show ?thesis unfolding resolution_def read_tables by (simp only:)
qed

lemma live_department_Inr [steps]:
  "live_department env tenant ident st = (st', Inr y) \<longleftrightarrow>
     db_fault (hooks env) (db_statements st) = None \<and> y = department_held tenant st ident \<and> st' = counted st st"
  by (auto simp: live_department_def department_held_def steps)

lemma live_department_of_code_Inr [steps]:
  "live_department_of_code env tenant c st = (st', Inr y) \<longleftrightarrow>
     db_fault (hooks env) (db_statements st) = None \<and> y = department_named tenant st c \<and> st' = counted st st"
  by (auto simp: live_department_of_code_def department_named_def steps)

lemma live_role_of_code_Inr [steps]:
  "live_role_of_code env tenant c st = (st', Inr y) \<longleftrightarrow>
     db_fault (hooks env) (db_statements st) = None \<and> y = role_named tenant st c \<and> st' = counted st st"
  by (auto simp: live_role_of_code_def role_named_def steps)

lemma live_user_Inr [steps]:
  "live_user env tenant ident st = (st', Inr y) \<longleftrightarrow>
     db_fault (hooks env) (db_statements st) = None \<and> y = is_live_user tenant st ident \<and> st' = counted st st"
  by (auto simp: live_user_def is_live_user_def steps)

lemma read_counted [simp]:
  "department_held tenant (counted a st) = department_held tenant st"
  "department_named tenant (counted a st) = department_named tenant st"
  "role_named tenant (counted a st) = role_named tenant st"
  "is_live_user tenant (counted a st) = is_live_user tenant st"
  by (simp_all add: department_held_def department_named_def role_named_def is_live_user_def fun_eq_iff)

lemmas direct_steps =
  direct_def direct_department_def normalize_def owner_scope_def

lemma resolve_rule_Inr:
  "resolve_rule env tenant rule c path q st = (st', Inr r) \<Longrightarrow> resolution env tenant rule c st = Some r"
  unfolding resolve_rule_def
  by (auto simp: steps resolution_def scope_department_def Let_def normalize_def owner_scope_def direct_def
      direct_department_def department_held_def
      split: AssigneeType.splits option.splits if_splits sum.splits OwnerDepartment.splits)


section \<open>The steps only read\<close>

lemma reads_attempt [leaving]: "leaves f m \<Longrightarrow> leaves f (attempt m)"
  unfolding leaves_def attempt_def by (auto split: prod.splits; metis fst_conv)

lemma leaves_sum [leaving]:
  "(\<And>e. leaves f (m e)) \<Longrightarrow> (\<And>x. leaves f (g x)) \<Longrightarrow>
     leaves f (case r of Inl e \<Rightarrow> m e | Inr x \<Rightarrow> g x)"
  by (cases r) auto

lemma reads_direct_department [leaving]: "leaves tables (direct_department env tenant d rf)"
  unfolding direct_department_def live_department_def live_department_of_code_def
  by (cases d; auto split: DepartmentScope.splits intro!: leaving)

lemma reads_direct [leaving]: "leaves tables (direct env tenant who rf)"
  unfolding direct_def live_user_def live_role_of_code_def
  by (cases who; auto intro!: leaving)

lemma reads_resolve_rule [leaving]: "leaves tables (resolve_rule env tenant rule c path q)"
  unfolding resolve_rule_def by (auto intro!: leaving)

lemma reads_redirect [leaving]: "leaves tables (redirect env tenant r c)"
  unfolding redirect_def active_delegate_of_def by (auto intro!: leaving)

lemma reads_resolve_assignment [leaving]: "leaves tables (resolve_assignment env tenant rule c path)"
  unfolding resolve_assignment_def by (auto intro!: leaving)

lemma reads_permitted_as [leaving]: "leaves tables (permitted_as env tenant r cs)"
  by (induction cs) (auto simp: holds_role_def intro!: leaving)

lemma reads_permits [leaving]: "leaves tables (permits env tenant rule c actor b path)"
  unfolding permits_def by (auto intro!: leaving)

lemma reads_names_role [leaving]: "leaves tables (names_role env tenant rule c role path)"
  unfolding names_role_def by (auto intro!: leaving)

lemma reads_reassign_to [leaving]: "leaves tables (reassign_to env tenant target)"
  unfolding reassign_to_def by (auto intro!: leaving)

lemma reads_hold_deciding_roles [leaving]: "leaves tables (hold_deciding_roles env tenant edges)"
  unfolding hold_deciding_roles_def live_role_of_code_def by (auto intro!: leaving)

lemma reads_edge_resolves [leaving]: "leaves tables (edge_resolves env tenant c edges ds)"
  by (induction edges arbitrary: ds)
    (auto intro!: leaving split: AppError.split)

lemma reads_refuse_unless_an_edge_resolves [leaving]:
  "leaves tables (refuse_unless_an_edge_resolves env tenant c edges)"
  unfolding refuse_unless_an_edge_resolves_def by (rule leaving)

lemma reads_context_of_document [leaving]:
  "leaves tables (context_of_document env tenant dt cb req)"
  unfolding context_of_document_def owner_department_of_def by (auto intro!: leaving)

section \<open>Facts of a resolution\<close>

text \<open>A resolved rule names a person or a role, never both and never neither; a department narrows
  a role and an authority is handed over by a person.\<close>

definition well_assigned :: "ResolvedAssignment \<Rightarrow> bool" where
  "well_assigned r \<longleftrightarrow>
     (ra_assignee r = None) \<noteq> (ra_role r = None) \<and>
     (ra_department r \<noteq> None \<longrightarrow> ra_role r \<noteq> None) \<and>
     (ra_delegated_from r \<noteq> None \<longrightarrow> ra_assignee r \<noteq> None)"

lemma well_assigned_ra [simp]: "well_assigned (ra_user i)" "well_assigned (ra_of_role r d)"
  by (simp_all add: well_assigned_def ra_user_def ra_of_role_def)

lemma resolution_well_assigned: "resolution env tenant rule c st = Some r \<Longrightarrow> well_assigned r"
  by (auto simp: resolution_def Let_def bind_eq_Some_conv
      split: AssigneeType.splits option.splits if_splits)

lemma redirect_Inr:
  "redirect env tenant r c st = (st', Inr r') \<Longrightarrow>
     r' = r \<or> (\<exists>delegator delegate0. ra_assignee r = Some delegator \<and>
       r' = r\<lparr>ra_assignee := Some delegate0, ra_delegated_from := Some delegator\<rparr>)"
  by (auto simp: redirect_def steps split: option.splits)

lemma resolve_assignment_well_assigned:
  assumes "resolve_assignment env tenant rule c path st = (st', Inr r)"
  shows "well_assigned r"
proof -
  obtain st1 r0 where "resolve_rule env tenant rule c path AskAssignee st = (st1, Inr r0)"
    and "redirect env tenant r0 c st1 = (st', Inr r)"
    using assms by (auto simp: resolve_assignment_def steps)
  then show ?thesis
    by (auto simp: well_assigned_def dest!: redirect_Inr resolve_rule_Inr resolution_well_assigned)
qed

text \<open>Whom a resolved rule admits.\<close>

definition admits :: "Env \<Rightarrow> uuid \<Rightarrow> Store \<Rightarrow> ResolvedAssignment \<Rightarrow> uuid \<Rightarrow> bool" where
  "admits env tenant st r who \<longleftrightarrow>
     ra_assignee r = Some who \<or>
     (\<exists>role. ra_role r = Some role \<and> holds_role_in env tenant who role (ra_department r) st)"

lemma holds_role_in_tables [simp]:
  "holds_role_in env tenant u r d (tables st) = holds_role_in env tenant u r d st"
  by (simp add: holds_role_in_def tables_sel)

lemma admits_tables [simp]: "admits env tenant (tables st) r who = admits env tenant st r who"
  by (simp add: admits_def)

lemma admits_cong:
  assumes "tables st' = tables st"
  shows "admits env tenant st' = admits env tenant st"
proof (intro ext)
  fix r who
  have "admits env tenant (tables st') r who = admits env tenant (tables st) r who"
    by (simp only: assms)
  then show "admits env tenant st' r who = admits env tenant st r who" by simp
qed

lemma permitted_as_Inr:
  "permitted_as env tenant r cs st = (st', Inr b) \<Longrightarrow>
     b \<longleftrightarrow> (\<exists>who \<in> set cs. admits env tenant st r who)"
proof (induction cs arbitrary: st)
  case (Cons who cs)
  show ?case
  proof (cases "ra_assignee r = Some who")
    case True
    with Cons.prems show ?thesis by (auto simp: steps admits_def)
  next
    case False
    show ?thesis
    proof (cases "ra_role r")
      case None
      with False Cons show ?thesis by (simp add: admits_def)
    next
      case (Some role)
      let ?h = "holds_role_in env tenant who role (ra_department r) st"
      have c: "admits env tenant (counted st st) = admits env tenant st"
        by (rule admits_cong) simp
      from Some False Cons.prems consider "?h" "b"
        | "\<not> ?h" "permitted_as env tenant r cs (counted st st) = (st', Inr b)"
        by (auto simp: steps holds_role_def split: if_splits)
      then show ?thesis
        using Cons.IH [of "counted st st"] Some False by cases (auto simp: admits_def c)
    qed
  qed
qed (simp add: steps)

text \<open>\<open>permits\<close> is the reference resolution admitting the actor or whom the actor stands in for.\<close>

lemma permits_Inr:
  assumes "permits env tenant rule c actor behalf path st = (st', Inr b)"
  shows "b \<longleftrightarrow> (\<exists>a r. actor = Some a \<and> resolution env tenant rule c st = Some r \<and>
    (\<exists>who. (who = a \<or> behalf = Some who) \<and> admits env tenant st r who))"
proof (cases actor)
  case None
  with assms show ?thesis by (simp add: permits_def steps)
next
  case (Some a)
  with assms obtain st1 r where r: "resolve_rule env tenant rule c path AskDecider st = (st1, Inr r)"
    "permitted_as env tenant r (somes [Some a, behalf]) st1 = (st', Inr b)"
    by (auto simp: permits_def steps)
  have "tables st1 = tables st" using leavesD [OF reads_resolve_rule r(1)] .
  then have "admits env tenant st1 = admits env tenant st" by (rule admits_cong)
  with permitted_as_Inr [OF r(2)] resolve_rule_Inr [OF r(1)] Some show ?thesis
    by (cases behalf) auto
qed

section \<open>Who is assigned\<close>

text \<open>
  The reference of an assignment: the holder the rule resolves to, or the delegate of an open window
  where the rule resolves to a person, with the person the delegate stands in for.
\<close>

definition delegate_at :: "Env \<Rightarrow> uuid \<Rightarrow> uuid \<Rightarrow> uuid option \<Rightarrow> Store \<Rightarrow> uuid option" where
  "delegate_at env tenant delegator document_type st =
     (let windows = filter (delegation_open env tenant delegator document_type st) (db_delegations st)
      in if windows = [] then None
         else Some (dl_delegate (last
           (sort_key (\<lambda>d. (dl_scope d = ''DOCUMENT_TYPE'', dl_created d, dl_id d)) windows))))"

definition holder ::
  "Env \<Rightarrow> uuid \<Rightarrow> AssignmentRule \<Rightarrow> AssignmentContext \<Rightarrow> Store \<Rightarrow> ResolvedAssignment option" where
  "holder env tenant rule c st =
     map_option (\<lambda>r.
       case Option.bind (ra_assignee r) (\<lambda>who. map_option (Pair who)
              (delegate_at env tenant who (Some (ac_document_type c)) st)) of
         None \<Rightarrow> r
       | Some (who, delegate0) \<Rightarrow> r\<lparr>ra_assignee := Some delegate0, ra_delegated_from := Some who\<rparr>)
       (resolution env tenant rule c st)"

text \<open>The rows an assignment is read from.\<close>

definition roster :: "Store \<Rightarrow>
    user_row list \<times> role_row list \<times> department_row list \<times> delegation_row list" where
  "roster st = (db_users st, db_roles st, db_departments st, db_delegations st)"

lemma roster_counted [simp]: "roster (counted a st) = roster st"
  by (simp add: roster_def)

lemma roster_tables: "roster st = roster (tables st)"
  by (simp add: roster_def tables_sel)

lemma resolution_roster:
  assumes "roster st' = roster st"
  shows "resolution env tenant rule c st' = resolution env tenant rule c st"
proof -
  have read: "department_held tenant st' = department_held tenant st"
    "department_named tenant st' = department_named tenant st"
    "role_named tenant st' = role_named tenant st" "is_live_user tenant st' = is_live_user tenant st"
    using assms by (simp_all add: roster_def department_held_def department_named_def role_named_def
      is_live_user_def fun_eq_iff)
  have "scope_department tenant st' c d = scope_department tenant st c d" for d
    unfolding scope_department_def read by simp
  then show ?thesis unfolding resolution_def read by (simp only:)
qed

lemma delegate_roster:
  assumes "roster st' = roster st"
  shows "delegate_at env tenant who ty st' = delegate_at env tenant who ty st"
proof -
  have "delegation_open env tenant who ty st' = delegation_open env tenant who ty st"
    using assms by (simp add: roster_def delegation_open_def fun_eq_iff)
  then show ?thesis using assms by (simp add: roster_def delegate_at_def)
qed

lemma holder_roster:
  assumes "roster st' = roster st"
  shows "holder env tenant rule c st' = holder env tenant rule c st"
  unfolding holder_def resolution_roster [OF assms] delegate_roster [OF assms] by (rule refl)

lemma active_delegate_Inr:
  "active_delegate_of env tenant who ty st = (st', Inr found) \<Longrightarrow> found = delegate_at env tenant who ty st"
  by (auto simp: active_delegate_of_def delegate_at_def steps)

lemma resolve_assignment_holder:
  assumes "resolve_assignment env tenant rule c path st = (st', Inr r)"
  shows "holder env tenant rule c st = Some r"
proof -
  obtain st1 r0 where r0: "resolve_rule env tenant rule c path AskAssignee st = (st1, Inr r0)"
    and red: "redirect env tenant r0 c st1 = (st', Inr r)"
    using assms by (auto simp: resolve_assignment_def seq_Inr)
  have same: "roster st1 = roster st"
    using leavesD [OF reads_resolve_rule r0] roster_tables by metis
  from red resolve_rule_Inr [OF r0] show ?thesis
    by (cases "ra_assignee r0")
      (auto simp: redirect_def seq_Inr ret_Inr holder_def delegate_roster [OF same] dest!: active_delegate_Inr
        split: option.splits)
qed

end
