(* ===== verification/Outbox.thy ===== *)
theory Outbox
  imports Tables
begin

text \<open>
  The transactional outbox (\<open>modules/outbox\<close>): the envelope an event is written in, the insert inside
  the caller's transaction, the retry schedule, the claim of what is due under a lease, and the
  settlement fenced by that lease.  A duration is in seconds; \<open>i32\<close> attempt counts stay far below
  their width because a row is dead-lettered at the sixth.
\<close>

section \<open>The envelope\<close>

definition ENVELOPE_VERSION :: string where
  "ENVELOPE_VERSION = ''1.0.0''"

definition WORKFLOW_TRANSITIONED :: string where
  "WORKFLOW_TRANSITIONED = ''Workflow.Transitioned''"

datatype AggregateType = WorkflowInstance

fun aggregate_as_db :: "AggregateType \<Rightarrow> string" where
  "aggregate_as_db WorkflowInstance = ''WORKFLOW_INSTANCE''"

datatype Actor = ByUser uuid | ByEngine | BySystem

fun user_or_system :: "uuid option \<Rightarrow> Actor" where
  "user_or_system None = BySystem"
| "user_or_system (Some user) = ByUser user"

fun actor_as_json :: "Actor \<Rightarrow> json" where
  "actor_as_json (ByUser ident) =
     json_object [(''actorType'', String ''USER''), (''actorId'', String ident)]"
| "actor_as_json ByEngine =
     json_object [(''actorType'', String ''WORKFLOW_ENGINE''), (''actorId'', Null)]"
| "actor_as_json BySystem =
     json_object [(''actorType'', String ''SYSTEM''), (''actorId'', Null)]"

record NewEvent =
  ne_tenant :: uuid
  ne_aggregate_type :: AggregateType
  ne_aggregate :: uuid
  ne_type :: string
  ne_sequence :: "nat option"
  ne_correlation :: string
  ne_causation :: "uuid option"
  ne_actor :: Actor
  ne_payload :: json

definition json_int :: "int \<Rightarrow> json" where
  "json_int i = Number (if i < 0 then NegInt i else PosInt (nat i))"

definition envelope :: "uuid \<Rightarrow> string \<Rightarrow> NewEvent \<Rightarrow> json" where
  "envelope event_id occurred event = json_object
     [(''eventId'', String event_id),
      (''version'', String ENVELOPE_VERSION),
      (''eventType'', String (ne_type event)),
      (''occurredAt'', String occurred),
      (''tenantId'', String (ne_tenant event)),
      (''aggregateType'', String (aggregate_as_db (ne_aggregate_type event))),
      (''aggregateId'', String (ne_aggregate event)),
      (''sequence'', case ne_sequence event of None \<Rightarrow> Null | Some n \<Rightarrow> json_int (int n)),
      (''correlationId'', String (ne_correlation event)),
      (''causationId'', nullable (ne_causation event)),
      (''actor'', actor_as_json (ne_actor event)),
      (''payload'', ne_payload event)]"

lemma get_envelope:
  "get (envelope i o' e) ''payload'' = Some (ne_payload e)"
  "get (envelope i o' e) ''actor'' = Some (actor_as_json (ne_actor e))"
  "get (envelope i o' e) ''correlationId'' = Some (String (ne_correlation e))"
  "get (envelope i o' e) ''sequence'' =
     Some (case ne_sequence e of None \<Rightarrow> Null | Some n \<Rightarrow> json_int (int n))"
  unfolding envelope_def by (subst get_json_object; simp)+

lemma get_actor:
  "get (actor_as_json a) ''actorType'' =
     Some (String (case a of ByUser _ \<Rightarrow> ''USER'' | ByEngine \<Rightarrow> ''WORKFLOW_ENGINE'' | BySystem \<Rightarrow> ''SYSTEM''))"
  "get (actor_as_json a) ''actorId'' = Some (case a of ByUser u \<Rightarrow> String u | _ \<Rightarrow> Null)"
  by (cases a; simp add: get_json_object)+

section \<open>Writing an event\<close>

definition event_clash :: "event_row \<Rightarrow> event_row \<Rightarrow> bool" where
  "event_clash new old \<longleftrightarrow> ev_id old = ev_id new"

definition event_of :: "uuid \<Rightarrow> string \<Rightarrow> NewEvent \<Rightarrow> event_row" where
  "event_of ident occurred event =
     \<lparr>ev_id = ident, ev_tenant = ne_tenant event,
      ev_aggregate_type = aggregate_as_db (ne_aggregate_type event),
      ev_aggregate = ne_aggregate event, ev_type = ne_type event,
      ev_payload = envelope ident occurred event, ev_correlation = ne_correlation event,
      ev_status = ''PENDING'', ev_attempts = 0, ev_next_attempt = None, ev_last_error = None\<rparr>"

definition write_event :: "Env \<Rightarrow> NewEvent \<Rightarrow> uuid tx" where
  "write_event env event =
     seq (fresh_id env) (\<lambda>ident.
     seq (insert_unique env from_sqlx db_events db_events_update event_clash ''outbox_events''
            (event_of ident (occurred_at env) event)) (\<lambda>_.
     ret ident))"

section \<open>The retry schedule\<close>

definition LEASE :: int where
  "LEASE = 5 * 60"

definition MAX_ATTEMPTS :: int where
  "MAX_ATTEMPTS = 6"

text \<open>\<open>clamp\<close>, and a power of two on a \<open>u64\<close>: the exponent is at most five.\<close>

definition retry_delay :: "int \<Rightarrow> int" where
  "retry_delay attempt = 30 * 2 ^ nat (max 1 (min attempt MAX_ATTEMPTS) - 1)"

datatype Delivery = Delivered | Retry string

datatype Settlement = Processed | FailedFor int | DeadLetter

definition settlement_after :: "int \<Rightarrow> Delivery \<Rightarrow> Settlement" where
  "settlement_after attempt delivery =
     (case delivery of
        Delivered \<Rightarrow> Processed
      | Retry _ \<Rightarrow> if MAX_ATTEMPTS \<le> attempt then DeadLetter else FailedFor (retry_delay attempt))"

fun settlement_as_db :: "Settlement \<Rightarrow> string" where
  "settlement_as_db Processed = ''PROCESSED''"
| "settlement_as_db (FailedFor _) = ''FAILED''"
| "settlement_as_db DeadLetter = ''DEAD_LETTER''"

section \<open>Claim and settle\<close>

record Claimed =
  cl_id :: uuid
  cl_tenant :: uuid
  cl_type :: string
  cl_payload :: json
  cl_attempts :: int
  cl_lease :: int

text \<open>A row that is due: new, or waiting (or held under a lease) past its instant.\<close>

definition due :: "int \<Rightarrow> event_row \<Rightarrow> bool" where
  "due at row \<longleftrightarrow>
     ev_status row \<in> {''PENDING'', ''PROCESSING'', ''FAILED''} \<and>
     (ev_status row = ''PENDING'' \<or> (case ev_next_attempt row of None \<Rightarrow> False | Some n \<Rightarrow> n \<le> at))"

definition claimed_of :: "event_row \<Rightarrow> int \<Rightarrow> Claimed" where
  "claimed_of row lease =
     \<lparr>cl_id = ev_id row, cl_tenant = ev_tenant row, cl_type = ev_type row, cl_payload = ev_payload row,
      cl_attempts = ev_attempts row, cl_lease = lease\<rparr>"

text \<open>The table is in creation order, so the first due rows are the oldest.  An event's id is its
  position in time, and the claimed rows are sorted by it.\<close>

definition claim_events :: "Env \<Rightarrow> nat \<Rightarrow> int \<Rightarrow> Claimed list tx" where
  "claim_events env limit lease_seconds =
     sql env from_sqlx (\<lambda>st.
       (let batch = map ev_id (take limit (filter (due (now env)) (db_events st)));
            until = now env + lease_seconds
        in Inr (db_events_update
                  (update_where (\<lambda>r. ev_id r \<in> set batch)
                    (\<lambda>r. r\<lparr>ev_status := ''PROCESSING'', ev_next_attempt := Some until\<rparr>)) st,
                sort_key cl_id
                  (map (\<lambda>r. claimed_of r until) (filter (\<lambda>r. ev_id r \<in> set batch) (db_events st))))))"

definition held_by :: "uuid \<Rightarrow> Claimed \<Rightarrow> event_row \<Rightarrow> bool" where
  "held_by tenant cl r \<longleftrightarrow>
     ev_tenant r = tenant \<and> ev_id r = cl_id cl \<and> ev_status r = ''PROCESSING'' \<and>
     ev_next_attempt r = Some (cl_lease cl)"

definition settle ::
  "Env \<Rightarrow> uuid \<Rightarrow> Claimed \<Rightarrow> int \<Rightarrow> Settlement \<Rightarrow> string option \<Rightarrow> bool tx" where
  "settle env tenant cl attempt settlement last_error =
     seq (update_rows env db_events db_events_update (held_by tenant cl)
            (\<lambda>r. r\<lparr>ev_status := settlement_as_db settlement, ev_attempts := attempt,
                   ev_next_attempt := (case settlement of FailedFor d \<Rightarrow> Some (now env + d) | _ \<Rightarrow> None),
                   ev_last_error := last_error\<rparr>)) (\<lambda>affected.
     ret (affected = 1))"

section \<open>Facts of the schedule\<close>

lemma retry_delay_table:
  "retry_delay 1 = 30" "retry_delay 2 = 60" "retry_delay 3 = 120" "retry_delay 4 = 240"
  "retry_delay 5 = 480" "retry_delay 6 = 960"
  by (simp_all add: retry_delay_def MAX_ATTEMPTS_def)

lemma retry_delay_bounds: "30 \<le> retry_delay n \<and> retry_delay n \<le> 960"
proof -
  let ?k = "nat (max 1 (min n MAX_ATTEMPTS) - 1)"
  have "?k \<le> 5" by (auto simp: MAX_ATTEMPTS_def)
  then have "(2 :: int) ^ ?k \<le> 2 ^ 5" by (intro power_increasing) auto
  then show ?thesis by (simp add: retry_delay_def)
qed

lemma retry_delay_mono: "m \<le> n \<Longrightarrow> retry_delay m \<le> retry_delay n"
  unfolding retry_delay_def
  by (intro mult_left_mono power_increasing nat_mono) auto

end
