(* ===== verification/Governance.thy ===== *)
theory Governance
  imports Store
begin

text \<open>
  A change to a master data record that is routed through a document (\<open>master_data/domain/governance.rs\<close>,
  \<open>domain/record_status.rs\<close>, \<open>service/governance.rs\<close> and its repository).  Submitting the document
  raises the change and parks the record; the end of the document's process settles it.  The text
  of a serde error is prose and left out of the refusal that carries it.
\<close>

section \<open>The status of a record\<close>

datatype RecordStatus =
  RecDraft | RecPendingApproval | RecActive | RecSuspended | RecInactive | RecArchived

fun record_as_db :: "RecordStatus \<Rightarrow> string" where
  "record_as_db RecDraft = ''DRAFT''"
| "record_as_db RecPendingApproval = ''PENDING_APPROVAL''"
| "record_as_db RecActive = ''ACTIVE''"
| "record_as_db RecSuspended = ''SUSPENDED''"
| "record_as_db RecInactive = ''INACTIVE''"
| "record_as_db RecArchived = ''ARCHIVED''"

definition record_from_db :: "string \<Rightarrow> RecordStatus" where
  "record_from_db value =
     (if value = ''PENDING_APPROVAL'' then RecPendingApproval
      else if value = ''ACTIVE'' then RecActive
      else if value = ''SUSPENDED'' then RecSuspended
      else if value = ''INACTIVE'' then RecInactive
      else if value = ''ARCHIVED'' then RecArchived
      else RecDraft)"

fun record_may_move_to :: "RecordStatus \<Rightarrow> RecordStatus list" where
  "record_may_move_to RecDraft = [RecPendingApproval, RecActive, RecInactive]"
| "record_may_move_to RecPendingApproval = [RecActive, RecDraft]"
| "record_may_move_to RecActive = [RecPendingApproval, RecSuspended, RecInactive]"
| "record_may_move_to RecSuspended = [RecActive, RecInactive]"
| "record_may_move_to RecInactive = [RecActive, RecArchived]"
| "record_may_move_to RecArchived = []"

definition is_parked :: "RecordStatus \<Rightarrow> bool" where
  "is_parked status \<longleftrightarrow> status = RecPendingApproval"

definition record_check_move_to :: "RecordStatus \<Rightarrow> RecordStatus \<Rightarrow> AppError + unit" where
  "record_check_move_to status target =
     (if target \<in> set (record_may_move_to status) then Inr ()
      else Inl (Validation [detail ''recordStatusId'' ''transition'' ''ILLEGAL_TRANSITION''
             (if record_may_move_to status = [] then [record_as_db status]
              else [record_as_db status, record_as_db target,
                    join '', '' (map record_as_db (record_may_move_to status))])]))"

lemma record_from_db_as_db [simp]: "record_from_db (record_as_db s) = s"
  by (cases s) (simp_all add: record_from_db_def)

section \<open>The change a document carries\<close>

datatype GovernedEntity = PartyEntity | FacilityEntity

fun entity_as_db :: "GovernedEntity \<Rightarrow> string" where
  "entity_as_db PartyEntity = ''PARTY''"
| "entity_as_db FacilityEntity = ''FACILITY''"

definition entity_from_db :: "string \<Rightarrow> GovernedEntity option" where
  "entity_from_db value =
     (if value = ''PARTY'' then Some PartyEntity
      else if value = ''FACILITY'' then Some FacilityEntity
      else None)"

fun entity_missing :: "GovernedEntity \<Rightarrow> string" where
  "entity_missing PartyEntity = ''Party''"
| "entity_missing FacilityEntity = ''Facility''"

interpretation governed: db_code entity_as_db entity_from_db
proof
  show "entity_from_db (entity_as_db x) = Some x" for x
    by (cases x) (simp_all add: entity_from_db_def)
  show "entity_from_db s = Some x \<Longrightarrow> entity_as_db x = s" for s x
    by (auto simp: entity_from_db_def split: if_splits)
qed

record PartyChange =
  pc_status :: "string option"
  pc_external :: "string option"
  pc_description :: "string option"
  pc_attributes :: "json option"

record FacilityChange =
  fc_name :: "string option"
  fc_type :: "string option"
  fc_attributes :: "json option"

datatype ProposedChange = ProposedParty PartyChange | ProposedFacility FacilityChange

fun is_empty_change :: "ProposedChange \<Rightarrow> bool" where
  "is_empty_change (ProposedParty c) \<longleftrightarrow>
     pc_status c = None \<and> pc_external c = None \<and> pc_description c = None \<and> pc_attributes c = None"
| "is_empty_change (ProposedFacility c) \<longleftrightarrow>
     fc_name c = None \<and> fc_type c = None \<and> fc_attributes c = None"

definition UNSUPPORTED_KEYS :: "string list" where
  "UNSUPPORTED_KEYS =
     [''person'', ''partyGroup'', ''identifications'', ''relationshipsFrom'', ''relationshipsTo'',
      ''classifications'', ''contactMechanisms'', ''address'']"

definition refusal :: "string \<Rightarrow> string \<Rightarrow> string \<Rightarrow> string list \<Rightarrow> AppError" where
  "refusal path rule kind args = Validation [detail path rule kind args]"

text \<open>
  \<open>serde_json::from_value\<close> of a struct of optional fields that denies unknown ones: a field is
  absent, null or of its type.
\<close>

definition opt_text :: "(string \<times> json) list \<Rightarrow> string \<Rightarrow> string option option" where
  "opt_text given key =
     (case map_of given key of
        None \<Rightarrow> Some None
      | Some Null \<Rightarrow> Some None
      | Some (String s) \<Rightarrow> Some (Some s)
      | Some _ \<Rightarrow> None)"

definition opt_value :: "(string \<times> json) list \<Rightarrow> string \<Rightarrow> json option" where
  "opt_value given key =
     (case map_of given key of None \<Rightarrow> None | Some v \<Rightarrow> if v = Null then None else Some v)"

definition known_fields :: "string list \<Rightarrow> (string \<times> json) list \<Rightarrow> bool" where
  "known_fields names given \<longleftrightarrow> list_all (\<lambda>(key, _). key \<in> set names) given"

definition read_party_change :: "(string \<times> json) list \<Rightarrow> PartyChange option" where
  "read_party_change given =
     (if known_fields [''statusId'', ''externalId'', ''description'', ''additionalAttributes''] given then
        Option.bind (opt_text given ''statusId'') (\<lambda>status.
        Option.bind (opt_text given ''externalId'') (\<lambda>external0.
        Option.bind (opt_text given ''description'') (\<lambda>description.
          Some \<lparr>pc_status = status, pc_external = external0, pc_description = description,
                pc_attributes = opt_value given ''additionalAttributes''\<rparr>)))
      else None)"

definition read_facility_change :: "(string \<times> json) list \<Rightarrow> FacilityChange option" where
  "read_facility_change given =
     (if known_fields [''name'', ''facilityType'', ''additionalAttributes''] given then
        Option.bind (opt_text given ''name'') (\<lambda>name.
        Option.bind (opt_text given ''facilityType'') (\<lambda>facility_type.
          Some \<lparr>fc_name = name, fc_type = facility_type,
                fc_attributes = opt_value given ''additionalAttributes''\<rparr>))
      else None)"

definition read_change :: "GovernedEntity \<Rightarrow> json \<Rightarrow> AppError + ProposedChange" where
  "read_change entity form =
     (case as_object form of
        None \<Rightarrow> Inl (refusal ''formData'' ''type'' ''CHANGE_NOT_AN_OBJECT'' [])
      | Some given \<Rightarrow>
          (case find (\<lambda>key. map_of given key \<noteq> None) UNSUPPORTED_KEYS of
             Some key \<Rightarrow>
               Inl (refusal (''formData.'' @ key) ''unsupported'' ''CHANGE_FIELD_NOT_GOVERNED'' [key])
           | None \<Rightarrow>
               (case (case entity of
                        PartyEntity \<Rightarrow> map_option ProposedParty (read_party_change given)
                      | FacilityEntity \<Rightarrow> map_option ProposedFacility (read_facility_change given)) of
                  None \<Rightarrow> Inl (refusal ''formData'' ''shape'' ''CHANGE_NOT_READABLE'' [])
                | Some change \<Rightarrow>
                    if is_empty_change change
                    then Inl (refusal ''formData'' ''required'' ''CHANGE_EMPTY'' [])
                    else Inr change)))"

definition already_in_flight :: AppError where
  "already_in_flight = Conflict (''this record already has a change awaiting approval; that one has '' @
     ''to be decided before another can be raised'')"

definition moved_since_parked :: "RecordStatus option \<Rightarrow> AppError" where
  "moved_since_parked status = Conflict (''this record '' @
     (case status of
        Some s \<Rightarrow> ''is at '' @ record_as_db s
      | None \<Rightarrow> ''is no longer present'') @
     '' rather than PENDING_APPROVAL, so the change this document carries can no longer be applied '' @
     ''to it; reject this document to close the task, and raise the change again against the record '' @
     ''as it now stands'')"

definition awaiting_approval :: AppError where
  "awaiting_approval = Conflict (''this record has a change awaiting approval and cannot be changed '' @
     ''directly until that change is decided'')"

section \<open>Statements\<close>

definition the_party :: "uuid \<Rightarrow> uuid \<Rightarrow> party_row \<Rightarrow> bool" where
  "the_party tenant ident r \<longleftrightarrow> pa_tenant r = tenant \<and> pa_id r = ident \<and> \<not> pa_deleted r"

definition the_facility :: "uuid \<Rightarrow> uuid \<Rightarrow> facility_row \<Rightarrow> bool" where
  "the_facility tenant ident r \<longleftrightarrow> fa_tenant r = tenant \<and> fa_id r = ident \<and> \<not> fa_deleted r"

definition record_status_of :: "uuid \<Rightarrow> GovernedEntity \<Rightarrow> uuid \<Rightarrow> Store \<Rightarrow> string option" where
  "record_status_of tenant entity ident st =
     (case entity of
        PartyEntity \<Rightarrow> map_option pa_record_status (find (the_party tenant ident) (db_parties st))
      | FacilityEntity \<Rightarrow> map_option fa_record_status (find (the_facility tenant ident) (db_facilities st)))"

definition lock_record_status ::
  "Env \<Rightarrow> uuid \<Rightarrow> GovernedEntity \<Rightarrow> uuid \<Rightarrow> RecordStatus option tx" where
  "lock_record_status env tenant entity ident =
     fetch env (\<lambda>st. map_option record_from_db (record_status_of tenant entity ident st))"

definition move_record_status_in ::
  "Env \<Rightarrow> uuid \<Rightarrow> GovernedEntity \<Rightarrow> uuid \<Rightarrow> RecordStatus \<Rightarrow> RecordStatus \<Rightarrow> nat tx" where
  "move_record_status_in env tenant entity ident from to0 =
     (case entity of
        PartyEntity \<Rightarrow>
          update_rows env db_parties db_parties_update
            (\<lambda>r. the_party tenant ident r \<and> pa_record_status r = record_as_db from)
            (\<lambda>r. r\<lparr>pa_record_status := record_as_db to0\<rparr>)
      | FacilityEntity \<Rightarrow>
          update_rows env db_facilities db_facilities_update
            (\<lambda>r. the_facility tenant ident r \<and> fa_record_status r = record_as_db from)
            (\<lambda>r. r\<lparr>fa_record_status := record_as_db to0\<rparr>))"

definition coalesce :: "'a option \<Rightarrow> 'a \<Rightarrow> 'a" where
  "coalesce new old = (case new of None \<Rightarrow> old | Some x \<Rightarrow> x)"

definition write_party :: "PartyChange \<Rightarrow> party_row \<Rightarrow> party_row" where
  "write_party c r =
     r\<lparr>pa_status := coalesce (map_option (clipped 40) (pc_status c)) (pa_status r),
       pa_external := (if pc_external c = None then pa_external r else map_option (clipped 255) (pc_external c)),
       pa_description := (if pc_description c = None then pa_description r else pc_description c),
       pa_attributes := coalesce (pc_attributes c) (pa_attributes r)\<rparr>"

definition write_facility :: "FacilityChange \<Rightarrow> facility_row \<Rightarrow> facility_row" where
  "write_facility c r =
     r\<lparr>fa_name := coalesce (map_option (clipped 200) (fc_name c)) (fa_name r),
       fa_type := (if fc_type c = None then fa_type r else map_option (clipped 64) (fc_type c)),
       fa_attributes := coalesce (fc_attributes c) (fa_attributes r)\<rparr>"

text \<open>What the columns refuse: a text longer than its \<open>VARCHAR\<close>, and a party's status outside its \<open>CHECK\<close>.\<close>

definition PARTY_STATUSES :: "string list" where
  "PARTY_STATUSES = [''PARTY_ENABLED'', ''PARTY_DISABLED'']"

definition party_broken :: "PartyChange \<Rightarrow> party_row \<Rightarrow> SqlxError option" where
  "party_broken c r =
     (case first_too_long [(40, pc_status c), (255, pc_external c)] of
        Some e \<Rightarrow> Some e
      | None \<Rightarrow> if pa_status (write_party c r) \<in> set PARTY_STATUSES then None
                else Some (OtherSqlx ''mdm_parties_status_check''))"

definition facility_broken :: "FacilityChange \<Rightarrow> facility_row \<Rightarrow> SqlxError option" where
  "facility_broken c r = first_too_long [(200, fc_name c), (64, fc_type c)]"

definition update_record_fields :: "Env \<Rightarrow> uuid \<Rightarrow> uuid \<Rightarrow> ProposedChange \<Rightarrow> nat tx" where
  "update_record_fields env tenant ident proposed =
     (case proposed of
        ProposedParty c \<Rightarrow>
          update_checked env db_parties db_parties_update (the_party tenant ident) (party_broken c) (write_party c)
      | ProposedFacility c \<Rightarrow>
          update_checked env db_facilities db_facilities_update (the_facility tenant ident)
            (facility_broken c) (write_facility c))"

definition open_change :: "change_row \<Rightarrow> bool" where
  "open_change r \<longleftrightarrow> ch_resolved r = None"

definition DOCUMENT_INDEX :: string where
  "DOCUMENT_INDEX = ''uq_mdm_change_requests_document_id''"

definition OPEN_INDEX :: string where
  "OPEN_INDEX = ''uq_mdm_change_requests_open_per_record''"

definition in_flight_or_else :: "SqlxError \<Rightarrow> AppError" where
  "in_flight_or_else e = (if e = UniqueViolation OPEN_INDEX then already_in_flight else from_sqlx e)"

definition insert_change_request :: "Env \<Rightarrow> change_row \<Rightarrow> unit tx" where
  "insert_change_request env row = sql env in_flight_or_else (\<lambda>st.
     if list_ex (\<lambda>r. ch_document r = ch_document row) (db_changes st)
     then Inl (UniqueViolation DOCUMENT_INDEX)
     else if list_ex (\<lambda>r. ch_entity_type r = ch_entity_type row \<and> ch_entity r = ch_entity row \<and>
                          open_change r) (db_changes st)
     then Inl (UniqueViolation OPEN_INDEX)
     else Inr (db_changes_update (\<lambda>rs. rs @ [row]) st, ()))"

record ChangeRequest =
  cr_id :: uuid
  cr_document :: uuid
  cr_kind :: GovernedEntity
  cr_entity :: uuid
  cr_previous :: RecordStatus

definition lock_open_change_for_document :: "Env \<Rightarrow> uuid \<Rightarrow> uuid \<Rightarrow> ChangeRequest option tx" where
  "lock_open_change_for_document env tenant document = fetch env (\<lambda>st.
     Option.bind
       (find (\<lambda>r. ch_tenant r = tenant \<and> ch_document r = document \<and> open_change r) (db_changes st))
       (\<lambda>r. map_option
          (\<lambda>kind. \<lparr>cr_id = ch_id r, cr_document = ch_document r, cr_kind = kind,
                   cr_entity = ch_entity r, cr_previous = record_from_db (ch_previous r)\<rparr>)
          (entity_from_db (ch_entity_type r))))"

definition resolve_change_request :: "Env \<Rightarrow> uuid \<Rightarrow> uuid \<Rightarrow> string \<Rightarrow> nat tx" where
  "resolve_change_request env tenant ident outcome =
     update_rows env db_changes db_changes_update
       (\<lambda>r. ch_tenant r = tenant \<and> ch_id r = ident \<and> open_change r)
       (\<lambda>r. r\<lparr>ch_outcome := Some outcome, ch_resolved := Some (now env)\<rparr>)"

section \<open>Raising and settling\<close>

definition governed_entity :: "string option \<Rightarrow> GovernedEntity option" where
  "governed_entity target = Option.bind target entity_from_db"

definition raise_change ::
  "Env \<Rightarrow> uuid \<Rightarrow> GovernedEntity \<Rightarrow> uuid \<Rightarrow> uuid \<Rightarrow> json \<Rightarrow> unit tx" where
  "raise_change env tenant entity ident document form =
     seq (lift_result (read_change entity form)) (\<lambda>_.
     seq (lock_record_status env tenant entity ident) (\<lambda>found.
     seq (need (NotFound (entity_missing entity)) found) (\<lambda>current.
     seq (refuse_if (is_parked current) already_in_flight) (\<lambda>_.
     seq (lift_result (record_check_move_to current RecPendingApproval)) (\<lambda>_.
     seq (fresh_id env) (\<lambda>change.
     seq (insert_change_request env
            \<lparr>ch_tenant = tenant, ch_id = change, ch_document = document,
             ch_entity_type = entity_as_db entity, ch_entity = ident,
             ch_previous = record_as_db current, ch_outcome = None, ch_resolved = None\<rparr>) (\<lambda>_.
     seq (move_record_status_in env tenant entity ident current RecPendingApproval) (\<lambda>moved.
     refuse_if (moved = 0) (Internal (''record '' @ ident @ '' was locked at '' @
       record_as_db current @ '' and then not parked''))))))))))"

definition moved_on :: "Env \<Rightarrow> uuid \<Rightarrow> ChangeRequest \<Rightarrow> bool \<Rightarrow> RecordStatus option \<Rightarrow> unit tx" where
  "moved_on env tenant change approved current =
     (if approved then fail (moved_since_parked current)
      else seq (resolve_change_request env tenant (cr_id change) ''REFUSED'') (\<lambda>_. ret ()))"

definition apply_change :: "Env \<Rightarrow> uuid \<Rightarrow> ChangeRequest \<Rightarrow> json \<Rightarrow> unit tx" where
  "apply_change env tenant change form =
     (case read_change (cr_kind change) form of
        Inl _ \<Rightarrow> fail (Internal (''document '' @ cr_document change @
          '' was approved carrying a change that no longer reads as one''))
      | Inr proposed \<Rightarrow>
          seq (update_record_fields env tenant (cr_entity change) proposed) (\<lambda>written.
          refuse_if (written = 0) (Internal (''record '' @ cr_entity change @
            '' took no change from the approval of document '' @ cr_document change))))"

definition settle_change :: "Env \<Rightarrow> uuid \<Rightarrow> uuid \<Rightarrow> bool \<Rightarrow> json \<Rightarrow> unit tx" where
  "settle_change env tenant document approved form =
     seq (lock_open_change_for_document env tenant document) (\<lambda>found.
     case found of
       None \<Rightarrow> ret ()
     | Some change \<Rightarrow>
         seq (lock_record_status env tenant (cr_kind change) (cr_entity change)) (\<lambda>current.
         if \<not> (case current of None \<Rightarrow> False | Some s \<Rightarrow> is_parked s)
         then moved_on env tenant change approved current
         else
           seq (if approved then apply_change env tenant change form else ret ()) (\<lambda>_.
           seq (move_record_status_in env tenant (cr_kind change) (cr_entity change)
                  RecPendingApproval (if approved then RecActive else cr_previous change)) (\<lambda>moved.
           seq (refuse_if (moved = 0) (Internal (''record '' @ cr_entity change @
                  '' was locked at PENDING_APPROVAL and then not moved''))) (\<lambda>_.
           seq (resolve_change_request env tenant (cr_id change)
                  (if approved then ''APPLIED'' else ''REFUSED'')) (\<lambda>_.
           ret ()))))))"

lemma settle_nothing:
  "db_changes st = [] \<Longrightarrow> settle_change env tenant document approved form st = (st', Inr u) \<longleftrightarrow>
     db_fault (hooks env) (db_statements st) = None \<and> st' = counted st st"
  by (simp add: settle_change_def lock_open_change_for_document_def steps)

text \<open>What a change writes: the records and the change requests, and nothing else.\<close>

definition ungoverned :: "Store \<Rightarrow> Store" where
  "ungoverned st = st\<lparr>db_parties := [], db_facilities := [], db_changes := [],
     db_statements := 0, db_fresh := 0\<rparr>"

lemma ungoverned_counted [simp]: "ungoverned (counted st0 st) = ungoverned st"
  by (simp add: ungoverned_def counted_def)

lemma ungoverned_update [simp]:
  "ungoverned (db_parties_update f st) = ungoverned st"
  "ungoverned (db_facilities_update g st) = ungoverned st"
  "ungoverned (db_changes_update h st) = ungoverned st"
  "ungoverned (st\<lparr>db_fresh := n\<rparr>) = ungoverned st"
  by (simp_all add: ungoverned_def)

lemma ungoverned_statements [leaving]:
  "leaves ungoverned (lock_open_change_for_document env tenant document)"
  "leaves ungoverned (lock_record_status env tenant entity ident)"
  "leaves ungoverned (move_record_status_in env tenant entity ident from to0)"
  "leaves ungoverned (update_record_fields env tenant ident proposed)"
  "leaves ungoverned (resolve_change_request env tenant ident outcome)"
  "leaves ungoverned (insert_change_request env row)"
  unfolding lock_open_change_for_document_def lock_record_status_def move_record_status_in_def
    update_record_fields_def resolve_change_request_def insert_change_request_def
  by (auto intro!: leaves_statement split: GovernedEntity.split ProposedChange.split if_splits)

lemma ungoverned_apply [leaving]: "leaves ungoverned (apply_change env tenant change form)"
  unfolding apply_change_def by (cases "read_change (cr_kind change) form") (auto intro!: leaving)

lemma ungoverned_settle: "leaves ungoverned (settle_change env tenant document approved form)"
  unfolding settle_change_def moved_on_def by (intro leaving)

lemma ungoverned_raise: "leaves ungoverned (raise_change env tenant entity ident document form)"
  unfolding raise_change_def by (intro leaving leaves_fresh_id) simp

lemma ungoverned_sel [simp]:
  "db_tasks (ungoverned st) = db_tasks st" "db_documents (ungoverned st) = db_documents st"
  "db_decisions (ungoverned st) = db_decisions st" "db_buckets (ungoverned st) = db_buckets st"
  "db_instances (ungoverned st) = db_instances st" "db_rules (ungoverned st) = db_rules st"
  by (simp_all add: ungoverned_def)

lemma leaves_ungoverned: "leaves ungoverned m \<Longrightarrow> (\<And>st. f (ungoverned st) = f st) \<Longrightarrow> leaves f m"
  unfolding leaves_def by metis

lemmas leaves_settle = leaves_ungoverned [OF ungoverned_settle]
lemmas leaves_raise_change = leaves_ungoverned [OF ungoverned_raise]

end
