(* ===== verification/Engine.thy ===== *)
theory Engine
  imports Assignment Outbox Governance
begin

text \<open>
  The one place a process moves (\<open>workflow/service/engine.rs\<close>): starting an instance, firing a
  transition, entering the state it reaches, and projecting the document's status, each a step on the
  caller's transaction.  The JSON Logic evaluator, the ids and the clock are the
  environment's.
\<close>

section \<open>What an expression is evaluated against\<close>

record EvaluationContext =
  ec_document :: json
  ec_form_data :: json
  ec_variables :: json
  ec_actor :: json

definition evaluation_json :: "EvaluationContext \<Rightarrow> json" where
  "evaluation_json ev = json_object
     [(''document'', ec_document ev), (''formData'', ec_form_data ev),
      (''variables'', ec_variables ev), (''actor'', ec_actor ev)]"

definition document_facts :: "DocumentStatus \<Rightarrow> uuid \<Rightarrow> string \<Rightarrow> string option \<Rightarrow> json" where
  "document_facts status document_type type_key number = json_object
     [(''status'', String (status_as_db status)),
      (''documentTypeId'', String document_type),
      (''documentNumber'', nullable number),
      (''documentTypeKey'', String type_key)]"

definition actor_facts :: "uuid option \<Rightarrow> string list \<Rightarrow> uuid option \<Rightarrow> json" where
  "actor_facts user roles department = json_object
     [(''userId'', nullable user),
      (''roles'', Array (map String (bs_collect roles))),
      (''departmentId'', nullable department)]"

definition role_codes_for_user :: "Env \<Rightarrow> uuid \<Rightarrow> uuid \<Rightarrow> string list tx" where
  "role_codes_for_user env tenant user = fetch env (\<lambda>st.
     sort (map ro_code
       (concat (map (\<lambda>g. filter (\<lambda>r. ro_id r = gr_role g \<and> ro_tenant r = gr_tenant g \<and> \<not> ro_deleted r)
                            (db_roles st))
         (filter (\<lambda>g. gr_tenant g = tenant \<and> gr_user g = user \<and> grant_holds (today env) None g)
           (db_grants st))))))"

definition department_of_user :: "Env \<Rightarrow> uuid \<Rightarrow> uuid \<Rightarrow> uuid option tx" where
  "department_of_user env tenant user = fetch env (\<lambda>st.
     Option.bind
       (find (\<lambda>u. us_tenant u = tenant \<and> us_id u = user \<and> \<not> us_deleted u) (db_users st)) us_department)"

definition read_actor_facts :: "Env \<Rightarrow> uuid \<Rightarrow> uuid option \<Rightarrow> json tx" where
  "read_actor_facts env tenant actor =
     (case actor of
        None \<Rightarrow> ret (actor_facts None [] None)
      | Some user \<Rightarrow>
          seq (role_codes_for_user env tenant user) (\<lambda>roles.
          seq (department_of_user env tenant user) (\<lambda>department.
          ret (actor_facts (Some user) roles department))))"

definition read_document_type_key :: "Env \<Rightarrow> uuid \<Rightarrow> uuid \<Rightarrow> string tx" where
  "read_document_type_key env tenant document_type =
     seq (type_code_of env tenant document_type) (\<lambda>found.
     need (Internal (''document type '' @ document_type @ '' of tenant '' @ tenant @
       '' has no row to read its type_code from'')) found)"

section \<open>Choosing an edge\<close>

definition evaluate_condition :: "Env \<Rightarrow> json \<Rightarrow> EvaluationContext \<Rightarrow> string + bool" where
  "evaluate_condition env cond ev =
     (case evaluate (hooks env) cond (evaluation_json ev) of
        Inl e \<Rightarrow> Inl e
      | Inr v \<Rightarrow> Inr (or_default False (as_bool v)))"

definition unevaluable_condition :: "string \<Rightarrow> TransitionAction \<Rightarrow> string \<Rightarrow> AppError" where
  "unevaluable_condition from act to0 =
     Validation [detail (''transitions.'' @ from @ ''.'' @ action_as_db act @ ''.condition'')
       ''condition'' ''CONDITION_UNEVALUABLE'' [action_as_db act, from, to0]]"

text \<open>The conditions reached, each with the boolean it gave, and the edge chosen.\<close>

fun select_edge ::
  "Env \<Rightarrow> EvaluationContext \<Rightarrow> string \<Rightarrow> TransitionAction \<Rightarrow> json list \<Rightarrow> Transition list \<Rightarrow>
   AppError + (json list \<times> Transition option)"
where
  "select_edge env ev from act routing [] = Inr (routing, None)"
| "select_edge env ev from act routing (edge # edges) =
     (case condition edge of
        None \<Rightarrow> Inr (routing, Some edge)
      | Some cond \<Rightarrow>
          (case evaluate_condition env cond ev of
             Inl _ \<Rightarrow> Inl (unevaluable_condition from act (t_to edge))
           | Inr outcome \<Rightarrow>
               (let trail = routing @ [json_object [(''to'', String (t_to edge)), (''condition'', cond),
                                                    (''outcome'', Bool outcome)]]
                in if outcome then Inr (trail, Some edge)
                   else select_edge env ev from act trail edges)))"

definition no_transition :: "Graph \<Rightarrow> string \<Rightarrow> TransitionAction \<Rightarrow> json list \<Rightarrow> AppError" where
  "no_transition g from act routing =
     (let available0 = map (\<lambda>t. action_as_db (t_action t)) (actions_from g from)
      in Validation [detail ''action'' ''transition'' ''NO_SUCH_TRANSITION''
           (if available0 = [] then [from]
            else if routing = [] then [from, action_as_db act, join '', '' available0]
            else [from, show_nat (length routing), action_as_db act])])"

definition routing_json :: "json list \<Rightarrow> json option" where
  "routing_json routing = (if routing = [] then None else Some (Array routing))"

section \<open>Projecting the document's status\<close>

definition settlement_of :: "DocumentStatus \<Rightarrow> bool option" where
  "settlement_of status =
     (if status = DocApproved \<or> status = DocCompleted then Some True
      else if status = DocRejected \<or> status = DocCancelled then Some False
      else None)"

definition project_from_workflow :: "Env \<Rightarrow> uuid \<Rightarrow> uuid \<Rightarrow> DocumentStatus \<Rightarrow> nat tx" where
  "project_from_workflow env tenant document status =
     seq (set_status_from_workflow env tenant document status) (\<lambda>affected.
     case settlement_of status of
       None \<Rightarrow> ret affected
     | Some approved \<Rightarrow>
         seq (document_form_data env tenant document) (\<lambda>form.
         seq (settle_change env tenant document approved (case form of None \<Rightarrow> Object [] | Some v \<Rightarrow> v)) (\<lambda>_.
         ret affected)))"

definition project_document_status ::
  "Env \<Rightarrow> uuid \<Rightarrow> uuid \<Rightarrow> string \<Rightarrow> Graph \<Rightarrow> DocumentStatus tx" where
  "project_document_status env tenant document maps_to g =
     seq (need (Internal (''workflow `'' @ workflow_key g @ ''` maps a state to `'' @ maps_to @
            ''`, which is not a document status'')) (parse_document_status maps_to)) (\<lambda>status.
     seq (project_from_workflow env tenant document status) (\<lambda>_.
     ret status))"

section \<open>A task's arrival\<close>

definition task_waiting_body :: "string \<Rightarrow> string" where
  "task_waiting_body name = name @ '' is waiting for you. Open your inbox to act on it.''"

definition notify_the_task_reached ::
  "Env \<Rightarrow> uuid \<Rightarrow> uuid \<Rightarrow> uuid \<Rightarrow> uuid \<Rightarrow> string \<Rightarrow> ResolvedAssignment \<Rightarrow> uuid option \<Rightarrow> unit tx" where
  "notify_the_task_reached env tenant task0 inst document name resolved actor =
     seq (case ra_assignee resolved of
            Some who \<Rightarrow> ret [who]
          | None \<Rightarrow>
              (case ra_role resolved of
                 Some role \<Rightarrow> holders_of_role env tenant role (ra_department resolved)
               | None \<Rightarrow> ret [])) (\<lambda>recipients.
     for_each (\<lambda>who. notify env
       \<lparr>nt_tenant = tenant, nt_recipient = who, nt_document = Some document, nt_instance = Some inst,
        nt_task = Some task0, nt_type = ''TASK_ASSIGNED'', nt_title = name,
        nt_body = task_waiting_body name, nt_actor = actor\<rparr>) recipients)"

text \<open>The \<open>allowedBy\<close> rules of every edge out of a state, with the paths they are refused at.\<close>

definition edge_rules :: "Graph \<Rightarrow> string \<Rightarrow> (string \<times> AssignmentRule) list" where
  "edge_rules g from =
     somes (map (\<lambda>edge. map_option (\<lambda>rule. (allowed_by_path (t_from edge) (t_action edge), rule))
                          (allowed_by edge))
       (filter (\<lambda>edge. t_from edge = from) (transitions g)))"

definition raise_task ::
  "Env \<Rightarrow> uuid \<Rightarrow> uuid \<Rightarrow> uuid \<Rightarrow> Graph \<Rightarrow> string \<Rightarrow> TaskSpec \<Rightarrow> uuid option \<Rightarrow> AssignmentContext \<Rightarrow> unit tx"
where
  "raise_task env tenant inst document g state0 spec actor context0 =
     seq (resolve_assignment env tenant (assignment spec) context0
            (''states.'' @ state0 @ ''.task.assignment'')) (\<lambda>resolved.
     seq (hold_deciding_roles env tenant (edge_rules g state0)) (\<lambda>_.
     seq (refuse_unless_an_edge_resolves env tenant context0 (actions_from g state0)) (\<lambda>_.
     seq (allocate env tenant TaskRef) (\<lambda>ref.
     seq (fresh_id env) (\<lambda>task_id.
     seq (insert_task env tenant
       \<lparr>nk_id = task_id, nk_ref = ref, nk_instance = inst, nk_document = document,
        nk_key = task_definition_key spec, nk_name = task_name spec,
        nk_type = task_type_as_db (task_type spec), nk_priority = priority spec,
        nk_assignee = ra_assignee resolved, nk_role = ra_role resolved,
        nk_department = ra_department resolved, nk_delegated_from = ra_delegated_from resolved,
        nk_due = due_in_seconds env spec\<rparr>) (\<lambda>_.
     seq (record_task_history env tenant task_id inst document None
            (assigned_status (ra_assignee resolved)) None None actor) (\<lambda>_.
     notify_the_task_reached env tenant task_id inst document (task_name spec) resolved actor)))))))"

definition human_task :: "State \<Rightarrow> TaskSpec option" where
  "human_task state0 =
     (case task state0 of Some spec \<Rightarrow> if is_human (task_type spec) then Some spec else None | None \<Rightarrow> None)"

definition enter_once ::
  "Env \<Rightarrow> uuid \<Rightarrow> uuid \<Rightarrow> uuid \<Rightarrow> Graph \<Rightarrow> State \<Rightarrow> uuid option \<Rightarrow> AssignmentContext \<Rightarrow> DocumentStatus tx"
where
  "enter_once env tenant inst document g state0 actor context0 =
     seq (case human_task state0 of
            None \<Rightarrow> ret ()
          | Some spec \<Rightarrow> raise_task env tenant inst document g (code state0) spec actor context0) (\<lambda>_.
     project_document_status env tenant document (maps_to_document_status state0) g)"

section \<open>A move\<close>

text \<open>The \<open>Workflow.Transitioned\<close> event of a move just recorded.\<close>

definition transitioned_payload ::
  "uuid \<Rightarrow> Graph \<Rightarrow> uuid \<Rightarrow> string \<Rightarrow> string \<Rightarrow> TransitionAction \<Rightarrow> json" where
  "transitioned_payload inst g document from to0 act = json_object
     [(''instanceId'', String inst),
      (''workflowKey'', String (workflow_key g)),
      (''workflowRevision'', json_int (revision g)),
      (''documentId'', String document),
      (''state'', String to0),
      (''taskId'', Null),
      (''assigneeUserId'', Null),
      (''action'', String (action_as_db act)),
      (''fromState'', String from),
      (''toState'', String to0)]"

definition publish_transition ::
  "Env \<Rightarrow> uuid \<Rightarrow> uuid \<Rightarrow> uuid \<Rightarrow> Graph \<Rightarrow> string \<Rightarrow> string \<Rightarrow> TransitionAction \<Rightarrow> Actor \<Rightarrow> unit tx" where
  "publish_transition env tenant inst document g from to0 act actor =
     seq (position_of_latest env tenant inst) (\<lambda>sequence0.
     seq (write_event env
       \<lparr>ne_tenant = tenant, ne_aggregate_type = WorkflowInstance, ne_aggregate = inst,
        ne_type = WORKFLOW_TRANSITIONED, ne_sequence = Some sequence0, ne_correlation = inst,
        ne_causation = None, ne_actor = actor,
        ne_payload = transitioned_payload inst g document from to0 act\<rparr>) (\<lambda>_.
     ret ()))"

definition outcome_of :: "State \<Rightarrow> InstanceOutcome option" where
  "outcome_of target =
     (if is_final target then from_document_status (maps_to_document_status target) else None)"

text \<open>Which of the two callers moves: a decision says who and why, an automatic step says neither.\<close>

record Provenance =
  pv_task :: "uuid option"
  pv_behalf :: "uuid option"
  pv_comment :: "string option"

definition no_provenance :: Provenance where
  "no_provenance = \<lparr>pv_task = None, pv_behalf = None, pv_comment = None\<rparr>"

definition make_move ::
  "Env \<Rightarrow> uuid \<Rightarrow> uuid \<Rightarrow> uuid \<Rightarrow> Graph \<Rightarrow> string \<Rightarrow> string \<Rightarrow> State \<Rightarrow> TransitionAction \<Rightarrow> uuid option \<Rightarrow>
   Provenance \<Rightarrow> json list \<Rightarrow> Actor \<Rightarrow> string \<Rightarrow> unit tx" where
  "make_move env tenant inst document g from to0 target act actor decision routing by lost =
     seq (move_state env tenant
            \<lparr>mv_id = inst, mv_from = from, mv_to = to0, mv_final = is_final target,
             mv_outcome = outcome_of target\<rparr>) (\<lambda>moved.
     seq (refuse_if (moved = 0) (Conflict lost)) (\<lambda>_.
     seq (record_history env
            \<lparr>hi_tenant = tenant, hi_instance = inst, hi_document = document, hi_from = Some from,
             hi_to = to0, hi_action = Some (action_as_db act), hi_task = pv_task decision,
             hi_comment = pv_comment decision, hi_actor = actor,
             hi_on_behalf_of = pv_behalf decision, hi_routing = routing_json routing\<rparr>) (\<lambda>_.
     publish_transition env tenant inst document g from to0 act by)))"

section \<open>Guards\<close>

definition transition_ref :: "string \<Rightarrow> int \<Rightarrow> string \<Rightarrow> string \<Rightarrow> string" where
  "transition_ref key rev0 from to0 = key @ ''@'' @ show_int rev0 @ '':'' @ from @ ''->'' @ to0"

definition workflow_context ::
  "string \<Rightarrow> int \<Rightarrow> uuid \<Rightarrow> string \<Rightarrow> string \<Rightarrow> string \<Rightarrow> string \<Rightarrow> json" where
  "workflow_context key rev0 inst state0 from to0 act = json_object
     [(''workflowKey'', String key),
      (''workflowRevision'', json_int rev0),
      (''instanceId'', String inst),
      (''state'', String state0),
      (''transition'',
         json_object [(''from'', String from), (''to'', String to0), (''action'', String act)]),
      (''taskId'', Null)]"

definition guard_invocation ::
  "uuid \<Rightarrow> uuid \<Rightarrow> Graph \<Rightarrow> uuid \<Rightarrow> State \<Rightarrow> Transition \<Rightarrow> State \<Rightarrow> uuid option \<Rightarrow> EvaluationContext \<Rightarrow>
   json \<Rightarrow> Invocation" where
  "guard_invocation tenant document g inst from chosen target actor ev metadata0 =
     \<lparr>hook_name = BEFORE_WORKFLOW_TRANSITION, inv_source = WorkflowSource, tenant_id = tenant,
      document_id = document,
      document_type_key = or_default [] (get_str (ec_document ev) ''documentTypeKey''),
      current_status = get_str (ec_document ev) ''status'',
      target_status = Some (maps_to_document_status target),
      actor_user_id = actor, inv_form_data = ec_form_data ev, inv_metadata = metadata0,
      inv_workflow_context =
        workflow_context (workflow_key g) (revision g) inst (code from) (code from) (t_to chosen)
          (action_as_db AutoAction),
      inv_subject = Null, inv_config = Object [], correlation_id = inst\<rparr>"

definition nil_uuid :: uuid where
  "nil_uuid = ''00000000-0000-0000-0000-000000000000''"

text \<open>
  A chain runs on the transaction's connection: it reads and appends to the execution log and its
  statements are the transaction's.  The times measured in it belong to its statements.
\<close>

definition world_at :: "nat \<Rightarrow> World \<Rightarrow> World" where
  "world_at n w =
     w\<lparr>chain_elapsed := \<lambda>at. chain_elapsed w (n + at), handler_elapsed := \<lambda>at. handler_elapsed w (n + at),
       invoked_at := \<lambda>at. invoked_at w (n + at)\<rparr>"

definition before_chain ::
  "Env \<Rightarrow> Registration list \<Rightarrow> string option \<Rightarrow> Invocation \<Rightarrow> ChainOutcome tx" where
  "before_chain env chain ref inv0 st =
     (case run_before_chain (world_at (db_statements st) (hooks env)) chain ref
             \<lparr>cs_log = db_hook_log st, cs_told = [], cs_statements = db_statements st, cs_inv = inv0\<rparr> of
        (cs, r) \<Rightarrow> (st\<lparr>db_hook_log := cs_log cs, db_statements := cs_statements cs\<rparr>, r))"

definition MODIFY_REFUSED :: string where
  "MODIFY_REFUSED =
     ''a guard on this transition returned MODIFY, and applying a modified payload '' @
     ''needs the re-validation JFSS S8.1 requires; this build refuses it rather than '' @
     ''storing data the form has not checked''"

definition run_transition_guards ::
  "Env \<Rightarrow> uuid \<Rightarrow> uuid \<Rightarrow> Graph \<Rightarrow> uuid \<Rightarrow> State \<Rightarrow> Transition \<Rightarrow> State \<Rightarrow> uuid option \<Rightarrow>
   EvaluationContext \<Rightarrow> unit tx" where
  "run_transition_guards env tenant document g inst from chosen target actor ev =
     (let document_type =
        or_default nil_uuid
          (Option.bind (get_str (ec_document ev) ''documentTypeId'') (parse_uuid env))
      in
      seq (registry_chain env tenant document_type BEFORE_WORKFLOW_TRANSITION) (\<lambda>registry.
      let chain = merge_chain registry (guards chosen) in
      if chain = [] then ret ()
      else
        seq (metadata_of env tenant document) (\<lambda>metadata0.
        seq (before_chain env chain
               (Some (transition_ref (workflow_key g) (revision g) (code from) (t_to chosen)))
               (guard_invocation tenant document g inst from chosen target actor ev metadata0)) (\<lambda>outcome.
        refuse_if (out_modified outcome) (Conflict MODIFY_REFUSED)))))"

section \<open>The automatic steps\<close>

definition AUTO_LOST :: string where
  "AUTO_LOST = ''this process moved while an automatic step was being applied''"

definition undeclared_target :: "string \<Rightarrow> string \<Rightarrow> AppError" where
  "undeclared_target what to0 =
     Internal (what @ ''transition to `'' @ to0 @ ''` names a state the definition does not declare'')"

definition advance_automatically ::
  "Env \<Rightarrow> uuid \<Rightarrow> uuid \<Rightarrow> uuid \<Rightarrow> Graph \<Rightarrow> State \<Rightarrow> uuid option \<Rightarrow> EvaluationContext \<Rightarrow> State option tx"
where
  "advance_automatically env tenant inst document g state0 actor ev =
     seq (lift_result (select_edge env ev (code state0) AutoAction []
            (candidates g (code state0) AutoAction))) (\<lambda>(routing, selected).
     case selected of
       None \<Rightarrow> ret None
     | Some chosen \<Rightarrow>
         seq (need (undeclared_target ''automatic '' (t_to chosen)) (state_of g (t_to chosen))) (\<lambda>target.
         seq (run_transition_guards env tenant document g inst state0 chosen target actor ev) (\<lambda>_.
         seq (make_move env tenant inst document g (code state0) (t_to chosen) target AutoAction actor
                no_provenance routing ByEngine AUTO_LOST) (\<lambda>_.
         ret (Some target)))))"

definition MAX_AUTOMATIC_STEPS :: nat where
  "MAX_AUTOMATIC_STEPS = 16"

definition did_not_settle :: AppError where
  "did_not_settle =
     Conflict (''this workflow's automatic steps did not settle in '' @ show_nat MAX_AUTOMATIC_STEPS @
       '' transitions, which means its service tasks route into one another in a '' @
       ''loop; the document has not moved'')"

definition is_service :: "State \<Rightarrow> bool" where
  "is_service state0 \<longleftrightarrow> (case task state0 of None \<Rightarrow> False | Some spec \<Rightarrow> \<not> is_human (task_type spec))"

text \<open>\<open>for step in 0..MAX_AUTOMATIC_STEPS\<close>, by the steps that remain.\<close>

fun enter_loop ::
  "Env \<Rightarrow> uuid \<Rightarrow> uuid \<Rightarrow> uuid \<Rightarrow> Graph \<Rightarrow> uuid option \<Rightarrow> AssignmentContext \<Rightarrow> EvaluationContext \<Rightarrow>
   nat \<Rightarrow> State \<Rightarrow> DocumentStatus \<Rightarrow> DocumentStatus tx"
where
  "enter_loop env tenant inst document g actor context0 ev 0 current status = ret status"
| "enter_loop env tenant inst document g actor context0 ev (Suc left) current status =
     (if \<not> is_service current then ret status
      else
        seq (advance_automatically env tenant inst document g current actor ev) (\<lambda>reached.
        case reached of
          None \<Rightarrow> ret status
        | Some target \<Rightarrow>
            seq (enter_once env tenant inst document g target actor context0) (\<lambda>status'.
            if left = 0 then fail did_not_settle
            else enter_loop env tenant inst document g actor context0 ev left target status')))"

definition enter_state ::
  "Env \<Rightarrow> uuid \<Rightarrow> uuid \<Rightarrow> uuid \<Rightarrow> Graph \<Rightarrow> State \<Rightarrow> uuid option \<Rightarrow> AssignmentContext \<Rightarrow>
   EvaluationContext \<Rightarrow> DocumentStatus tx" where
  "enter_state env tenant inst document g state0 actor context0 ev =
     seq (enter_once env tenant inst document g state0 actor context0) (\<lambda>status.
     enter_loop env tenant inst document g actor context0 ev MAX_AUTOMATIC_STEPS state0 status)"

section \<open>Starting\<close>

fun computed_variables ::
  "Env \<Rightarrow> json \<Rightarrow> VariableDeclaration list \<Rightarrow> AppError + (string \<times> string \<times> string) list" where
  "computed_variables env context0 [] = Inr []"
| "computed_variables env context0 (declaration # rest) =
     (case var_source declaration of
        None \<Rightarrow> computed_variables env context0 rest
      | Some source \<Rightarrow>
          (case evaluate (hooks env) source context0 of
             Inl _ \<Rightarrow> computed_variables env context0 rest
           | Inr v \<Rightarrow>
               (case write_variable (json_text env) (var_key declaration) v (data_type declaration) of
                  Inl e \<Rightarrow> Inl e
                | Inr stored \<Rightarrow>
                    (case computed_variables env context0 rest of
                       Inl e \<Rightarrow> Inl e
                     | Inr others \<Rightarrow> Inr ((var_key declaration, data_type declaration, stored) # others)))))"

definition write_variables :: "Env \<Rightarrow> uuid \<Rightarrow> Graph \<Rightarrow> uuid \<Rightarrow> EvaluationContext \<Rightarrow> unit tx" where
  "write_variables env tenant g inst ev =
     (if variables g = [] then ret ()
      else
        seq (lift_result (computed_variables env (evaluation_json ev) (variables g))) (\<lambda>values.
        insert_variables env tenant inst values))"

definition not_published :: "string \<Rightarrow> string \<Rightarrow> AppError" where
  "not_published key status =
     Validation [detail ''documentTypeId'' ''reference'' ''WORKFLOW_NOT_PUBLISHED'' [key, status]]"

record Started =
  sd_instance :: uuid
  sd_ref :: string
  sd_status :: DocumentStatus

definition start ::
  "Env \<Rightarrow> uuid \<Rightarrow> uuid \<Rightarrow> uuid \<Rightarrow> string option \<Rightarrow> uuid option \<Rightarrow> AssignmentContext \<Rightarrow>
   EvaluationContext \<Rightarrow> Started tx" where
  "start env tenant document definition_id business_key actor context0 ev =
     seq (lock_for_start env tenant definition_id) (\<lambda>held.
     seq (definition_of_instance env tenant definition_id) (\<lambda>found.
     seq (need (Internal (''document type binds workflow definition '' @ definition_id @
            '' which does not exist'')) found) (\<lambda>loaded.
     seq (need (not_published (df_key loaded) ''deleted'') held) (\<lambda>status.
     seq (refuse_if (status \<noteq> ''ACTIVE'') (not_published (df_key loaded) status)) (\<lambda>_.
     let g = parse_graph (df_json loaded) (df_version loaded) in
     seq (need (Internal (''workflow `'' @ df_key loaded @ ''` starts in `'' @ initial_state g @
            ''`, which it does not declare'')) (state_of g (initial_state g))) (\<lambda>initial.
     seq (fresh_id env) (\<lambda>inst.
     seq (allocate env tenant InstanceRef) (\<lambda>ref.
     seq (insert_instance env
            (new_instance tenant inst ref definition_id document business_key (initial_state g) actor)) (\<lambda>_.
     seq (write_variables env tenant g inst ev) (\<lambda>_.
     seq (record_history env
            \<lparr>hi_tenant = tenant, hi_instance = inst, hi_document = document, hi_from = None,
             hi_to = initial_state g, hi_action = None, hi_task = None, hi_comment = None,
             hi_actor = actor, hi_on_behalf_of = None, hi_routing = None\<rparr>) (\<lambda>_.
     seq (enter_state env tenant inst document g initial actor context0 ev) (\<lambda>document_status.
     ret \<lparr>sd_instance = inst, sd_ref = ref, sd_status = document_status\<rparr>))))))))))))"

section \<open>Firing\<close>

definition CORRECTION_LOST :: string where
  "CORRECTION_LOST =
     ''this document's correction task changed while it was being resubmitted; '' @
     ''reload it and submit again''"

definition close_open_task_for_resubmit ::
  "Env \<Rightarrow> uuid \<Rightarrow> uuid \<Rightarrow> uuid option \<Rightarrow> uuid option tx" where
  "close_open_task_for_resubmit env tenant inst actor =
     seq (lock_open_task_of_instance env tenant inst) (\<lambda>found.
     case found of
       None \<Rightarrow> ret None
     | Some opened \<Rightarrow>
         seq (close_for_resubmit env tenant (lt_id opened) actor) (\<lambda>closed.
         seq (refuse_if (closed = 0) (Conflict CORRECTION_LOST)) (\<lambda>_.
         seq (record_task_history env tenant (lt_id opened) inst (lt_document opened)
                (Some (lt_status opened)) TaskCompleted (Some (TransitionTaken ResubmitAction)) None
                actor) (\<lambda>_.
         ret (Some (lt_id opened))))))"

record Fired =
  fi_from :: string
  fi_to :: string
  fi_status :: DocumentStatus
  fi_outcome :: "InstanceOutcome option"

definition FIRE_LOST :: string where
  "FIRE_LOST =
     ''this process moved while the decision was being applied; '' @
     ''reload the task and decide again''"

text \<open>Whether the edge may be taken, by its own rule.\<close>

definition authorize_edge ::
  "Env \<Rightarrow> uuid \<Rightarrow> Transition \<Rightarrow> AssignmentContext \<Rightarrow> uuid option \<Rightarrow> uuid option \<Rightarrow> string \<Rightarrow> unit tx" where
  "authorize_edge env tenant chosen context0 actor behalf path =
     (case allowed_by chosen of
        None \<Rightarrow> ret ()
      | Some rule \<Rightarrow>
          seq (permits env tenant rule context0 actor behalf path) (\<lambda>allowed.
          refuse_if (\<not> allowed) Forbidden))"

definition fire ::
  "Env \<Rightarrow> uuid \<Rightarrow> uuid \<Rightarrow> uuid \<Rightarrow> Graph \<Rightarrow> string \<Rightarrow> TransitionAction \<Rightarrow> uuid option \<Rightarrow>
   AssignmentContext \<Rightarrow> EvaluationContext \<Rightarrow> Provenance \<Rightarrow> Fired tx" where
  "fire env tenant inst document g from act actor context0 ev decision =
     seq (lift_result (select_edge env ev from act [] (candidates g from act))) (\<lambda>(routing, selected).
     seq (need (no_transition g from act routing) selected) (\<lambda>chosen.
     seq (authorize_edge env tenant chosen context0 actor (pv_behalf decision)
            (allowed_by_path from act)) (\<lambda>_.
     seq (refuse_if (requires_comment chosen \<and> pv_comment decision = None)
            (comment_required from (action_as_db act))) (\<lambda>_.
     seq (need (undeclared_target [] (t_to chosen)) (state_of g (t_to chosen))) (\<lambda>target.
     seq (make_move env tenant inst document g from (t_to chosen) target act actor decision routing
            (user_or_system actor) FIRE_LOST) (\<lambda>_.
     seq (enter_state env tenant inst document g target actor context0 ev) (\<lambda>status.
     ret \<lparr>fi_from = from, fi_to = t_to chosen, fi_status = status, fi_outcome = outcome_of target\<rparr>)))))))"

end
