(* ===== verification/Inbox.thy ===== *)
theory Inbox
  imports Assignment
begin

text \<open>
  Which tasks a caller is shown (\<open>workflow/repository/inbox.rs\<close>), over the projection of a
  definition's transitions (\<open>repository/projection.rs\<close>): the clause every inbox statement splices,
  the page, its count, the gate of the detail read, and the check a claim makes.
\<close>

section \<open>The projection of a definition\<close>

fun assignee_type_key :: "AssigneeType \<Rightarrow> string" where
  "assignee_type_key User = ''USER''"
| "assignee_type_key Role = ''ROLE''"
| "assignee_type_key DepartmentRole = ''DEPARTMENT_ROLE''"
| "assignee_type_key Owner = ''OWNER''"

definition rule_json :: "AssignmentRule option \<Rightarrow> json" where
  "rule_json rule0 =
     (case rule0 of
        None \<Rightarrow> Object []
      | Some rule \<Rightarrow> json_object
          [(''assigneeType'', String (assignee_type_key (assignee_type rule))),
           (''userId'', nullable (user_id rule)),
           (''roleCode'', nullable (role_code rule)),
           (''departmentScope'', nullable (department_scope rule))])"

definition projected :: "uuid \<Rightarrow> uuid \<Rightarrow> Transition \<Rightarrow> projection_row" where
  "projected tenant definition_id t =
     \<lparr>pr_tenant = tenant, pr_definition = definition_id, pr_from = t_from t, pr_to = t_to t,
      pr_action = action_as_db (t_action t), pr_allowed_by = rule_json (allowed_by t),
      pr_condition = condition t\<rparr>"

text \<open>The rows of a definition are deleted and written again, in order; the states' rows are not read
  by the statements modelled here.\<close>

definition replace_projection :: "Env \<Rightarrow> uuid \<Rightarrow> uuid \<Rightarrow> Graph \<Rightarrow> unit tx" where
  "replace_projection env tenant definition_id g =
     seq (execute env (db_projection_update (filter (\<lambda>r. pr_definition r \<noteq> definition_id)))) (\<lambda>_.
     for_each (\<lambda>t. append_row env db_projection_update (projected tenant definition_id t)) (transitions g))"

section \<open>The spellings of a uuid\<close>

text \<open>The clause's regular expression and the cast that follows it: 32 digits, or the hyphenated
  form, alone, after \<open>urn:uuid:\<close>, or in braces.  The value is its canonical text.\<close>

definition is_hex :: "char \<Rightarrow> bool" where
  "is_hex c \<longleftrightarrow> is_ascii_digit c \<or> char_between (CHR ''a'') (CHR ''f'') c \<or> char_between (CHR ''A'') (CHR ''F'') c"

definition lower :: "char \<Rightarrow> char" where
  "lower c = (if char_between (CHR ''A'') (CHR ''Z'') c then char_of (of_char c + (32 :: nat)) else c)"

definition hyphenated :: "string \<Rightarrow> bool" where
  "hyphenated s \<longleftrightarrow>
     (case split_on (CHR ''-'') s of
        [a, b, c, d, e] \<Rightarrow>
          map length [a, b, c, d, e] = [8, 4, 4, 4, 12] \<and> list_all (list_all is_hex) [a, b, c, d, e]
      | _ \<Rightarrow> False)"

definition insert_hyphens :: "string \<Rightarrow> string" where
  "insert_hyphens s =
     join ''-'' [take 8 s, take 4 (drop 8 s), take 4 (drop 12 s), take 4 (drop 16 s), drop 20 s]"

definition uuid_spelling :: "string \<Rightarrow> uuid option" where
  "uuid_spelling s =
     (if length s = 32 \<and> list_all is_hex s then Some (insert_hyphens (map lower s))
      else if hyphenated s then Some (map lower s)
      else
        (case strip_prefix ''urn:uuid:'' s of
           Some r \<Rightarrow> if hyphenated r then Some (map lower r) else None
         | None \<Rightarrow>
             (case s of
                c # r \<Rightarrow>
                  if c = CHR ''{'' \<and> r \<noteq> [] \<and> last r = CHR ''}'' \<and> hyphenated (butlast r)
                  then Some (map lower (butlast r)) else None
              | [] \<Rightarrow> None)))"

section \<open>The clause\<close>

text \<open>\<open>->>\<close>: the text of a member; a null or an absent member is \<open>NULL\<close>.\<close>

definition text_at :: "Env \<Rightarrow> json \<Rightarrow> string \<Rightarrow> string option" where
  "text_at env v k =
     (case get v k of
        None \<Rightarrow> None
      | Some Null \<Rightarrow> None
      | Some (String s) \<Rightarrow> Some s
      | Some j \<Rightarrow> Some (json_text env j))"

definition string_at :: "json \<Rightarrow> string \<Rightarrow> bool" where
  "string_at v k \<longleftrightarrow> (case get v k of Some (String _) \<Rightarrow> True | _ \<Rightarrow> False)"

text \<open>The department of an edge's rule, live.\<close>

definition scope_live :: "uuid \<Rightarrow> Store \<Rightarrow> document_row \<Rightarrow> string option \<Rightarrow> bool" where
  "scope_live tenant st d scope \<longleftrightarrow>
     (case scope of
        None \<Rightarrow> True
      | Some s \<Rightarrow>
          if s = ''REQUESTED_DEPARTMENT'' then
            list_ex (\<lambda>dep. Some (de_id dep) = do_requested_department d \<and> de_tenant dep = tenant \<and>
                           \<not> de_deleted dep) (db_departments st)
          else if s = ''OWNER_DEPARTMENT'' then
            list_ex (\<lambda>u. us_tenant u = tenant \<and> Some (us_id u) = do_created_by d \<and>
                         list_ex (\<lambda>dep. Some (de_id dep) = us_department u \<and> de_tenant dep = tenant \<and>
                                        \<not> de_deleted dep) (db_departments st)) (db_users st)
          else
            list_ex (\<lambda>dep. de_tenant dep = tenant \<and> \<not> de_deleted dep \<and> de_code dep = s)
              (db_departments st))"

definition edge_live :: "Env \<Rightarrow> uuid \<Rightarrow> Store \<Rightarrow> document_row \<Rightarrow> json \<Rightarrow> bool" where
  "edge_live env tenant st d rule \<longleftrightarrow>
     (let kind = text_at env rule ''assigneeType'';
          role_live = list_ex (\<lambda>r. ro_tenant r = tenant \<and> Some (ro_code r) = text_at env rule ''roleCode'' \<and>
                                  \<not> ro_deleted r) (db_roles st)
      in (kind = Some ''USER'' \<and> string_at rule ''userId'' \<and>
          (case Option.bind (text_at env rule ''userId'') uuid_spelling of
             None \<Rightarrow> False | Some ident \<Rightarrow> is_live_user tenant st ident)) \<or>
         (kind = Some ''OWNER'' \<and>
          (case do_created_by d of None \<Rightarrow> False | Some owner \<Rightarrow> is_live_user tenant st owner)) \<or>
         (kind \<in> {Some ''ROLE'', Some ''DEPARTMENT_ROLE''} \<and> role_live \<and>
          (kind = Some ''ROLE'' \<or> scope_live tenant st d (text_at env rule ''departmentScope''))))"

definition decision_rows :: "uuid \<Rightarrow> Store \<Rightarrow> instance_row \<Rightarrow> projection_row list" where
  "decision_rows tenant st i =
     filter (\<lambda>r. pr_tenant r = tenant \<and> pr_definition r = in_definition i \<and> pr_from r = in_state i \<and>
                 pr_action r \<in> {''APPROVE'', ''REJECT'', ''RETURN''}) (db_projection st)"

text \<open>A task nobody can decide is not waiting for anybody.\<close>

definition claimed_clause :: "Env \<Rightarrow> Store \<Rightarrow> task_row \<Rightarrow> document_row \<Rightarrow> instance_row \<Rightarrow> bool" where
  "claimed_clause env st t d i \<longleftrightarrow>
     ta_status t \<notin> set OPEN_STATUSES \<or>
     decision_rows (ta_tenant t) st i = [] \<or>
     list_ex (\<lambda>r. edge_live env (ta_tenant t) st d (pr_allowed_by r)) (decision_rows (ta_tenant t) st i)"

section \<open>The statements\<close>

definition joined :: "Store \<Rightarrow> (task_row \<times> document_row \<times> instance_row) list" where
  "joined st =
     concat (map (\<lambda>t. concat (map (\<lambda>d. map (\<lambda>i. (t, d, i))
         (filter (\<lambda>i. in_id i = ta_instance t) (db_instances st)))
       (filter (\<lambda>d. do_id d = ta_document t) (db_documents st)))) (db_tasks st))"

definition can_be_decided :: "Env \<Rightarrow> uuid \<Rightarrow> uuid \<Rightarrow> bool tx" where
  "can_be_decided env tenant ident = fetch env (\<lambda>st.
     list_ex (\<lambda>(t, d, i). ta_tenant t = tenant \<and> ta_id t = ident \<and> claimed_clause env st t d i) (joined st))"

text \<open>Mine, or offered to a role I hold where the task asks for it.\<close>

definition mine :: "Env \<Rightarrow> uuid \<Rightarrow> uuid \<Rightarrow> Store \<Rightarrow> task_row \<Rightarrow> bool" where
  "mine env tenant user st t \<longleftrightarrow>
     ta_assignee t = Some user \<or>
     ta_assignee t = None \<and>
       list_ex (\<lambda>g. gr_tenant g = tenant \<and> gr_user g = user \<and> Some (gr_role g) = ta_role t \<and>
                    grant_holds (today env) (ta_department t) g \<and>
                    list_ex (\<lambda>r. ro_id r = gr_role g \<and> ro_tenant r = gr_tenant g \<and> \<not> ro_deleted r)
                      (db_roles st)) (db_grants st)"

definition visible :: "Env \<Rightarrow> uuid \<Rightarrow> uuid \<Rightarrow> Store \<Rightarrow> task_row \<times> document_row \<times> instance_row \<Rightarrow> bool" where
  "visible env tenant user st = (\<lambda>(t, d, i).
     ta_tenant t = tenant \<and> \<not> ta_deleted t \<and> \<not> do_deleted d \<and> mine env tenant user st t \<and>
     claimed_clause env st t d i)"

definition is_visible_to :: "Env \<Rightarrow> uuid \<Rightarrow> uuid \<Rightarrow> uuid \<Rightarrow> bool tx" where
  "is_visible_to env tenant user ident = fetch env (\<lambda>st.
     list_ex (\<lambda>(t, d, i). ta_id t = ident \<and> visible env tenant user st (t, d, i)) (joined st))"

datatype InboxScope = OpenTasks | OverdueTasks | CompletedTasks | EveryTask

datatype InboxOrder = Newest | MostOverdueFirst

record InboxFilters =
  fl_scope :: InboxScope
  fl_order :: InboxOrder
  fl_document :: "uuid option"
  fl_task :: "uuid option"
  fl_search :: "string option"

text \<open>\<open>(open, overdue, completed)\<close>; overdue narrows open.\<close>

fun scope_predicates :: "InboxScope \<Rightarrow> bool \<times> bool \<times> bool" where
  "scope_predicates OpenTasks = (True, False, False)"
| "scope_predicates OverdueTasks = (True, True, False)"
| "scope_predicates CompletedTasks = (False, False, True)"
| "scope_predicates EveryTask = (False, False, False)"

text \<open>Late, and still open; a task with no date is not late.\<close>

definition overdue :: "Env \<Rightarrow> task_row \<Rightarrow> bool" where
  "overdue env t \<longleftrightarrow>
     (case ta_due t of None \<Rightarrow> False | Some at \<Rightarrow> at < now env) \<and> ta_status t \<in> set OPEN_STATUSES"

text \<open>\<open>ilike term text\<close> is the database's \<open>text ILIKE '%' || term || '%'\<close>.\<close>

definition narrowed ::
  "Env \<Rightarrow> (string \<Rightarrow> string \<Rightarrow> bool) \<Rightarrow> InboxFilters \<Rightarrow> task_row \<Rightarrow> document_row \<Rightarrow> bool" where
  "narrowed env ilike filters t d \<longleftrightarrow>
     (case scope_predicates (fl_scope filters) of (open_only, overdue_only, completed_only) \<Rightarrow>
        (\<not> open_only \<or> ta_status t \<in> set OPEN_STATUSES) \<and>
        (\<not> overdue_only \<or> overdue env t) \<and>
        (\<not> completed_only \<or> ta_status t \<in> {''COMPLETED'', ''CANCELLED''})) \<and>
     (case fl_document filters of None \<Rightarrow> True | Some ident \<Rightarrow> ta_document t = ident) \<and>
     (case fl_task filters of None \<Rightarrow> True | Some ident \<Rightarrow> ta_id t = ident) \<and>
     (case fl_search filters of
        None \<Rightarrow> True
      | Some term0 \<Rightarrow>
          ilike term0 (ta_name t) \<or> ilike term0 (do_title d) \<or>
          (case do_number d of None \<Rightarrow> False | Some number \<Rightarrow> ilike term0 number))"

text \<open>The page also joins the definition the instance runs.\<close>

definition has_definition :: "Store \<Rightarrow> instance_row \<Rightarrow> bool" where
  "has_definition st i \<longleftrightarrow> list_ex (\<lambda>w. df_id w = in_definition i) (db_definitions st)"

text \<open>The rows of the page's statement, before its order and its window.\<close>

definition matched ::
  "Env \<Rightarrow> (string \<Rightarrow> string \<Rightarrow> bool) \<Rightarrow> uuid \<Rightarrow> uuid \<Rightarrow> InboxFilters \<Rightarrow> Store \<Rightarrow>
   (task_row \<times> document_row \<times> instance_row) list" where
  "matched env ilike tenant user filters st =
     filter (\<lambda>(t, d, i). visible env tenant user st (t, d, i) \<and> narrowed env ilike filters t d)
       (joined st)"

text \<open>\<open>created_at DESC, id DESC\<close>, preceded by the date when the late ones come first.\<close>

definition newest_first ::
  "(task_row \<times> document_row \<times> instance_row) list \<Rightarrow> (task_row \<times> document_row \<times> instance_row) list" where
  "newest_first rows = rev (sort_key (\<lambda>(t, _, _). (ta_created t, ta_id t)) rows)"

definition in_order ::
  "InboxOrder \<Rightarrow> (task_row \<times> document_row \<times> instance_row) list \<Rightarrow>
   (task_row \<times> document_row \<times> instance_row) list" where
  "in_order order0 rows =
     (let recent = newest_first rows
      in if order0 = MostOverdueFirst then
           sort_key (\<lambda>(t, _, _). the (ta_due t)) (filter (\<lambda>(t, _, _). ta_due t \<noteq> None) recent) @
           filter (\<lambda>(t, _, _). ta_due t = None) recent
         else recent)"

record InboxRow =
  ir_id :: uuid
  ir_ref :: string
  ir_instance :: uuid
  ir_document :: uuid
  ir_document_number :: "string option"
  ir_document_title :: string
  ir_name :: string
  ir_type :: string
  ir_status :: string
  ir_priority :: string
  ir_due :: "int option"
  ir_overdue :: bool
  ir_assignee :: "uuid option"
  ir_role :: "uuid option"
  ir_role_code :: "string option"
  ir_delegated_from :: "uuid option"
  ir_state :: string
  ir_created :: int
  ir_action :: "string option"
  ir_comment :: "string option"

definition inbox_row :: "Env \<Rightarrow> Store \<Rightarrow> task_row \<times> document_row \<times> instance_row \<Rightarrow> InboxRow" where
  "inbox_row env st = (\<lambda>(t, d, i).
     \<lparr>ir_id = ta_id t, ir_ref = ta_ref t, ir_instance = ta_instance t, ir_document = ta_document t,
      ir_document_number = do_number d, ir_document_title = do_title d, ir_name = ta_name t,
      ir_type = ta_type t, ir_status = ta_status t, ir_priority = ta_priority t,
      ir_due = ta_due t, ir_overdue = overdue env t, ir_assignee = ta_assignee t,
      ir_role = ta_role t,
      ir_role_code = map_option ro_code (find (\<lambda>r. Some (ro_id r) = ta_role t) (db_roles st)),
      ir_delegated_from = ta_delegated_from t, ir_state = in_state i, ir_created = ta_created t,
      ir_action = ta_action t, ir_comment = ta_comment t\<rparr>)"

record InboxPage =
  pg_rows :: "InboxRow list"
  pg_matching :: "nat option"

definition page_of :: "nat \<Rightarrow> nat \<Rightarrow> 'a list \<Rightarrow> 'a list" where
  "page_of limit offset xs = take limit (drop offset xs)"

definition list_for_caller ::
  "Env \<Rightarrow> (string \<Rightarrow> string \<Rightarrow> bool) \<Rightarrow> uuid \<Rightarrow> uuid \<Rightarrow> InboxFilters \<Rightarrow> nat \<Rightarrow> nat \<Rightarrow> InboxPage tx" where
  "list_for_caller env ilike tenant user filters limit offset = fetch env (\<lambda>st.
     (let rows = filter (\<lambda>(t, d, i). has_definition st i) (matched env ilike tenant user filters st);
          page = page_of limit offset (in_order (fl_order filters) rows)
      in \<lparr>pg_rows = map (inbox_row env st) page,
          pg_matching = (if page = [] then None else Some (length rows))\<rparr>))"

definition count_for_caller ::
  "Env \<Rightarrow> (string \<Rightarrow> string \<Rightarrow> bool) \<Rightarrow> uuid \<Rightarrow> uuid \<Rightarrow> InboxFilters \<Rightarrow> nat tx" where
  "count_for_caller env ilike tenant user filters =
     fetch env (\<lambda>st. length (matched env ilike tenant user filters st))"

section \<open>The service's reads\<close>

datatype HolderView = Mine | OfferedToRole

record InboxTask =
  it_row :: InboxRow
  it_assignment :: HolderView

definition to_task :: "uuid \<Rightarrow> InboxRow \<Rightarrow> InboxTask" where
  "to_task caller row =
     \<lparr>it_row = row,
      it_assignment = (if ir_assignee row = Some caller then Mine else OfferedToRole)\<rparr>"

definition list_inbox ::
  "Env \<Rightarrow> (string \<Rightarrow> string \<Rightarrow> bool) \<Rightarrow> uuid \<Rightarrow> uuid \<Rightarrow> InboxFilters \<Rightarrow> nat \<Rightarrow> nat \<Rightarrow>
   (InboxTask list \<times> nat) tx" where
  "list_inbox env ilike tenant user filters limit offset =
     seq (count_for_caller env ilike tenant user filters) (\<lambda>total.
     seq (list_for_caller env ilike tenant user filters limit offset) (\<lambda>page.
     ret (map (to_task user) (pg_rows page), total)))"

definition no_filters :: InboxFilters where
  "no_filters =
     \<lparr>fl_scope = OpenTasks, fl_order = Newest, fl_document = None, fl_task = None, fl_search = None\<rparr>"

text \<open>The dashboard's two cards: the first few, and how many there are.\<close>

definition waiting_work ::
  "Env \<Rightarrow> (string \<Rightarrow> string \<Rightarrow> bool) \<Rightarrow> uuid \<Rightarrow> uuid \<Rightarrow> nat \<Rightarrow> (nat \<times> InboxTask list) tx" where
  "waiting_work env ilike tenant user limit =
     seq (list_for_caller env ilike tenant user no_filters limit 0) (\<lambda>page.
     ret (or_default 0 (pg_matching page), map (to_task user) (pg_rows page)))"

definition late_work ::
  "Env \<Rightarrow> (string \<Rightarrow> string \<Rightarrow> bool) \<Rightarrow> uuid \<Rightarrow> uuid \<Rightarrow> nat \<Rightarrow> (nat \<times> InboxTask list) tx" where
  "late_work env ilike tenant user limit =
     seq (list_for_caller env ilike tenant user
            (no_filters\<lparr>fl_scope := OverdueTasks, fl_order := MostOverdueFirst\<rparr>) limit 0) (\<lambda>page.
     ret (or_default 0 (pg_matching page), map (to_task user) (pg_rows page)))"

record AvailableDecision =
  av_action :: string
  av_to :: string
  av_to_name :: string
  av_supported :: bool
  av_requires_comment :: bool

definition available_decision :: "Graph \<Rightarrow> Transition \<Rightarrow> AvailableDecision" where
  "available_decision g t =
     \<lparr>av_action = action_as_db (t_action t), av_to = t_to t,
      av_to_name = (case state_of g (t_to t) of Some s \<Rightarrow> state_name s | None \<Rightarrow> t_to t),
      av_supported = (action_as_db (t_action t) \<in> {''APPROVE'', ''REJECT'', ''RETURN''}),
      av_requires_comment = requires_comment t\<rparr>"

record TaskDetail =
  td_task :: InboxTask
  td_state_name :: string
  td_decisions :: "AvailableDecision list"

definition get_task :: "Env \<Rightarrow> (string \<Rightarrow> string \<Rightarrow> bool) \<Rightarrow> uuid \<Rightarrow> uuid \<Rightarrow> uuid \<Rightarrow> TaskDetail tx" where
  "get_task env ilike tenant user ident =
     seq (is_visible_to env tenant user ident) (\<lambda>shown0.
     seq (refuse_if (\<not> shown0) (NotFound ''Task'')) (\<lambda>_.
     seq (list_for_caller env ilike tenant user
            (no_filters\<lparr>fl_scope := EveryTask, fl_task := Some ident\<rparr>) 1 0) (\<lambda>page.
     seq (need (NotFound ''Task'') (if pg_rows page = [] then None else Some (hd (pg_rows page)))) (\<lambda>row.
     seq (find_instance env tenant (ir_instance row)) (\<lambda>found.
     seq (need (NotFound ''Workflow instance'') found) (\<lambda>inst.
     seq (definition_of_instance env tenant (in_definition inst)) (\<lambda>loaded.
     ret (case loaded of
            None \<Rightarrow> \<lparr>td_task = to_task user row, td_state_name = in_state inst, td_decisions = []\<rparr>
          | Some l \<Rightarrow>
              (let g = parse_graph (df_json l) (df_version l)
               in \<lparr>td_task = to_task user row,
                   td_state_name =
                     (case state_of g (in_state inst) of Some s \<Rightarrow> state_name s | None \<Rightarrow> in_state inst),
                   td_decisions =
                     map (available_decision g)
                       (filter (\<lambda>t. t_action t \<noteq> AutoAction) (actions_from g (in_state inst)))\<rparr>)))))))))"

end
