(* ===== verification/TaskService.thy ===== *)
theory TaskService
  imports Engine Inbox
begin

text \<open>
  What a person does to a task (\<open>workflow/service/task.rs\<close>): claim it, hand it over, reassign it,
  decide it.  Each action checks the caller's permission, reads the task, and writes in one
  transaction that takes the instance's lock before the task's.  The audit entry an action leaves
  after its commit, which never fails the action, is not modelled.
\<close>

section \<open>The caller\<close>

record Caller =
  ca_tenant :: uuid
  ca_user :: uuid
  ca_name :: string
  ca_permissions :: "string list"

definition require :: "Caller \<Rightarrow> string \<Rightarrow> unit tx" where
  "require caller permission = refuse_if (permission \<notin> set (ca_permissions caller)) Forbidden"

definition TASK_EXECUTE :: string where
  "TASK_EXECUTE = ''workflow:task:execute''"

definition TASK_REASSIGN :: string where
  "TASK_REASSIGN = ''workflow:task:reassign''"

section \<open>The locks\<close>

definition MOVED_TASK :: string where
  "MOVED_TASK = ''this task belongs to a different workflow instance than when it was read''"

definition lock_instance_then_task :: "Env \<Rightarrow> uuid \<Rightarrow> uuid \<Rightarrow> uuid \<Rightarrow> LockedTask tx" where
  "lock_instance_then_task env tenant inst ident =
     seq (lock_instance env tenant inst) (\<lambda>held.
     seq (need (NotFound ''Workflow instance'') held) (\<lambda>_.
     seq (lock_task env tenant ident) (\<lambda>found.
     seq (need (NotFound ''Task'') found) (\<lambda>task0.
     seq (refuse_if (lt_instance task0 \<noteq> inst) (Conflict MOVED_TASK)) (\<lambda>_.
     ret task0)))))"

text \<open>The task an action read before its transaction.\<close>

definition subject_task :: "Env \<Rightarrow> uuid \<Rightarrow> uuid \<Rightarrow> task_row tx" where
  "subject_task env tenant ident =
     seq (find_task env tenant ident) (need (NotFound ''Task''))"

definition load :: "Env \<Rightarrow> uuid \<Rightarrow> uuid \<Rightarrow> task_row tx" where
  "load env tenant ident =
     seq (find_task env tenant ident)
       (need (Internal (''task '' @ ident @ '' vanished after it was written'')))"

section \<open>Claiming\<close>

definition claim_locked :: "Env \<Rightarrow> uuid \<Rightarrow> uuid \<Rightarrow> task_row \<Rightarrow> unit tx" where
  "claim_locked env tenant user subject =
     seq (lock_instance_then_task env tenant (ta_instance subject) (ta_id subject)) (\<lambda>locked.
     seq (lift_result (refuse_unless_open (lt_status locked) (lt_decided locked))) (\<lambda>_.
     seq (need Forbidden (lt_role locked)) (\<lambda>role.
     seq (holds_role env tenant user role (lt_department locked)) (\<lambda>held.
     seq (refuse_if (\<not> held) Forbidden) (\<lambda>_.
     seq (can_be_decided env tenant (ta_id subject)) (\<lambda>decidable.
     seq (refuse_if (\<not> decidable) claim_undecidable) (\<lambda>_.
     seq (claim env tenant (ta_id subject) user) (\<lambda>claimed.
     if claimed = 0 then
       seq (lock_task env tenant (ta_id subject)) (\<lambda>found.
       seq (need (NotFound ''Task'') found) (\<lambda>now0.
       fail (claim_lost (lt_status now0) (lt_assignee now0))))
     else
       record_task_history env tenant (ta_id subject) (lt_instance locked) (lt_document locked)
         (Some (lt_status locked)) TaskAssigned None None (Some user)))))))))"

definition claim_task :: "Env \<Rightarrow> Caller \<Rightarrow> uuid \<Rightarrow> task_row tx" where
  "claim_task env caller ident =
     seq (require caller TASK_EXECUTE) (\<lambda>_.
     seq (subject_task env (ca_tenant caller) ident) (\<lambda>subject.
     seq (transaction (claim_locked env (ca_tenant caller) (ca_user caller) subject)) (\<lambda>_.
     load env (ca_tenant caller) ident)))"

section \<open>Handing over\<close>

record DelegateRequest =
  dq_delegate :: uuid
  dq_comment :: "string option"

definition CHANGED_HANDS :: string where
  "CHANGED_HANDS = ''this task changed hands while it was being handed over''"

definition delegate_locked ::
  "Env \<Rightarrow> uuid \<Rightarrow> uuid \<Rightarrow> task_row \<Rightarrow> uuid \<Rightarrow> string option \<Rightarrow> unit tx" where
  "delegate_locked env tenant user subject delegate0 comment =
     seq (lock_instance_then_task env tenant (ta_instance subject) (ta_id subject)) (\<lambda>locked.
     seq (lift_result (refuse_unless_open (lt_status locked) (lt_decided locked))) (\<lambda>_.
     seq (lift_result (refuse_unless_held_by user (lt_assignee locked))) (\<lambda>_.
     seq (user_is_available env tenant delegate0) (\<lambda>available.
     seq (refuse_if (\<not> available) delegate_unavailable) (\<lambda>_.
     seq (delegate_row env tenant (ta_id subject) delegate0 user) (\<lambda>handed.
     seq (refuse_if (handed = 0) (Conflict CHANGED_HANDS)) (\<lambda>_.
     seq (record_task_history env tenant (ta_id subject) (lt_instance locked) (lt_document locked)
            (Some (lt_status locked)) (lt_status locked) (Some (TransitionTaken DelegateAction))
            comment (Some user)) (\<lambda>_.
     record_activity env
       \<lparr>ac_tenant = tenant, ac_document = Some (lt_document locked),
        ac_instance = Some (lt_instance locked), ac_task = Some (ta_id subject),
        ac_type = ''Workflow.TaskDelegated'', ac_actor = Some user, ac_details = Object []\<rparr>))))))))"

definition delegate :: "Env \<Rightarrow> Caller \<Rightarrow> uuid \<Rightarrow> DelegateRequest \<Rightarrow> task_row tx" where
  "delegate env caller ident request =
     seq (require caller TASK_EXECUTE) (\<lambda>_.
     seq (lift_result (refuse_self_delegation (ca_user caller) (dq_delegate request))) (\<lambda>_.
     seq (lift_result (normalize_comment (dq_comment request))) (\<lambda>comment.
     seq (subject_task env (ca_tenant caller) ident) (\<lambda>subject.
     seq (transaction (delegate_locked env (ca_tenant caller) (ca_user caller) subject
            (dq_delegate request) comment)) (\<lambda>_.
     load env (ca_tenant caller) ident)))))"

section \<open>Reassigning\<close>

definition describe_rule :: "AssignmentRule \<Rightarrow> string" where
  "describe_rule rule =
     (let role = or_default [] (role_code rule)
      in case assignee_type rule of
           User \<Rightarrow> ''user '' @ or_default [] (user_id rule)
         | Role \<Rightarrow> ''role `'' @ role @ ''`''
         | DepartmentRole \<Rightarrow>
             ''role `'' @ role @ ''` in department `'' @ or_default ''any'' (department_scope rule) @ ''`''
         | Owner \<Rightarrow> ''the document'' @ [CHR 0x27] @ ''s creator'')"

definition no_such_definition :: "uuid \<Rightarrow> uuid \<Rightarrow> AppError" where
  "no_such_definition inst definition0 =
     Internal (''instance '' @ inst @ '' runs definition '' @ definition0 @ '' which does not exist'')"

definition decision_edges :: "Graph \<Rightarrow> string \<Rightarrow> Transition list" where
  "decision_edges g state0 = filter (\<lambda>edge. decision_action (t_action edge)) (actions_from g state0)"

text \<open>Whether the target passes an edge's rule.\<close>

definition target_passes ::
  "Env \<Rightarrow> uuid \<Rightarrow> ReassignTarget \<Rightarrow> ResolvedAssignment \<Rightarrow> AssignmentContext \<Rightarrow> AssignmentRule \<Rightarrow>
   string \<Rightarrow> bool tx" where
  "target_passes env tenant target assignment0 context0 rule path =
     (case target of
        ToUser user \<Rightarrow> permits env tenant rule context0 (Some user) None path
      | ToRole _ \<Rightarrow>
          seq (need (Internal ''a role target resolved to no role'') (ra_role assignment0)) (\<lambda>role.
          names_role env tenant rule context0 role path))"

text \<open>The answer of the loop over the decision edges: \<open>True\<close> is its early \<open>Ok\<close>.\<close>

fun some_edge_passes ::
  "Env \<Rightarrow> uuid \<Rightarrow> ReassignTarget \<Rightarrow> ResolvedAssignment \<Rightarrow> AssignmentContext \<Rightarrow> string \<Rightarrow>
   Transition list \<Rightarrow> bool tx" where
  "some_edge_passes env tenant target a context0 state0 [] = ret False"
| "some_edge_passes env tenant target a context0 state0 (edge # edges) =
     (case allowed_by edge of
        None \<Rightarrow> ret True
      | Some rule \<Rightarrow>
          seq (attempt (target_passes env tenant target a context0 rule
                 (allowed_by_path state0 (t_action edge)))) (\<lambda>answer.
          case answer of
            Inr True \<Rightarrow> ret True
          | Inr False \<Rightarrow> some_edge_passes env tenant target a context0 state0 edges
          | Inl (Validation _) \<Rightarrow> some_edge_passes env tenant target a context0 state0 edges
          | Inl other \<Rightarrow> fail other))"

definition refuse_unless_target_can_decide ::
  "Env \<Rightarrow> uuid \<Rightarrow> uuid \<Rightarrow> ReassignTarget \<Rightarrow> ResolvedAssignment \<Rightarrow> AssignmentContext \<Rightarrow> unit tx" where
  "refuse_unless_target_can_decide env tenant inst target a context0 =
     seq (find_instance env tenant inst) (\<lambda>found.
     seq (need (NotFound ''Workflow instance'') found) (\<lambda>row.
     seq (definition_of_instance env tenant (in_definition row)) (\<lambda>loaded.
     seq (need (no_such_definition (in_id row) (in_definition row)) loaded) (\<lambda>l.
     let decisions = decision_edges (parse_graph (df_json l) (df_version l)) (in_state row) in
     if decisions = [] then ret ()
     else
       seq (some_edge_passes env tenant target a context0 (in_state row) decisions) (\<lambda>passes.
       refuse_if (\<not> passes)
         (target_cannot_decide (case target of ToUser _ \<Rightarrow> ''userId'' | ToRole _ \<Rightarrow> ''roleCode'')
           (in_state row)
           (bs_collect (map describe_rule (somes (map allowed_by decisions))))))))))"

definition reassign_locked ::
  "Env \<Rightarrow> uuid \<Rightarrow> uuid \<Rightarrow> task_row \<Rightarrow> AssignmentContext \<Rightarrow> ReassignTarget \<Rightarrow> string option \<Rightarrow> unit tx" where
  "reassign_locked env tenant user subject context0 target comment =
     seq (lock_instance_then_task env tenant (ta_instance subject) (ta_id subject)) (\<lambda>locked.
     seq (refuse_if (\<not> is_open (lt_status locked)) (reassign_closed (lt_status locked))) (\<lambda>_.
     seq (reassign_to env tenant target) (\<lambda>a.
     seq (refuse_unless_target_can_decide env tenant (lt_instance locked) target a context0) (\<lambda>_.
     seq (reassign_row env tenant (ta_id subject) a) (\<lambda>changed.
     seq (refuse_if (changed = 0) (reassign_closed (lt_status locked))) (\<lambda>_.
     record_task_history env tenant (ta_id subject) (lt_instance locked) (lt_document locked)
       (Some (lt_status locked)) (assigned_status (ra_assignee a)) (Some Reassigned) comment
       (Some user)))))))"

definition reassign :: "Env \<Rightarrow> Caller \<Rightarrow> uuid \<Rightarrow> ReassignTaskRequest \<Rightarrow> task_row tx" where
  "reassign env caller ident request =
     seq (require caller TASK_REASSIGN) (\<lambda>_.
     seq (lift_result (reassign_target request)) (\<lambda>target.
     seq (lift_result (normalize_comment (rq_comment request))) (\<lambda>comment.
     seq (subject_task env (ca_tenant caller) ident) (\<lambda>subject.
     seq (find_document env (ca_tenant caller) (ta_document subject)) (\<lambda>found.
     seq (need (NotFound ''Document'') found) (\<lambda>document.
     seq (context_of_document env (ca_tenant caller) (do_type document) (do_created_by document)
            (do_requested_department document)) (\<lambda>context0.
     seq (transaction (reassign_locked env (ca_tenant caller) (ca_user caller) subject context0
            target comment)) (\<lambda>_.
     load env (ca_tenant caller) ident))))))))"

section \<open>Deciding\<close>

definition variable_context :: "(string \<times> json) list \<Rightarrow> json" where
  "variable_context vars = json_object vars"

text \<open>What is read on the pool, before the locks.\<close>

record Reading =
  rd_subject :: task_row
  rd_graph :: Graph
  rd_document :: document_row
  rd_context :: AssignmentContext
  rd_evaluation :: EvaluationContext

definition DECISION_OVERTAKEN :: string where
  "DECISION_OVERTAKEN = ''this task changed while the decision was being applied''"

definition read_for_decision :: "Env \<Rightarrow> uuid \<Rightarrow> uuid \<Rightarrow> uuid \<Rightarrow> Reading tx" where
  "read_for_decision env tenant user ident =
     seq (subject_task env tenant ident) (\<lambda>subject.
     seq (find_instance env tenant (ta_instance subject)) (\<lambda>found.
     seq (need (NotFound ''Workflow instance'') found) (\<lambda>row.
     seq (definition_of_instance env tenant (in_definition row)) (\<lambda>loaded.
     seq (need (no_such_definition (in_id row) (in_definition row)) loaded) (\<lambda>l.
     seq (find_document env tenant (ta_document subject)) (\<lambda>held.
     seq (need (NotFound ''Document'') held) (\<lambda>document.
     seq (variables_of env tenant (in_id row)) (\<lambda>vars.
     seq (context_of_document env tenant (do_type document) (do_created_by document)
            (do_requested_department document)) (\<lambda>context0.
     seq (read_document_type_key env tenant (do_type document)) (\<lambda>type_key.
     seq (read_actor_facts env tenant (Some user)) (\<lambda>facts.
     ret \<lparr>rd_subject = subject, rd_graph = parse_graph (df_json l) (df_version l),
          rd_document = document, rd_context = context0,
          rd_evaluation =
            \<lparr>ec_document = document_facts (status_from_db (do_status document)) (do_type document) type_key (do_number document),
             ec_form_data = do_form_data document, ec_variables = variable_context vars,
             ec_actor = facts\<rparr>\<rparr>)))))))))))"

definition decided_body :: "document_row \<Rightarrow> DecisionAction \<Rightarrow> string \<Rightarrow> string" where
  "decided_body document action name =
     or_default ''Your document'' (do_number document) @ '' was '' @ map lower (decision_as_db action) @
       '' by '' @ name @ ''.''"

definition tell_the_owner ::
  "Env \<Rightarrow> Caller \<Rightarrow> document_row \<Rightarrow> LockedTask \<Rightarrow> uuid \<Rightarrow> DecisionAction \<Rightarrow> unit tx" where
  "tell_the_owner env caller document locked ident action =
     (case do_created_by document of
        None \<Rightarrow> ret ()
      | Some owner \<Rightarrow>
          if owner = ca_user caller then ret ()
          else
            notify env
              \<lparr>nt_tenant = ca_tenant caller, nt_recipient = owner, nt_document = Some (lt_document locked),
               nt_instance = Some (lt_instance locked), nt_task = Some ident,
               nt_type = ''DOCUMENT_DECIDED'',
               nt_title = ''Your document was '' @ map lower (decision_as_db action),
               nt_body = decided_body document action (ca_name caller), nt_actor = Some (ca_user caller)\<rparr>)"

definition complete_or_refuse ::
  "Env \<Rightarrow> uuid \<Rightarrow> uuid \<Rightarrow> DecisionAction \<Rightarrow> string option \<Rightarrow> uuid \<Rightarrow> unit tx" where
  "complete_or_refuse env tenant ident action comment user =
     seq (complete env tenant ident action comment user) (\<lambda>changed.
     if changed = 0 then
       seq (lock_task env tenant ident) (\<lambda>found.
       seq (need (NotFound ''Task'') found) (\<lambda>now0.
       seq (lift_result (refuse_unless_open (lt_status now0) (lt_decided now0))) (\<lambda>_.
       fail (Conflict DECISION_OVERTAKEN))))
     else ret ())"

definition decide_locked ::
  "Env \<Rightarrow> Caller \<Rightarrow> DecisionAction \<Rightarrow> string option \<Rightarrow> Reading \<Rightarrow> (LockedTask \<times> Fired) tx" where
  "decide_locked env caller action comment reading =
     (let tenant = ca_tenant caller; user = ca_user caller; ident = ta_id (rd_subject reading) in
      seq (lock_instance env tenant (ta_instance (rd_subject reading))) (\<lambda>held.
      seq (need (NotFound ''Workflow instance'') held) (\<lambda>inst.
      seq (lock_task env tenant ident) (\<lambda>found.
      seq (need (NotFound ''Task'') found) (\<lambda>task0.
      seq (lift_result (refuse_unless_open (lt_status task0) (lt_decided task0))) (\<lambda>_.
      seq (case lt_role task0 of
             None \<Rightarrow> ret False
           | Some role \<Rightarrow> holds_role env tenant user role (lt_department task0)) (\<lambda>holds.
      seq (lift_result (refuse_unless_theirs user (lt_assignee task0) holds)) (\<lambda>_.
      seq (complete_or_refuse env tenant ident action comment user) (\<lambda>_.
      seq (record_task_history env tenant ident (li_id inst) (lt_document task0)
             (Some (lt_status task0)) TaskCompleted (Some (TransitionTaken (decision_transition action)))
             comment (Some user)) (\<lambda>_.
      seq (record_decision env tenant (lt_document task0) (li_id inst) ident user (lt_role task0) action
             (Some (ta_key (rd_subject reading))) comment) (\<lambda>_.
      seq (fire env tenant (li_id inst) (lt_document task0) (rd_graph reading) (li_state inst)
             (decision_transition action) (Some user) (rd_context reading) (rd_evaluation reading)
             \<lparr>pv_task = Some ident, pv_behalf = lt_delegated_from task0, pv_comment = comment\<rparr>) (\<lambda>fired.
      seq (record_activity env
             \<lparr>ac_tenant = tenant, ac_document = Some (lt_document task0),
              ac_instance = Some (lt_instance task0), ac_task = Some ident,
              ac_type = ''Workflow.Decided'', ac_actor = Some user,
              ac_details = json_object
                [(''action'', String (decision_as_db action)), (''from'', String (fi_from fired)),
                 (''to'', String (fi_to fired))]\<rparr>) (\<lambda>_.
      seq (tell_the_owner env caller (rd_document reading) task0 ident action) (\<lambda>_.
      ret (task0, fired)))))))))))))))"

record DecisionResult =
  dr_task :: uuid
  dr_instance :: uuid
  dr_document :: uuid
  dr_action :: DecisionAction
  dr_previous :: string
  dr_current :: string
  dr_status :: DocumentStatus

definition decide_task ::
  "Env \<Rightarrow> Caller \<Rightarrow> uuid \<Rightarrow> DecisionAction \<Rightarrow> string option \<Rightarrow> DecisionResult tx" where
  "decide_task env caller ident action comment0 =
     seq (require caller TASK_EXECUTE) (\<lambda>_.
     seq (lift_result (normalize_comment comment0)) (\<lambda>comment.
     seq (read_for_decision env (ca_tenant caller) (ca_user caller) ident) (\<lambda>reading.
     seq (transaction (decide_locked env caller action comment reading)) (\<lambda>(task0, fired).
     ret \<lparr>dr_task = ident, dr_instance = ta_instance (rd_subject reading),
          dr_document = lt_document task0, dr_action = action, dr_previous = fi_from fired,
          dr_current = fi_to fired, dr_status = fi_status fired\<rparr>))))"

end
