(* ===== verification/EngineFacts.thy ===== *)
theory EngineFacts
  imports Engine
begin

text \<open>
  What the engine does to a process, read off the store: the path a process has taken, the events
  that announce it, and the tasks it waits on.  The reference is a token that walks the graph; the
  engine's writes are shown to be that walk.
\<close>

section \<open>What entering a state leaves alone\<close>

text \<open>
  The part of the store that entering a state, raising its task and projecting the document's status
  do not touch: the process itself, its events, and everything a rule is resolved against.
\<close>

definition beside :: "Store \<Rightarrow> Store" where
  "beside st = st\<lparr>db_tasks := [], db_task_history := [], db_notifications := [], db_documents := [],
     db_parties := [], db_facilities := [], db_changes := [], db_sequences := [], db_variables := [], db_hook_log := [],
     db_activity := [], db_decisions := [], db_statements := 0, db_fresh := 0\<rparr>"

lemma beside_counted [simp]: "beside (counted st0 st) = beside st"
  by (simp add: beside_def counted_def)

lemma beside_tables [simp]: "beside (tables st) = beside st"
  by (simp add: beside_def tables_def)

lemma beside_update [simp]:
  "beside (db_tasks_update f st) = beside st" "beside (db_task_history_update g st) = beside st"
  "beside (db_notifications_update h st) = beside st" "beside (db_documents_update i st) = beside st"
  "beside (db_parties_update j st) = beside st"
  "beside (db_facilities_update e st) = beside st" "beside (db_changes_update q st) = beside st"
  "beside (db_sequences_update k st) = beside st"
  "beside (db_variables_update l st) = beside st" "beside (db_hook_log_update m st) = beside st"
  "beside (db_activity_update n st) = beside st" "beside (db_decisions_update d st) = beside st"
  "beside (db_statements_update p st) = beside st" "beside (db_fresh_update r st) = beside st"
  by (simp_all add: beside_def)

lemma beside_ungoverned [simp]: "beside (ungoverned st) = beside st"
  by (simp add: beside_def ungoverned_def)

lemma beside_sel:
  "db_users (beside st) = db_users st" "db_roles (beside st) = db_roles st"
  "db_departments (beside st) = db_departments st" "db_grants (beside st) = db_grants st"
  "db_instances (beside st) = db_instances st" "db_history (beside st) = db_history st"
  "db_events (beside st) = db_events st" "db_definitions (beside st) = db_definitions st"
  by (simp_all add: beside_def)

lemma reads_beside: "leaves tables m \<Longrightarrow> leaves beside m"
  by (erule leaves_reads) simp

lemmas beside_reads [leaving] =
  reads_fetch [THEN reads_beside] reads_resolve_assignment [THEN reads_beside]
  reads_hold_deciding_roles [THEN reads_beside]
  reads_refuse_unless_an_edge_resolves [THEN reads_beside] reads_permits [THEN reads_beside]

lemma leaves_let: "leaves f (g v) \<Longrightarrow> leaves f (let x = v in g x)"
  by simp

lemma leaves_prod [leaving]: "(\<And>a b. leaves f (g a b)) \<Longrightarrow> leaves f (case p of (a, b) \<Rightarrow> g a b)"
  by (cases p) simp

lemma beside_project [leaving]: "leaves beside (project_document_status env tenant document mt g)"
  unfolding project_document_status_def project_from_workflow_def
    set_status_from_workflow_def document_form_data_def
  by (intro leaving leaves_settle leaves_statement) simp_all

lemma beside_record_task_history [leaving]:
  "leaves beside (record_task_history env tenant i inst d from to0 act c actor)"
  unfolding record_task_history_def by (intro leaves_statement) simp

lemma beside_allocate [leaving]: "leaves beside (allocate env tenant kind)"
  unfolding allocate_def Let_def by (intro leaves_statement) auto

lemma beside_insert_task [leaving]: "leaves beside (insert_task env tenant new)"
  unfolding insert_task_def by (intro leaves_statement) simp

lemma beside_fresh_id [leaving]: "leaves beside (fresh_id env)"
  by (intro leaves_statement) simp

lemma beside_notify [leaving]: "leaves beside (notify_the_task_reached env tenant t inst d n r actor)"
  unfolding notify_the_task_reached_def notify_def holders_of_role_def
  by (intro leaving leaves_append_row) simp_all

lemma beside_raise_task [leaving]:
  "leaves beside (raise_task env tenant inst document g s spec actor c)"
  unfolding raise_task_def by (intro leaving)

lemma beside_enter_once [leaving]: "leaves beside (enter_once env tenant inst document g s actor c)"
  unfolding enter_once_def by (intro leaving)

lemma beside_before_chain [leaving]: "leaves beside (before_chain env chain ref inv0)"
  unfolding leaves_def before_chain_def by (auto split: prod.splits)

lemma beside_guards [leaving]:
  "leaves beside (run_transition_guards env tenant document g inst from chosen target actor ev)"
  unfolding run_transition_guards_def Let_def registry_chain_def metadata_of_def
  by (intro leaving)

lemma beside_write_variables [leaving]: "leaves beside (write_variables env tenant g inst ev)"
  unfolding write_variables_def insert_variables_def
  by (intro leaving leaves_insert_unique) simp_all

lemma beside_authorize [leaving]: "leaves beside (authorize_edge env tenant e c a b p)"
  unfolding authorize_edge_def by (intro leaving)


section \<open>The path of a process\<close>

text \<open>One row of the history, one announcement, and the state a process is in.\<close>

definition trail :: "uuid \<Rightarrow> uuid \<Rightarrow> Store \<Rightarrow> (string option \<times> string \<times> string option) list" where
  "trail tenant inst st =
     map (\<lambda>r. (hi_from r, hi_to r, hi_action r))
       (filter (\<lambda>r. hi_tenant r = tenant \<and> hi_instance r = inst) (db_history st))"

definition place :: "uuid \<Rightarrow> uuid \<Rightarrow> Store \<Rightarrow> string option" where
  "place tenant inst st = map_option in_state (find (the_instance tenant inst) (db_instances st))"

definition summary :: "event_row \<Rightarrow> string option \<times> string option \<times> string option \<times> json option" where
  "summary e =
     (let p = or_default Null (get (ev_payload e) ''payload'')
      in (get_str p ''fromState'', get_str p ''toState'', get_str p ''action'',
          get (ev_payload e) ''sequence''))"

definition announcements ::
  "uuid \<Rightarrow> uuid \<Rightarrow> Store \<Rightarrow> (string option \<times> string option \<times> string option \<times> json option) list" where
  "announcements tenant inst st =
     map summary
       (filter (\<lambda>e. ev_tenant e = tenant \<and> ev_aggregate e = inst \<and> ev_type e = WORKFLOW_TRANSITIONED)
         (db_events st))"

text \<open>What the three read, together: a step that leaves this leaves every process.\<close>

definition process :: "Store \<Rightarrow> instance_row list \<times> history_row list \<times> event_row list" where
  "process st = (db_instances st, db_history st, db_events st)"

lemma process_beside: "process st = process (beside st)"
  by (simp add: process_def beside_sel)

lemma process_tables [simp]: "process (tables st) = process st"
  by (simp add: process_def tables_sel)

lemma process_counted [simp]: "process (counted st0 st) = process st"
  by (simp add: process_def)

lemma leaves_process [leaving]: "leaves beside m \<Longrightarrow> leaves process m"
  unfolding leaves_def by (metis process_beside)

lemma process_views:
  assumes "process st' = process st"
  shows "trail t i st' = trail t i st" "place t i st' = place t i st"
    "announcements t i st' = announcements t i st" "db_instances st' = db_instances st"
    "db_history st' = db_history st" "db_events st' = db_events st"
  using assms by (simp_all add: process_def trail_def place_def announcements_def)

abbreviation ids_distinct :: "Store \<Rightarrow> bool" where
  "ids_distinct st \<equiv> distinct (map in_id (db_instances st))"

lemma find_the_instance:
  "distinct (map in_id rows) \<Longrightarrow> r \<in> set rows \<Longrightarrow> the_instance t i r \<Longrightarrow> find (the_instance t i) rows = Some r"
proof (induction rows)
  case (Cons x xs)
  show ?case
  proof (cases "the_instance t i x")
    case True
    with Cons.prems have "in_id x = in_id r" by (simp add: the_instance_def)
    with Cons.prems have "x = r" by (auto simp: image_iff)
    with True show ?thesis by simp
  next
    case False
    with Cons show ?thesis by auto
  qed
qed simp

lemma find_update_other:
  "(\<And>r. p r \<Longrightarrow> \<not> q r \<and> \<not> q (f r)) \<Longrightarrow> find q (update_where p f rows) = find q rows"
  by (induction rows) (auto simp: update_where_def)

lemma map_update_where: "(\<And>r. h (f r) = h r) \<Longrightarrow> map h (update_where p f rows) = map h rows"
  by (simp add: update_where_def)

lemma position_of_latest_Inr [steps]:
  "position_of_latest env tenant inst st = (st', Inr n) \<longleftrightarrow>
     db_fault (hooks env) (db_statements st) = None \<and> n = length (trail tenant inst st) \<and> st' = counted st st"
  by (auto simp: position_of_latest_def steps count_where_def trail_def)

lemma record_history_Inr [steps]:
  "record_history env row st = (st', Inr u) \<longleftrightarrow>
     db_fault (hooks env) (db_statements st) = None \<and>
     st' = counted st (db_history_update (\<lambda>rs. rs @ [row]) st)"
  by (simp add: record_history_def steps)

lemma trail_record [simp]:
  "trail t i (counted st0 st) = trail t i st"
  "trail t i (db_history_update (\<lambda>rs. rs @ [row]) st) =
     trail t i st @ (if hi_tenant row = t \<and> hi_instance row = i then [(hi_from row, hi_to row, hi_action row)] else [])"
  "trail t i (db_instances_update f st) = trail t i st"
  "trail t i (db_events_update g st) = trail t i st"
  "trail t i (st\<lparr>db_fresh := n\<rparr>) = trail t i st"
  by (auto simp: trail_def)

lemma place_simps [simp]:
  "place t i (counted st0 st) = place t i st"
  "place t i (db_history_update h st) = place t i st"
  "place t i (db_events_update g st) = place t i st"
  "place t i (st\<lparr>db_fresh := n\<rparr>) = place t i st"
  by (simp_all add: place_def)

lemma announcements_simps [simp]:
  "announcements t i (counted st0 st) = announcements t i st"
  "announcements t i (db_history_update h st) = announcements t i st"
  "announcements t i (db_instances_update f st) = announcements t i st"
  "announcements t i (st\<lparr>db_fresh := n\<rparr>) = announcements t i st"
  by (simp_all add: announcements_def)

lemma summary_transitioned:
  "summary (event_of ident o' \<lparr>ne_tenant = t, ne_aggregate_type = a, ne_aggregate = i, ne_type = ty,
     ne_sequence = Some n, ne_correlation = c, ne_causation = ca, ne_actor = by,
     ne_payload = transitioned_payload inst g doc from to0 act\<rparr>) =
   (Some from, Some to0, Some (action_as_db act), Some (json_int (int n)))"
proof -
  have "get (transitioned_payload inst g doc from to0 act) ''fromState'' = Some (String from)"
    "get (transitioned_payload inst g doc from to0 act) ''toState'' = Some (String to0)"
    "get (transitioned_payload inst g doc from to0 act) ''action'' = Some (String (action_as_db act))"
    unfolding transitioned_payload_def by (subst get_json_object; simp)+
  then show ?thesis by (simp add: summary_def event_of_def get_envelope or_default_def get_str_def)
qed

lemma write_event_Inr:
  "write_event env event st = (st', Inr ident) \<Longrightarrow>
     \<exists>st1. st' = counted st1 (db_events_update (\<lambda>rs. rs @ [event_of ident (occurred_at env) event]) st1) \<and>
       st1 = st\<lparr>db_fresh := Suc (db_fresh st)\<rparr>"
  by (auto simp: write_event_def steps)

lemma publish_transition_Inr:
  assumes "publish_transition env tenant inst document g from to0 act by st = (st', Inr u)"
  shows "place t i st' = place t i st" "trail t i st' = trail t i st" "db_instances st' = db_instances st"
    and "db_history st' = db_history st"
    and "announcements t i st' = announcements t i st @ (if (t, i) = (tenant, inst) then
      [(Some from, Some to0, Some (action_as_db act), Some (json_int (int (length (trail tenant inst st)))))]
      else [])"
proof -
  let ?e = "\<lparr>ne_tenant = tenant, ne_aggregate_type = WorkflowInstance, ne_aggregate = inst,
        ne_type = WORKFLOW_TRANSITIONED, ne_sequence = Some (length (trail tenant inst st)),
        ne_correlation = inst, ne_causation = None, ne_actor = by,
        ne_payload = transitioned_payload inst g document from to0 act\<rparr>"
  obtain ident st1 where w: "write_event env ?e (counted st st) = (st1, Inr ident)" and st': "st' = st1"
    using assms by (auto simp: publish_transition_def steps)
  from write_event_Inr [OF w] obtain st2 where
    st1: "st1 = counted st2 (db_events_update (\<lambda>rs. rs @ [event_of ident (occurred_at env) ?e]) st2)"
    and st2: "st2 = (counted st st)\<lparr>db_fresh := Suc (db_fresh (counted st st))\<rparr>" by blast
  have sel: "ev_tenant (event_of ident o' ?e) = tenant" "ev_aggregate (event_of ident o' ?e) = inst"
    "ev_type (event_of ident o' ?e) = WORKFLOW_TRANSITIONED" for o'
    by (simp_all add: event_of_def)
  show "place t i st' = place t i st" "trail t i st' = trail t i st" "db_instances st' = db_instances st"
    "db_history st' = db_history st"
    unfolding st' st1 st2 by simp_all
  show "announcements t i st' = announcements t i st @ (if (t, i) = (tenant, inst) then
      [(Some from, Some to0, Some (action_as_db act), Some (json_int (int (length (trail tenant inst st)))))]
      else [])"
    unfolding st' st1 st2 by (auto simp: announcements_def sel summary_transitioned)
qed

lemma move_state_Inr:
  assumes "move_state env tenant mv st = (st', Inr n)" "n \<noteq> 0" "ids_distinct st"
  shows "place tenant (mv_id mv) st = Some (mv_from mv)" "place tenant (mv_id mv) st' = Some (mv_to mv)"
    and "(t, i) \<noteq> (tenant, mv_id mv) \<Longrightarrow> place t i st' = place t i st"
    and "map in_id (db_instances st') = map in_id (db_instances st)"
    and "map in_tenant (db_instances st') = map in_tenant (db_instances st)"
    and "trail a b st' = trail a b st" "announcements a b st' = announcements a b st"
    and "db_history st' = db_history st"
proof -
  let ?p = "\<lambda>r. the_instance tenant (mv_id mv) r \<and> in_state r = mv_from mv"
  define f :: "instance_row \<Rightarrow> instance_row" where "f = (\<lambda>r. r\<lparr>in_state := mv_to mv,
      in_status := (if mv_final mv then ''COMPLETED'' else in_status r),
      in_outcome := (case mv_outcome mv of Some o' \<Rightarrow> Some (outcome_as_db o') | None \<Rightarrow> in_outcome r),
      in_completed := (if mv_final mv then Some (now env) else in_completed r)\<rparr>)"
  have f: "in_id (f r) = in_id r" "in_tenant (f r) = in_tenant r" "in_state (f r) = mv_to mv"
    "the_instance a b (f r) = the_instance a b r" for r a b
    by (simp_all add: f_def the_instance_def)
  have st': "st' = counted st (db_instances_update (update_where ?p f) st)"
    and n: "n = count_where ?p (db_instances st)"
    using assms(1) by (simp_all add: move_state_def steps f_def)
  from n assms(2) obtain r where r: "r \<in> set (db_instances st)" "the_instance tenant (mv_id mv) r"
    "in_state r = mv_from mv" by auto
  have found: "find (the_instance tenant (mv_id mv)) (db_instances st) = Some r"
    using find_the_instance [OF assms(3) r(1,2)] .
  show "place tenant (mv_id mv) st = Some (mv_from mv)" using found r(3) by (simp add: place_def)
  have "find (the_instance tenant (mv_id mv)) (update_where ?p f (db_instances st)) =
      map_option (\<lambda>r. if ?p r then f r else r) (find (the_instance tenant (mv_id mv)) (db_instances st))"
    by (rule find_cong_map) (simp add: f)
  then show "place tenant (mv_id mv) st' = Some (mv_to mv)"
    using found r by (simp add: st' place_def f)
  show "place t i st' = place t i st" if "(t, i) \<noteq> (tenant, mv_id mv)"
  proof -
    have "find (the_instance t i) (update_where ?p f (db_instances st)) =
        find (the_instance t i) (db_instances st)"
      by (rule find_update_other) (use that f(4) in \<open>auto simp: the_instance_def\<close>)
    then show ?thesis by (simp add: st' place_def)
  qed
  show "map in_id (db_instances st') = map in_id (db_instances st)"
    "map in_tenant (db_instances st') = map in_tenant (db_instances st)"
    by (simp_all add: st' map_update_where f)
  show "trail a b st' = trail a b st" "announcements a b st' = announcements a b st"
    "db_history st' = db_history st"
    by (simp_all add: st')
qed

text \<open>A move: the process was where it left from, is where it went, and both records say so.\<close>

lemma make_move_Inr:
  assumes move: "make_move env tenant inst document g from to0 target act actor decision routing by lost st = (st', Inr u)"
    and "ids_distinct st"
  shows "place tenant inst st = Some from" "place tenant inst st' = Some to0"
    and "trail t i st' = trail t i st @
      (if (t, i) = (tenant, inst) then [(Some from, to0, Some (action_as_db act))] else [])"
    and "announcements t i st' = announcements t i st @ (if (t, i) = (tenant, inst) then
      [(Some from, Some to0, Some (action_as_db act),
        Some (json_int (int (Suc (length (trail tenant inst st))))))] else [])"
    and "map in_id (db_instances st') = map in_id (db_instances st)"
    and "map in_tenant (db_instances st') = map in_tenant (db_instances st)"
    and "(t, i) \<noteq> (tenant, inst) \<Longrightarrow> place t i st' = place t i st"
proof -
  let ?mv = "\<lparr>mv_id = inst, mv_from = from, mv_to = to0, mv_final = is_final target,
    mv_outcome = outcome_of target\<rparr>"
  let ?row = "\<lparr>hi_tenant = tenant, hi_instance = inst, hi_document = document, hi_from = Some from,
    hi_to = to0, hi_action = Some (action_as_db act), hi_task = pv_task decision,
    hi_comment = pv_comment decision, hi_actor = actor,
    hi_on_behalf_of = pv_behalf decision, hi_routing = routing_json routing\<rparr>"
  obtain st1 n where m: "move_state env tenant ?mv st = (st1, Inr n)" "n \<noteq> 0"
    and p: "publish_transition env tenant inst document g from to0 act by
      (counted st1 (db_history_update (\<lambda>rs. rs @ [?row]) st1)) = (st', Inr u)"
    using move unfolding make_move_def by (auto simp: steps)
  note mv = move_state_Inr [OF m assms(2), simplified]
  note pb = publish_transition_Inr [OF p, simplified]
  show "place tenant inst st = Some from" "place tenant inst st' = Some to0"
    "map in_id (db_instances st') = map in_id (db_instances st)"
    "map in_tenant (db_instances st') = map in_tenant (db_instances st)"
    "(t, i) \<noteq> (tenant, inst) \<Longrightarrow> place t i st' = place t i st"
    using mv pb by auto
  show "trail t i st' = trail t i st @
      (if (t, i) = (tenant, inst) then [(Some from, to0, Some (action_as_db act))] else [])"
    using mv(6) pb(2) by auto
  show "announcements t i st' = announcements t i st @ (if (t, i) = (tenant, inst) then
      [(Some from, Some to0, Some (action_as_db act),
        Some (json_int (int (Suc (length (trail tenant inst st))))))] else [])"
    using mv(6,7) pb(5) by auto
qed


section \<open>The token\<close>

text \<open>
  The abstract process is a token on the graph.  From a service state it takes the automatic edge the
  conditions choose, from any other state it waits; a decision moves it once and lets it settle.  A
  step is the state left, the action and the state reached.
\<close>

type_synonym token_step = "string \<times> TransitionAction \<times> string"

definition auto_edge :: "Env \<Rightarrow> Graph \<Rightarrow> EvaluationContext \<Rightarrow> State \<Rightarrow> (Transition \<times> State) option" where
  "auto_edge env g ev s =
     (if \<not> is_service s then None
      else
        (case select_edge env ev (code s) AutoAction [] (candidates g (code s) AutoAction) of
           Inr (_, Some e) \<Rightarrow> map_option (Pair e) (state_of g (t_to e))
         | _ \<Rightarrow> None))"

fun auto_path :: "Env \<Rightarrow> Graph \<Rightarrow> EvaluationContext \<Rightarrow> nat \<Rightarrow> State \<Rightarrow> token_step list" where
  "auto_path env g ev 0 s = []"
| "auto_path env g ev (Suc n) s =
     (case auto_edge env g ev s of
        None \<Rightarrow> []
      | Some (e, t) \<Rightarrow> (code s, AutoAction, t_to e) # auto_path env g ev n t)"

fun auto_end :: "Env \<Rightarrow> Graph \<Rightarrow> EvaluationContext \<Rightarrow> nat \<Rightarrow> State \<Rightarrow> State" where
  "auto_end env g ev 0 s = s"
| "auto_end env g ev (Suc n) s =
     (case auto_edge env g ev s of None \<Rightarrow> s | Some (e, t) \<Rightarrow> auto_end env g ev n t)"

fun step_row :: "token_step \<Rightarrow> string option \<times> string \<times> string option" where
  "step_row (from, act, to0) = (Some from, to0, Some (action_as_db act))"

text \<open>The event of each row of a history, numbered by its position.\<close>

fun announced :: "nat \<Rightarrow> (string option \<times> string \<times> string option) list \<Rightarrow>
    (string option \<times> string option \<times> string option \<times> json option) list" where
  "announced n [] = []"
| "announced n ((from, to0, act) # rows) =
     (from, Some to0, act, Some (json_int (int (Suc n)))) # announced (Suc n) rows"

lemma announced_append: "announced n (p @ q) = announced n p @ announced (n + length p) q"
  by (induction n p rule: announced.induct) auto

text \<open>Each step of a path leaves the state the one before reached.\<close>

fun linked :: "string \<Rightarrow> token_step list \<Rightarrow> bool" where
  "linked at [] \<longleftrightarrow> True"
| "linked at ((from, act, to0) # path) \<longleftrightarrow> from = at \<and> linked to0 path"

lemma linked_append:
  "linked at p \<Longrightarrow> p \<noteq> [] \<Longrightarrow> linked (snd (snd (last p))) q \<Longrightarrow> linked at (p @ q)"
proof (induction at p rule: linked.induct)
  case (2 here a act b path)
  then show ?case by (cases path) auto
qed simp

lemma linked_hd: "linked at p \<Longrightarrow> p \<noteq> [] \<Longrightarrow> fst (hd p) = at"
  by (cases p) auto

text \<open>Between two stores the process \<open>inst\<close> took the steps of \<open>path\<close>, and no other process moved.\<close>

definition walked :: "uuid \<Rightarrow> uuid \<Rightarrow> token_step list \<Rightarrow> Store \<Rightarrow> Store \<Rightarrow> bool" where
  "walked tenant inst path st st' \<longleftrightarrow>
     trail tenant inst st' = trail tenant inst st @ map step_row path \<and>
     announcements tenant inst st' =
       announcements tenant inst st @ announced (length (trail tenant inst st)) (map step_row path) \<and>
     map in_id (db_instances st') = map in_id (db_instances st) \<and>
     map in_tenant (db_instances st') = map in_tenant (db_instances st) \<and>
     (\<forall>t i. (t, i) \<noteq> (tenant, inst) \<longrightarrow> trail t i st' = trail t i st \<and> place t i st' = place t i st \<and>
        announcements t i st' = announcements t i st) \<and>
     (if path = [] then place tenant inst st' = place tenant inst st
      else place tenant inst st = Some (fst (hd path)) \<and>
           place tenant inst st' = Some (snd (snd (last path))) \<and>
           linked (fst (hd path)) path)"

lemma walked_still: "process st' = process st \<Longrightarrow> walked tenant inst [] st st'"
proof -
  assume "process st' = process st"
  note process_views [OF this]
  then show ?thesis by (simp add: walked_def)
qed

lemma walked_ids: "walked tenant inst path st st' \<Longrightarrow> ids_distinct st' \<longleftrightarrow> ids_distinct st"
  by (simp add: walked_def)

lemma walked_trans:
  assumes "walked tenant inst p st st1" "walked tenant inst q st1 st2"
  shows "walked tenant inst (p @ q) st st2"
proof (cases "p = [] \<or> q = []")
  case True
  with assms show ?thesis unfolding walked_def by (auto simp: announced_append)
next
  case False
  with assms have "linked (fst (hd p)) p" "linked (snd (snd (last p))) q"
    unfolding walked_def by auto
  with False linked_append [of "fst (hd p)" p q] assms show ?thesis
    unfolding walked_def by (auto simp: announced_append)
qed

lemma walked_move:
  assumes "make_move env tenant inst document g from to0 target act actor decision routing by lost st = (st', Inr u)"
    and "ids_distinct st"
  shows "walked tenant inst [(from, act, to0)] st st'"
  unfolding walked_def
  using make_move_Inr(1,2,5,6) [OF assms]
    make_move_Inr(3,4) [OF assms, of tenant inst] make_move_Inr(3,4,7) [OF assms]
  by simp

lemma advance_Inr:
  assumes adv: "advance_automatically env tenant inst document g s actor ev st = (st', Inr reached)"
    and "is_service s" "ids_distinct st"
  shows "case auto_edge env g ev s of
      None \<Rightarrow> reached = None \<and> process st' = process st
    | Some (e, t) \<Rightarrow> reached = Some t \<and> walked tenant inst [(code s, AutoAction, t_to e)] st st'"
proof -
  obtain routing selected where sel:
    "select_edge env ev (code s) AutoAction [] (candidates g (code s) AutoAction) = Inr (routing, selected)"
    using adv by (auto simp: advance_automatically_def steps)
  show ?thesis
  proof (cases selected)
    case None
    with adv sel assms(2) show ?thesis by (auto simp: advance_automatically_def steps auto_edge_def)
  next
    case (Some e)
    with adv sel obtain t st1 st2 where t: "state_of g (t_to e) = Some t"
      and guards: "run_transition_guards env tenant document g inst s e t actor ev st = (st1, Inr ())"
      and move: "make_move env tenant inst document g (code s) (t_to e) t AutoAction actor
        no_provenance routing ByEngine AUTO_LOST st1 = (st2, Inr ())"
      and st': "st' = st2" "reached = Some t"
      by (auto simp: advance_automatically_def steps)
    have still: "process st1 = process st"
      by (rule leavesD [OF leaves_process [OF beside_guards] guards])
    from process_views(4) [OF this] have "ids_distinct st1" using assms(3) by simp
    then have "walked tenant inst ([] @ [(code s, AutoAction, t_to e)]) st st2"
      using walked_trans [OF walked_still [OF still] walked_move [OF move]] by blast
    then show ?thesis using sel Some t st' assms(2) by (simp add: auto_edge_def)
  qed
qed

lemma process_enter_once:
  "enter_once env tenant inst document g s actor c st = (st', r) \<Longrightarrow> process st' = process st"
  by (rule leavesD [OF leaves_process [OF beside_enter_once]])

lemma enter_once_status:
  "enter_once env tenant inst document g s actor c st = (st', Inr status) \<Longrightarrow>
     parse_document_status (maps_to_document_status s) = Some status"
  by (auto simp: enter_once_def project_document_status_def steps)

lemma enter_loop_Inr:
  assumes "enter_loop env tenant inst document g actor c ev n s status st = (st', Inr status')"
    and "ids_distinct st" "parse_document_status (maps_to_document_status s) = Some status"
  shows "walked tenant inst (auto_path env g ev n s) st st' \<and>
    (0 < n \<longrightarrow> length (auto_path env g ev n s) < n) \<and>
    parse_document_status (maps_to_document_status (auto_end env g ev n s)) = Some status'"
  using assms
proof (induction n arbitrary: s status st)
  case 0
  then show ?case by (simp add: steps walked_still)
next
  case (Suc n)
  show ?case
  proof (cases "is_service s")
    case False
    with Suc.prems show ?thesis by (simp add: steps walked_still auto_edge_def)
  next
    case True
    with Suc.prems(1) obtain st1 reached where
      adv: "advance_automatically env tenant inst document g s actor ev st = (st1, Inr reached)"
      and rest: "(case reached of None \<Rightarrow> ret status | Some target \<Rightarrow>
        seq (enter_once env tenant inst document g target actor c) (\<lambda>status'.
          if n = 0 then fail did_not_settle
          else enter_loop env tenant inst document g actor c ev n target status')) st1 = (st', Inr status')"
      by (auto simp: steps)
    note adv' = advance_Inr [OF adv True Suc.prems(2)]
    show ?thesis
    proof (cases "auto_edge env g ev s")
      case None
      with adv' rest Suc.prems(3) show ?thesis by (auto simp: steps walked_still)
    next
      case (Some et)
      obtain e t where et: "et = (e, t)" by (cases et)
      with adv' Some have r: "reached = Some t"
        and w: "walked tenant inst [(code s, AutoAction, t_to e)] st st1" by auto
      from rest r obtain st2 status1 where
        once: "enter_once env tenant inst document g t actor c st1 = (st2, Inr status1)"
        and n: "n \<noteq> 0"
        and loop: "enter_loop env tenant inst document g actor c ev n t status1 st2 = (st', Inr status')"
        by (auto simp: steps split: if_splits)
      have w2: "walked tenant inst ([(code s, AutoAction, t_to e)] @ []) st st2"
        using walked_trans [OF w walked_still [OF process_enter_once [OF once]]] .
      have "ids_distinct st2" using walked_ids [OF w2] Suc.prems(2) by simp
      from Suc.IH [OF loop this enter_once_status [OF once]] n
      have IH: "walked tenant inst (auto_path env g ev n t) st2 st'" "length (auto_path env g ev n t) < n"
        "parse_document_status (maps_to_document_status (auto_end env g ev n t)) = Some status'" by auto
      from walked_trans [OF w2 IH(1)] IH(2,3) Some et show ?thesis by simp
    qed
  qed
qed

lemma enter_state_Inr:
  assumes "enter_state env tenant inst document g s actor c ev st = (st', Inr status)" "ids_distinct st"
  shows "walked tenant inst (auto_path env g ev MAX_AUTOMATIC_STEPS s) st st'"
    and "length (auto_path env g ev MAX_AUTOMATIC_STEPS s) < MAX_AUTOMATIC_STEPS"
    and "parse_document_status (maps_to_document_status (auto_end env g ev MAX_AUTOMATIC_STEPS s)) = Some status"
proof -
  obtain st1 status1 where once: "enter_once env tenant inst document g s actor c st = (st1, Inr status1)"
    and loop: "enter_loop env tenant inst document g actor c ev MAX_AUTOMATIC_STEPS s status1 st1 = (st', Inr status)"
    using assms(1) by (auto simp: enter_state_def steps)
  have still: "process st1 = process st" by (rule process_enter_once [OF once])
  have "ids_distinct st1" using process_views(4) [OF still] assms(2) by simp
  note * = enter_loop_Inr [OF loop this enter_once_status [OF once]]
  show "walked tenant inst (auto_path env g ev MAX_AUTOMATIC_STEPS s) st st'"
    using walked_trans [OF walked_still [OF still], of tenant inst] * by fastforce
  show "length (auto_path env g ev MAX_AUTOMATIC_STEPS s) < MAX_AUTOMATIC_STEPS"
    "parse_document_status (maps_to_document_status (auto_end env g ev MAX_AUTOMATIC_STEPS s)) = Some status"
    using * by (auto simp: MAX_AUTOMATIC_STEPS_def)
qed


section \<open>Firing\<close>

text \<open>The edge's own rule admitted the actor, or the person the actor stands in for.\<close>

definition may_take ::
  "Env \<Rightarrow> uuid \<Rightarrow> Store \<Rightarrow> AssignmentContext \<Rightarrow> uuid option \<Rightarrow> uuid option \<Rightarrow> Transition \<Rightarrow> bool" where
  "may_take env tenant st context0 actor behalf edge \<longleftrightarrow>
     (case allowed_by edge of
        None \<Rightarrow> True
      | Some rule \<Rightarrow>
          \<exists>a r who. actor = Some a \<and> resolution env tenant rule context0 st = Some r \<and>
            (who = a \<or> behalf = Some who) \<and> admits env tenant st r who)"

lemma authorize_edge_Inr:
  "authorize_edge env tenant e c actor behalf path st = (st', Inr u) \<Longrightarrow>
     may_take env tenant st c actor behalf e"
  unfolding authorize_edge_def may_take_def
  by (auto simp: steps split: option.splits dest!: permits_Inr)

lemma fire_Inr:
  assumes "fire env tenant inst document g from act actor c ev decision st = (st', Inr f)"
    and "ids_distinct st"
  obtains routing chosen target where
    "select_edge env ev from act [] (candidates g from act) = Inr (routing, Some chosen)"
    "state_of g (t_to chosen) = Some target"
    "may_take env tenant st c actor (pv_behalf decision) chosen"
    "requires_comment chosen \<Longrightarrow> pv_comment decision \<noteq> None"
    "walked tenant inst ((from, act, t_to chosen) # auto_path env g ev MAX_AUTOMATIC_STEPS target) st st'"
    "length (auto_path env g ev MAX_AUTOMATIC_STEPS target) < MAX_AUTOMATIC_STEPS"
    "parse_document_status
       (maps_to_document_status (auto_end env g ev MAX_AUTOMATIC_STEPS target)) = Some (fi_status f)"
    "fi_from f = from" "fi_to f = t_to chosen" "fi_outcome f = outcome_of target"
proof -
  obtain routing chosen target st1 st2 status where
    sel: "select_edge env ev from act [] (candidates g from act) = Inr (routing, Some chosen)"
    and auth: "authorize_edge env tenant chosen c actor (pv_behalf decision) (allowed_by_path from act) st = (st1, Inr ())"
    and comment: "\<not> (requires_comment chosen \<and> pv_comment decision = None)"
    and target: "state_of g (t_to chosen) = Some target"
    and move: "make_move env tenant inst document g from (t_to chosen) target act actor decision routing
      (user_or_system actor) FIRE_LOST st1 = (st2, Inr ())"
    and enter: "enter_state env tenant inst document g target actor c ev st2 = (st', Inr status)"
    and f: "f = \<lparr>fi_from = from, fi_to = t_to chosen, fi_status = status, fi_outcome = outcome_of target\<rparr>"
    using assms(1) by (auto simp: fire_def steps)
  have still: "process st1 = process st"
    by (rule leavesD [OF leaves_process [OF beside_authorize] auth])
  from process_views(4) [OF still] assms(2) have ids1: "ids_distinct st1" by simp
  have w1: "walked tenant inst ([] @ [(from, act, t_to chosen)]) st st2"
    by (rule walked_trans [OF walked_still [OF still] walked_move [OF move ids1]])
  with walked_ids assms(2) have ids2: "ids_distinct st2" by blast
  note e = enter_state_Inr [OF enter ids2]
  show thesis
  proof (rule that [OF sel target])
    show "may_take env tenant st c actor (pv_behalf decision) chosen" by (rule authorize_edge_Inr [OF auth])
    show "requires_comment chosen \<Longrightarrow> pv_comment decision \<noteq> None" using comment by simp
    show "walked tenant inst ((from, act, t_to chosen) # auto_path env g ev MAX_AUTOMATIC_STEPS target) st st'"
      using walked_trans [OF w1 e(1)] by simp
  qed (use e(2,3) f in simp_all)
qed


section \<open>The history is the path of the process\<close>

text \<open>
  Every process is where its history ends, its history is one unbroken path that came from nowhere,
  and every transition of it, and nothing else, has been announced, once and with its position.
\<close>

fun unbroken :: "string option \<Rightarrow> (string option \<times> string \<times> string option) list \<Rightarrow> bool" where
  "unbroken here [] \<longleftrightarrow> True"
| "unbroken here ((from, to0, act) # rows) \<longleftrightarrow> from = here \<and> unbroken (Some to0) rows"

definition path_to :: "(string option \<times> string \<times> string option) list \<Rightarrow> string \<Rightarrow> bool" where
  "path_to rows s \<longleftrightarrow> rows \<noteq> [] \<and> unbroken None rows \<and> fst (snd (last rows)) = s"

definition sound_process :: "uuid \<Rightarrow> uuid \<Rightarrow> Store \<Rightarrow> bool" where
  "sound_process t i st \<longleftrightarrow>
     (case place t i st of
        None \<Rightarrow> trail t i st = [] \<and> announcements t i st = []
      | Some s \<Rightarrow> path_to (trail t i st) s \<and> announcements t i st = announced 1 (tl (trail t i st)))"

definition sound :: "Store \<Rightarrow> bool" where
  "sound st \<longleftrightarrow> ids_distinct st \<and> (\<forall>t i. sound_process t i st)"

lemma unbroken_append:
  "unbroken here (p @ q) \<longleftrightarrow>
     unbroken here p \<and> unbroken (if p = [] then here else Some (fst (snd (last p)))) q"
proof (induction here p rule: unbroken.induct)
  case (2 here a b act rows)
  then show ?case by (cases rows) auto
qed simp

lemma unbroken_linked: "linked s path \<Longrightarrow> unbroken (Some s) (map step_row path)"
  by (induction s path rule: linked.induct) auto

lemma step_row_sel [simp]: "fst (snd (step_row s)) = snd (snd s)"
  by (cases s) auto

lemma path_to_walk:
  assumes "path_to rows s" "linked s path" "path \<noteq> []"
  shows "path_to (rows @ map step_row path) (snd (snd (last path)))"
  using assms unbroken_linked [OF assms(2)]
  by (simp add: path_to_def unbroken_append last_map)

lemma sound_process_cong:
  "trail t i st' = trail t i st \<Longrightarrow> place t i st' = place t i st \<Longrightarrow>
     announcements t i st' = announcements t i st \<Longrightarrow> sound_process t i st' = sound_process t i st"
  by (simp add: sound_process_def split: option.split)

lemma sound_at: "sound st \<Longrightarrow> sound_process t i st"
  by (simp add: sound_def)

lemma walked_sound:
  assumes w: "walked tenant inst path st st'" and "sound st"
  shows "sound st'"
proof -
  have "sound_process t i st'" for t i
  proof (cases "(t, i) = (tenant, inst) \<and> path \<noteq> []")
    case False
    with w have "trail t i st' = trail t i st \<and> place t i st' = place t i st \<and>
      announcements t i st' = announcements t i st"
      unfolding walked_def by (cases "(t, i) = (tenant, inst)") auto
    with sound_at [OF assms(2)] show ?thesis using sound_process_cong by blast
  next
    case True
    with w have place0: "place tenant inst st = Some (fst (hd path))"
      "place tenant inst st' = Some (snd (snd (last path)))" "linked (fst (hd path)) path"
      and views: "trail tenant inst st' = trail tenant inst st @ map step_row path"
      "announcements tenant inst st' = announcements tenant inst st @
         announced (length (trail tenant inst st)) (map step_row path)"
      unfolding walked_def by auto
    from assms(2) place0(1) have before: "path_to (trail tenant inst st) (fst (hd path))"
      "announcements tenant inst st = announced 1 (tl (trail tenant inst st))"
      using sound_at [OF assms(2), of tenant inst] by (simp_all add: sound_process_def)
    from path_to_walk [OF before(1) place0(3)] True have "path_to (trail tenant inst st') (snd (snd (last path)))"
      using views by simp
    moreover have "trail tenant inst st \<noteq> []" using before(1) by (simp add: path_to_def)
    ultimately show ?thesis
      using True place0(2) views before(2)
      by (cases "trail tenant inst st") (simp_all add: sound_process_def announced_append)
  qed
  with assms show ?thesis using walked_ids [OF w] by (simp add: sound_def)
qed

lemma sound_still: "process st' = process st \<Longrightarrow> sound st \<Longrightarrow> sound st'"
  using walked_sound walked_still by blast

lemma fire_sound:
  assumes "fire env tenant inst document g from act actor c ev decision st = (st', Inr f)" "sound st"
  shows "sound st'"
proof -
  have "ids_distinct st" using assms(2) by (simp add: sound_def)
  from fire_Inr [OF assms(1) this] walked_sound assms(2) show ?thesis by metis
qed

section \<open>Starting\<close>

lemma insert_instance_Inr:
  assumes "insert_instance env row st = (st', Inr u)" "sound st" "\<not> in_deleted row" "in_tenant row = tenant"
    "in_id row = inst"
  shows "place tenant inst st' = Some (in_state row)"
    and "trail t i st' = trail t i st" "announcements t i st' = announcements t i st"
    and "(t, i) \<noteq> (tenant, inst) \<Longrightarrow> place t i st' = place t i st"
    and "ids_distinct st'" "trail tenant inst st = []" "announcements tenant inst st = []"
    and "\<forall>r \<in> set (db_instances st). in_id r \<noteq> inst \<and>
      \<not> (in_document r = in_document row \<and> live_row r \<and> live_row row)"
proof -
  from assms(1) have st': "st' = counted st (db_instances_update (\<lambda>rs. rs @ [row]) st)"
    and free: "\<forall>r \<in> set (db_instances st). \<not> instance_clash row r"
    by (auto simp: insert_instance_def steps list_ex_iff)
  then have new: "\<forall>r \<in> set (db_instances st). in_id r \<noteq> inst"
    using assms(5) by (auto simp: instance_clash_def)
  then have none: "find (the_instance tenant inst) (db_instances st) = None"
    by (auto simp: find_None_iff the_instance_def)
  have fa: "find q (rs @ [x]) = (case find q rs of None \<Rightarrow> if q x then Some x else None | Some y \<Rightarrow> Some y)"
    for q :: "instance_row \<Rightarrow> bool" and rs x by (induction rs) auto
  show "place tenant inst st' = Some (in_state row)"
    using none assms(3-5) by (simp add: st' place_def fa the_instance_def)
  show "place t i st' = place t i st" if "(t, i) \<noteq> (tenant, inst)"
    using that assms(4,5) by (auto simp: st' place_def fa the_instance_def split: option.split)
  show "trail t i st' = trail t i st" "announcements t i st' = announcements t i st"
    by (simp_all add: st')
  show "ids_distinct st'" using assms(2,5) new by (auto simp: st' sound_def)
  have "place tenant inst st = None" using none by (simp add: place_def)
  with assms(2) show "trail tenant inst st = []" "announcements tenant inst st = []"
    using sound_at [OF assms(2), of tenant inst] by (simp_all add: sound_process_def)
  show "\<forall>r \<in> set (db_instances st). in_id r \<noteq> inst \<and>
      \<not> (in_document r = in_document row \<and> live_row r \<and> live_row row)"
    using free new by (auto simp: instance_clash_def)
qed

lemma beside_allocate_process: "allocate env tenant kind st = (st', r) \<Longrightarrow> process st' = process st"
  by (rule leavesD [OF leaves_process [OF beside_allocate]])

lemma write_variables_tasks:
  "leaves db_tasks (write_variables env tenant g inst ev)"
  "leaves db_decisions (write_variables env tenant g inst ev)"
  unfolding write_variables_def insert_variables_def
  by (auto intro!: leaving leaves_insert_unique)

lemma start_Inr:
  assumes "start env tenant document d key actor c ev st = (st', Inr sd)" "sound st"
  obtains loaded initial where
    "find (\<lambda>x. df_id x = d) (db_definitions st) = Some loaded" "df_tenant loaded = tenant"
    "list_ex (\<lambda>x. df_tenant x = tenant \<and> df_id x = d \<and> \<not> df_deleted x \<and> df_status x = ''ACTIVE'')
       (db_definitions st)"
    "state_of (parse_graph (df_json loaded) (df_version loaded))
       (initial_state (parse_graph (df_json loaded) (df_version loaded))) = Some initial"
    "\<forall>r \<in> set (db_instances st). in_id r \<noteq> sd_instance sd \<and> \<not> (in_document r = document \<and> live_row r)"
    "trail tenant (sd_instance sd) st' = (None, code initial, None) #
       map step_row (auto_path env (parse_graph (df_json loaded) (df_version loaded)) ev MAX_AUTOMATIC_STEPS initial)"
    "parse_document_status (maps_to_document_status (auto_end env
       (parse_graph (df_json loaded) (df_version loaded)) ev MAX_AUTOMATIC_STEPS initial)) = Some (sd_status sd)"
    "sound st'"
    "\<exists>st4. sound st4 \<and> db_tasks st4 = db_tasks st \<and> db_decisions st4 = db_decisions st \<and>
       enter_state env tenant (sd_instance sd) document (parse_graph (df_json loaded) (df_version loaded))
         initial actor c ev st4 = (st', Inr (sd_status sd))"
proof -
  let ?st0 = "counted (counted st st) (counted st st)"
  obtain loaded initial inst ref st1 st2 st3 status where
    loaded: "find (\<lambda>x. df_id x = d) (db_definitions st) = Some loaded" "df_tenant loaded = tenant"
    and held: "map_option df_status (find (\<lambda>d'. df_tenant d' = tenant \<and> df_id d' = d \<and> \<not> df_deleted d')
      (db_definitions st)) = Some ''ACTIVE''"
    and initial: "state_of (parse_graph (df_json loaded) (df_version loaded))
       (initial_state (parse_graph (df_json loaded) (df_version loaded))) = Some initial"
    and alloc: "allocate env tenant InstanceRef (?st0\<lparr>db_fresh := Suc (db_fresh st)\<rparr>) = (st1, Inr ref)"
    and ins: "insert_instance env (new_instance tenant inst ref d document key
       (initial_state (parse_graph (df_json loaded) (df_version loaded))) actor) st1 = (st2, Inr ())"
    and vars: "write_variables env tenant (parse_graph (df_json loaded) (df_version loaded)) inst ev st2 = (st3, Inr ())"
    and enter: "enter_state env tenant inst document (parse_graph (df_json loaded) (df_version loaded)) initial
       actor c ev (counted st3 (db_history_update (\<lambda>rs. rs @ [\<lparr>hi_tenant = tenant, hi_instance = inst,
         hi_document = document, hi_from = None,
         hi_to = initial_state (parse_graph (df_json loaded) (df_version loaded)), hi_action = None,
         hi_task = None, hi_comment = None, hi_actor = actor, hi_on_behalf_of = None, hi_routing = None\<rparr>]) st3))
       = (st', Inr status)"
    and sd: "sd = \<lparr>sd_instance = inst, sd_ref = ref, sd_status = status\<rparr>"
    using assms(1)
    by (auto simp: start_def steps lock_for_start_def definition_of_instance_def Let_def counted_def
        split: option.splits if_splits)
  let ?g = "parse_graph (df_json loaded) (df_version loaded)"
  let ?path = "auto_path env ?g ev MAX_AUTOMATIC_STEPS initial"
  let ?st4 = "counted st3 (db_history_update (\<lambda>rs. rs @ [\<lparr>hi_tenant = tenant, hi_instance = inst,
         hi_document = document, hi_from = None, hi_to = initial_state ?g, hi_action = None,
         hi_task = None, hi_comment = None, hi_actor = actor, hi_on_behalf_of = None, hi_routing = None\<rparr>]) st3)"
  have code0: "code initial = initial_state ?g"
    using initial by (auto simp: state_of_def find_Some_iff)
  have p1: "process st1 = process st"
    using beside_allocate_process [OF alloc] by (simp add: process_def)
  have p3: "process st3 = process st2"
    by (rule leavesD [OF leaves_process [OF beside_write_variables] vars])
  have sound1: "sound st1" using sound_still [OF p1 assms(2)] .
  note new = insert_instance_Inr [OF ins sound1, of tenant inst]
  have i: "place tenant inst st2 = Some (initial_state ?g)" "trail tenant inst st2 = []"
    "announcements tenant inst st2 = []" "ids_distinct st2"
    using new(1,5-7) new(2,3) [of tenant inst] by (simp_all add: new_instance_def)
  have elsewhere: "trail t j st2 = trail t j st1" "announcements t j st2 = announcements t j st1"
    "(t, j) \<noteq> (tenant, inst) \<Longrightarrow> place t j st2 = place t j st1" for t j
    using new(2-4) [of t j] by (simp_all add: new_instance_def)
  note v3 = process_views [OF p3] and v1 = process_views [OF p1]
  have free: "\<forall>r \<in> set (db_instances st). in_id r \<noteq> inst \<and> \<not> (in_document r = document \<and> live_row r)"
    using new(8) v1(4) by (auto simp: live_row_def LIVE_STATUSES_def new_instance_def)
  have views4: "trail tenant inst ?st4 = [(None, initial_state ?g, None)]"
    "place tenant inst ?st4 = Some (initial_state ?g)" "announcements tenant inst ?st4 = []"
    using i v3 by simp_all
  have sound4: "sound ?st4"
    unfolding sound_def
  proof (intro conjI allI)
    show "ids_distinct ?st4" using i(4) v3(4) by simp
    fix t j
    show "sound_process t j ?st4"
    proof (cases "(t, j) = (tenant, inst)")
      case True
      then show ?thesis using views4 by (simp add: sound_process_def path_to_def)
    next
      case False
      then have "trail t j ?st4 = trail t j st1" "place t j ?st4 = place t j st1"
        "announcements t j ?st4 = announcements t j st1"
        using elsewhere v3 by auto
      with sound_at [OF sound1] show ?thesis using sound_process_cong by blast
    qed
  qed
  then have ids4: "ids_distinct ?st4" by (simp add: sound_def)
  have beside4: "db_tasks ?st4 = db_tasks st" "db_decisions ?st4 = db_decisions st"
    using leavesD [OF write_variables_tasks(1) vars] leavesD [OF write_variables_tasks(2) vars] alloc ins
    by (auto simp: allocate_def Let_def sql_Inr insert_instance_def insert_unique_Inr)
  note e = enter_state_Inr [OF enter ids4]
  show thesis
  proof (rule that [OF loaded _ initial])
    show "list_ex (\<lambda>x. df_tenant x = tenant \<and> df_id x = d \<and> \<not> df_deleted x \<and> df_status x = ''ACTIVE'')
       (db_definitions st)"
      using held by (auto simp: list_ex_iff find_Some_iff)
    show "trail tenant (sd_instance sd) st' = (None, code initial, None) # map step_row ?path"
      using e(1) views4(1) code0 sd by (simp add: walked_def)
    show "sound st'" by (rule walked_sound [OF e(1) sound4])
    show "\<exists>st4. sound st4 \<and> db_tasks st4 = db_tasks st \<and> db_decisions st4 = db_decisions st \<and>
       enter_state env tenant (sd_instance sd) document ?g initial actor c ev st4 = (st', Inr (sd_status sd))"
      using sound4 beside4 enter sd by auto
  qed (use free e(3) sd in simp_all)
qed

end
