(* ===== verification/EngineTasks.thy ===== *)
theory EngineTasks
  imports EngineFacts
begin

text \<open>
  The task a settled process waits on and the status its document shows.  A state a person performs
  raises exactly one task, assigned to a person or offered to a role; a state nobody performs raises
  none; and the document's status is the one the state reached maps to.
\<close>

section \<open>Steps that raise no task and project no status\<close>

lemma reads_db_tasks: "leaves tables m \<Longrightarrow> leaves db_tasks m"
  by (erule leaves_reads) (simp add: tables_sel)

lemma reads_db_documents: "leaves tables m \<Longrightarrow> leaves db_documents m"
  by (erule leaves_reads) (simp add: tables_sel)

lemmas reads_engine =
  reads_fetch reads_resolve_assignment reads_hold_deciding_roles
  reads_refuse_unless_an_edge_resolves reads_permits

lemmas tasks_reads [leaving] = reads_engine [THEN reads_db_tasks]
lemmas documents_reads [leaving] = reads_engine [THEN reads_db_documents]

lemma leaves_before_chain:
  "(\<And>st log n. f (st\<lparr>db_hook_log := log, db_statements := n\<rparr>) = f st) \<Longrightarrow>
     leaves f (before_chain env chain ref inv0)"
  unfolding leaves_def before_chain_def by (auto split: prod.splits)

lemma tasks_before_chain [leaving]: "leaves db_tasks (before_chain env chain ref inv0)"
  by (rule leaves_before_chain) simp

lemma documents_before_chain [leaving]: "leaves db_documents (before_chain env chain ref inv0)"
  by (rule leaves_before_chain) simp

lemma tasks_guards [leaving]:
  "leaves db_tasks (run_transition_guards env tenant document g inst from chosen target actor ev)"
  unfolding run_transition_guards_def Let_def registry_chain_def metadata_of_def by (intro leaving)

lemma documents_guards [leaving]:
  "leaves db_documents (run_transition_guards env tenant document g inst from chosen target actor ev)"
  unfolding run_transition_guards_def Let_def registry_chain_def metadata_of_def by (intro leaving)

lemma tasks_move [leaving]:
  "leaves db_tasks (make_move env tenant inst document g from to0 target act actor decision routing by lost)"
  unfolding make_move_def move_state_def record_history_def publish_transition_def write_event_def
    position_of_latest_def
  by (intro leaving leaves_update_rows leaves_append_row leaves_insert_unique leaves_fresh_id) simp_all

lemma documents_move [leaving]:
  "leaves db_documents (make_move env tenant inst document g from to0 target act actor decision routing by lost)"
  unfolding make_move_def move_state_def record_history_def publish_transition_def write_event_def
    position_of_latest_def
  by (intro leaving leaves_update_rows leaves_append_row leaves_insert_unique leaves_fresh_id) simp_all

lemma tasks_project [leaving]: "leaves db_tasks (project_document_status env tenant document mt g)"
  unfolding project_document_status_def project_from_workflow_def
    set_status_from_workflow_def document_form_data_def
  by (intro leaving leaves_settle leaves_update_rows) simp_all

lemma documents_raise_task [leaving]:
  "leaves db_documents (raise_task env tenant inst document g s spec actor c)"
  unfolding raise_task_def allocate_def Let_def insert_task_def record_task_history_def
    notify_the_task_reached_def notify_def holders_of_role_def
  by (intro leaving leaves_insert_unique leaves_append_row leaves_fresh_id leaves_sql) auto

section \<open>The task a state raises\<close>

definition open_of :: "uuid \<Rightarrow> Store \<Rightarrow> task_row list" where
  "open_of inst st = filter (\<lambda>r. ta_instance r = inst \<and> open_row r) (db_tasks st)"

text \<open>Whom a task is for, as the assignment rule of its state says over a store.\<close>

definition holding :: "Env \<Rightarrow> uuid \<Rightarrow> AssignmentContext \<Rightarrow> Store \<Rightarrow> TaskSpec \<Rightarrow> ResolvedAssignment option" where
  "holding env tenant c st spec = holder env tenant (assignment spec) c st"

lemma holding_roster:
  assumes "roster st' = roster st"
  shows "holding env tenant c st' = holding env tenant c st"
  unfolding fun_eq_iff holding_def holder_roster [OF assms] by simp

definition raised_for ::
  "(TaskSpec \<Rightarrow> ResolvedAssignment option) \<Rightarrow> uuid \<Rightarrow> uuid \<Rightarrow> uuid \<Rightarrow> TaskSpec \<Rightarrow> task_row \<Rightarrow> bool" where
  "raised_for held tenant inst document spec r \<longleftrightarrow>
     ta_tenant r = tenant \<and> ta_instance r = inst \<and> ta_document r = document \<and>
     ta_key r = task_definition_key spec \<and> open_row r \<and> ta_action r = None \<and>
     ta_status r = task_as_db (assigned_status (ta_assignee r)) \<and>
     (ta_assignee r = None) \<noteq> (ta_role r = None) \<and>
     (ta_delegated_from r \<noteq> None \<longrightarrow> ta_assignee r \<noteq> None) \<and>
     held spec = Some \<lparr>ra_assignee = ta_assignee r, ra_role = ta_role r, ra_department = ta_department r,
       ra_delegated_from = ta_delegated_from r\<rparr>"

definition raised ::
  "(TaskSpec \<Rightarrow> ResolvedAssignment option) \<Rightarrow> uuid \<Rightarrow> uuid \<Rightarrow> uuid \<Rightarrow> TaskSpec option \<Rightarrow> Store \<Rightarrow> Store \<Rightarrow> bool"
where
  "raised held tenant inst document wanted st st' \<longleftrightarrow>
     (case wanted of
        None \<Rightarrow> db_tasks st' = db_tasks st
      | Some spec \<Rightarrow> open_of inst st = [] \<and>
          (\<exists>row. raised_for held tenant inst document spec row \<and> ta_id row \<notin> ta_id ` set (db_tasks st) \<and>
             db_tasks st' = db_tasks st @ [row]))"

lemma assigned_status_open [simp]: "task_as_db (assigned_status a) \<in> set OPEN_STATUSES"
  by (simp add: assigned_status_def OPEN_STATUSES_def)

lemma raise_task_Inr:
  assumes "raise_task env tenant inst document g s spec actor c st = (st', Inr u)"
  shows "raised (holding env tenant c st) tenant inst document (Some spec) st st'"
proof -
  obtain resolved st1 st2 st3 st4 st5 st6 ref task_id new where
    r: "resolve_assignment env tenant (assignment spec) c (''states.'' @ s @ ''.task.assignment'') st = (st1, Inr resolved)"
    and h: "hold_deciding_roles env tenant (edge_rules g s) st1 = (st2, Inr ())"
    and e: "refuse_unless_an_edge_resolves env tenant c (actions_from g s) st2 = (st3, Inr ())"
    and a: "allocate env tenant TaskRef st3 = (st4, Inr ref)"
    and ins: "insert_task env tenant new (st4\<lparr>db_fresh := Suc (db_fresh st4)\<rparr>) = (st5, Inr ())"
    and new: "nk_instance new = inst" "nk_document new = document" "nk_key new = task_definition_key spec"
      "nk_assignee new = ra_assignee resolved" "nk_role new = ra_role resolved"
      "nk_delegated_from new = ra_delegated_from resolved" "nk_department new = ra_department resolved"
    and th: "record_task_history env tenant task_id inst document None
      (assigned_status (ra_assignee resolved)) None None actor st5 = (st6, Inr ())"
    and nt: "notify_the_task_reached env tenant task_id inst document (task_name spec) resolved actor st6 = (st', Inr u)"
    using assms unfolding raise_task_def by (auto simp: steps)
  have same: "db_tasks st4 = db_tasks st"
    using leavesD [OF reads_db_tasks [OF reads_resolve_assignment] r]
      leavesD [OF reads_db_tasks [OF reads_hold_deciding_roles] h]
      leavesD [OF reads_db_tasks [OF reads_refuse_unless_an_edge_resolves] e] a
    by (auto simp: allocate_def Let_def sql_Inr)
  have after: "db_tasks st' = db_tasks st5"
  proof -
    have "leaves db_tasks (notify_the_task_reached env tenant task_id inst document (task_name spec) resolved actor)"
      unfolding notify_the_task_reached_def notify_def holders_of_role_def
      by (intro leaving leaves_append_row) simp_all
    from leavesD [OF this nt] th show ?thesis by (simp add: record_task_history_def steps)
  qed
  from ins obtain row where row: "db_tasks st5 = db_tasks st @ [row]"
    "\<forall>old \<in> set (db_tasks st). \<not> task_clash row old"
    and cols: "ta_tenant row = tenant" "ta_instance row = nk_instance new" "ta_document row = nk_document new"
      "ta_key row = nk_key new" "ta_status row = task_as_db (assigned_status (nk_assignee new))"
      "ta_assignee row = nk_assignee new" "ta_role row = nk_role new" "ta_action row = None"
      "ta_delegated_from row = nk_delegated_from new" "ta_department row = nk_department new" "\<not> ta_deleted row"
    by (auto simp: insert_task_def steps same list_ex_iff)
  have opn: "open_row row" using cols by (simp add: open_row_def)
  from row(2) opn cols(2) new(1) have "open_of inst st = []"
    by (auto simp: open_of_def filter_empty_conv task_clash_def)
  moreover have "raised_for (holding env tenant c st) tenant inst document spec row"
    using cols new opn resolve_assignment_well_assigned [OF r] resolve_assignment_holder [OF r]
    by (auto simp: raised_for_def well_assigned_def holding_def)
  moreover have "ta_id row \<notin> ta_id ` set (db_tasks st)" using row(2) by (auto simp: task_clash_def)
  ultimately show ?thesis using row(1) after by (auto simp: raised_def)
qed

lemma enter_once_raised:
  assumes "enter_once env tenant inst document g s actor c st = (st', Inr status)"
  shows "raised (holding env tenant c st) tenant inst document (human_task s) st st'"
proof -
  obtain st1 where first: "(case human_task s of None \<Rightarrow> ret ()
      | Some spec \<Rightarrow> raise_task env tenant inst document g (code s) spec actor c) st = (st1, Inr ())"
    and proj: "project_document_status env tenant document (maps_to_document_status s) g st1 = (st', Inr status)"
    using assms by (auto simp: enter_once_def steps)
  have "db_tasks st' = db_tasks st1" by (rule leavesD [OF tasks_project proj])
  with first show ?thesis
    by (cases "human_task s") (auto simp: steps raised_def dest!: raise_task_Inr)
qed

lemma tasks_advance [leaving]: "leaves db_tasks (advance_automatically env tenant inst document g s actor ev)"
  unfolding advance_automatically_def by (intro leaving)

lemma documents_advance [leaving]:
  "leaves db_documents (advance_automatically env tenant inst document g s actor ev)"
  unfolding advance_automatically_def by (intro leaving)

lemma service_has_no_human_task [simp]: "is_service s \<Longrightarrow> human_task s = None"
  by (auto simp: is_service_def human_task_def split: option.splits)

lemma raised_cong:
  "db_tasks st = db_tasks st0 \<Longrightarrow> raised held tenant inst document w st st' = raised held tenant inst document w st0 st'"
  by (simp add: raised_def open_of_def split: option.split)

lemma roster_beside [leaving]: "leaves beside m \<Longrightarrow> leaves roster m"
proof -
  have "roster st = roster (beside st)" for st by (simp add: roster_def beside_def)
  then show "leaves beside m \<Longrightarrow> leaves roster m" unfolding leaves_def by metis
qed

lemma roster_move [leaving]:
  "leaves roster (make_move env tenant inst document g from to0 target act actor decision routing by lost)"
  unfolding make_move_def move_state_def record_history_def publish_transition_def write_event_def
    position_of_latest_def
  by (intro leaving leaves_update_rows leaves_append_row leaves_insert_unique leaves_fresh_id)
    (simp_all add: roster_def)

lemma roster_advance [leaving]:
  "leaves roster (advance_automatically env tenant inst document g s actor ev)"
  unfolding advance_automatically_def by (intro leaving)

lemma raised_roster:
  assumes "roster st = roster st0" "db_tasks st = db_tasks st0"
  shows "raised (holding env tenant c st) tenant inst document w st st' =
    raised (holding env tenant c st0) tenant inst document w st0 st'"
  unfolding holding_roster [OF assms(1)] by (rule raised_cong [OF assms(2)])

lemma enter_loop_raised:
  assumes "enter_loop env tenant inst document g actor c ev n s status st = (st', Inr status')"
    and "ids_distinct st"
  shows "if is_service s then raised (holding env tenant c st) tenant inst document (human_task (auto_end env g ev n s)) st st'
    else db_tasks st' = db_tasks st"
  using assms
proof (induction n arbitrary: s status st)
  case 0
  then show ?case by (simp add: steps raised_def)
next
  case (Suc n)
  show ?case
  proof (cases "is_service s")
    case False
    with Suc.prems show ?thesis by (simp add: steps)
  next
    case True
    with Suc.prems(1) obtain st1 reached where
      adv: "advance_automatically env tenant inst document g s actor ev st = (st1, Inr reached)"
      and rest: "(case reached of None \<Rightarrow> ret status | Some target \<Rightarrow>
        seq (enter_once env tenant inst document g target actor c) (\<lambda>status'.
          if n = 0 then fail did_not_settle
          else enter_loop env tenant inst document g actor c ev n target status')) st1 = (st', Inr status')"
      by (auto simp: steps)
    have t1: "db_tasks st1 = db_tasks st" by (rule leavesD [OF tasks_advance adv])
    note adv' = advance_Inr [OF adv True Suc.prems(2)]
    show ?thesis
    proof (cases "auto_edge env g ev s")
      case None
      with adv' rest True t1 show ?thesis by (auto simp: steps raised_def)
    next
      case (Some et)
      obtain e t where et: "et = (e, t)" by (cases et)
      with adv' Some have r: "reached = Some t"
        and w: "walked tenant inst [(code s, AutoAction, t_to e)] st st1" by auto
      from rest r obtain st2 status1 where
        once: "enter_once env tenant inst document g t actor c st1 = (st2, Inr status1)"
        and loop: "enter_loop env tenant inst document g actor c ev n t status1 st2 = (st', Inr status')"
        by (auto simp: steps split: if_splits)
      have ids2: "ids_distinct st2"
        using process_views(4) [OF process_enter_once [OF once]] walked_ids [OF w] Suc.prems(2) by simp
      have s1: "roster st1 = roster st" by (rule leavesD [OF roster_advance adv])
      with leavesD [OF roster_beside [OF beside_enter_once] once] have s2: "roster st2 = roster st" by simp
      note IH = Suc.IH [OF loop ids2]
      have r1: "raised (holding env tenant c st) tenant inst document (human_task t) st st2"
        using enter_once_raised [OF once] raised_roster [OF s1 t1] by blast
      show ?thesis
      proof (cases "is_service t")
        case True
        with r1 have "db_tasks st2 = db_tasks st" by (simp add: raised_def)
        with IH True \<open>is_service s\<close> Some et show ?thesis
          using raised_roster [OF s2] by simp
      next
        case False
        then have "auto_end env g ev n t = t" by (cases n) (simp_all add: auto_edge_def)
        with IH False \<open>is_service s\<close> r1 Some et show ?thesis by (simp add: raised_def split: option.splits)
      qed
    qed
  qed
qed

text \<open>Entering a state leaves the process waiting where it settles.\<close>

lemma enter_state_raised:
  assumes "enter_state env tenant inst document g s actor c ev st = (st', Inr status)" "ids_distinct st"
  shows "raised (holding env tenant c st) tenant inst document (human_task (auto_end env g ev MAX_AUTOMATIC_STEPS s)) st st'"
proof -
  obtain st1 status1 where once: "enter_once env tenant inst document g s actor c st = (st1, Inr status1)"
    and loop: "enter_loop env tenant inst document g actor c ev MAX_AUTOMATIC_STEPS s status1 st1 = (st', Inr status)"
    using assms(1) by (auto simp: enter_state_def steps)
  have "ids_distinct st1" using process_views(4) [OF process_enter_once [OF once]] assms(2) by simp
  note l = enter_loop_raised [OF loop this] and r = enter_once_raised [OF once]
  show ?thesis
  proof (cases "is_service s")
    case True
    with r have "db_tasks st1 = db_tasks st" by (simp add: raised_def)
    with l True show ?thesis
      using raised_roster [OF leavesD [OF roster_beside [OF beside_enter_once] once]] by simp
  next
    case False
    then have "auto_end env g ev MAX_AUTOMATIC_STEPS s = s"
      by (simp add: MAX_AUTOMATIC_STEPS_def numeral_eq_Suc auto_edge_def)
    with l r False show ?thesis by (simp add: raised_def split: option.splits)
  qed
qed

section \<open>The status the document shows\<close>

definition shown :: "uuid \<Rightarrow> uuid \<Rightarrow> Store \<Rightarrow> string option" where
  "shown tenant document st = map_option do_status (find (the_document tenant document) (db_documents st))"

lemma shown_documents: "db_documents st' = db_documents st \<Longrightarrow> shown t d st' = shown t d st"
  by (simp add: shown_def)

lemma project_shown:
  assumes "project_document_status env tenant document mt g st = (st', Inr status)"
  shows "shown tenant document st' = map_option (\<lambda>_. status_as_db status) (shown tenant document st)"
proof -
  obtain n m st1 where set: "set_status_from_workflow env tenant document status st = (st1, Inr n)"
    and rest: "(case settlement_of status of None \<Rightarrow> ret n
      | Some approved \<Rightarrow> seq (document_form_data env tenant document) (\<lambda>form.
          seq (settle_change env tenant document approved (case form of None \<Rightarrow> Object [] | Some v \<Rightarrow> v))
            (\<lambda>_. ret n))) st1 = (st', Inr m)"
    using assms by (auto simp: project_document_status_def project_from_workflow_def seq_Inr need_Inr ret_Inr
        cong: option.case_cong_weak)
  have "leaves db_documents (case settlement_of status of None \<Rightarrow> ret n
      | Some approved \<Rightarrow> seq (document_form_data env tenant document) (\<lambda>form.
          seq (settle_change env tenant document approved (case form of None \<Rightarrow> Object [] | Some v \<Rightarrow> v))
            (\<lambda>_. ret n)))"
    unfolding document_form_data_def by (intro leaving leaves_settle) simp
  from leavesD [OF this rest] have "db_documents st' = db_documents st1" .
  moreover have "shown tenant document st1 = map_option (\<lambda>_. status_as_db status) (shown tenant document st)"
  proof -
    define h :: "document_row \<Rightarrow> document_row" where
      "h = (\<lambda>d. d\<lparr>do_status := status_as_db status,
        do_completed := (if status = DocCompleted then Some (now env) else do_completed d)\<rparr>)"
    have "db_documents st1 = update_where (the_document tenant document) h (db_documents st)"
      using set by (auto simp: set_status_from_workflow_def steps h_def)
    moreover have "find (the_document tenant document) (update_where (the_document tenant document) h rows) =
        map_option h (find (the_document tenant document) rows)" for rows
      by (induction rows) (auto simp: update_where_def the_document_def h_def)
    ultimately show ?thesis by (simp add: shown_def option.map_comp comp_def h_def)
  qed
  ultimately show ?thesis using shown_documents by metis
qed


lemma enter_once_shown:
  assumes "enter_once env tenant inst document g s actor c st = (st', Inr status)"
  shows "shown tenant document st' = map_option (\<lambda>_. status_as_db status) (shown tenant document st)"
proof -
  obtain st1 where first: "(case human_task s of None \<Rightarrow> ret ()
      | Some spec \<Rightarrow> raise_task env tenant inst document g (code s) spec actor c) st = (st1, Inr ())"
    and proj: "project_document_status env tenant document (maps_to_document_status s) g st1 = (st', Inr status)"
    using assms by (auto simp: enter_once_def steps)
  have "leaves db_documents (case human_task s of None \<Rightarrow> ret ()
      | Some spec \<Rightarrow> raise_task env tenant inst document g (code s) spec actor c)"
    by (intro leaving)
  from shown_documents [OF leavesD [OF this first]] project_shown [OF proj] show ?thesis by simp
qed

lemma enter_loop_shown:
  assumes "enter_loop env tenant inst document g actor c ev n s status st = (st', Inr status')"
    and "shown tenant document st = map_option (\<lambda>_. status_as_db status) v"
  shows "shown tenant document st' = map_option (\<lambda>_. status_as_db status') v"
  using assms
proof (induction n arbitrary: s status st)
  case (Suc n)
  show ?case
  proof (cases "is_service s")
    case True
    with Suc.prems(1) obtain st1 reached where
      adv: "advance_automatically env tenant inst document g s actor ev st = (st1, Inr reached)"
      and rest: "(case reached of None \<Rightarrow> ret status | Some target \<Rightarrow>
        seq (enter_once env tenant inst document g target actor c) (\<lambda>status'.
          if n = 0 then fail did_not_settle
          else enter_loop env tenant inst document g actor c ev n target status')) st1 = (st', Inr status')"
      by (auto simp: steps)
    have d: "shown tenant document st1 = shown tenant document st"
      by (rule shown_documents [OF leavesD [OF documents_advance adv]])
    show ?thesis
    proof (cases reached)
      case None
      with rest d Suc.prems(2) show ?thesis by (simp add: steps)
    next
      case (Some t)
      with rest obtain st2 status1 where
        once: "enter_once env tenant inst document g t actor c st1 = (st2, Inr status1)"
        and loop: "enter_loop env tenant inst document g actor c ev n t status1 st2 = (st', Inr status')"
        by (auto simp: steps split: if_splits)
      have "shown tenant document st2 = map_option (\<lambda>_. status_as_db status1) v"
        using enter_once_shown [OF once] d Suc.prems(2) by (simp add: option.map_comp comp_def)
      from Suc.IH [OF loop this] show ?thesis .
    qed
  qed (use Suc.prems in \<open>simp add: steps\<close>)
qed (simp add: steps)

lemma enter_state_shown:
  assumes "enter_state env tenant inst document g s actor c ev st = (st', Inr status)"
  shows "shown tenant document st' = map_option (\<lambda>_. status_as_db status) (shown tenant document st)"
proof -
  obtain st1 status1 where once: "enter_once env tenant inst document g s actor c st = (st1, Inr status1)"
    and loop: "enter_loop env tenant inst document g actor c ev MAX_AUTOMATIC_STEPS s status1 st1 = (st', Inr status)"
    using assms by (auto simp: enter_state_def steps)
  from enter_loop_shown [OF loop enter_once_shown [OF once]] show ?thesis .
qed

section \<open>What firing leaves waiting and showing\<close>

lemma authorize_reads [leaving]:
  "leaves db_tasks (authorize_edge env tenant e c a b p)" "leaves db_documents (authorize_edge env tenant e c a b p)"
  unfolding authorize_edge_def by (intro leaving)+

lemma fire_settles:
  assumes "fire env tenant inst document g from act actor c ev decision st = (st', Inr f)" "ids_distinct st"
  obtains routing chosen target where
    "select_edge env ev from act [] (candidates g from act) = Inr (routing, Some chosen)"
    "state_of g (t_to chosen) = Some target"
    "raised (holding env tenant c st) tenant inst document (human_task (auto_end env g ev MAX_AUTOMATIC_STEPS target)) st st'"
    "shown tenant document st' = map_option (\<lambda>_. status_as_db (fi_status f)) (shown tenant document st)"
proof -
  obtain routing chosen target st1 st2 status where
    sel: "select_edge env ev from act [] (candidates g from act) = Inr (routing, Some chosen)"
    and auth: "authorize_edge env tenant chosen c actor (pv_behalf decision) (allowed_by_path from act) st = (st1, Inr ())"
    and target: "state_of g (t_to chosen) = Some target"
    and move: "make_move env tenant inst document g from (t_to chosen) target act actor decision routing
      (user_or_system actor) FIRE_LOST st1 = (st2, Inr ())"
    and enter: "enter_state env tenant inst document g target actor c ev st2 = (st', Inr status)"
    and f: "f = \<lparr>fi_from = from, fi_to = t_to chosen, fi_status = status, fi_outcome = outcome_of target\<rparr>"
    using assms(1) by (auto simp: fire_def steps)
  have "process st1 = process st" by (rule leavesD [OF leaves_process [OF beside_authorize] auth])
  from process_views(4) [OF this] assms(2) have "ids_distinct st1" by simp
  then have ids2: "ids_distinct st2" using make_move_Inr(5) [OF move] by simp
  have "db_tasks st2 = db_tasks st"
    using leavesD [OF tasks_move move] leavesD [OF authorize_reads(1) auth] by simp
  moreover have "roster st2 = roster st"
    using leavesD [OF roster_move move] leavesD [OF roster_beside [OF beside_authorize] auth] by simp
  ultimately have "raised (holding env tenant c st) tenant inst document (human_task (auto_end env g ev MAX_AUTOMATIC_STEPS target)) st st'"
    using enter_state_raised [OF enter ids2] raised_roster [of st2 st] by simp
  moreover have "db_documents st2 = db_documents st"
    using leavesD [OF documents_move move] leavesD [OF authorize_reads(2) auth] by simp
  then have "shown tenant document st' = map_option (\<lambda>_. status_as_db (fi_status f)) (shown tenant document st)"
    using enter_state_shown [OF enter] shown_documents [of st2 st] f by simp
  ultimately show thesis using that sel target by blast
qed

end
