(* ===== verification/TaskFacts.thy ===== *)
theory TaskFacts
  imports TaskService EngineTasks
begin

text \<open>
  What the task actions keep: one row per task, at most one open task per process, and one decision
  per task, recorded on the closed task it is about.
\<close>

section \<open>The engine records no decision\<close>

lemma reads_db_decisions: "leaves tables m \<Longrightarrow> leaves db_decisions m"
  by (erule leaves_reads) (simp add: tables_sel)

lemmas decisions_reads [leaving] = reads_engine [THEN reads_db_decisions]

lemma decisions_raise_task [leaving]:
  "leaves db_decisions (raise_task env tenant inst document g s spec actor c)"
  unfolding raise_task_def allocate_def Let_def insert_task_def record_task_history_def
    notify_the_task_reached_def notify_def holders_of_role_def
  by (intro leaving leaves_insert_unique leaves_append_row leaves_fresh_id leaves_sql) auto

lemma decisions_project [leaving]: "leaves db_decisions (project_document_status env tenant document mt g)"
  unfolding project_document_status_def project_from_workflow_def
    set_status_from_workflow_def document_form_data_def
  by (intro leaving leaves_settle leaves_update_rows) simp_all

lemma decisions_enter_once [leaving]: "leaves db_decisions (enter_once env tenant inst document g s actor c)"
  unfolding enter_once_def by (intro leaving)

lemma decisions_before_chain [leaving]: "leaves db_decisions (before_chain env chain ref inv0)"
  by (rule leaves_before_chain) simp

lemma decisions_guards [leaving]:
  "leaves db_decisions (run_transition_guards env tenant document g inst from chosen target actor ev)"
  unfolding run_transition_guards_def Let_def registry_chain_def metadata_of_def by (intro leaving)

lemma decisions_move [leaving]:
  "leaves db_decisions (make_move env tenant inst document g from to0 target act actor decision routing by lost)"
  unfolding make_move_def move_state_def record_history_def publish_transition_def write_event_def
    position_of_latest_def
  by (intro leaving leaves_update_rows leaves_append_row leaves_insert_unique leaves_fresh_id) simp_all

lemma decisions_advance [leaving]:
  "leaves db_decisions (advance_automatically env tenant inst document g s actor ev)"
  unfolding advance_automatically_def by (intro leaving)

lemma decisions_enter_loop [leaving]:
  "leaves db_decisions (enter_loop env tenant inst document g actor c ev n s status)"
  by (induction n arbitrary: s status) (auto intro!: leaving)

lemma decisions_enter_state [leaving]:
  "leaves db_decisions (enter_state env tenant inst document g s actor c ev)"
  unfolding enter_state_def by (intro leaving)

lemma decisions_authorize [leaving]: "leaves db_decisions (authorize_edge env tenant e c a b p)"
  unfolding authorize_edge_def by (intro leaving)

lemma decisions_fire [leaving]:
  "leaves db_decisions (fire env tenant inst document g from act actor c ev decision)"
  unfolding fire_def by (intro leaving)

section \<open>The orderly store\<close>

definition decided_on :: "decision_row \<Rightarrow> task_row \<Rightarrow> bool" where
  "decided_on d t \<longleftrightarrow>
     ta_id t = dc_task d \<and> \<not> open_row t \<and> ta_action t = Some (dc_decision d) \<and>
     ta_completed_by t = Some (dc_approver d)"

definition orderly :: "Store \<Rightarrow> bool" where
  "orderly st \<longleftrightarrow>
     distinct (map ta_id (db_tasks st)) \<and> (\<forall>i. length (open_of i st) \<le> 1) \<and>
     distinct (map dc_task (db_decisions st)) \<and>
     (\<forall>d \<in> set (db_decisions st). \<exists>t \<in> set (db_tasks st). decided_on d t)"

lemma orderly_same:
  "db_tasks st' = db_tasks st \<Longrightarrow> db_decisions st' = db_decisions st \<Longrightarrow> orderly st \<Longrightarrow> orderly st'"
  by (simp add: orderly_def open_of_def)

text \<open>An update of open tasks that keeps what a task is and opens none.\<close>

lemma open_of_update:
  assumes "\<And>r. p r \<Longrightarrow> ta_instance (f r) = ta_instance r \<and> (open_row (f r) \<longrightarrow> open_row r)"
  shows "length (filter (\<lambda>r. ta_instance r = i \<and> open_row r) (update_where p f rows)) \<le>
    length (filter (\<lambda>r. ta_instance r = i \<and> open_row r) rows)"
  by (induction rows) (use assms in \<open>auto simp: update_where_def\<close>)

lemma orderly_update:
  assumes "orderly st" "db_tasks st' = update_where p f (db_tasks st)" "db_decisions st' = db_decisions st"
    and p: "\<And>r. p r \<Longrightarrow> open_row r"
    and f: "\<And>r. p r \<Longrightarrow> ta_id (f r) = ta_id r \<and> ta_instance (f r) = ta_instance r"
  shows "orderly st'"
proof -
  have ids: "map ta_id (db_tasks st') = map ta_id (db_tasks st)"
    unfolding assms(2) update_where_def using f by simp
  have "length (open_of i st') \<le> 1" for i
  proof -
    have "length (open_of i st') \<le> length (open_of i st)"
      unfolding open_of_def assms(2) by (rule open_of_update) (use p f in auto)
    with assms(1) show ?thesis unfolding orderly_def by (meson le_trans)
  qed
  moreover have "\<exists>t \<in> set (db_tasks st'). decided_on d t" if "d \<in> set (db_decisions st)" for d
  proof -
    from that assms(1) obtain t where t: "t \<in> set (db_tasks st)" "decided_on d t" by (auto simp: orderly_def)
    then have "\<not> p t" using p by (auto simp: decided_on_def)
    with t have "t \<in> set (db_tasks st')" unfolding assms(2) set_update_where by (intro bexI [of _ t]) simp_all
    with t show ?thesis by blast
  qed
  ultimately show ?thesis using assms(1,3) ids by (simp add: orderly_def)
qed

lemma orderly_raised:
  assumes "orderly st" "raised held tenant inst document wanted st st'" "db_decisions st' = db_decisions st"
  shows "orderly st'"
proof (cases wanted)
  case None
  with assms show ?thesis by (auto simp: raised_def intro: orderly_same)
next
  case (Some spec)
  with assms obtain row where row: "open_of inst st = []" "raised_for held tenant inst document spec row"
    "ta_id row \<notin> ta_id ` set (db_tasks st)" "db_tasks st' = db_tasks st @ [row]"
    by (auto simp: raised_def)
  have "length (open_of i st') \<le> 1" for i
    using row assms(1) by (auto simp: open_of_def orderly_def raised_for_def)
  with row assms(1,3) show ?thesis by (auto simp: orderly_def)
qed

section \<open>The actions keep it\<close>

lemma locked_then:
  "lock_instance_then_task env tenant inst ident st = (st1, Inr locked) \<Longrightarrow>
     tables st1 = tables st \<and>
     (\<exists>row. find (the_task tenant ident) (db_tasks st) = Some row \<and> locked = locked_task row \<and>
        ta_instance row = inst)"
  by (auto simp: lock_instance_then_task_def lock_instance_def lock_task_def steps locked_task_def)

lemma same_tables: "tables st' = tables st \<Longrightarrow> db_tasks st' = db_tasks st \<and> db_decisions st' = db_decisions st"
  by (metis tables_sel)

lemma claim_locked_orderly:
  assumes "claim_locked env tenant user subject st = (st', Inr u)" "orderly st"
  shows "orderly st'"
proof -
  obtain st1 locked st2 n where l: "lock_instance_then_task env tenant (ta_instance subject) (ta_id subject) st = (st1, Inr locked)"
    and st2: "tables st2 = tables st1"
    and tasks: "db_tasks st' = update_where (\<lambda>r. the_task tenant (ta_id subject) r \<and> ta_assignee r = None \<and> ta_status r = ''CREATED'')
       (\<lambda>r. r\<lparr>ta_assignee := Some user, ta_status := ''ASSIGNED''\<rparr>) (db_tasks st2)"
    and dec: "db_decisions st' = db_decisions st2"
    using assms(1) unfolding claim_locked_def
    by (auto simp: steps claim_def record_task_history_def holds_role_def can_be_decided_def
        split: if_splits)
  have same: "db_tasks st2 = db_tasks st" "db_decisions st2 = db_decisions st"
    using locked_then [OF l] st2 same_tables by metis+
  show ?thesis
    by (rule orderly_update [OF assms(2) tasks [unfolded same] dec [unfolded same]])
       (auto simp: open_row_def the_task_def OPEN_STATUSES_def)
qed

lemma delegate_locked_orderly:
  assumes "delegate_locked env tenant user subject delegate0 comment st = (st', Inr u)" "orderly st"
  shows "orderly st'"
proof -
  obtain st1 locked st2 where l: "lock_instance_then_task env tenant (ta_instance subject) (ta_id subject) st = (st1, Inr locked)"
    and st2: "tables st2 = tables st1"
    and tasks: "db_tasks st' = update_where
       (\<lambda>r. the_task tenant (ta_id subject) r \<and> ta_assignee r = Some user \<and> open_row r)
       (\<lambda>r. r\<lparr>ta_assignee := Some delegate0,
              ta_delegated_from := delegated_from_after (ta_delegated_from r) user delegate0\<rparr>) (db_tasks st2)"
    and dec: "db_decisions st' = db_decisions st2"
    using assms(1) unfolding delegate_locked_def
    by (auto simp: steps delegate_row_def record_task_history_def user_is_available_def record_activity_def)
  have same: "db_tasks st2 = db_tasks st" "db_decisions st2 = db_decisions st"
    using locked_then [OF l] st2 same_tables by metis+
  show ?thesis
    by (rule orderly_update [OF assms(2) tasks [unfolded same] dec [unfolded same]]) auto
qed

lemma reads_target_passes [leaving]: "leaves tables (target_passes env tenant target a c rule path)"
  unfolding target_passes_def by (cases target) (auto intro!: leaving)

lemma reads_some_edge_passes [leaving]: "leaves tables (some_edge_passes env tenant target a c s edges)"
  by (induction edges) (auto intro!: leaving split: option.split sum.split bool.split AppError.split)

lemma reads_target_can_decide [leaving]:
  "leaves tables (refuse_unless_target_can_decide env tenant inst target a c)"
  unfolding refuse_unless_target_can_decide_def find_instance_def definition_of_instance_def Let_def
  by (auto intro!: leaving)

lemma reassign_locked_orderly:
  assumes "reassign_locked env tenant user subject c target comment st = (st', Inr u)" "orderly st"
  shows "orderly st'"
proof -
  obtain st1 locked st2 a st3 where l: "lock_instance_then_task env tenant (ta_instance subject) (ta_id subject) st = (st1, Inr locked)"
    and a: "reassign_to env tenant target st1 = (st2, Inr a)"
    and d: "refuse_unless_target_can_decide env tenant (lt_instance locked) target a c st2 = (st3, Inr ())"
    and tasks: "db_tasks st' = update_where (\<lambda>r. the_task tenant (ta_id subject) r \<and> open_row r)
       (\<lambda>r. r\<lparr>ta_assignee := ra_assignee a, ta_role := ra_role a, ta_department := ra_department a,
              ta_delegated_from := ra_delegated_from a,
              ta_status := task_as_db (assigned_status (ra_assignee a))\<rparr>) (db_tasks st3)"
    and dec: "db_decisions st' = db_decisions st3"
    using assms(1) unfolding reassign_locked_def
    by (auto simp: steps reassign_row_def record_task_history_def)
  have same: "db_tasks st3 = db_tasks st" "db_decisions st3 = db_decisions st"
    using locked_then [OF l] leavesD [OF reads_reassign_to a] leavesD [OF reads_target_can_decide d]
      same_tables by metis+
  show ?thesis
    by (rule orderly_update [OF assms(2) tasks [unfolded same] dec [unfolded same]]) auto
qed

section \<open>A decision\<close>

lemma seqE:
  assumes "seq m f st = (st', Inr y)"
  obtains st1 x where "m st = (st1, Inr x)" "f x st1 = (st', Inr y)"
  using assms by (auto simp: steps)

lemma complete_or_refuse_Inr:
  assumes "complete_or_refuse env tenant ident action comment user st = (st', Inr u)"
  shows "\<exists>r \<in> set (db_tasks st). the_task tenant ident r \<and> open_row r"
    and "db_decisions st' = db_decisions st" "process st' = process st"
    and "db_tasks st' = update_where (\<lambda>r. the_task tenant ident r \<and> open_row r)
       (\<lambda>r. r\<lparr>ta_status := ''COMPLETED'', ta_action := Some (decision_as_db action),
              ta_comment := comment, ta_completed_by := Some user,
              ta_assignee := (case ta_assignee r of Some a \<Rightarrow> Some a | None \<Rightarrow> Some user)\<rparr>) (db_tasks st)"
  using assms unfolding complete_or_refuse_def
  by (auto simp: steps complete_def process_def split: if_splits)

lemma closing_keeps_assignee: "(case a of Some x \<Rightarrow> Some x | None \<Rightarrow> Some u) \<noteq> None"
  by (cases a) auto

lemma decide_locked_Inr:
  assumes "decide_locked env caller action comment reading st = (st', Inr (locked, fired))"
  obtains row inst st1 st2 where
    "find (the_task (ca_tenant caller) (ta_id (rd_subject reading))) (db_tasks st) = Some row"
    "open_row row" "locked = locked_task row"
    "refuse_unless_theirs (ca_user caller) (ta_assignee row)
       (case ta_role row of None \<Rightarrow> False
        | Some role \<Rightarrow> holds_role_in env (ca_tenant caller) (ca_user caller) role (ta_department row) st) = Inr ()"
    "find (the_instance (ca_tenant caller) (ta_instance (rd_subject reading))) (db_instances st) = Some inst"
    "process st1 = process st"
    "db_tasks st1 = update_where (\<lambda>r. the_task (ca_tenant caller) (ta_id (rd_subject reading)) r \<and> open_row r)
       (\<lambda>r. r\<lparr>ta_status := ''COMPLETED'', ta_action := Some (decision_as_db action),
              ta_comment := comment, ta_completed_by := Some (ca_user caller),
              ta_assignee := (case ta_assignee r of Some a \<Rightarrow> Some a | None \<Rightarrow> Some (ca_user caller))\<rparr>)
       (db_tasks st)"
    "db_decisions st1 = db_decisions st @ [\<lparr>dc_tenant = ca_tenant caller, dc_document = ta_document row,
       dc_instance = in_id inst, dc_task = ta_id (rd_subject reading), dc_approver = ca_user caller,
       dc_role = ta_role row, dc_decision = decision_as_db action,
       dc_level = Some (ta_key (rd_subject reading)), dc_comment = comment\<rparr>]"
    "fire env (ca_tenant caller) (in_id inst) (ta_document row) (rd_graph reading) (in_state inst)
       (decision_transition action) (Some (ca_user caller)) (rd_context reading) (rd_evaluation reading)
       \<lparr>pv_task = Some (ta_id (rd_subject reading)), pv_behalf = ta_delegated_from row, pv_comment = comment\<rparr>
       st1 = (st2, Inr fired)"
    "process st' = process st2" "db_tasks st' = db_tasks st2" "db_decisions st' = db_decisions st2"
    "db_documents st' = db_documents st2"
proof -
  let ?t = "ca_tenant caller" and ?i = "ta_id (rd_subject reading)" and ?u = "ca_user caller"
  note d = assms [unfolded decide_locked_def Let_def]
  obtain s1 held s2 inst s3 found s4 task0 s5 u5 s6 holds s7 u7 s8 u8 s9 u9 s10 u10 s11 f s12 u12 s13 u13 where
    s1: "lock_instance env ?t (ta_instance (rd_subject reading)) st = (s1, Inr held)"
    and s2: "need (NotFound ''Workflow instance'') held s1 = (s2, Inr inst)"
    and s3: "lock_task env ?t ?i s2 = (s3, Inr found)"
    and s4: "need (NotFound ''Task'') found s3 = (s4, Inr task0)"
    and s5: "lift_result (refuse_unless_open (lt_status task0) (lt_decided task0)) s4 = (s5, Inr u5)"
    and s6: "(case lt_role task0 of None \<Rightarrow> ret False
       | Some role \<Rightarrow> holds_role env ?t ?u role (lt_department task0)) s5 = (s6, Inr holds)"
    and s7: "lift_result (refuse_unless_theirs ?u (lt_assignee task0) holds) s6 = (s7, Inr u7)"
    and s8: "complete_or_refuse env ?t ?i action comment ?u s7 = (s8, Inr u8)"
    and s9: "record_task_history env ?t ?i (li_id inst) (lt_document task0)
             (Some (lt_status task0)) TaskCompleted (Some (TransitionTaken (decision_transition action)))
             comment (Some ?u) s8 = (s9, Inr u9)"
    and s10: "record_decision env ?t (lt_document task0) (li_id inst) ?i ?u (lt_role task0) action
             (Some (ta_key (rd_subject reading))) comment s9 = (s10, Inr u10)"
    and s11: "fire env ?t (li_id inst) (lt_document task0) (rd_graph reading) (li_state inst)
             (decision_transition action) (Some ?u) (rd_context reading) (rd_evaluation reading)
             \<lparr>pv_task = Some ?i, pv_behalf = lt_delegated_from task0, pv_comment = comment\<rparr> s10 = (s11, Inr f)"
    and s12: "record_activity env
             \<lparr>ac_tenant = ?t, ac_document = Some (lt_document task0),
              ac_instance = Some (lt_instance task0), ac_task = Some ?i,
              ac_type = ''Workflow.Decided'', ac_actor = Some ?u,
              ac_details = json_object
                [(''action'', String (decision_as_db action)), (''from'', String (fi_from f)),
                 (''to'', String (fi_to f))]\<rparr> s11 = (s12, Inr u12)"
    and s13: "tell_the_owner env caller (rd_document reading) task0 ?i action s12 = (s13, Inr u13)"
    and s14: "ret (task0, f) s13 = (st', Inr (locked, fired))"
    using d by (elim seqE) (rule that)
  from s1 s2 obtain irow where irow: "find (the_instance ?t (ta_instance (rd_subject reading))) (db_instances st) = Some irow"
    "li_id inst = in_id irow" "li_state inst = in_state irow" and t2: "tables s2 = tables st"
    by (auto simp: lock_instance_def steps)
  have "db_tasks s2 = db_tasks st" using t2 by (metis tables_sel)
  with s3 s4 obtain row where row: "find (the_task ?t ?i) (db_tasks st) = Some row" "task0 = locked_task row"
    and t4: "tables s4 = tables st" using t2 by (auto simp: lock_task_def steps)
  from s5 row(2) have s45: "s5 = s4" "ta_status row \<in> set OPEN_STATUSES"
    by (auto simp: steps locked_task_def is_open_from_db)
  then have opn: "open_row row" using row(1) by (auto simp: open_row_def find_Some_iff the_task_def)
  have t6: "tables s6 = tables st" and holds: "holds = (case ta_role row of None \<Rightarrow> False
        | Some role \<Rightarrow> holds_role_in env ?t ?u role (ta_department row) st)"
    using s6 t4 s45(1) row(2)
    by (auto simp: steps holds_role_def locked_task_def split: option.splits) (metis holds_role_in_tables)+
  from s7 have s67: "s7 = s6" "refuse_unless_theirs ?u (ta_assignee row) holds = Inr ()"
    using row(2) by (auto simp: steps locked_task_def)
  have same: "db_tasks s7 = db_tasks st" "db_decisions s7 = db_decisions st" "process s7 = process st"
    using t6 s67(1) by (metis tables_sel process_tables)+
  note c = complete_or_refuse_Inr [OF s8]
  from s9 have t9: "db_tasks s9 = db_tasks s8" "db_decisions s9 = db_decisions s8" "process s9 = process s8"
    by (auto simp: record_task_history_def steps process_def)
  from s10 have t10: "db_tasks s10 = db_tasks s9" "process s10 = process s9"
    "db_decisions s10 = db_decisions s9 @ [\<lparr>dc_tenant = ?t, dc_document = lt_document task0,
       dc_instance = li_id inst, dc_task = ?i, dc_approver = ?u, dc_role = lt_role task0,
       dc_decision = decision_as_db action, dc_level = Some (ta_key (rd_subject reading)), dc_comment = comment\<rparr>]"
    by (auto simp: record_decision_def steps process_def)
  from s12 have t12: "db_tasks s12 = db_tasks s11" "db_decisions s12 = db_decisions s11"
    "process s12 = process s11" "db_documents s12 = db_documents s11"
    by (auto simp: record_activity_def steps process_def)
  have t13: "db_tasks s13 = db_tasks s12" "db_decisions s13 = db_decisions s12"
    "process s13 = process s12" "db_documents s13 = db_documents s12"
    using s13 by (auto simp: tell_the_owner_def notify_def steps process_def split: option.splits if_splits)
  from s14 have fin: "st' = s13" "locked = task0" "fired = f" by (auto simp: steps)
  show thesis
  proof (rule that [OF row(1) opn _ _ irow(1), of s10 s11])
    show "locked = locked_task row" using fin row(2) by simp
    show "refuse_unless_theirs ?u (ta_assignee row) (case ta_role row of None \<Rightarrow> False
        | Some role \<Rightarrow> holds_role_in env ?t ?u role (ta_department row) st) = Inr ()"
      using s67(2) holds by simp
    show "process s10 = process st" using t10 t9 c same by simp
    show "db_tasks s10 = update_where (\<lambda>r. the_task ?t ?i r \<and> open_row r)
       (\<lambda>r. r\<lparr>ta_status := ''COMPLETED'', ta_action := Some (decision_as_db action),
              ta_comment := comment, ta_completed_by := Some ?u,
              ta_assignee := (case ta_assignee r of Some a \<Rightarrow> Some a | None \<Rightarrow> Some ?u)\<rparr>) (db_tasks st)"
      unfolding t10 t9 c(4) same ..
    show "db_decisions s10 = db_decisions st @ [\<lparr>dc_tenant = ?t, dc_document = ta_document row,
       dc_instance = in_id irow, dc_task = ?i, dc_approver = ?u, dc_role = ta_role row,
       dc_decision = decision_as_db action, dc_level = Some (ta_key (rd_subject reading)), dc_comment = comment\<rparr>]"
      unfolding t10 t9 c(2) same row(2) irow(2) by (simp add: locked_task_def)
    show "fire env ?t (in_id irow) (ta_document row) (rd_graph reading) (in_state irow)
       (decision_transition action) (Some ?u) (rd_context reading) (rd_evaluation reading)
       \<lparr>pv_task = Some ?i, pv_behalf = ta_delegated_from row, pv_comment = comment\<rparr> s10 = (s11, Inr fired)"
      using s11 unfolding fin(3) row(2) irow(2,3) by (simp add: locked_task_def)
  qed (use fin t12 t13 in simp_all)
qed

lemma decide_locked_sound:
  assumes "decide_locked env caller action comment reading st = (st', Inr r)" "sound st"
  shows "sound st'"
proof -
  obtain locked fired where r: "r = (locked, fired)" by (cases r)
  show ?thesis
    using assms(1) unfolding r
  proof (rule decide_locked_Inr)
    fix row inst st1 st2
    assume "process st1 = process st" "process st' = process st2"
      and f: "fire env (ca_tenant caller) (in_id inst) (ta_document row) (rd_graph reading) (in_state inst)
       (decision_transition action) (Some (ca_user caller)) (rd_context reading) (rd_evaluation reading)
       \<lparr>pv_task = Some (ta_id (rd_subject reading)), pv_behalf = ta_delegated_from row, pv_comment = comment\<rparr>
       st1 = (st2, Inr fired)"
    then show "sound st'" using fire_sound [OF f] sound_still assms(2) by blast
  qed
qed

lemma find_the_task_unique:
  "distinct (map ta_id rows) \<Longrightarrow> t \<in> set rows \<Longrightarrow> find (the_task tenant ident) rows = Some r \<Longrightarrow>
     ta_id t = ident \<Longrightarrow> r = t"
  unfolding distinct_map inj_on_def by (metis find_Some_iff nth_mem the_task_def)

lemma update_the_task:
  assumes "distinct (map ta_id rows)" "find (the_task tenant ident) rows = Some row" "open_row row"
  shows "f row \<in> set (update_where (\<lambda>r. the_task tenant ident r \<and> open_row r) f rows)"
  using assms by (induction rows) (auto simp: update_where_def split: if_splits)

lemma closed_not_open:
  "orderly st \<Longrightarrow> row \<in> set (db_tasks st) \<Longrightarrow> open_row row \<Longrightarrow> ta_id row \<notin> dc_task ` set (db_decisions st)"
  unfolding orderly_def distinct_map inj_on_def decided_on_def by (metis imageE)

lemma decide_locked_orderly:
  assumes "decide_locked env caller action comment reading st = (st', Inr r)" "orderly st" "sound st"
  shows "orderly st'"
proof -
  obtain locked fired where r: "r = (locked, fired)" by (cases r)
  let ?t = "ca_tenant caller" and ?i = "ta_id (rd_subject reading)" and ?u = "ca_user caller"
  let ?f = "\<lambda>r. r\<lparr>ta_status := ''COMPLETED'', ta_action := Some (decision_as_db action),
              ta_comment := comment, ta_completed_by := Some ?u,
              ta_assignee := (case ta_assignee r of Some a \<Rightarrow> Some a | None \<Rightarrow> Some ?u)\<rparr>"
  show ?thesis
    using assms(1) unfolding r
  proof (rule decide_locked_Inr)
    fix row inst st1 st2
    assume row: "find (the_task ?t ?i) (db_tasks st) = Some row" "open_row row"
      and p: "process st1 = process st" "process st' = process st2"
      and tasks: "db_tasks st1 = update_where (\<lambda>r. the_task ?t ?i r \<and> open_row r) ?f (db_tasks st)"
      and dec: "db_decisions st1 = db_decisions st @ [\<lparr>dc_tenant = ?t, dc_document = ta_document row,
       dc_instance = in_id inst, dc_task = ?i, dc_approver = ?u, dc_role = ta_role row,
       dc_decision = decision_as_db action, dc_level = Some (ta_key (rd_subject reading)), dc_comment = comment\<rparr>]"
        (is "_ = _ @ [?d]")
      and f: "fire env ?t (in_id inst) (ta_document row) (rd_graph reading) (in_state inst)
       (decision_transition action) (Some ?u) (rd_context reading) (rd_evaluation reading)
       \<lparr>pv_task = Some ?i, pv_behalf = ta_delegated_from row, pv_comment = comment\<rparr> st1 = (st2, Inr fired)"
      and fin: "db_tasks st' = db_tasks st2" "db_decisions st' = db_decisions st2"
    have "orderly (st1\<lparr>db_decisions := db_decisions st\<rparr>)"
      by (rule orderly_update [OF assms(2), of _ "\<lambda>r. the_task ?t ?i r \<and> open_row r" ?f])
         (simp_all add: tasks)
    then have o1: "distinct (map ta_id (db_tasks st1))" "\<forall>i. length (open_of i st1) \<le> 1"
      "\<forall>d \<in> set (db_decisions st). \<exists>t \<in> set (db_tasks st1). decided_on d t"
      unfolding orderly_def open_of_def by simp_all
    have ids: "distinct (map ta_id (db_tasks st))" using assms(2) by (simp add: orderly_def)
    have "row \<in> set (db_tasks st)" "ta_id row = ?i"
      using row(1) by (auto simp: find_Some_iff the_task_def)
    then have new: "?i \<notin> dc_task ` set (db_decisions st)"
      using closed_not_open [OF assms(2) \<open>row \<in> _\<close> row(2)] \<open>ta_id row = ?i\<close> by simp
    have "decided_on ?d (?f row)" by (simp add: decided_on_def open_row_def OPEN_STATUSES_def \<open>ta_id row = ?i\<close>)
    moreover have "?f row \<in> set (db_tasks st1)" unfolding tasks using update_the_task [OF ids row, of ?f] by simp
    ultimately have "\<exists>t \<in> set (db_tasks st1). decided_on ?d t" by blast
    then have "orderly st1"
      using o1 new assms(2) unfolding orderly_def dec by simp
    moreover have "ids_distinct st1" using process_views(4) [OF p(1)] assms(3) by (simp add: sound_def)
    then obtain held wanted where "raised held ?t (in_id inst) (ta_document row) wanted st1 st2"
      using fire_settles [OF f] by metis
    ultimately have "orderly st2" using orderly_raised leavesD [OF decisions_fire f] by blast
    with fin show "orderly st'" by (rule orderly_same)
  qed
qed

section \<open>A task is decided once\<close>

lemma decided_task_refused:
  assumes "orderly st" "d \<in> set (db_decisions st)" "dc_task d = ta_id (rd_subject reading)"
  shows "decide_locked env caller action comment reading st \<noteq> (st', Inr r)"
proof
  assume a: "decide_locked env caller action comment reading st = (st', Inr r)"
  obtain locked fired where "r = (locked, fired)" by (cases r)
  with a have a: "decide_locked env caller action comment reading st = (st', Inr (locked, fired))" by simp
  obtain row where row: "find (the_task (ca_tenant caller) (ta_id (rd_subject reading))) (db_tasks st) = Some row"
    "open_row row" using a by (rule decide_locked_Inr)
  from assms obtain t where "t \<in> set (db_tasks st)" "ta_id t = ta_id (rd_subject reading)" "\<not> open_row t"
    by (auto simp: orderly_def decided_on_def)
  with find_the_task_unique [of "db_tasks st"] row assms(1) show False by (auto simp: orderly_def)
qed

section \<open>The actions on a task leave every process\<close>

lemma leaves_process_reads: "leaves tables m \<Longrightarrow> leaves process m"
  by (erule leaves_reads) (simp add: process_tables)

lemma claim_locked_process: "leaves process (claim_locked env tenant user subject)"
  unfolding claim_locked_def lock_instance_then_task_def lock_instance_def lock_task_def claim_def
    holds_role_def can_be_decided_def record_task_history_def
  by (intro leaving leaves_process_reads leaves_update_rows leaves_append_row) (simp_all add: process_def)

lemma delegate_locked_process: "leaves process (delegate_locked env tenant user subject delegate0 comment)"
  unfolding delegate_locked_def lock_instance_then_task_def lock_instance_def lock_task_def
    delegate_row_def user_is_available_def record_task_history_def record_activity_def
  by (intro leaving leaves_process_reads leaves_update_rows leaves_append_row) (simp_all add: process_def)

lemma reassign_locked_process: "leaves process (reassign_locked env tenant user subject c target comment)"
  unfolding reassign_locked_def lock_instance_then_task_def lock_instance_def lock_task_def
    reassign_row_def record_task_history_def
  by (intro leaving leaves_process_reads leaves_update_rows leaves_append_row) (simp_all add: process_def)

end
