(* ===== verification/DocumentService.thy ===== *)
theory DocumentService
  imports TaskService
begin

text \<open>
  Where documents meet processes: the transition a person asks for (\<open>document/service/status.rs\<close>),
  which a live process refuses, and the last step of a submission
  (\<open>document/service/submit.rs\<close>), which starts a process or sends one back on its way.
\<close>

section \<open>Statements\<close>

definition find_status :: "Env \<Rightarrow> uuid \<Rightarrow> uuid \<Rightarrow> DocumentStatus option tx" where
  "find_status env tenant ident = fetch env (\<lambda>st.
     map_option (\<lambda>d. status_from_db (do_status d)) (find (the_document tenant ident) (db_documents st)))"

definition move_status :: "Env \<Rightarrow> uuid \<Rightarrow> uuid \<Rightarrow> DocumentStatus \<Rightarrow> DocumentStatus \<Rightarrow> nat tx" where
  "move_status env tenant ident from to0 =
     update_rows env db_documents db_documents_update
       (\<lambda>d. the_document tenant ident d \<and> do_status d = status_as_db from)
       (\<lambda>d. d\<lparr>do_status := status_as_db to0,
              do_completed := (if to0 = DocCompleted then Some (now env) else do_completed d)\<rparr>)"

definition record_transition ::
  "Env \<Rightarrow> uuid \<Rightarrow> uuid \<Rightarrow> DocumentStatus option \<Rightarrow> DocumentStatus \<Rightarrow> uuid option \<Rightarrow> string option \<Rightarrow> unit tx"
where
  "record_transition env tenant ident from to0 actor reason =
     append_row env db_status_history_update
       \<lparr>sh_tenant = tenant, sh_document = ident, sh_old = map_option status_as_db from,
        sh_new = status_as_db to0, sh_changed_by = actor, sh_reason = reason\<rparr>"

definition link_process_instance :: "Env \<Rightarrow> uuid \<Rightarrow> uuid \<Rightarrow> uuid \<Rightarrow> nat tx" where
  "link_process_instance env tenant ident inst =
     update_rows env db_documents db_documents_update (the_document tenant ident)
       (\<lambda>d. d\<lparr>do_instance := Some inst\<rparr>)"

record SubmissionSubject =
  sb_status :: DocumentStatus
  sb_type :: uuid
  sb_requested :: "uuid option"
  sb_number :: "string option"
  sb_created_by :: "uuid option"
  sb_instance :: "uuid option"

definition find_submission_subject :: "Env \<Rightarrow> uuid \<Rightarrow> uuid \<Rightarrow> SubmissionSubject option tx" where
  "find_submission_subject env tenant ident = fetch env (\<lambda>st.
     map_option
       (\<lambda>d. \<lparr>sb_status = status_from_db (do_status d), sb_type = do_type d,
             sb_requested = do_requested_department d, sb_number = do_number d,
             sb_created_by = do_created_by d, sb_instance = do_instance d\<rparr>)
       (find (the_document tenant ident) (db_documents st)))"

section \<open>A transition somebody asks for\<close>

definition DOCUMENT_TRANSITION :: string where
  "DOCUMENT_TRANSITION = ''document:transition''"

definition decided_by_process :: "uuid \<Rightarrow> AppError" where
  "decided_by_process inst =
     Conflict (''this document is being decided by workflow instance '' @ inst @ ''; its status '' @
       ''follows that process rather than being set directly. Act on the task instead '' @
       [CHR 0xE2, CHR 0x80, CHR 0x94] @
       '' a status written here would disagree with the process the moment it moved'')"

definition refuse_while_a_workflow_is_deciding :: "Env \<Rightarrow> uuid \<Rightarrow> uuid \<Rightarrow> unit tx" where
  "refuse_while_a_workflow_is_deciding env tenant ident =
     seq (live_instance_of_document env tenant ident) (\<lambda>found.
     case found of None \<Rightarrow> ret () | Some inst \<Rightarrow> fail (decided_by_process inst))"

definition TRANSITION_LOST :: string where
  "TRANSITION_LOST = ''this document changed while the transition was being applied''"

definition apply_transition ::
  "Env \<Rightarrow> uuid \<Rightarrow> uuid \<Rightarrow> DocumentStatus \<Rightarrow> DocumentStatus \<Rightarrow> uuid option \<Rightarrow> string option \<Rightarrow> unit tx" where
  "apply_transition env tenant ident from to0 actor reason =
     seq (move_status env tenant ident from to0) (\<lambda>moved.
     seq (refuse_if (moved = 0) (Conflict TRANSITION_LOST)) (\<lambda>_.
     seq (record_transition env tenant ident (Some from) to0 actor reason) (\<lambda>_.
     record_activity env
       \<lparr>ac_tenant = tenant, ac_document = Some ident, ac_instance = None, ac_task = None,
        ac_type = ''Document.StatusChanged'', ac_actor = actor,
        ac_details = json_object
          [(''from'', String (status_as_db from)), (''to'', String (status_as_db to0))]\<rparr>)))"

record TransitionResult =
  tr_previous :: DocumentStatus
  tr_status :: DocumentStatus

definition transition ::
  "Env \<Rightarrow> Caller \<Rightarrow> uuid \<Rightarrow> DocumentStatus \<Rightarrow> string option \<Rightarrow> TransitionResult tx" where
  "transition env caller ident to0 reason =
     seq (require caller DOCUMENT_TRANSITION) (\<lambda>_.
     seq (find_status env (ca_tenant caller) ident) (\<lambda>found.
     seq (need (NotFound ''Document'') found) (\<lambda>current.
     seq (refuse_while_a_workflow_is_deciding env (ca_tenant caller) ident) (\<lambda>_.
     seq (lift_result (check_move_to current to0)) (\<lambda>_.
     seq (transaction (apply_transition env (ca_tenant caller) ident current to0
            (Some (ca_user caller)) reason)) (\<lambda>_.
     ret \<lparr>tr_previous = current, tr_status = to0\<rparr>))))))"

section \<open>The end of a submission\<close>

definition refuse_unless_submittable :: "DocumentStatus \<Rightarrow> AppError + unit" where
  "refuse_unless_submittable status =
     (if is_editable status then Inr ()
      else Inl (Conflict (''this document is '' @ status_as_db status @
        '' and only a draft or a returned document can be submitted; submitting a document '' @
        ''already under approval would take a second number for one document'')))"

text \<open>What a submission's expressions are evaluated against: the process's variables are not read.\<close>

definition submission_evaluation ::
  "SubmissionSubject \<Rightarrow> string \<Rightarrow> string \<Rightarrow> json \<Rightarrow> json \<Rightarrow> EvaluationContext" where
  "submission_evaluation subject type_key number form actor =
     \<lparr>ec_document = document_facts DocSubmitted (sb_type subject) type_key (Some number),
      ec_form_data = form, ec_variables = Object [], ec_actor = actor\<rparr>"

definition resubmit_workflow ::
  "Env \<Rightarrow> uuid \<Rightarrow> uuid \<Rightarrow> SubmissionSubject \<Rightarrow> LockedInstance option \<Rightarrow> EvaluationContext \<Rightarrow>
   uuid option \<Rightarrow> unit tx" where
  "resubmit_workflow env tenant document subject held ev actor =
     (case sb_instance subject of
        None \<Rightarrow> ret ()
      | Some instance_id \<Rightarrow>
          seq (need (Internal (''document '' @ document @ '' points at instance '' @ instance_id @
                 '', which does not exist'')) held) (\<lambda>inst.
          seq (definition_of_instance env tenant (li_definition inst)) (\<lambda>loaded.
          seq (need (no_such_definition instance_id (li_definition inst)) loaded) (\<lambda>l.
          seq (context_of_document env tenant (sb_type subject) (sb_created_by subject)
                 (sb_requested subject)) (\<lambda>context0.
          seq (close_open_task_for_resubmit env tenant (li_id inst) actor) (\<lambda>closed.
          seq (fire env tenant (li_id inst) document (parse_graph (df_json l) (df_version l))
                 (li_state inst) ResubmitAction actor context0 ev
                 \<lparr>pv_task = closed, pv_behalf = None, pv_comment = None\<rparr>) (\<lambda>_.
          ret ())))))))"

definition start_workflow ::
  "Env \<Rightarrow> uuid \<Rightarrow> uuid \<Rightarrow> SubmissionSubject \<Rightarrow> (uuid \<times> bool) option \<Rightarrow> string \<Rightarrow> EvaluationContext \<Rightarrow>
   uuid option \<Rightarrow> Started option tx" where
  "start_workflow env tenant document subject binding number ev actor =
     (case binding of
        None \<Rightarrow> ret None
      | Some (definition_id, has_condition) \<Rightarrow>
          if has_condition then ret None
          else
            seq (context_of_document env tenant (sb_type subject) (sb_created_by subject)
                   (sb_requested subject)) (\<lambda>context0.
            seq (start env tenant document definition_id (Some number) actor context0 ev) (\<lambda>started.
            seq (link_process_instance env tenant document (sd_instance started)) (\<lambda>_.
            ret (Some started)))))"

end
