(* ===== verification/Worker.thy ===== *)
theory Worker
  imports Engine
begin

text \<open>
  The other half of a transition (\<open>workflow/service/after_hooks.rs\<close>, \<open>outbox/worker.rs\<close>): the
  worker claims the events a transition wrote, runs the after-hooks of the edge each one names, and
  settles the event in the same transaction.  Whatever goes wrong, the event is settled as a failed
  attempt, unless another worker has taken it over.  The text of a hook's failure is the runner's
  prose, and is a parameter.
\<close>

section \<open>Reading the event\<close>

record Transitioned =
  te_instance :: uuid
  te_document :: uuid
  te_from :: string
  te_to :: string
  te_action :: string
  te_actor :: "uuid option"
  te_correlation :: "uuid option"

definition uuid_of :: "Env \<Rightarrow> json \<Rightarrow> uuid option" where
  "uuid_of env v = Option.bind (as_str v) (parse_uuid env)"

definition read_transitioned :: "Env \<Rightarrow> json \<Rightarrow> Transitioned option" where
  "read_transitioned env envelope0 =
     (case get envelope0 ''payload'' of
        None \<Rightarrow> None
      | Some payload \<Rightarrow>
          (case (Option.bind (get payload ''instanceId'') (uuid_of env),
                 Option.bind (get payload ''documentId'') (uuid_of env),
                 get_str payload ''fromState'', get_str payload ''toState'',
                 get_str payload ''action'') of
             (Some inst, Some document, Some from0, Some to0, Some action) \<Rightarrow>
               Some \<lparr>te_instance = inst, te_document = document, te_from = from0, te_to = to0,
                     te_action = action,
                     te_actor =
                       (case get envelope0 ''actor'' of
                          None \<Rightarrow> None
                        | Some actor \<Rightarrow>
                            if get actor ''actorType'' = Some (String ''USER'')
                            then Option.bind (get actor ''actorId'') (uuid_of env) else None),
                     te_correlation = Option.bind (get envelope0 ''correlationId'') (uuid_of env)\<rparr>
           | _ \<Rightarrow> None))"

section \<open>The chain of a transition\<close>

record HookSubject =
  hs_status :: string
  hs_form_data :: json
  hs_type :: uuid
  hs_type_key :: string

definition hook_subject :: "Env \<Rightarrow> uuid \<Rightarrow> uuid \<Rightarrow> HookSubject option tx" where
  "hook_subject env tenant document = fetch env (\<lambda>st.
     (case find (the_document tenant document) (db_documents st) of
        None \<Rightarrow> None
      | Some d \<Rightarrow>
          map_option (\<lambda>r. \<lparr>hs_status = do_status d, hs_form_data = do_form_data d,
                                        hs_type = do_type d, hs_type_key = ty_code r\<rparr>)
            (find (\<lambda>r. ty_tenant r = tenant \<and> ty_id r = do_type d) (db_types st))))"

definition after_invocation ::
  "uuid \<Rightarrow> Transitioned \<Rightarrow> Graph \<Rightarrow> instance_row \<Rightarrow> HookSubject \<Rightarrow> json \<Rightarrow> Invocation" where
  "after_invocation tenant event g inst subject metadata0 =
     \<lparr>hook_name = AFTER_WORKFLOW_TRANSITION, inv_source = WorkflowSource, tenant_id = tenant,
      document_id = te_document event, document_type_key = hs_type_key subject,
      current_status = Some (hs_status subject),
      target_status = map_option maps_to_document_status (state_of g (te_to event)),
      actor_user_id = te_actor event, inv_form_data = hs_form_data subject, inv_metadata = metadata0,
      inv_workflow_context =
        workflow_context (workflow_key g) (revision g) (in_id inst) (in_state inst) (te_from event)
          (te_to event) (te_action event),
      inv_subject = Null, inv_config = Object [],
      correlation_id = or_default (in_id inst) (te_correlation event)\<rparr>"

definition opened_notification :: "uuid \<Rightarrow> string \<times> string \<Rightarrow> notification_row" where
  "opened_notification tenant = (\<lambda>(recipient, reference).
     \<lparr>nt_tenant = tenant, nt_recipient = recipient, nt_document = None, nt_instance = None,
      nt_task = None, nt_type = ''HOOK_CIRCUIT_OPENED'', nt_title = ''An after-hook has been paused'',
      nt_body = reference, nt_actor = None\<rparr>)"

text \<open>The chain on the transaction's connection; the breaker's report is a notification of its own.\<close>

definition after_chain ::
  "Env \<Rightarrow> uuid \<Rightarrow> Registration list \<Rightarrow> string option \<Rightarrow> Invocation \<Rightarrow> AfterFailure list tx" where
  "after_chain env tenant chain ref inv0 st =
     (case run_after_chain (world_at (db_statements st) (hooks env)) chain ref
             \<lparr>cs_log = db_hook_log st, cs_told = [], cs_statements = db_statements st, cs_inv = inv0\<rparr> of
        (cs, r) \<Rightarrow>
          (st\<lparr>db_hook_log := cs_log cs, db_statements := cs_statements cs,
              db_notifications := db_notifications st @ map (opened_notification tenant) (cs_told cs)\<rparr>, r))"

definition taken_edge :: "Graph \<Rightarrow> Transitioned \<Rightarrow> Transition option" where
  "taken_edge g event =
     find (\<lambda>t. t_from t = te_from event \<and> t_to t = te_to event \<and>
               action_as_db (t_action t) = te_action event) (transitions g)"

definition deliver :: "Env \<Rightarrow> (AfterFailure list \<Rightarrow> string) \<Rightarrow> uuid \<Rightarrow> json \<Rightarrow> Delivery tx" where
  "deliver env failure_text tenant envelope0 =
     (case read_transitioned env envelope0 of
        None \<Rightarrow> ret Delivered
      | Some event \<Rightarrow>
          seq (find_instance env tenant (te_instance event)) (\<lambda>found.
          case found of
            None \<Rightarrow> ret Delivered
          | Some inst \<Rightarrow>
              seq (definition_of_instance env tenant (in_definition inst)) (\<lambda>loaded.
              case loaded of
                None \<Rightarrow> ret Delivered
              | Some l \<Rightarrow>
                  let g = parse_graph (df_json l) (df_version l) in
                  seq (hook_subject env tenant (te_document event)) (\<lambda>held.
                  case held of
                    None \<Rightarrow> ret Delivered
                  | Some subject \<Rightarrow>
                      seq (registry_chain env tenant (hs_type subject) AFTER_WORKFLOW_TRANSITION) (\<lambda>registry.
                      let chain = merge_chain registry
                            (case taken_edge g event of None \<Rightarrow> [] | Some edge \<Rightarrow> actions edge) in
                      if chain = [] then ret Delivered
                      else
                        seq (metadata_of env tenant (te_document event)) (\<lambda>metadata0.
                        seq (after_chain env tenant chain
                               (Some (transition_ref (workflow_key g) (revision g) (te_from event) (te_to event)))
                               (after_invocation tenant event g inst subject metadata0)) (\<lambda>failures.
                        ret (if failures = [] then Delivered else Retry (failure_text failures)))))))))"

section \<open>The worker\<close>

definition BATCH :: nat where
  "BATCH = 32"

definition dispatch :: "Env \<Rightarrow> (AfterFailure list \<Rightarrow> string) \<Rightarrow> Claimed \<Rightarrow> Delivery tx" where
  "dispatch env failure_text event =
     (if cl_type event = WORKFLOW_TRANSITIONED
      then deliver env failure_text (cl_tenant event) (cl_payload event)
      else ret Delivered)"

fun cause_of :: "AppError \<Rightarrow> string" where
  "cause_of (Internal source0) = source0"
| "cause_of e = error_code e @ '': '' @ error_message e"

fun reason_of :: "Delivery \<Rightarrow> string option" where
  "reason_of Delivered = None"
| "reason_of (Retry reason) = Some reason"

text \<open>What the transaction committed, when the lease was still held.\<close>

definition deliver_and_settle ::
  "Env \<Rightarrow> (AfterFailure list \<Rightarrow> string) \<Rightarrow> Claimed \<Rightarrow> Store \<Rightarrow> (Store \<times> (AppError + bool)) + AppError" where
  "deliver_and_settle env failure_text event st =
     (case dispatch env failure_text event st of
        (st', Inl e) \<Rightarrow> Inr e
      | (st', Inr delivery) \<Rightarrow>
          Inl (settle env (cl_tenant event) event (cl_attempts event + 1)
                 (settlement_after (cl_attempts event + 1) delivery) (reason_of delivery) st'))"

definition deliver_one :: "Env \<Rightarrow> (AfterFailure list \<Rightarrow> string) \<Rightarrow> Claimed \<Rightarrow> unit tx" where
  "deliver_one env failure_text event st =
     (case deliver_and_settle env failure_text event st of
        Inl (st', Inl e) \<Rightarrow> (st, Inl e)
      | Inl (st', Inr held) \<Rightarrow> if held then (st', Inr ()) else (st, Inr ())
      | Inr e \<Rightarrow>
          (case settle env (cl_tenant event) event (cl_attempts event + 1)
                  (settlement_after (cl_attempts event + 1) (Retry (cause_of e))) (Some (cause_of e)) st of
             (st', Inl e') \<Rightarrow> (st', Inl e')
           | (st', Inr _) \<Rightarrow> (st', Inr ())))"

text \<open>A pass settles what it can; an event that could not be settled is left to its lease.\<close>

fun deliver_all :: "Env \<Rightarrow> (AfterFailure list \<Rightarrow> string) \<Rightarrow> Claimed list \<Rightarrow> Store \<Rightarrow> Store" where
  "deliver_all env failure_text [] st = st"
| "deliver_all env failure_text (event # events) st =
     deliver_all env failure_text events (fst (deliver_one env failure_text event st))"

definition pass :: "Env \<Rightarrow> (AfterFailure list \<Rightarrow> string) \<Rightarrow> nat tx" where
  "pass env failure_text =
     seq (claim_events env BATCH LEASE) (\<lambda>claimed st.
       (deliver_all env failure_text claimed st, Inr (length claimed)))"

end
