(* ===== verification/WorkerFacts.thy ===== *)
theory WorkerFacts
  imports Worker EngineFacts
begin

text \<open>
  What the worker reads is what the transition wrote; an event is attempted at most six times and
  ends processed or dead-lettered; and a worker that lost its lease changes nothing.
\<close>

section \<open>What the transition wrote is what the worker reads\<close>

lemma get_payload:
  "get (transitioned_payload inst g doc from to0 act) ''instanceId'' = Some (String inst)"
  "get (transitioned_payload inst g doc from to0 act) ''documentId'' = Some (String doc)"
  "get_str (transitioned_payload inst g doc from to0 act) ''fromState'' = Some from"
  "get_str (transitioned_payload inst g doc from to0 act) ''toState'' = Some to0"
  "get_str (transitioned_payload inst g doc from to0 act) ''action'' = Some (action_as_db act)"
  unfolding transitioned_payload_def get_str_def by (subst get_json_object; simp)+

definition actor_user :: "Actor \<Rightarrow> uuid option" where
  "actor_user a = (case a of ByUser u \<Rightarrow> Some u | _ \<Rightarrow> None)"

lemma read_transitioned_envelope:
  assumes "ne_payload e = transitioned_payload inst g doc from to0 act" "ne_correlation e = inst"
    and "parse_uuid env inst = Some inst" "parse_uuid env doc = Some doc"
    and "\<And>u. ne_actor e = ByUser u \<Longrightarrow> parse_uuid env u = Some u"
  shows "read_transitioned env (envelope ident occurred e) =
    Some \<lparr>te_instance = inst, te_document = doc, te_from = from, te_to = to0,
          te_action = action_as_db act, te_actor = actor_user (ne_actor e), te_correlation = Some inst\<rparr>"
proof -
  let ?v = "envelope ident occurred e"
  have p: "get ?v ''payload'' = Some (transitioned_payload inst g doc from to0 act)"
    "get ?v ''actor'' = Some (actor_as_json (ne_actor e))" "get ?v ''correlationId'' = Some (String inst)"
    by (simp_all add: get_envelope assms(1,2))
  have who: "(if get (actor_as_json (ne_actor e)) ''actorType'' = Some (String ''USER'')
      then Option.bind (get (actor_as_json (ne_actor e)) ''actorId'') (uuid_of env) else None) =
      actor_user (ne_actor e)"
    unfolding get_actor using assms(5)
    by (cases "ne_actor e") (simp_all add: uuid_of_def actor_user_def)
  show ?thesis
    unfolding read_transitioned_def p get_payload option.case Option.bind.simps prod.case who
    by (simp add: uuid_of_def assms(3,4))
qed

text \<open>The edge whose hooks run is the edge that was taken, when no two edges share their triple.\<close>

lemma find_by_key: "distinct (map k xs) \<Longrightarrow> x \<in> set xs \<Longrightarrow> find (\<lambda>y. k y = k x) xs = Some x"
  by (induction xs) (auto simp: image_iff)

lemma taken_edge_found:
  assumes "distinct (map (\<lambda>t. (t_from t, t_action t, t_to t)) (transitions g))"
    and "edge \<in> set (transitions g)"
    and "te_from event = t_from edge" "te_to event = t_to edge" "te_action event = action_as_db (t_action edge)"
  shows "taken_edge g event = Some edge"
proof -
  have "(t_from y = te_from event \<and> t_to y = te_to event \<and> action_as_db (t_action y) = te_action event) \<longleftrightarrow>
      (t_from y, t_action y, t_to y) = (t_from edge, t_action edge, t_to edge)" for y
    unfolding assms(3-5) transition_action.to_text_inject by auto
  note same = this
  show ?thesis unfolding taken_edge_def same by (rule find_by_key [OF assms(1,2)])
qed

section \<open>The attempts of an event\<close>

definition undelivered :: "event_row \<Rightarrow> bool" where
  "undelivered r \<longleftrightarrow> ev_status r \<in> {''PENDING'', ''PROCESSING'', ''FAILED''}"

definition within_budget :: "event_row \<Rightarrow> bool" where
  "within_budget r \<longleftrightarrow>
     0 \<le> ev_attempts r \<and> ev_attempts r \<le> MAX_ATTEMPTS \<and> (undelivered r \<longrightarrow> ev_attempts r < MAX_ATTEMPTS)"

definition events_within_budget :: "Store \<Rightarrow> bool" where
  "events_within_budget st \<longleftrightarrow> list_all within_budget (db_events st)"

lemma due_undelivered: "due at r \<Longrightarrow> undelivered r"
  by (auto simp: due_def undelivered_def)

lemma leaves_deliver: "leaves db_events (deliver env ft tenant envelope0)"
proof -
  have "leaves db_events (after_chain env tenant chain ref inv0)" for chain ref inv0
    unfolding leaves_def after_chain_def by (auto split: prod.splits)
  then show ?thesis
    unfolding deliver_def find_instance_def definition_of_instance_def hook_subject_def
      registry_chain_def metadata_of_def Let_def
    by (intro leaving leaves_fetch) simp_all
qed

lemma leaves_dispatch: "leaves db_events (dispatch env ft event)"
  unfolding dispatch_def by (intro leaving leaves_deliver)

text \<open>An attempt's settlement, as the columns it writes.\<close>

definition settled :: "Env \<Rightarrow> int \<Rightarrow> Settlement \<Rightarrow> string option \<Rightarrow> event_row \<Rightarrow> event_row" where
  "settled env tries settlement reason r =
     r\<lparr>ev_status := settlement_as_db settlement, ev_attempts := tries,
       ev_next_attempt := (case settlement of FailedFor d \<Rightarrow> Some (now env + d) | _ \<Rightarrow> None),
       ev_last_error := reason\<rparr>"

lemma settle_Inr:
  "settle env tenant cl tries s reason st = (st', Inr held) \<Longrightarrow>
     db_events st' = update_where (held_by tenant cl) (settled env tries s reason) (db_events st) \<and>
     held = (count_where (held_by tenant cl) (db_events st) = 1)"
  by (auto simp: settle_def steps settled_def [abs_def])

lemma settle_Inl: "settle env tenant cl tries s reason st = (st', Inl e) \<Longrightarrow> st' = st"
  by (auto simp: settle_def seq_def update_rows_def sql_def ret_def
      split: option.splits sum.splits prod.splits if_splits)

lemma settled_within_budget:
  "0 \<le> n \<Longrightarrow> n < MAX_ATTEMPTS \<Longrightarrow> within_budget (settled env (n + 1) (settlement_after (n + 1) d) reason r)"
  by (auto simp: within_budget_def settled_def settlement_after_def undelivered_def MAX_ATTEMPTS_def
      split: Delivery.splits)

lemma update_within_budget:
  "list_all within_budget rows \<Longrightarrow> (\<And>r. within_budget (f r)) \<Longrightarrow> list_all within_budget (update_where p f rows)"
  by (auto simp: list_all_iff set_update_where)

text \<open>What delivering one event does to the events: the row it holds is settled, or nothing is.\<close>

lemma deliver_one_events:
  "\<exists>d reason. db_events (fst (deliver_one env ft event st)) =
     update_where (held_by (cl_tenant event) event)
       (settled env (cl_attempts event + 1) (settlement_after (cl_attempts event + 1) d) reason) (db_events st)
   \<or> db_events (fst (deliver_one env ft event st)) = db_events st"
proof (cases "dispatch env ft event st")
  case (Pair st1 r)
  have same: "db_events st1 = db_events st" using leavesD [OF leaves_dispatch Pair] .
  show ?thesis
  proof (cases r)
    case (Inl e)
    obtain st2 x where s: "settle env (cl_tenant event) event (cl_attempts event + 1)
        (settlement_after (cl_attempts event + 1) (Retry (cause_of e))) (Some (cause_of e)) st = (st2, x)"
      by force
    with Pair Inl have one: "fst (deliver_one env ft event st) = st2"
      by (cases x) (simp_all add: deliver_one_def deliver_and_settle_def)
    show ?thesis
      using s settle_Inl settle_Inr unfolding one by (cases x) blast+
  next
    case (Inr d)
    obtain st2 x where s: "settle env (cl_tenant event) event (cl_attempts event + 1)
        (settlement_after (cl_attempts event + 1) d) (reason_of d) st1 = (st2, x)"
      by force
    with Pair Inr have one: "fst (deliver_one env ft event st) = (case x of Inr True \<Rightarrow> st2 | _ \<Rightarrow> st)"
      by (cases x) (simp_all add: deliver_one_def deliver_and_settle_def split: bool.split)
    show ?thesis
    proof (cases "x = Inr True")
      case True
      with s have "settle env (cl_tenant event) event (cl_attempts event + 1)
        (settlement_after (cl_attempts event + 1) d) (reason_of d) st1 = (st2, Inr True)" by simp
      from settle_Inr [OF this] same show ?thesis unfolding one True by auto
    next
      case False
      then have "fst (deliver_one env ft event st) = st" unfolding one by (auto split: sum.split bool.split)
      then show ?thesis by simp
    qed
  qed
qed

lemma deliver_one_within_budget:
  assumes "events_within_budget st" "0 \<le> cl_attempts event" "cl_attempts event < MAX_ATTEMPTS"
  shows "events_within_budget (fst (deliver_one env ft event st))"
  using deliver_one_events [of env ft event st] assms
  by (auto simp: events_within_budget_def intro!: update_within_budget settled_within_budget)

lemma deliver_all_within_budget:
  "events_within_budget st \<Longrightarrow> list_all (\<lambda>e. 0 \<le> cl_attempts e \<and> cl_attempts e < MAX_ATTEMPTS) events \<Longrightarrow>
     events_within_budget (deliver_all env ft events st)"
  by (induction env ft events st rule: deliver_all.induct) (auto intro: deliver_one_within_budget)

lemma distinct_within: "set xs \<subseteq> set ys \<Longrightarrow> distinct xs \<Longrightarrow> length xs \<le> length ys"
  using card_mono [of "set ys" "set xs"] card_length [of ys] by (simp add: distinct_card)

lemma claim_events_Inr:
  assumes "claim_events env n lease st = (st', Inr claimed)" "events_within_budget st"
    and "distinct (map ev_id (db_events st))"
  shows "events_within_budget st'"
    and "list_all (\<lambda>e. 0 \<le> cl_attempts e \<and> cl_attempts e < MAX_ATTEMPTS) claimed"
    and "length claimed \<le> n"
proof -
  let ?due = "filter (due (now env)) (db_events st)"
  let ?batch = "map ev_id (take n ?due)"
  let ?rows = "filter (\<lambda>r. ev_id r \<in> set ?batch) (db_events st)"
  from assms(1) have st': "db_events st' = update_where (\<lambda>r. ev_id r \<in> set ?batch)
      (\<lambda>r. r\<lparr>ev_status := ''PROCESSING'', ev_next_attempt := Some (now env + lease)\<rparr>) (db_events st)"
    and claimed: "claimed = sort_key cl_id (map (\<lambda>r. claimed_of r (now env + lease)) ?rows)"
    by (auto simp: claim_events_def sql_Inr Let_def)
  have due: "r \<in> set ?due" if "r \<in> set (db_events st)" "ev_id r \<in> set ?batch" for r
  proof -
    from that(2) obtain r' where r': "r' \<in> set (take n ?due)" "ev_id r' = ev_id r" by auto
    then have "r' \<in> set ?due" using in_set_takeD by fast
    then have "r' \<in> set (db_events st)" by simp
    with assms(3) that(1) r'(2) have "r' = r" by (auto simp: distinct_map inj_on_def)
    with \<open>r' \<in> set ?due\<close> show ?thesis by simp
  qed
  have fit: "0 \<le> ev_attempts r \<and> ev_attempts r < MAX_ATTEMPTS"
    if "r \<in> set (db_events st)" "ev_id r \<in> set ?batch" for r
    using due [OF that] assms(2) that(1) due_undelivered
    by (auto simp: events_within_budget_def list_all_iff within_budget_def)
  show "events_within_budget st'"
    unfolding events_within_budget_def st' list_all_iff
  proof
    fix r
    assume "r \<in> set (update_where (\<lambda>r. ev_id r \<in> set ?batch)
      (\<lambda>r. r\<lparr>ev_status := ''PROCESSING'', ev_next_attempt := Some (now env + lease)\<rparr>) (db_events st))"
    then obtain r0 where r0: "r0 \<in> set (db_events st)" "r = (if ev_id r0 \<in> set ?batch
        then r0\<lparr>ev_status := ''PROCESSING'', ev_next_attempt := Some (now env + lease)\<rparr> else r0)"
      by (auto simp: set_update_where)
    have "within_budget r0" using assms(2) r0(1) by (auto simp: events_within_budget_def list_all_iff)
    with fit [OF r0(1)] r0(2) show "within_budget r"
      by (cases "ev_id r0 \<in> set ?batch") (auto simp: within_budget_def undelivered_def)
  qed
  show "list_all (\<lambda>e. 0 \<le> cl_attempts e \<and> cl_attempts e < MAX_ATTEMPTS) claimed"
    using fit by (auto simp: claimed list_all_iff claimed_of_def)
  have "set (map ev_id ?rows) \<subseteq> set ?batch" by auto
  moreover have "distinct (map ev_id ?rows)" using assms(3) by (simp add: distinct_map_filter)
  ultimately have "length (map ev_id ?rows) \<le> length ?batch"
    by (rule distinct_within)
  then show "length claimed \<le> n" by (simp add: claimed)
qed

lemma pass_within_budget:
  assumes "pass env ft st = (st', Inr n)" "events_within_budget st" "distinct (map ev_id (db_events st))"
  shows "events_within_budget st' \<and> n \<le> BATCH"
proof -
  obtain st1 claimed where c: "claim_events env BATCH LEASE st = (st1, Inr claimed)"
    and "st' = deliver_all env ft claimed st1" "n = length claimed"
    using assms(1) by (auto simp: pass_def steps)
  with claim_events_Inr [OF c assms(2,3)] deliver_all_within_budget show ?thesis by metis
qed

lemma pass_answers: "faultless env \<Longrightarrow> \<exists>st' n. pass env ft st = (st', Inr n)"
  by (simp add: pass_def seq_def claim_events_def sql_def faultless_def Let_def)

section \<open>A lost lease\<close>

lemma update_where_none: "list_all (\<lambda>r. \<not> p r) rows \<Longrightarrow> update_where p f rows = rows"
  by (induction rows) (auto simp: update_where_def)

lemma settle_lost:
  assumes "list_all (\<lambda>r. \<not> held_by tenant cl r) (db_events st)"
  shows "tables (fst (settle env tenant cl tries s reason st)) = tables st"
    and "snd (settle env tenant cl tries s reason st) \<noteq> Inr True"
  using assms update_where_none [OF assms]
  by (auto simp: settle_def seq_def update_rows_def sql_def ret_def tables_def count_where_def
      list_all_iff filter_empty_conv split: option.splits sum.splits prod.splits)

lemma deliver_one_lost:
  assumes "list_all (\<lambda>r. \<not> held_by (cl_tenant event) event r) (db_events st)"
  shows "tables (fst (deliver_one env ft event st)) = tables st"
proof (cases "dispatch env ft event st")
  case (Pair st1 r)
  have same: "db_events st1 = db_events st" using leavesD [OF leaves_dispatch Pair] .
  show ?thesis
  proof (cases r)
    case (Inl e)
    with Pair settle_lost(1) [OF assms] show ?thesis
      by (simp add: deliver_one_def deliver_and_settle_def split: prod.split sum.split) (metis fst_conv)
  next
    case (Inr d)
    have "snd (settle env (cl_tenant event) event (cl_attempts event + 1)
        (settlement_after (cl_attempts event + 1) d) (reason_of d) st1) \<noteq> Inr True"
      by (rule settle_lost(2)) (use assms same in simp)
    with Pair Inr show ?thesis
      by (cases "settle env (cl_tenant event) event (cl_attempts event + 1)
        (settlement_after (cl_attempts event + 1) d) (reason_of d) st1")
         (auto simp: deliver_one_def deliver_and_settle_def split: sum.split)
  qed
qed

section \<open>What a pass leaves of every process\<close>

text \<open>
  The worker rewrites the delivery columns of an event (its status, attempts, next attempt and last
  error) and adds rows to the hook log and the notifications.  What an event announces, the processes,
  the tasks and the decisions stay.
\<close>

definition written :: "event_row \<Rightarrow> event_row" where
  "written e = e\<lparr>ev_status := [], ev_attempts := 0, ev_next_attempt := None, ev_last_error := None\<rparr>"

definition logged :: "Store \<Rightarrow> instance_row list \<times> history_row list \<times> event_row list" where
  "logged st = (db_instances st, db_history st, map written (db_events st))"

definition worked_on :: "Store \<Rightarrow>
    (instance_row list \<times> history_row list \<times> event_row list) \<times> task_row list \<times> decision_row list" where
  "worked_on st = (logged st, db_tasks st, db_decisions st)"

lemma summary_written [simp]: "summary (written e) = summary e"
  by (simp add: summary_def written_def)

lemma logged_process: "process st' = process st \<Longrightarrow> logged st' = logged st"
  by (simp add: process_def logged_def)

lemma announcements_written:
  "announcements t i st = map summary
     (filter (\<lambda>e. ev_tenant e = t \<and> ev_aggregate e = i \<and> ev_type e = WORKFLOW_TRANSITIONED)
       (map written (db_events st)))"
  by (simp add: announcements_def filter_map comp_def) (simp add: written_def)

lemma logged_views:
  assumes "logged st' = logged st"
  shows "trail t i st' = trail t i st" "place t i st' = place t i st"
    "announcements t i st' = announcements t i st" "db_instances st' = db_instances st"
  using assms unfolding announcements_written by (simp_all add: logged_def trail_def place_def)

lemma sound_logged:
  assumes "logged st' = logged st" "sound st"
  shows "sound st'"
  using assms(2) unfolding sound_def sound_process_def logged_views [OF assms(1)] .

lemma written_update: "(\<And>r. written (f r) = written r) \<Longrightarrow> map written (update_where p f rows) = map written rows"
  by (simp add: update_where_def)

lemma worked_on_events:
  "(\<And>r. written (f r) = written r) \<Longrightarrow> worked_on (db_events_update (update_where p f) st) = worked_on st"
  by (simp add: worked_on_def logged_def written_update)

lemma worked_on_counted [simp]: "worked_on (counted a st) = worked_on st"
  by (simp add: worked_on_def logged_def)

lemma claim_leaves_work: "leaves worked_on (claim_events env n lease)"
  unfolding claim_events_def Let_def
  by (intro leaves_sql) (auto simp: written_def intro!: worked_on_events)

lemma settle_leaves_work: "leaves worked_on (settle env tenant cl tries s reason)"
  unfolding settle_def
  by (intro leaving leaves_update_rows) (auto simp: written_def intro!: worked_on_events)

lemma reads_worked_on: "leaves tables m \<Longrightarrow> leaves worked_on m"
  by (erule leaves_reads) (simp add: worked_on_def logged_def tables_sel)

lemma dispatch_leaves_work: "leaves worked_on (dispatch env ft event)"
proof -
  have "leaves worked_on (after_chain env tenant chain ref inv0)" for tenant chain ref inv0
    unfolding leaves_def after_chain_def by (auto simp: worked_on_def logged_def split: prod.splits)
  then show ?thesis
    unfolding dispatch_def deliver_def find_instance_def definition_of_instance_def hook_subject_def
      registry_chain_def metadata_of_def Let_def
    by (intro leaving reads_worked_on [OF reads_fetch])
qed

lemma deliver_one_leaves_work: "leaves worked_on (deliver_one env ft event)"
  unfolding leaves_def
proof
  fix st
  obtain st1 r where d: "dispatch env ft event st = (st1, r)" by fastforce
  have same: "worked_on st1 = worked_on st" by (rule leavesD [OF dispatch_leaves_work d])
  note settled = leavesD [OF settle_leaves_work]
  show "worked_on (fst (deliver_one env ft event st)) = worked_on st"
  proof (cases r)
    case (Inl e)
    obtain st2 x where "settle env (cl_tenant event) event (cl_attempts event + 1)
      (settlement_after (cl_attempts event + 1) (Retry (cause_of e))) (Some (cause_of e)) st = (st2, x)" by fastforce
    with d Inl settled [OF this] show ?thesis
      by (simp add: deliver_one_def deliver_and_settle_def split: sum.split)
  next
    case (Inr dl)
    obtain st2 x where "settle env (cl_tenant event) event (cl_attempts event + 1)
      (settlement_after (cl_attempts event + 1) dl) (reason_of dl) st1 = (st2, x)" by fastforce
    with d Inr settled [OF this] same show ?thesis
      by (simp add: deliver_one_def deliver_and_settle_def split: sum.split)
  qed
qed

lemma deliver_all_leaves_work: "worked_on (deliver_all env ft events st) = worked_on st"
proof (induction events arbitrary: st)
  case (Cons event events)
  then show ?case using deliver_one_leaves_work [of env ft event] by (simp add: leaves_def)
qed simp

end
