(* ===== verification/Reached.thy ===== *)
theory Reached
  imports TaskFacts DocumentService WorkerFacts
begin

text \<open>
  Every store the service can reach: the committed transactions of the task actions and of a
  submission, the claims and deliveries of any number of outbox workers, and whatever the other modules
  commit beside the process tables, in any order.  The
  path of every process, the order of its tasks and the decisions taken on them are invariants.
\<close>

section \<open>Steps of the service\<close>

inductive commits :: "Store \<Rightarrow> Store \<Rightarrow> bool" where
  claimed: "claim_locked env tenant user subject st = (st', Inr u) \<Longrightarrow> commits st st'"
| handed_over: "delegate_locked env tenant user subject delegate0 comment st = (st', Inr u) \<Longrightarrow> commits st st'"
| reassigned: "reassign_locked env tenant user subject c target comment st = (st', Inr u) \<Longrightarrow> commits st st'"
| decided: "decide_locked env caller action comment reading st = (st', Inr r) \<Longrightarrow> commits st st'"
| started: "start_workflow env tenant document subject binding number ev actor st = (st', Inr s) \<Longrightarrow> commits st st'"
| resubmitted: "resubmit_workflow env tenant document subject held ev actor st = (st', Inr u) \<Longrightarrow> commits st st'"
| claimed_batch: "claim_events env n lease st = (st', r) \<Longrightarrow> commits st st'"
| delivered: "deliver_one env failure_text event st = (st', r) \<Longrightarrow> commits st st'"
| elsewhere: "logged st' = logged st \<Longrightarrow> db_tasks st' = db_tasks st \<Longrightarrow>
    db_decisions st' = db_decisions st \<Longrightarrow> commits st st'"

inductive reached :: "Store \<Rightarrow> bool" where
  empty: "process st = ([], [], []) \<Longrightarrow> db_tasks st = [] \<Longrightarrow> db_decisions st = [] \<Longrightarrow> reached st"
| step: "reached st \<Longrightarrow> commits st st' \<Longrightarrow> reached st'"

inductive_cases commitsE: "commits st st'"

text \<open>A pass of the worker is a claim and the deliveries that follow it.\<close>

lemma deliveries_commit: "commits\<^sup>*\<^sup>* st (deliver_all env failure_text events st)"
proof (induction events arbitrary: st)
  case (Cons event events)
  have "commits st (fst (deliver_one env failure_text event st))"
    by (rule commits.delivered [OF prod.collapse [symmetric]])
  with Cons.IH show ?case by (auto intro: converse_rtranclp_into_rtranclp)
qed simp

lemma pass_commits: "commits\<^sup>*\<^sup>* st (fst (pass env failure_text st))"
proof -
  obtain st1 r where c: "claim_events env BATCH LEASE st = (st1, r)" by fastforce
  then have "commits st st1" by (rule commits.claimed_batch)
  with c deliveries_commit show ?thesis
    by (cases r) (auto simp: pass_def seq_def intro: converse_rtranclp_into_rtranclp)
qed

lemma worked_on_keeps:
  assumes "worked_on st' = worked_on st" "sound st" "orderly st"
  shows "sound st' \<and> orderly st' \<and> db_decisions st' = db_decisions st"
  using assms sound_logged orderly_same unfolding worked_on_def by blast

section \<open>A submission's step\<close>

lemma reads_process: "leaves tables m \<Longrightarrow> m st = (st', r) \<Longrightarrow>
    process st' = process st \<and> db_tasks st' = db_tasks st \<and> db_decisions st' = db_decisions st"
  by (metis leavesD process_tables same_tables)

lemma still_keeps:
  "process st' = process st \<and> db_tasks st' = db_tasks st \<and> db_decisions st' = db_decisions st \<Longrightarrow>
     sound st \<Longrightarrow> orderly st \<Longrightarrow> sound st' \<and> orderly st' \<and> db_decisions st' = db_decisions st"
  using sound_still orderly_same by blast

lemma close_for_resubmit_Inr:
  assumes "close_open_task_for_resubmit env tenant inst actor st = (st', Inr closed)"
  shows "process st' = process st" "db_decisions st' = db_decisions st" "orderly st \<Longrightarrow> orderly st'"
proof -
  show "process st' = process st" "db_decisions st' = db_decisions st"
    using assms unfolding close_open_task_for_resubmit_def
    by (auto simp: steps lock_open_task_of_instance_def close_for_resubmit_def record_task_history_def
        process_def split: option.splits)
  assume o: "orderly st"
  from assms consider "db_tasks st' = db_tasks st" | ident where
    "db_tasks st' = update_where (\<lambda>r. the_task tenant ident r \<and> open_row r)
       (\<lambda>r. r\<lparr>ta_status := ''COMPLETED'', ta_completed_by := actor\<rparr>) (db_tasks st)"
    unfolding close_open_task_for_resubmit_def
    by (auto simp: steps lock_open_task_of_instance_def close_for_resubmit_def record_task_history_def
        split: option.splits)
  then show "orderly st'"
  proof cases
    case 1
    with \<open>db_decisions st' = _\<close> o show ?thesis by (blast intro: orderly_same)
  next
    case (2 ident)
    show ?thesis by (rule orderly_update [OF o 2 \<open>db_decisions st' = _\<close>]) auto
  qed
qed

lemma resubmit_keeps:
  assumes "resubmit_workflow env tenant document subject held ev actor st = (st', Inr u)"
    and "sound st" "orderly st"
  shows "sound st' \<and> orderly st' \<and> db_decisions st' = db_decisions st"
proof (cases "sb_instance subject")
  case None
  with assms show ?thesis by (simp add: resubmit_workflow_def steps)
next
  case (Some ident)
  obtain inst :: LockedInstance and l :: definition_row and st2 st3 context0 closed f where
    c: "context_of_document env tenant (sb_type subject) (sb_created_by subject) (sb_requested subject)
      (counted st st) = (st2, Inr context0)"
    and cl: "close_open_task_for_resubmit env tenant (li_id inst) actor st2 = (st3, Inr closed)"
    and f: "fire env tenant (li_id inst) document (parse_graph (df_json l) (df_version l)) (li_state inst)
       ResubmitAction actor context0 ev \<lparr>pv_task = closed, pv_behalf = None, pv_comment = None\<rparr> st3 = (st', Inr f)"
    using assms(1) Some unfolding resubmit_workflow_def definition_of_instance_def
    by (auto simp: steps)
  have k2: "sound st2 \<and> orderly st2 \<and> db_decisions st2 = db_decisions st"
    by (rule still_keeps) (use reads_process [OF reads_context_of_document c] assms in simp_all)
  note cls = close_for_resubmit_Inr [OF cl]
  have k3: "sound st3" "orderly st3" "db_decisions st3 = db_decisions st"
    using sound_still [OF cls(1)] cls(2,3) k2 by simp_all
  then have ids: "ids_distinct st3" by (simp add: sound_def)
  obtain given wanted where w: "raised given tenant (li_id inst) document wanted st3 st'"
    by (rule fire_settles [OF f ids])
  have dec: "db_decisions st' = db_decisions st3" by (rule leavesD [OF decisions_fire f])
  show ?thesis using orderly_raised [OF k3(2) w dec] dec k3(3) fire_sound [OF f k3(1)] by simp
qed

lemma start_keeps:
  assumes "start_workflow env tenant document subject binding number ev actor st = (st', Inr s)"
    and "sound st" "orderly st"
  shows "sound st' \<and> orderly st' \<and> db_decisions st' = db_decisions st"
proof (cases "\<exists>d. binding = Some (d, False)")
  case False
  with assms show ?thesis
    by (cases binding) (auto simp: start_workflow_def steps split: prod.splits if_splits)
next
  case True
  then obtain d where "binding = Some (d, False)" by blast
  with assms(1) obtain st1 context0 st2 sd where
    c: "context_of_document env tenant (sb_type subject) (sb_created_by subject) (sb_requested subject) st = (st1, Inr context0)"
    and s: "start env tenant document d (Some number) actor context0 ev st1 = (st2, Inr sd)"
    and fin: "process st' = process st2" "db_tasks st' = db_tasks st2" "db_decisions st' = db_decisions st2"
    unfolding start_workflow_def link_process_instance_def by (auto simp: steps process_def)
  have k1: "sound st1" "orderly st1" "db_decisions st1 = db_decisions st"
    using still_keeps [OF reads_process [OF reads_context_of_document c] assms(2,3)] by simp_all
  obtain loaded :: definition_row and initial st4 where k4: "sound st2" "sound st4" "db_tasks st4 = db_tasks st1" "db_decisions st4 = db_decisions st1"
    and e: "enter_state env tenant (sd_instance sd) document (parse_graph (df_json loaded) (df_version loaded))
         initial actor context0 ev st4 = (st2, Inr (sd_status sd))"
    by (rule start_Inr [OF s k1(1)]) blast
  have o4: "orderly st4" using orderly_same k4(3,4) k1(2) by blast
  have ids: "ids_distinct st4" using k4(2) by (simp add: sound_def)
  have dec: "db_decisions st2 = db_decisions st4"
    by (rule leavesD [OF decisions_enter_state e])
  have "orderly st2" by (rule orderly_raised [OF o4 enter_state_raised [OF e ids] dec])
  with still_keeps [of st' st2] fin k4(1,4) dec k1(3) show ?thesis by simp
qed

section \<open>One live process per document\<close>

definition one_live :: "Store \<Rightarrow> bool" where
  "one_live st \<longleftrightarrow> distinct (map in_document (filter live_row (db_instances st)))"

lemma distinct_live_update:
  assumes "\<And>r. in_document (f r) = in_document r" "\<And>r. live_row (f r) \<Longrightarrow> live_row r"
    and "distinct (map in_document (filter live_row rows))"
  shows "distinct (map in_document (filter live_row (update_where p f rows)))"
proof -
  have "set (map in_document (filter live_row (update_where p f rows))) \<subseteq>
      set (map in_document (filter live_row rows))" for rows
    using assms(1,2) by (auto simp: set_update_where split: if_splits)
  note sub = this
  from assms(3) show ?thesis
  proof (induction rows)
    case (Cons a rows)
    let ?b = "if p a then f a else a"
    have b: "update_where p f (a # rows) = ?b # update_where p f rows" by (simp add: update_where_def)
    have live: "live_row ?b \<Longrightarrow> live_row a" and doc: "in_document ?b = in_document a"
      using assms(1,2) by (auto split: if_splits)
    have rest: "distinct (map in_document (filter live_row rows))"
      using Cons.prems by (cases "live_row a") auto
    show ?case
    proof (cases "live_row ?b")
      case True
      with live Cons.prems have "in_document a \<notin> set (map in_document (filter live_row rows))" by auto
      then have "in_document ?b \<notin> set (map in_document (filter live_row (update_where p f rows)))"
        unfolding doc using sub by (rule contra_subsetD [rotated])
      with True Cons.IH [OF rest] show ?thesis unfolding b by simp
    next
      case False
      with Cons.IH [OF rest] show ?thesis unfolding b by simp
    qed
  qed (simp add: update_where_def)
qed

lemma one_live_instances: "db_instances st' = db_instances st \<Longrightarrow> one_live st \<Longrightarrow> one_live st'"
  by (simp add: one_live_def)

lemma keeps_one_live: "leaves db_instances m \<Longrightarrow> keeps one_live m"
  by (erule keeps_leaves) (rule one_live_instances)

lemma one_live_process: "leaves process m \<Longrightarrow> keeps one_live m"
  by (erule keeps_leaves) (auto simp: process_def one_live_def)

lemma one_live_beside: "leaves beside m \<Longrightarrow> keeps one_live m"
  by (rule one_live_process) (rule leaves_process)

lemma keeps_option: "keeps P m \<Longrightarrow> (\<And>x. keeps P (g x)) \<Longrightarrow> keeps P (case v of None \<Rightarrow> m | Some x \<Rightarrow> g x)"
  by (cases v) auto

lemma keeps_prod: "(\<And>a b. keeps P (g a b)) \<Longrightarrow> keeps P (case p of (a, b) \<Rightarrow> g a b)"
  by (cases p) auto

lemmas one_live_engine [keeping] =
  beside_enter_once [THEN one_live_beside] beside_guards [THEN one_live_beside]
  beside_authorize [THEN one_live_beside] beside_write_variables [THEN one_live_beside]
  beside_allocate [THEN one_live_beside] beside_fresh_id [THEN one_live_beside]

lemma one_live_fetch [keeping]: "keeps one_live (fetch env g)"
  by (rule keeps_one_live) (rule leaves_fetch, simp)

lemma one_live_move_state [keeping]: "keeps one_live (move_state env tenant mv)"
  unfolding move_state_def
  by (rule keeps_update_rows)
     (simp add: one_live_def, rule distinct_live_update,
      auto simp: live_row_def LIVE_STATUSES_def split: if_splits)

lemma one_live_move [keeping]:
  "keeps one_live (make_move env tenant inst document g from to0 target act actor decision routing by lost)"
  unfolding make_move_def record_history_def publish_transition_def write_event_def position_of_latest_def
  by (intro keeping) (intro keeps_one_live leaving leaves_append_row leaves_insert_unique; simp)+

lemma one_live_enter_loop [keeping]:
  "keeps one_live (enter_loop env tenant inst document g actor c ev n s status)"
proof (induction n arbitrary: s status)
  case (Suc n)
  then show ?case unfolding enter_loop.simps advance_automatically_def
    by (intro keeping keeps_if keeps_option keeps_prod)
qed (simp add: keeping)

lemma one_live_fire [keeping]: "keeps one_live (fire env tenant inst document g from act actor c ev decision)"
  unfolding fire_def enter_state_def by (intro keeping keeps_prod)

lemma one_live_insert: "keeps one_live (insert_instance env row)"
  unfolding insert_instance_def
  by (rule keeps_insert_unique) (auto simp: one_live_def list_ex_iff instance_clash_def)

lemma one_live_start: "keeps one_live (start env tenant document d key actor c ev)"
  unfolding start_def lock_for_start_def definition_of_instance_def Let_def record_history_def enter_state_def
  by (intro keeping keeps_prod one_live_insert) (rule keeps_one_live, rule leaves_append_row, simp)

lemma one_live_commits:
  assumes "commits st st'" "one_live st"
  shows "one_live st'"
  using assms(1)
proof cases
  case (claimed env tenant user subject u)
  from keepsD [OF one_live_process [OF claim_locked_process] assms(2) claimed] show ?thesis .
next
  case (handed_over env tenant user subject delegate0 comment u)
  from keepsD [OF one_live_process [OF delegate_locked_process] assms(2) handed_over] show ?thesis .
next
  case (reassigned env tenant user subject c target comment u)
  from keepsD [OF one_live_process [OF reassign_locked_process] assms(2) reassigned] show ?thesis .
next
  case (decided env caller action comment reading r)
  obtain locked fired where r: "r = (locked, fired)" by (cases r)
  from decided show ?thesis unfolding r
  proof (rule decide_locked_Inr)
    fix row inst st1 st2
    assume p: "process st1 = process st" "process st' = process st2"
      and f: "fire env (ca_tenant caller) (in_id inst) (ta_document row) (rd_graph reading) (in_state inst)
       (decision_transition action) (Some (ca_user caller)) (rd_context reading) (rd_evaluation reading)
       \<lparr>pv_task = Some (ta_id (rd_subject reading)), pv_behalf = ta_delegated_from row, pv_comment = comment\<rparr>
       st1 = (st2, Inr fired)"
    have "one_live st1" using assms(2) p(1) by (simp add: process_def one_live_def)
    from keepsD [OF one_live_fire this f] p(2) show "one_live st'" by (simp add: process_def one_live_def)
  qed
next
  case (started env tenant document subject binding number ev actor s)
  have "keeps one_live (start_workflow env tenant document subject binding number ev actor)"
    unfolding start_workflow_def link_process_instance_def context_of_document_def owner_department_of_def
    by (intro keeping keeps_option keeps_prod keeps_if one_live_start)
       (rule keeps_one_live, rule leaves_update_rows, simp)
  from keepsD [OF this assms(2) started] show ?thesis .
next
  case (resubmitted env tenant document subject held ev actor u)
  have "keeps one_live (resubmit_workflow env tenant document subject held ev actor)"
    unfolding resubmit_workflow_def context_of_document_def owner_department_of_def
      definition_of_instance_def close_open_task_for_resubmit_def lock_open_task_of_instance_def
      close_for_resubmit_def record_task_history_def
    by (intro keeping keeps_option)
       (intro keeps_one_live leaving leaves_update_rows leaves_append_row; simp)+
  from keepsD [OF this assms(2) resubmitted] show ?thesis .
next
  case (claimed_batch env n lease r)
  from leavesD [OF claim_leaves_work claimed_batch] assms(2) show ?thesis
    by (simp add: worked_on_def logged_def one_live_def)
next
  case (delivered env failure_text event r)
  from leavesD [OF deliver_one_leaves_work delivered] assms(2) show ?thesis
    by (simp add: worked_on_def logged_def one_live_def)
next
  case elsewhere
  with assms(2) show ?thesis by (simp add: logged_def one_live_def)
qed

section \<open>Every reached store\<close>

lemma decisions_claim: "leaves db_decisions (claim_locked env tenant user subject)"
  unfolding claim_locked_def lock_instance_then_task_def lock_instance_def lock_task_def claim_def
    holds_role_def can_be_decided_def record_task_history_def
  by (intro leaving leaves_update_rows leaves_append_row) simp_all

lemma decisions_delegate: "leaves db_decisions (delegate_locked env tenant user subject delegate0 comment)"
  unfolding delegate_locked_def lock_instance_then_task_def lock_instance_def lock_task_def
    delegate_row_def user_is_available_def record_task_history_def record_activity_def
  by (intro leaving leaves_update_rows leaves_append_row) simp_all

lemma decisions_reassign: "leaves db_decisions (reassign_locked env tenant user subject c target comment)"
  unfolding reassign_locked_def lock_instance_then_task_def lock_instance_def lock_task_def
    reassign_row_def record_task_history_def
  by (intro leaving reads_db_decisions leaves_update_rows leaves_append_row) simp_all

lemma decide_appends:
  assumes "decide_locked env caller action comment reading st = (st', Inr r)"
  shows "\<exists>d. db_decisions st' = db_decisions st @ [d] \<and> dc_task d = ta_id (rd_subject reading)"
proof -
  obtain locked fired where r: "r = (locked, fired)" by (cases r)
  show ?thesis
    using assms unfolding r
    by (rule decide_locked_Inr) (drule leavesD [OF decisions_fire], simp)
qed

lemma commits_keeps:
  assumes "commits st st'" "sound st" "orderly st"
  shows "sound st' \<and> orderly st' \<and> (\<exists>ds. db_decisions st' = db_decisions st @ ds)"
  using assms(1)
proof cases
  case (claimed env tenant user subject u)
  from sound_still [OF leavesD [OF claim_locked_process claimed] assms(2)]
    claim_locked_orderly [OF claimed assms(3)] leavesD [OF decisions_claim claimed]
  show ?thesis by simp
next
  case (handed_over env tenant user subject delegate0 comment u)
  from sound_still [OF leavesD [OF delegate_locked_process handed_over] assms(2)]
    delegate_locked_orderly [OF handed_over assms(3)] leavesD [OF decisions_delegate handed_over]
  show ?thesis by simp
next
  case (reassigned env tenant user subject c target comment u)
  from sound_still [OF leavesD [OF reassign_locked_process reassigned] assms(2)]
    reassign_locked_orderly [OF reassigned assms(3)] leavesD [OF decisions_reassign reassigned]
  show ?thesis by simp
next
  case (decided env caller action comment reading r)
  from decide_locked_sound [OF decided assms(2)] decide_locked_orderly [OF decided assms(3,2)]
    decide_appends [OF decided]
  show ?thesis by blast
next
  case (started env tenant document subject binding number ev actor s)
  from start_keeps [OF started assms(2,3)] show ?thesis by simp
next
  case (resubmitted env tenant document subject held ev actor u)
  from resubmit_keeps [OF resubmitted assms(2,3)] show ?thesis by simp
next
  case (claimed_batch env n lease r)
  from worked_on_keeps [OF leavesD [OF claim_leaves_work claimed_batch] assms(2,3)] show ?thesis by simp
next
  case (delivered env failure_text event r)
  from worked_on_keeps [OF leavesD [OF deliver_one_leaves_work delivered] assms(2,3)] show ?thesis by simp
next
  case elsewhere
  then show ?thesis using sound_logged orderly_same assms(2,3) by auto
qed

lemma reached_keeps: "reached st \<Longrightarrow> sound st \<and> orderly st \<and> one_live st"
proof (induction rule: reached.induct)
  case (empty st)
  then have "db_instances st = []" "db_history st = []" "db_events st = []" by (auto simp: process_def)
  with empty show ?case
    by (simp add: sound_def sound_process_def place_def trail_def announcements_def orderly_def open_of_def one_live_def)
next
  case (step st st')
  with commits_keeps one_live_commits show ?case by blast
qed

lemma decisions_stay:
  "commits\<^sup>*\<^sup>* st st' \<Longrightarrow> reached st \<Longrightarrow> reached st' \<and> set (db_decisions st) \<subseteq> set (db_decisions st')"
proof (induction rule: rtranclp_induct)
  case (step y z)
  then have "reached y" "reached z" using reached.step by blast+
  moreover obtain ds where "db_decisions z = db_decisions y @ ds"
    using commits_keeps [OF step.hyps(2)] reached_keeps [OF \<open>reached y\<close>] by blast
  ultimately show ?case using step by auto
qed simp

end
