(* ===== verification/InboxFacts.thy ===== *)
theory InboxFacts
  imports Inbox
begin

text \<open>
  The inbox answers as the engine does: the clause's reading of an edge is the engine's resolution of
  its rule, and the page, its count, the gate of the detail read and the rule of a decision agree.
\<close>

section \<open>The clause reads a rule as the engine resolves it\<close>

lemma get_rule_json:
  "get (rule_json (Some r)) ''assigneeType'' = Some (String (assignee_type_key (assignee_type r)))"
  "get (rule_json (Some r)) ''userId'' = Some (nullable (user_id r))"
  "get (rule_json (Some r)) ''roleCode'' = Some (nullable (role_code r))"
  "get (rule_json (Some r)) ''departmentScope'' = Some (nullable (department_scope r))"
  "get (rule_json None) k = None"
  unfolding rule_json_def by (simp_all add: get_json_object)

lemma text_nullable: "get v k = Some (nullable s) \<Longrightarrow> text_at env v k = s"
  by (cases s) (simp_all add: text_at_def)

lemma string_nullable: "get v k = Some (nullable s) \<Longrightarrow> string_at v k \<longleftrightarrow> s \<noteq> None"
  by (cases s) (simp_all add: string_at_def)

lemma rule_texts [simp]:
  "text_at env (rule_json (Some r)) ''assigneeType'' = Some (assignee_type_key (assignee_type r))"
  "text_at env (rule_json (Some r)) ''userId'' = user_id r"
  "text_at env (rule_json (Some r)) ''roleCode'' = role_code r"
  "text_at env (rule_json (Some r)) ''departmentScope'' = department_scope r"
  "string_at (rule_json (Some r)) ''userId'' \<longleftrightarrow> user_id r \<noteq> None"
  by (simp_all add: text_nullable string_nullable get_rule_json text_at_def [where k = "''assigneeType''"])

lemma rule_json_None [simp]: "text_at env (rule_json None) k = None"
  by (simp add: text_at_def get_rule_json)

text \<open>The department the engine reads for a document's owner, as a function of the tables.\<close>

definition owner_department_in :: "uuid \<Rightarrow> Store \<Rightarrow> uuid \<Rightarrow> OwnerDepartment" where
  "owner_department_in tenant st owner =
     (case find (\<lambda>u. us_tenant u = tenant \<and> us_id u = owner) (db_users st) of
        None \<Rightarrow> Unset
      | Some u \<Rightarrow>
          (case us_department u of
             None \<Rightarrow> Unset
           | Some named \<Rightarrow>
               if department_held tenant st named \<noteq> None then LiveDepartment named
               else GoneDepartment named))"

definition document_context :: "uuid \<Rightarrow> Store \<Rightarrow> document_row \<Rightarrow> AssignmentContext" where
  "document_context tenant st d =
     \<lparr>ac_document_type = do_type d, ac_owner = do_created_by d, ac_requested = do_requested_department d,
      ac_owner_department =
        (case do_created_by d of None \<Rightarrow> Unset | Some owner \<Rightarrow> owner_department_in tenant st owner)\<rparr>"

lemma find_id: "map_option f (find (\<lambda>d. p d \<and> f d = x) ds) =
    (if list_ex (\<lambda>d. p d \<and> f d = x) ds then Some x else None)"
  by (induction ds) auto

lemma department_held_if:
  "department_held tenant st x =
     (if list_ex (\<lambda>d. de_id d = x \<and> de_tenant d = tenant \<and> \<not> de_deleted d) (db_departments st)
      then Some x else None)"
  using find_id [of de_id "\<lambda>d. de_tenant d = tenant \<and> \<not> de_deleted d" x "db_departments st"]
  by (simp add: department_held_def conj_commute conj_left_commute)

lemma context_of_document_Inr:
  "context_of_document env tenant (do_type d) (do_created_by d) (do_requested_department d) st = (st', Inr c)
   \<Longrightarrow> c = document_context tenant st d"
  by (auto simp: context_of_document_def owner_department_of_def document_context_def
      owner_department_in_def steps department_held_if split: option.splits)

text \<open>What a published decision edge carries: a rule that names a role when its kind asks for one.\<close>

definition names_its_role :: "AssignmentRule \<Rightarrow> bool" where
  "names_its_role rule \<longleftrightarrow> (assignee_type rule \<in> {Role, DepartmentRole} \<longrightarrow> role_code rule \<noteq> None)"

lemma role_named_None:
  "role_named tenant st c = None \<longleftrightarrow>
     \<not> list_ex (\<lambda>r. ro_tenant r = tenant \<and> ro_code r = c \<and> \<not> ro_deleted r) (db_roles st)"
  by (auto simp: role_named_def find_None_iff list_ex_iff)

lemma department_named_None:
  "department_named tenant st c = None \<longleftrightarrow>
     \<not> list_ex (\<lambda>d. de_tenant d = tenant \<and> \<not> de_deleted d \<and> de_code d = c) (db_departments st)"
  by (auto simp: department_named_def find_None_iff list_ex_iff)

text \<open>With one row per user id, the clause's join over users reads the row the engine reads.\<close>

lemma owner_row:
  assumes "distinct (map us_id us)"
  shows "list_ex (\<lambda>u. us_tenant u = tenant \<and> us_id u = owner \<and> p u) us \<longleftrightarrow>
    (\<exists>u. find (\<lambda>u. us_tenant u = tenant \<and> us_id u = owner) us = Some u \<and> p u)"
  using assms by (induction us) (auto simp: list_ex_iff image_iff)

lemma scope_live_iff:
  assumes "distinct (map us_id (db_users st))"
  shows "scope_live tenant st d scope \<longleftrightarrow> scope_department tenant st (document_context tenant st d) scope \<noteq> None"
proof (cases scope)
  case (Some s)
  consider "s = ''REQUESTED_DEPARTMENT''" | "s = ''OWNER_DEPARTMENT''"
    | "s \<noteq> ''REQUESTED_DEPARTMENT''" "s \<noteq> ''OWNER_DEPARTMENT''" by blast
  then show ?thesis
  proof cases
    case 1
    with Some show ?thesis
      by (cases "do_requested_department d")
         (auto simp: scope_live_def scope_department_def document_context_def department_held_if list_ex_iff)
  next
    case 2
    show ?thesis
    proof (cases "do_created_by d")
      case None
      with Some 2 show ?thesis
        by (simp add: scope_live_def scope_department_def document_context_def list_ex_iff)
    next
      case (Some owner)
      have held: "list_ex (\<lambda>dep. Some (de_id dep) = us_department u \<and> de_tenant dep = tenant \<and>
            \<not> de_deleted dep) (db_departments st) \<longleftrightarrow>
          (case us_department u of None \<Rightarrow> False | Some x \<Rightarrow> department_held tenant st x \<noteq> None)" for u
        by (auto simp: department_held_if list_ex_iff split: option.split)
      have "scope_live tenant st d scope \<longleftrightarrow>
          list_ex (\<lambda>u. us_tenant u = tenant \<and> us_id u = owner \<and>
            (case us_department u of None \<Rightarrow> False | Some x \<Rightarrow> department_held tenant st x \<noteq> None)) (db_users st)"
        unfolding held [symmetric] using \<open>scope = Some s\<close> Some 2
        by (simp add: scope_live_def eq_commute [of owner])
      then show ?thesis
        unfolding owner_row [OF assms] using \<open>scope = Some s\<close> Some 2
        by (auto simp: scope_department_def document_context_def owner_department_in_def department_held_if
            split: option.splits if_splits)
    qed
  next
    case 3
    with Some show ?thesis
      by (simp add: scope_live_def scope_department_def department_named_None)
  qed
qed (simp add: scope_live_def scope_department_def)

lemma uuid_spelling_Nil [simp]: "uuid_spelling [] = None"
  by code_simp

lemma edge_live_iff:
  assumes "parse_uuid env = uuid_spelling" "names_its_role rule" "distinct (map us_id (db_users st))"
  shows "edge_live env tenant st d (rule_json (Some rule)) \<longleftrightarrow>
    resolution env tenant rule (document_context tenant st d) st \<noteq> None"
proof (cases "assignee_type rule")
  case User
  then show ?thesis
    by (cases "user_id rule")
       (auto simp: edge_live_def resolution_def assms(1) Let_def or_default_def split: option.splits)
next
  case Owner
  then show ?thesis
    by (auto simp: edge_live_def resolution_def document_context_def split: option.splits)
next
  case Role
  with assms(2) show ?thesis
    by (auto simp: edge_live_def resolution_def Let_def names_its_role_def role_named_None list_ex_iff or_default_def)
next
  case DepartmentRole
  then obtain c where c: "role_code rule = Some c" using assms(2) by (auto simp: names_its_role_def)
  have "edge_live env tenant st d (rule_json (Some rule)) \<longleftrightarrow>
      role_named tenant st c \<noteq> None \<and> scope_live tenant st d (department_scope rule)"
    using DepartmentRole c by (auto simp: edge_live_def Let_def role_named_None list_ex_iff or_default_def)
  with DepartmentRole c show ?thesis
    by (auto simp: resolution_def scope_live_iff [OF assms(3)] or_default_def split: option.splits)
qed

section \<open>The raise, the claim and the clause ask one question\<close>

text \<open>A step whose only failures are validation refusals.\<close>

definition only_refuses :: "'a tx \<Rightarrow> bool" where
  "only_refuses m \<longleftrightarrow> (\<forall>st e. snd (m st) = Inl e \<longrightarrow> (\<exists>ds. e = Validation ds \<and> ds \<noteq> []))"

lemma only_refuses_seq: "only_refuses m \<Longrightarrow> (\<And>x. only_refuses (f x)) \<Longrightarrow> only_refuses (seq m f)"
  unfolding only_refuses_def seq_def by (auto split: prod.splits sum.splits; metis snd_conv)

lemma only_refuses_basic:
  "only_refuses (ret x)"
  "only_refuses (need (unresolvable q path f a) y)"
  "only_refuses (refuse_if b (unresolvable q path f a))"
  by (auto simp: only_refuses_def ret_def need_def refuse_if_def fail_def unresolvable_def
      split: option.splits)

lemma only_refuses_fetch: "faultless env \<Longrightarrow> only_refuses (fetch env g)"
  by (simp add: only_refuses_def fetch_faultless)

lemma only_refuses_normalize: "only_refuses (lift_result (normalize env rule c path q))"
  by (auto simp: only_refuses_def lift_result_def normalize_def owner_scope_def unresolvable_def Let_def
      split: AssigneeType.splits option.splits if_splits OwnerDepartment.splits)

lemma resolve_rule_only_refuses: "faultless env \<Longrightarrow> only_refuses (resolve_rule env tenant rule c path q)"
  unfolding resolve_rule_def direct_def direct_department_def live_user_def live_role_of_code_def
    live_department_def live_department_of_code_def
  by (auto intro!: only_refuses_seq only_refuses_normalize only_refuses_basic
      intro: only_refuses_fetch split: Principal.split option.split DepartmentScope.split)

lemma resolve_rule_complete:
  assumes "faultless env" "resolution env tenant rule c st = Some r"
  shows "\<exists>st'. resolve_rule env tenant rule c path q st = (st', Inr r)"
  using assms unfolding resolve_rule_def faultless_def
  by (auto simp: steps resolution_def scope_department_def Let_def normalize_def owner_scope_def direct_def
      direct_department_def department_held_if bind_eq_Some_conv
      split: AssigneeType.splits option.splits if_splits OwnerDepartment.splits)

definition resolves :: "Env \<Rightarrow> uuid \<Rightarrow> AssignmentContext \<Rightarrow> Store \<Rightarrow> Transition \<Rightarrow> bool" where
  "resolves env tenant c st edge \<longleftrightarrow>
     (case allowed_by edge of None \<Rightarrow> True | Some rule \<Rightarrow> resolution env tenant rule c st \<noteq> None)"

lemma resolution_cong:
  "tables st' = tables st \<Longrightarrow> resolution env tenant rule c st' = resolution env tenant rule c st"
  by (metis resolution_tables)

lemma edge_resolves_iff:
  assumes "faultless env"
  shows "(\<exists>st'. edge_resolves env tenant c edges ds st = (st', Inr ())) \<longleftrightarrow>
    (\<exists>edge \<in> set edges. decision_action (t_action edge) \<and> resolves env tenant c st edge) \<or>
    ds = [] \<and> (\<forall>edge \<in> set edges. \<not> decision_action (t_action edge))"
proof (induction edges arbitrary: ds st)
  case (Cons edge edges)
  show ?case
  proof (cases "decision_action (t_action edge)")
    case False
    with Cons.IH show ?thesis by simp
  next
    case True
    show ?thesis
    proof (cases "allowed_by edge")
      case None
      with True show ?thesis by (simp add: resolves_def steps)
    next
      case (Some rule)
      let ?m = "resolve_rule env tenant rule c (allowed_by_path (t_from edge) (t_action edge)) AskRaise"
      obtain st1 x where x: "?m st = (st1, x)" by force
      have t: "tables st1 = tables st" using leavesD [OF reads_resolve_rule x] .
      show ?thesis
      proof (cases x)
        case (Inl e)
        with x resolve_rule_only_refuses [OF assms] obtain ds' where e: "e = Validation ds'" "ds' \<noteq> []"
          by (metis only_refuses_def snd_conv)
        have "resolution env tenant rule c st = None"
          using resolve_rule_complete [OF assms] x Inl by (metis Inl_Inr_False option.exhaust prod.inject)
        moreover have "resolves env tenant c st1 = resolves env tenant c st"
          by (auto simp: resolves_def fun_eq_iff resolution_cong [OF t] split: option.split)
        ultimately show ?thesis
          using True Some x Inl e Cons.IH [of "ds @ ds'" st1]
          by (simp add: seq_def attempt_def resolves_def [of _ _ _ _ edge])
      next
        case (Inr r)
        with x have "resolution env tenant rule c st = Some r" by (auto dest: resolve_rule_Inr)
        with True Some x Inr show ?thesis
          by (simp add: seq_def attempt_def ret_def resolves_def)
      qed
    qed
  qed
qed (simp add: steps)

text \<open>The clause over the projection is the raise's refusal over the definition.\<close>

lemma decision_action_as_db:
  "decision_action a \<longleftrightarrow> action_as_db a = ''APPROVE'' \<or> action_as_db a = ''REJECT'' \<or> action_as_db a = ''RETURN''"
  by (cases a) (auto simp: decision_action_def)

definition projects :: "uuid \<Rightarrow> Store \<Rightarrow> instance_row \<Rightarrow> Graph \<Rightarrow> bool" where
  "projects tenant st i g \<longleftrightarrow>
     filter (\<lambda>r. pr_tenant r = tenant \<and> pr_definition r = in_definition i) (db_projection st) =
       map (projected tenant (in_definition i)) (transitions g)"

lemma decision_rows_projects:
  assumes "projects tenant st i g"
  shows "decision_rows tenant st i =
    map (projected tenant (in_definition i))
      (filter (\<lambda>t. decision_action (t_action t)) (actions_from g (in_state i)))"
proof -
  have "decision_rows tenant st i =
      filter (\<lambda>r. pr_from r = in_state i \<and> pr_action r \<in> {''APPROVE'', ''REJECT'', ''RETURN''})
        (filter (\<lambda>r. pr_tenant r = tenant \<and> pr_definition r = in_definition i) (db_projection st))"
    unfolding decision_rows_def filter_filter by (simp add: conj_ac)
  also have "\<dots> = map (projected tenant (in_definition i))
      (filter (\<lambda>t. decision_action (t_action t)) (actions_from g (in_state i)))"
    unfolding assms [unfolded projects_def] actions_from_def filter_filter filter_map
    by (rule arg_cong [where f = "map _"], rule filter_cong)
       (auto simp: projected_def decision_action_as_db)
  finally show ?thesis .
qed

lemma claimed_clause_iff:
  assumes "faultless env" "parse_uuid env = uuid_spelling" "distinct (map us_id (db_users st))"
    and g: "projects (ta_tenant t) st i g"
    and rules: "\<And>edge. edge \<in> set (actions_from g (in_state i)) \<Longrightarrow> decision_action (t_action edge) \<Longrightarrow>
      \<exists>rule. allowed_by edge = Some rule \<and> names_its_role rule"
    and status: "ta_status t \<in> set OPEN_STATUSES"
  shows "claimed_clause env st t d i \<longleftrightarrow>
    (\<exists>st'. refuse_unless_an_edge_resolves env (ta_tenant t) (document_context (ta_tenant t) st d)
      (actions_from g (in_state i)) st = (st', Inr ()))"
proof -
  let ?es = "filter (\<lambda>t. decision_action (t_action t)) (actions_from g (in_state i))"
  have live: "edge_live env (ta_tenant t) st d (rule_json (allowed_by edge)) \<longleftrightarrow>
      resolves env (ta_tenant t) (document_context (ta_tenant t) st d) st edge" if "edge \<in> set ?es" for edge
  proof -
    from that rules obtain rule where "allowed_by edge = Some rule" "names_its_role rule" by auto
    with edge_live_iff [OF assms(2) _ assms(3)] show ?thesis by (simp add: resolves_def)
  qed
  show ?thesis
    using status live
    by (auto simp: claimed_clause_def decision_rows_projects [OF g] refuse_unless_an_edge_resolves_def
        edge_resolves_iff [OF assms(1)] projected_def list_ex_iff filter_empty_conv)
qed

section \<open>One visibility rule\<close>

text \<open>What the decision reads of the task and its holder is the rule the inbox lists by.\<close>

lemma mine_iff:
  "mine env tenant user st t \<longleftrightarrow>
     refuse_unless_theirs user (ta_assignee t)
       (case ta_role t of None \<Rightarrow> False | Some role \<Rightarrow> holds_role_in env tenant user role (ta_department t) st)
       = Inr ()"
  by (auto simp: mine_def holds_role_in_def list_ex_iff split: option.split; blast)

lemma list_for_caller_Inr:
  assumes "list_for_caller env ilike tenant user filters limit offset st = (st', Inr page)"
  shows "pg_matching page = (if pg_rows page = [] then None else
      Some (length (filter (\<lambda>(t, d, i). has_definition st i) (matched env ilike tenant user filters st))))"
    and "st' = counted st st"
  using assms by (auto simp: list_for_caller_def steps Let_def)

lemma mset_newest_first: "set (newest_first rows) = set rows"
  by (simp add: newest_first_def)

lemma set_in_order [simp]: "set (in_order o' rows) = set rows"
  by (auto simp: in_order_def Let_def mset_newest_first)

lemma length_dated:
  "length (filter (\<lambda>(t, _, _). ta_due t \<noteq> None) xs) + length (filter (\<lambda>(t, _, _). ta_due t = None) xs) =
     length xs"
  by (induction xs) auto

lemma length_in_order [simp]: "length (in_order o' rows) = length rows"
  using length_dated [of "newest_first rows"]
  by (simp only: in_order_def Let_def length_append length_sort newest_first_def length_rev split: if_split) simp

text \<open>A task the gate of the detail read shows is on the page the read takes it from.\<close>

lemma visible_matched:
  "(t, d, i) \<in> set (matched env ilike tenant user (no_filters\<lparr>fl_scope := EveryTask, fl_task := Some ident\<rparr>) st)
   \<longleftrightarrow> (t, d, i) \<in> set (joined st) \<and> visible env tenant user st (t, d, i) \<and> ta_id t = ident"
  by (auto simp: matched_def narrowed_def no_filters_def)

lemma visible_counted [simp]:
  "visible env tenant user (counted a st) = visible env tenant user st"
  unfolding fun_eq_iff visible_def mine_def claimed_clause_def decision_rows_def edge_live_def
    scope_live_def read_counted counted_sel by (rule allI) (rule refl)

lemma joined_counted [simp]: "joined (counted a st) = joined st"
  by (simp add: joined_def)

lemma matched_counted [simp]:
  "matched env ilike tenant user filters (counted a st) = matched env ilike tenant user filters st"
  by (simp add: matched_def)

lemma has_definition_counted [simp]: "has_definition (counted a st) = has_definition st"
  by (simp add: has_definition_def fun_eq_iff)

lemma gate_has_its_row:
  assumes "is_visible_to env tenant user ident st = (st1, Inr True)"
    and "list_for_caller env ilike tenant user (no_filters\<lparr>fl_scope := EveryTask, fl_task := Some ident\<rparr>)
          1 0 st1 = (st2, Inr page)"
    and "list_all (has_definition st) (db_instances st)"
  shows "pg_rows page \<noteq> [] \<and> ir_id (hd (pg_rows page)) = ident"
proof -
  let ?f = "no_filters\<lparr>fl_scope := EveryTask, fl_task := Some ident\<rparr>"
  let ?rows = "filter (\<lambda>(t, d, i). has_definition st i) (matched env ilike tenant user ?f st)"
  from assms(1) have st1: "st1 = counted st st"
    and "\<exists>(t, d, i) \<in> set (joined st). ta_id t = ident \<and> visible env tenant user st (t, d, i)"
    by (auto simp: is_visible_to_def steps list_ex_iff)
  then obtain t d i where m: "(t, d, i) \<in> set (joined st)" "ta_id t = ident"
      "visible env tenant user st (t, d, i)" by blast
  then have "has_definition st i" using assms(3) by (auto simp: joined_def list_all_iff)
  with m have "(t, d, i) \<in> set ?rows" by (simp add: visible_matched)
  then have ne: "in_order (fl_order ?f) ?rows \<noteq> []" by (metis empty_iff list.set(1) set_in_order)
  have ids: "\<forall>x \<in> set (in_order (fl_order ?f) ?rows). ta_id (fst x) = ident"
    by (auto simp: visible_matched)
  have rows: "pg_rows page = map (inbox_row env st1) (page_of 1 0 (in_order (fl_order ?f) ?rows))"
    using assms(2) st1 by (auto simp: list_for_caller_def steps Let_def)
  from ne obtain x xs where x: "in_order (fl_order ?f) ?rows = x # xs" by (metis neq_Nil_conv)
  with ids have "ta_id (fst x) = ident" by (simp only: list.set insert_iff ball_simps)
  with x show ?thesis unfolding rows by (cases x) (simp add: page_of_def inbox_row_def)
qed

end
