(* ===== verification/ServiceFacts.thy ===== *)
theory ServiceFacts
  imports Reached InboxFacts
begin

text \<open>
  What the actions of the services guarantee when they succeed (who could claim, whom a task may be
  given to, where a person may move a document, whose authority a handed-over task keeps), and that
  a refused decision leaves the tables as they were.
\<close>

section \<open>Refusals that leave no trace\<close>

definition spotless :: "'a tx \<Rightarrow> bool" where
  "spotless m \<longleftrightarrow> (\<forall>st st' e. m st = (st', Inl e) \<longrightarrow> tables st' = tables st)"

definition answers :: "'a tx \<Rightarrow> bool" where
  "answers m \<longleftrightarrow> (\<forall>st. \<exists>y. snd (m st) = Inr y)"

lemma spotless_reads: "leaves tables m \<Longrightarrow> spotless m"
  unfolding spotless_def using leavesD by blast

lemma spotless_seq:
  assumes "leaves tables m" "\<And>x. spotless (f x)"
  shows "spotless (seq m f)"
  unfolding spotless_def
proof (intro allI impI)
  fix st st' e
  assume a: "seq m f st = (st', Inl e)"
  obtain st1 r where m: "m st = (st1, r)" by force
  then have "tables st1 = tables st" using assms(1) leavesD by blast
  with a m assms(2) show "tables st' = tables st"
    unfolding seq_def spotless_def by (cases r) (simp, simp, metis)
qed

lemma spotless_transaction: "(\<And>x. answers (f x)) \<Longrightarrow> spotless (seq (transaction m) f)"
  unfolding spotless_def answers_def seq_def
  by (auto simp: transaction_def split: prod.splits sum.splits) (metis Inl_Inr_False snd_conv)+

lemma answers_ret [simp]: "answers (ret x)"
  by (simp add: answers_def ret_def)

lemma reads_require [leaving]: "leaves tables (require caller p)"
  unfolding require_def by (intro leaving)

lemma reads_subject_task [leaving]: "leaves tables (subject_task env tenant ident)"
  unfolding subject_task_def find_task_def by (intro leaving)

lemma reads_actor_facts [leaving]: "leaves tables (read_actor_facts env tenant actor)"
  unfolding read_actor_facts_def role_codes_for_user_def department_of_user_def by (intro leaving)

lemma reads_for_decision [leaving]: "leaves tables (read_for_decision env tenant user ident)"
  unfolding read_for_decision_def find_instance_def definition_of_instance_def find_document_def
    variables_of_def read_document_type_key_def type_code_of_def
  by (intro leaving)

lemma refused_decision_spotless: "spotless (decide_task env caller ident action c)"
  unfolding decide_task_def by (intro spotless_seq leaving spotless_transaction) (simp split: prod.split)

section \<open>A transition somebody asks for\<close>

lemma apply_transition_Inr:
  assumes "apply_transition env tenant ident from to0 actor reason st = (st', Inr u)"
  shows "shown tenant ident st = Some (status_as_db from) \<Longrightarrow> shown tenant ident st' = Some (status_as_db to0)"
    and "process st' = process st" "db_tasks st' = db_tasks st"
    and "db_status_history st' = db_status_history st @
      [\<lparr>sh_tenant = tenant, sh_document = ident, sh_old = Some (status_as_db from),
        sh_new = status_as_db to0, sh_changed_by = actor, sh_reason = reason\<rparr>]"
    and "db_parties st' = db_parties st" "db_facilities st' = db_facilities st" "db_changes st' = db_changes st"
proof -
  let ?f = "\<lambda>d. d\<lparr>do_status := status_as_db to0,
      do_completed := (if to0 = DocCompleted then Some (now env) else do_completed d)\<rparr>"
  have docs: "db_documents st' = update_where (\<lambda>d. the_document tenant ident d \<and> do_status d = status_as_db from)
      ?f (db_documents st)"
    and rest: "process st' = process st \<and> db_tasks st' = db_tasks st \<and>
      db_parties st' = db_parties st \<and> db_facilities st' = db_facilities st \<and> db_changes st' = db_changes st \<and>
      db_status_history st' = db_status_history st @
        [\<lparr>sh_tenant = tenant, sh_document = ident, sh_old = Some (status_as_db from),
          sh_new = status_as_db to0, sh_changed_by = actor, sh_reason = reason\<rparr>]"
    using assms unfolding apply_transition_def move_status_def record_transition_def record_activity_def
    by (auto simp: steps process_def)
  from rest show "process st' = process st" "db_tasks st' = db_tasks st"
    "db_parties st' = db_parties st" "db_facilities st' = db_facilities st" "db_changes st' = db_changes st"
    "db_status_history st' = db_status_history st @
      [\<lparr>sh_tenant = tenant, sh_document = ident, sh_old = Some (status_as_db from),
        sh_new = status_as_db to0, sh_changed_by = actor, sh_reason = reason\<rparr>]" by blast+
  assume s: "shown tenant ident st = Some (status_as_db from)"
  have "find (the_document tenant ident) (db_documents st') =
      map_option (\<lambda>d. if the_document tenant ident d \<and> do_status d = status_as_db from then ?f d else d)
        (find (the_document tenant ident) (db_documents st))"
    unfolding docs by (rule find_cong_map) (simp add: the_document_def)
  moreover obtain d :: document_row where d: "find (the_document tenant ident) (db_documents st) = Some d"
    "do_status d = status_as_db from" using s by (auto simp: shown_def)
  moreover from d(1) have "the_document tenant ident d" by (auto simp: find_Some_iff)
  ultimately show "shown tenant ident st' = Some (status_as_db to0)" by (simp add: shown_def)
qed

lemma status_read_back: "status_as_db (status_from_db s) = s \<or> status_from_db s = DocDraft"
  by (auto simp: status_from_db_def parse_document_status_def split: if_splits)

lemma transition_Inr:
  assumes "transition env caller ident to0 reason st = (st', Inr r)"
  obtains st1 st2 where
    "DOCUMENT_TRANSITION \<in> set (ca_permissions caller)" "tr_status r = to0"
    "map_option status_from_db (shown (ca_tenant caller) ident st) = Some (tr_previous r)"
    "to0 \<in> set (may_move_to (tr_previous r))"
    "find (\<lambda>i. in_tenant i = ca_tenant caller \<and> in_document i = ident \<and> live_row i) (db_instances st) = None"
    "tables st1 = tables st"
    "apply_transition env (ca_tenant caller) ident (tr_previous r) to0 (Some (ca_user caller)) reason st1 = (st', Inr ())"
  using assms unfolding transition_def find_status_def refuse_while_a_workflow_is_deciding_def
    live_instance_of_document_def require_def
  by (auto simp: steps shown_def option.map_comp comp_def split: option.splits) (metis tables_counted)

section \<open>A claim\<close>

lemma claim_locked_steps:
  assumes "claim_locked env tenant user subject st = (st', Inr u)"
  obtains st1 locked role st2 st3 st4 n where
    "lock_instance_then_task env tenant (ta_instance subject) (ta_id subject) st = (st1, Inr locked)"
    "lt_role locked = Some role"
    "holds_role env tenant user role (lt_department locked) st1 = (st2, Inr True)"
    "can_be_decided env tenant (ta_id subject) st2 = (st3, Inr True)"
    "claim env tenant (ta_id subject) user st3 = (st4, Inr n)" "n \<noteq> 0" "db_tasks st' = db_tasks st4"
  using assms unfolding claim_locked_def
  by (auto simp: steps record_task_history_def split: if_splits)

lemma lock_then_Inr:
  "lock_instance_then_task env tenant inst ident st = (st1, Inr locked) \<Longrightarrow>
     st1 = counted (counted st st) (counted st st)"
  by (auto simp: lock_instance_then_task_def lock_instance_def lock_task_def steps)

definition decidable :: "Env \<Rightarrow> uuid \<Rightarrow> uuid \<Rightarrow> Store \<Rightarrow> bool" where
  "decidable env tenant ident st \<longleftrightarrow>
     list_ex (\<lambda>(t, d, i). ta_tenant t = tenant \<and> ta_id t = ident \<and> claimed_clause env st t d i) (joined st)"

lemma claimed_clause_counted [simp]: "claimed_clause env (counted a st) = claimed_clause env st"
  unfolding fun_eq_iff claimed_clause_def decision_rows_def edge_live_def scope_live_def read_counted counted_sel
  by (intro allI) (rule refl)

lemma decidable_counted [simp]: "decidable env tenant ident (counted a st) = decidable env tenant ident st"
  by (simp add: decidable_def)

lemma can_be_decided_Inr:
  "can_be_decided env tenant ident st = (st', Inr b) \<Longrightarrow> b = decidable env tenant ident st \<and> st' = counted st st"
  by (simp add: can_be_decided_def decidable_def steps)

lemma holds_role_in_cong:
  "tables st' = tables st \<Longrightarrow> holds_role_in env tenant u r d st' = holds_role_in env tenant u r d st"
  by (metis holds_role_in_tables)

lemma claim_locked_Inr:
  assumes "claim_locked env tenant user subject st = (st', Inr u)" "distinct (map ta_id (db_tasks st))"
  obtains row role where
    "find (the_task tenant (ta_id subject)) (db_tasks st) = Some row" "ta_role row = Some role"
    "ta_assignee row = None" "ta_status row = ''CREATED''"
    "holds_role_in env tenant user role (ta_department row) st"
    "decidable env tenant (ta_id subject) st"
    "find (the_task tenant (ta_id subject)) (db_tasks st') =
       Some (row\<lparr>ta_assignee := Some user, ta_status := ''ASSIGNED''\<rparr>)"
proof -
  let ?p = "\<lambda>r. the_task tenant (ta_id subject) r \<and> ta_assignee r = None \<and> ta_status r = ''CREATED''"
  let ?f = "\<lambda>r. r\<lparr>ta_assignee := Some user, ta_status := ''ASSIGNED''\<rparr>"
  obtain st1 locked role st2 st3 st4 n where
    l: "lock_instance_then_task env tenant (ta_instance subject) (ta_id subject) st = (st1, Inr locked)"
    and role: "lt_role locked = Some role"
    and h: "holds_role env tenant user role (lt_department locked) st1 = (st2, Inr True)"
    and d: "can_be_decided env tenant (ta_id subject) st2 = (st3, Inr True)"
    and c: "claim env tenant (ta_id subject) user st3 = (st4, Inr n)" "n \<noteq> 0"
    and tasks: "db_tasks st' = db_tasks st4"
    using assms(1) by (rule claim_locked_steps)
  obtain row :: task_row where row: "find (the_task tenant (ta_id subject)) (db_tasks st) = Some row"
    "locked = locked_task row" and st1: "tables st1 = tables st" using locked_then [OF l] by blast
  have st2: "st2 = counted st1 st1" using h by (simp add: holds_role_def steps)
  note st3 = can_be_decided_Inr [OF d]
  have dec: "decidable env tenant (ta_id subject) st"
    using st3 st2 lock_then_Inr [OF l] by simp
  have st3: "tables st3 = tables st" using st2 st3 st1 by simp
  have "db_tasks st3 = db_tasks st" using same_tables [OF st3] by simp
  with c tasks have upd: "db_tasks st' = update_where ?p ?f (db_tasks st)"
    and some: "\<exists>r \<in> set (db_tasks st). ?p r"
    by (simp_all add: claim_def steps)
  then obtain r where r: "r \<in> set (db_tasks st)" "?p r" by blast
  then have "row = r" using find_the_task_unique [OF assms(2) r(1) row(1)] by (simp add: the_task_def)
  with r have p: "?p row" by simp
  have "find (the_task tenant (ta_id subject)) (db_tasks st') =
      map_option (\<lambda>r. if ?p r then ?f r else r) (find (the_task tenant (ta_id subject)) (db_tasks st))"
    unfolding upd by (rule find_cong_map) (simp add: the_task_def)
  with row(1) p have new: "find (the_task tenant (ta_id subject)) (db_tasks st') = Some (?f row)" by simp
  have holds: "holds_role_in env tenant user role (ta_department row) st"
    using h row(2) holds_role_in_cong [OF st1] by (simp add: holds_role_def steps locked_task_def)
  show thesis
    by (rule that [OF row(1) _ _ _ holds dec new]) (use role row(2) p in \<open>simp_all add: locked_task_def\<close>)
qed

section \<open>Whom a task may be given to\<close>

text \<open>An edge the target could take: open to all, or its rule admits the person or names the role.\<close>

definition open_to ::
  "Env \<Rightarrow> uuid \<Rightarrow> ReassignTarget \<Rightarrow> ResolvedAssignment \<Rightarrow> AssignmentContext \<Rightarrow> Store \<Rightarrow> Transition \<Rightarrow> bool" where
  "open_to env tenant target a c st edge \<longleftrightarrow>
     (case allowed_by edge of
        None \<Rightarrow> True
      | Some rule \<Rightarrow>
          (case resolution env tenant rule c st of
             None \<Rightarrow> False
           | Some r \<Rightarrow>
               (case target of
                  ToUser user \<Rightarrow> admits env tenant st r user
                | ToRole _ \<Rightarrow> ra_role a \<noteq> None \<and> ra_role r = ra_role a)))"

lemma target_passes_Inr:
  assumes "target_passes env tenant target a c rule path st = (st', Inr True)"
  shows "\<exists>r. resolution env tenant rule c st = Some r \<and>
    (case target of ToUser user \<Rightarrow> admits env tenant st r user | ToRole _ \<Rightarrow> ra_role a \<noteq> None \<and> ra_role r = ra_role a)"
proof (cases target)
  case (ToUser user)
  with assms have "permits env tenant rule c (Some user) None path st = (st', Inr True)"
    by (simp add: target_passes_def)
  from permits_Inr [OF this] ToUser show ?thesis by auto
next
  case (ToRole role)
  with assms show ?thesis
    by (auto simp: target_passes_def names_role_def steps dest!: resolve_rule_Inr split: if_splits)
qed

lemma open_to_cong:
  assumes "tables st' = tables st"
  shows "open_to env tenant target a c st' edge = open_to env tenant target a c st edge"
  unfolding open_to_def resolution_cong [OF assms] admits_cong [OF assms] by (rule refl)

lemma target_passes_reads [leaving]: "leaves tables (target_passes env tenant target a c rule path)"
  unfolding target_passes_def names_role_def by (cases target) (auto intro!: leaving)

lemma some_edge_passes_Inr:
  "some_edge_passes env tenant target a c state0 edges st = (st', Inr True) \<Longrightarrow>
     \<exists>edge \<in> set edges. open_to env tenant target a c st edge"
proof (induction edges arbitrary: st)
  case (Cons edge edges)
  show ?case
  proof (cases "allowed_by edge")
    case None
    then show ?thesis by (simp add: open_to_def)
  next
    case (Some rule)
    let ?m = "target_passes env tenant target a c rule (allowed_by_path state0 (t_action edge))"
    obtain st1 x where x: "?m st = (st1, x)" by force
    have same: "tables st1 = tables st" using target_passes_reads x by (rule leavesD)
    consider "x = Inr True" | "some_edge_passes env tenant target a c state0 edges st1 = (st', Inr True)"
      using Cons.prems Some x
      by (auto simp: steps attempt_def split: sum.splits bool.splits AppError.splits)
    then show ?thesis
    proof cases
      case 1
      with x target_passes_Inr have "\<exists>r. resolution env tenant rule c st = Some r \<and>
        (case target of ToUser user \<Rightarrow> admits env tenant st r user | ToRole _ \<Rightarrow> ra_role a \<noteq> None \<and> ra_role r = ra_role a)"
        by blast
      with Some show ?thesis by (auto simp: open_to_def)
    next
      case 2
      with Cons.IH [OF 2] open_to_cong [OF same] show ?thesis by auto
    qed
  qed
qed (simp add: steps)

lemma target_can_decide_Inr:
  assumes "refuse_unless_target_can_decide env tenant inst target a c st = (st', Inr u)"
  obtains row l where
    "find (\<lambda>r. the_instance tenant inst r \<and> list_ex (\<lambda>d. df_id d = in_definition r) (db_definitions st))
       (db_instances st) = Some row"
    "find (\<lambda>d. df_id d = in_definition row) (db_definitions st) = Some l"
    "decision_edges (parse_graph (df_json l) (df_version l)) (in_state row) = [] \<or>
     (\<exists>edge \<in> set (decision_edges (parse_graph (df_json l) (df_version l)) (in_state row)).
        open_to env tenant target a c st edge)"
proof -
  let ?st1 = "counted (counted st st) (counted st st)"
  obtain row :: instance_row and l :: definition_row where
    row: "find (\<lambda>r. the_instance tenant inst r \<and> list_ex (\<lambda>d. df_id d = in_definition r) (db_definitions st))
       (db_instances st) = Some row"
    and l: "find (\<lambda>d. df_id d = in_definition row) (db_definitions st) = Some l"
    and "decision_edges (parse_graph (df_json l) (df_version l)) (in_state row) = [] \<or>
      (\<exists>st2. some_edge_passes env tenant target a c (in_state row)
         (decision_edges (parse_graph (df_json l) (df_version l)) (in_state row)) ?st1 = (st2, Inr True))"
    using assms unfolding refuse_unless_target_can_decide_def find_instance_def definition_of_instance_def
    by (auto simp: steps Let_def split: if_splits option.splits)
  moreover have st1: "tables ?st1 = tables st" by simp
  ultimately have "decision_edges (parse_graph (df_json l) (df_version l)) (in_state row) = [] \<or>
     (\<exists>edge \<in> set (decision_edges (parse_graph (df_json l) (df_version l)) (in_state row)).
        open_to env tenant target a c st edge)"
    using some_edge_passes_Inr open_to_cong [OF st1] by blast
  with row l show thesis by (rule that)
qed

section \<open>Whose authority a task is held under\<close>

text \<open>The columns a hand-over leaves: the holder, and whose authority the task came from.\<close>

definition hand_over :: "uuid \<times> uuid option \<Rightarrow> uuid \<Rightarrow> uuid \<times> uuid option" where
  "hand_over held delegate0 = (delegate0, delegated_from_after (snd held) (fst held) delegate0)"

lemma authority_survives:
  "fold (\<lambda>d held. hand_over held d) ds (first, None) =
     (last (first # ds), if last (first # ds) = first then None else Some first)"
proof (induction ds rule: rev_induct)
  case (snoc d ds)
  then show ?case
    by (auto simp: hand_over_def delegated_from_after_def Let_def)
qed simp

definition task_at :: "uuid \<Rightarrow> uuid \<Rightarrow> Store \<Rightarrow> task_row option" where
  "task_at tenant ident st = find (the_task tenant ident) (db_tasks st)"

text \<open>
  A task's hand-overs, one committed after another: from a holder, to each of a list in turn.  Between
  two of them anything may be committed that leaves the task's own row as it is.
\<close>

inductive handed_on :: "uuid \<Rightarrow> uuid \<Rightarrow> uuid \<Rightarrow> uuid list \<Rightarrow> Store \<Rightarrow> Store \<Rightarrow> bool" where
  kept: "task_at tenant ident st' = task_at tenant ident st \<Longrightarrow> handed_on tenant ident who [] st st'"
| passed: "task_at tenant ident st1 = task_at tenant ident st \<Longrightarrow>
    delegate_locked env tenant who subject delegate0 comment st1 = (st2, Inr u) \<Longrightarrow>
    ta_id subject = ident \<Longrightarrow> handed_on tenant ident delegate0 ds st2 st' \<Longrightarrow>
    handed_on tenant ident who (delegate0 # ds) st st'"

abbreviation carrying :: "task_row \<Rightarrow> uuid \<times> uuid option \<Rightarrow> task_row" where
  "carrying row held \<equiv> row\<lparr>ta_assignee := Some (fst held), ta_delegated_from := snd held\<rparr>"

lemma delegate_locked_row:
  assumes "delegate_locked env tenant user subject delegate0 comment st = (st', Inr u)"
    and row: "task_at tenant (ta_id subject) st = Some row"
  shows "task_at tenant (ta_id subject) st' =
    Some (carrying row (hand_over (user, ta_delegated_from row) delegate0))"
proof -
  let ?p = "\<lambda>r. the_task tenant (ta_id subject) r \<and> ta_assignee r = Some user \<and> open_row r"
  let ?f = "\<lambda>r. r\<lparr>ta_assignee := Some delegate0,
    ta_delegated_from := delegated_from_after (ta_delegated_from r) user delegate0\<rparr>"
  obtain st1 locked st2 where
    l: "lock_instance_then_task env tenant (ta_instance subject) (ta_id subject) st = (st1, Inr locked)"
    and opn: "refuse_unless_open (lt_status locked) (lt_decided locked) = Inr ()"
    and held: "refuse_unless_held_by user (lt_assignee locked) = Inr ()"
    and st2: "tables st2 = tables st1" and upd: "db_tasks st' = update_where ?p ?f (db_tasks st2)"
    using assms(1) unfolding delegate_locked_def
    by (auto simp: steps delegate_row_def record_task_history_def user_is_available_def record_activity_def)
  from locked_then [OF l] row have locked: "locked = locked_task row" and same: "tables st1 = tables st"
    by (auto simp: task_at_def)
  have "the_task tenant (ta_id subject) row" using row by (auto simp: task_at_def find_Some_iff)
  moreover from this have "open_row row"
    using opn by (simp add: locked locked_task_def refuse_unless_open_def open_row_def the_task_def
        is_open_from_db split: if_splits)
  moreover have "ta_assignee row = Some user"
    using held by (simp add: locked locked_task_def refuse_unless_held_by_def split: option.splits if_splits)
  ultimately have p: "?p row" by simp
  have "db_tasks st2 = db_tasks st" using same_tables [OF st2] same_tables [OF same] by simp
  then have "task_at tenant (ta_id subject) st' =
      map_option (\<lambda>r. if ?p r then ?f r else r) (task_at tenant (ta_id subject) st)"
    unfolding task_at_def upd by (simp only:) (rule find_cong_map, simp add: the_task_def)
  with row p show ?thesis by (simp add: hand_over_def)
qed

lemma handed_on_row:
  "handed_on tenant ident who ds st st' \<Longrightarrow> task_at tenant ident st = Some row \<Longrightarrow> ta_assignee row = Some who \<Longrightarrow>
     task_at tenant ident st' = Some (carrying row (fold (\<lambda>d held. hand_over held d) ds (who, ta_delegated_from row)))"
proof (induction arbitrary: row rule: handed_on.induct)
  case (passed tenant ident st1 st env who subject delegate0 comment st2 u ds st')
  let ?held = "hand_over (who, ta_delegated_from row) delegate0"
  have "task_at tenant ident st2 = Some (carrying row ?held)"
    using delegate_locked_row [OF passed.hyps(2)] passed.hyps(1,3) passed.prems by simp
  from passed.IH [OF this] show ?case by (simp add: hand_over_def)
qed simp

text \<open>The check on an edge answers, and answers yes, for whoever stands in for somebody the rule admits.\<close>

lemma permitted_as_complete:
  assumes "faultless env" "who \<in> set cs" "admits env tenant st r who"
  shows "\<exists>st'. permitted_as env tenant r cs st = (st', Inr True)"
  using assms(2,3)
proof (induction cs arbitrary: st)
  case (Cons c cs)
  have same: "admits env tenant (counted st st) = admits env tenant st" by (rule admits_cong) simp
  show ?case
  proof (cases "ra_assignee r = Some c")
    case True
    then show ?thesis by (simp add: steps)
  next
    case False
    show ?thesis
    proof (cases "ra_role r")
      case None
      with False Cons show ?thesis by (auto simp: admits_def)
    next
      case (Some role)
      have h: "holds_role env tenant c role (ra_department r) st =
          (counted st st, Inr (holds_role_in env tenant c role (ra_department r) st))"
        by (simp add: holds_role_def fetch_faultless [OF assms(1)])
      show ?thesis
      proof (cases "holds_role_in env tenant c role (ra_department r) st")
        case True
        with False Some h show ?thesis by (simp add: seq_def ret_def)
      next
        case no: False
        then have "\<not> admits env tenant st r c" using False Some by (simp add: admits_def)
        with Cons.prems have "who \<in> set cs" by auto
        from Cons.IH [OF this, of "counted st st"] Cons.prems(2) False Some h no show ?thesis
          by (simp add: seq_def same)
      qed
    qed
  qed
qed simp

lemma permits_complete:
  assumes "faultless env" "resolution env tenant rule c st = Some r" "admits env tenant st r who"
    and "who = a \<or> behalf = Some who"
  shows "\<exists>st'. permits env tenant rule c (Some a) behalf path st = (st', Inr True)"
proof -
  obtain st1 where r: "resolve_rule env tenant rule c path AskDecider st = (st1, Inr r)"
    using resolve_rule_complete [OF assms(1,2)] by blast
  have "admits env tenant st1 r who"
    using admits_cong [OF leavesD [OF reads_resolve_rule r]] assms(3) by simp
  moreover have "who \<in> set (somes [Some a, behalf])" using assms(4) by (cases behalf) auto
  ultimately show ?thesis
    using permitted_as_complete [OF assms(1)] r by (fastforce simp: permits_def seq_def)
qed

end
