(* ===== verification/Liveness.thy ===== *)
theory Liveness
  imports WorkflowGate Engine
begin

text \<open>
  Where a document can go in a running process.  The structural check follows every edge a definition
  draws; the engine fires only some of them: a decision on the task of a state a person performs, the
  automatic edge of a state the product performs, and the resubmission of a document its state shows as
  returned.  An edge of any other action (SUBMIT, DELEGATE, ESCALATE, CANCEL, COMPLETE) is fired by
  nothing.
\<close>

definition fires :: "Graph \<Rightarrow> Transition \<Rightarrow> bool" where
  "fires g t \<longleftrightarrow>
     (case state_of g (t_from t) of
        None \<Rightarrow> False
      | Some s \<Rightarrow>
          human_task s \<noteq> None \<and> decision_action (t_action t) \<or>
          is_service s \<and> t_action t = AutoAction \<or>
          maps_to_document_status s = ''RETURNED'' \<and> t_action t = ResubmitAction)"

text \<open>The states the engine's own edges lead to, where their conditions let them.\<close>

inductive reaches :: "Graph \<Rightarrow> string \<Rightarrow> string \<Rightarrow> bool" for g where
  here: "reaches g c c"
| fire: "reaches g a b \<Longrightarrow> t \<in> set (candidates g b act) \<Longrightarrow> fires g t \<Longrightarrow> reaches g a (t_to t)"

text \<open>A definition whose every transition the engine can read.\<close>

definition readable :: "json \<Rightarrow> bool" where
  "readable d \<longleftrightarrow> list_all (\<lambda>v. parse_transition v \<noteq> None) (def_transitions d)"

text \<open>A definition that draws no edge the engine would not fire.\<close>

definition driven :: "Graph \<Rightarrow> bool" where
  "driven g \<longleftrightarrow> list_all (fires g) (transitions g)"

lemma moves_reaches:
  assumes "readable d" "driven (parse_graph d r)" "(a, b) \<in> (Structure.moves d)\<^sup>*"
  shows "reaches (parse_graph d r) a b"
  using assms(3)
proof (induction rule: rtrancl_induct)
  case (step b c)
  then obtain v where v: "v \<in> set (def_transitions d)" "get_str v ''from'' = Some b"
    "get_str v ''to'' = Some c" by (auto simp: Structure.moves_def)
  with assms(1) obtain t where t: "parse_transition v = Some t"
    by (auto simp: readable_def list_all_iff)
  with v have "t_from t = b" "t_to t = c" by (auto dest!: parse_transition_Some simp: get_str_Some)
  moreover have drawn: "t \<in> set (transitions (parse_graph d r))"
    using v(1) t by (auto simp: transitions_parse)
  ultimately have "t \<in> set (candidates (parse_graph d r) b (t_action t))" by (simp add: set_candidates)
  moreover have "fires (parse_graph d r) t" using assms(2) drawn by (simp add: driven_def list_all_iff)
  ultimately show ?case using fire [OF step.IH] \<open>t_to t = c\<close> by blast
qed (rule here)

lemma engine_live:
  assumes "structural_errors d = []" "readable d" "driven (parse_graph d r)"
    and "get_str d ''initialState'' = Some i" "c \<in> state_codes d"
  shows "reaches (parse_graph d r) i c \<and> (\<exists>f \<in> final_codes d. reaches (parse_graph d r) c f)"
  using structural_gate(4) [OF assms(1,4,5)] structural_gate(5) [OF assms(1,5)]
    moves_reaches [OF assms(2,3)] by blast

text \<open>Where no edge out of a state is fired, a document stays in it.\<close>

lemma stays:
  assumes "reaches g a b" "\<And>t. t \<in> set (transitions g) \<Longrightarrow> t_from t = a \<Longrightarrow> \<not> fires g t"
  shows "b = a"
  using assms
proof induction
  case (fire a b edge act)
  then have "b = a" by blast
  with fire.hyps(2,3) fire.prems [of edge] show ?case by (simp add: set_candidates)
qed simp

end
