(* ===== verification/SampleProcess.thy ===== *)
theory SampleProcess
  imports Samples ServiceFacts WorkerFacts Liveness
begin

text \<open>
  A tenant with one definition, one document and three people, and the process the witnesses run: a
  person approves, a service step finishes; or the person sends the document back to its owner.
\<close>

section \<open>The definition\<close>

definition boss_rule :: AssignmentRule where
  "boss_rule =
     \<lparr>assignee_type = Role, user_id = None, role_code = Some ''BOSS'', department_scope = None\<rparr>"

definition owner_rule :: AssignmentRule where
  "owner_rule = \<lparr>assignee_type = Owner, user_id = None, role_code = None, department_scope = None\<rparr>"

definition sample_work :: "string \<Rightarrow> TaskType \<Rightarrow> AssignmentRule \<Rightarrow> TaskSpec" where
  "sample_work key kind rule =
     \<lparr>task_definition_key = key, task_name = [], task_type = kind, assignment = rule,
      priority = ''NORMAL'', due_in_hours = None\<rparr>"

definition sample_state :: "string \<Rightarrow> string \<Rightarrow> bool \<Rightarrow> TaskSpec option \<Rightarrow> State" where
  "sample_state c maps final spec =
     \<lparr>code = c, state_name = [], maps_to_document_status = maps, is_final = final, task = spec\<rparr>"

definition sample_edge :: "string \<Rightarrow> string \<Rightarrow> TransitionAction \<Rightarrow> AssignmentRule option \<Rightarrow> Transition" where
  "sample_edge from to0 act rule =
     \<lparr>t_from = from, t_to = to0, t_action = act, allowed_by = rule, condition = None,
      requires_comment = False, guards = [], actions = []\<rparr>"

definition process_graph :: Graph where
  "process_graph =
     \<lparr>workflow_key = ''w'', revision = 1, initial_state = ''OPEN'',
      states =
        [sample_state ''OPEN'' ''IN_REVIEW'' False (Some (sample_work ''OPEN'' Approval boss_rule)),
         sample_state ''FILE'' ''APPROVED'' False (Some (sample_work ''FILE'' Service owner_rule)),
         sample_state ''BACK'' ''RETURNED'' False (Some (sample_work ''BACK'' Approval owner_rule)),
         sample_state ''DONE'' ''COMPLETED'' True None],
      transitions =
        [sample_edge ''OPEN'' ''FILE'' ApproveAction (Some boss_rule),
         sample_edge ''OPEN'' ''BACK'' ReturnAction (Some boss_rule),
         sample_edge ''BACK'' ''OPEN'' ResubmitAction (Some owner_rule),
         sample_edge ''FILE'' ''DONE'' AutoAction None],
      variables = []\<rparr>"

text \<open>The same process as its author writes it.\<close>

definition edge_json :: "string \<Rightarrow> json option \<Rightarrow> string \<Rightarrow> string \<Rightarrow> json" where
  "edge_json action rule from to0 = Object
     ([(''action'', String action)] @ (case rule of None \<Rightarrow> [] | Some r \<Rightarrow> [(''allowedBy'', r)]) @
      [(''from'', String from), (''to'', String to0)])"

definition state_json :: "string \<Rightarrow> bool \<Rightarrow> string \<Rightarrow> (string \<times> string) option \<Rightarrow> json" where
  "state_json c final maps spec = Object
     ([(''code'', String c), (''isFinal'', Bool final), (''mapsToDocumentStatus'', String maps)] @
      (case spec of
         None \<Rightarrow> []
       | Some (rule, kind) \<Rightarrow>
           [(''task'', Object [(''assignment'', String rule), (''taskDefinitionKey'', String c),
                                (''taskType'', String kind)])]))"

definition process_json :: json where
  "process_json = Object
     [(''initialState'', String ''OPEN''),
      (''states'', Array
        [state_json ''OPEN'' False ''IN_REVIEW'' (Some (''ROLE:BOSS'', ''APPROVAL_TASK'')),
         state_json ''FILE'' False ''APPROVED'' (Some (''OWNER'', ''SERVICE_TASK'')),
         state_json ''BACK'' False ''RETURNED'' (Some (''OWNER'', ''APPROVAL_TASK'')),
         state_json ''DONE'' True ''COMPLETED'' None]),
      (''transitions'', Array
        [edge_json ''APPROVE'' (Some (String ''ROLE:BOSS'')) ''OPEN'' ''FILE'',
         edge_json ''RETURN'' (Some (String ''ROLE:BOSS'')) ''OPEN'' ''BACK'',
         edge_json ''RESUBMIT'' (Some (String ''OWNER'')) ''BACK'' ''OPEN'',
         edge_json ''AUTO'' None ''FILE'' ''DONE'']),
      (''workflowKey'', String ''w'')]"

lemma edge_json_parses:
  "action_parse a = Some act \<Longrightarrow>
     parse_transition (edge_json a rule f t) = Some (sample_edge f t act (Option.bind rule rule_parse))"
  by (cases rule)
    (simp_all add: edge_json_def sample_edge_def parse_transition_def get_str_def get_bool_or_def get_arr_def
      guards_of_def actions_of_def entries_of_def)

lemma state_json_parses:
  "parse_state (state_json c final maps None) = Some (sample_state c maps final None)"
  "shorthand rule = Some r \<Longrightarrow> parse_task_type (Some kind) = Inr k \<Longrightarrow>
     parse_state (state_json c final maps (Some (rule, kind))) = Some (sample_state c maps final (Some (sample_work c k r)))"
  by (simp_all add: state_json_def sample_state_def sample_work_def parse_state_def parse_task_def rule_parse_def
      get_str_def get_bool_or_def or_default_def)

lemma sample_rules:
  "shorthand ''ROLE:BOSS'' = Some boss_rule" "shorthand ''OWNER'' = Some owner_rule"
  by (simp_all add: shorthand_def boss_rule_def owner_rule_def)

lemma sample_kinds:
  "parse_task_type (Some ''APPROVAL_TASK'') = Inr Approval" "parse_task_type (Some ''SERVICE_TASK'') = Inr Service"
  using parse_task_type_as_db [of Approval] parse_task_type_as_db [of Service] by simp_all

lemma sample_actions:
  "action_parse ''APPROVE'' = Some ApproveAction" "action_parse ''RETURN'' = Some ReturnAction"
  "action_parse ''RESUBMIT'' = Some ResubmitAction" "action_parse ''AUTO'' = Some AutoAction"
  by (simp_all add: action_parse_def)

lemma sample_rule_json:
  "rule_parse (String ''ROLE:BOSS'') = Some boss_rule" "rule_parse (String ''OWNER'') = Some owner_rule"
  by (simp_all add: rule_parse_def sample_rules)

lemma process_parses: "parse_graph process_json 1 = process_graph"
proof -
  have "get_str process_json ''workflowKey'' = Some ''w''" "get_str process_json ''initialState'' = Some ''OPEN''"
    by (simp_all add: process_json_def get_str_def)
  moreover have "somes (map parse_state (get_arr process_json ''states'')) = states process_graph"
    by (simp add: process_json_def get_arr_def process_graph_def state_json_parses sample_rules sample_kinds)
  moreover have "somes (map parse_transition (get_arr process_json ''transitions'')) = transitions process_graph"
    by (simp add: process_json_def get_arr_def process_graph_def edge_json_parses sample_actions sample_rule_json)
  moreover have "get_arr process_json ''variables'' = []"
    by (simp add: process_json_def get_arr_def)
  ultimately show ?thesis
    by (simp add: parse_graph_def process_graph_def or_default_def)
qed

section \<open>The tenant\<close>

definition sample_env :: Env where
  "sample_env =
     \<lparr>hooks = sample_world, parse_uuid = Some, fresh = show_nat, year = 7, month = 3, now = 100,
      today = 10, json_text = (\<lambda>_. []), parse_f64 = (\<lambda>_. None), parse_json = (\<lambda>_. None),
      due_in_seconds = (\<lambda>_. None), occurred_at = ''now''\<rparr>"

definition sample_person :: "uuid \<Rightarrow> user_row" where
  "sample_person ident =
     \<lparr>us_tenant = ''t'', us_id = ident, us_status = ''ACTIVE'', us_department = None, us_deleted = False\<rparr>"

definition sample_grant :: "uuid \<Rightarrow> grant_row" where
  "sample_grant ident =
     \<lparr>gr_tenant = ''t'', gr_user = ident, gr_role = ''r'', gr_department = None, gr_valid_from = None,
      gr_valid_to = None, gr_deleted = False\<rparr>"

definition sample_type :: type_row where
  "sample_type = \<lparr>ty_tenant = ''t'', ty_id = ''y'', ty_code = ''PAPER'', ty_form = None, ty_target = None,
     ty_deleted = False\<rparr>"

definition sample_document :: document_row where
  "sample_document =
     \<lparr>do_tenant = ''t'', do_id = ''d'', do_ref = ''DOC-7-000001'', do_type = ''y'', do_form = None, do_number = Some ''N-1'', do_title = ''Paper'',
      do_status = ''SUBMITTED'', do_form_data = Object [], do_created_by = Some ''ann'',
      do_priority = ''NORMAL'', do_entity_type = None, do_entity = None, do_requested_by = None,
      do_requested_department = None, do_requested_facility = None, do_submitted = None,
      do_instance = None, do_completed = None, do_deleted = False\<rparr>"

definition tenant_store :: Store where
  "tenant_store =
     \<lparr>db_users = [sample_person ''ann'', sample_person ''bob'', sample_person ''cyd''],
      db_roles = [\<lparr>ro_tenant = ''t'', ro_id = ''r'', ro_code = ''BOSS'', ro_deleted = False\<rparr>],
      db_departments = [], db_grants = [sample_grant ''bob''], db_delegations = [],
      db_definitions = [\<lparr>df_tenant = ''t'', df_id = ''w1'', df_json = process_json, df_key = ''w'',
                         df_version = 1, df_status = ''ACTIVE'', df_deleted = False\<rparr>],
      db_projection = map (projected ''t'' ''w1'') (transitions process_graph),
      db_hooks = [], db_metadata = [], db_types = [sample_type], db_forms = [], db_bindings = [], db_rules = [],
      db_buckets = [], db_parties = [], db_facilities = [], db_changes = [],
      db_documents = [sample_document], db_status_history = [], db_instances = [], db_variables = [],
      db_tasks = [], db_task_history = [], db_history = [], db_decisions = [], db_events = [],
      db_sequences = [], db_references = [], db_notifications = [], db_activity = [],
      db_hook_log = [], db_statements = 0, db_fresh = 0\<rparr>"

definition sample_subject :: SubmissionSubject where
  "sample_subject =
     \<lparr>sb_status = DocSubmitted, sb_type = ''y'', sb_requested = None, sb_number = Some ''N-1'',
      sb_created_by = Some ''ann'', sb_instance = None\<rparr>"

definition sample_evaluation :: EvaluationContext where
  "sample_evaluation = submission_evaluation sample_subject ''PAPER'' ''N-1'' (Object []) Null"

section \<open>What the sample's parts are\<close>

lemma allocate_Inr [steps]: "allocate env tenant kind st = (st', Inr ref) \<longleftrightarrow>
  db_fault (hooks env) (db_statements st) = None \<and>
  (let key = ref_prefix kind @ ''-'' @ show_int (year env) in
     ref = key @ ''-'' @ padded (issued tenant key (db_sequences st)) \<and>
     st' = counted st (db_sequences_update (advance tenant key) st))"
  by (auto simp: allocate_def Let_def sql_Inr counted_def)

lemma process_graph_simps:
  "initial_state process_graph = ''OPEN''" "variables process_graph = []"
  "state_of process_graph ''OPEN'' = Some (sample_state ''OPEN'' ''IN_REVIEW'' False (Some (sample_work ''OPEN'' Approval boss_rule)))"
  "state_of process_graph ''FILE'' = Some (sample_state ''FILE'' ''APPROVED'' False (Some (sample_work ''FILE'' Service owner_rule)))"
  "state_of process_graph ''DONE'' = Some (sample_state ''DONE'' ''COMPLETED'' True None)"
  "state_of process_graph ''BACK'' = Some (sample_state ''BACK'' ''RETURNED'' False (Some (sample_work ''BACK'' Approval owner_rule)))"
  "actions_from process_graph ''OPEN'' = [sample_edge ''OPEN'' ''FILE'' ApproveAction (Some boss_rule),
         sample_edge ''OPEN'' ''BACK'' ReturnAction (Some boss_rule)]"
  "edge_rules process_graph ''OPEN'' = [(''transitions.OPEN.APPROVE.allowedBy'', boss_rule), (''transitions.OPEN.RETURN.allowedBy'', boss_rule)]"
  by (simp_all add: process_graph_def state_of_def sample_state_def actions_from_def sample_edge_def edge_rules_def allowed_by_path_def)

lemma state_sel:
  "code (sample_state c m f s) = c" "maps_to_document_status (sample_state c m f s) = m" "is_final (sample_state c m f s) = f" "task (sample_state c m f s) = s"
  "task_definition_key (sample_work k ty r) = k" "task_name (sample_work k ty r) = []" "task_type (sample_work k ty r) = ty" "assignment (sample_work k ty r) = r"
  "t_from (sample_edge fr t a ru) = fr" "t_to (sample_edge fr t a ru) = t" "t_action (sample_edge fr t a ru) = a" "allowed_by (sample_edge fr t a ru) = ru"
  "condition (sample_edge fr t a ru) = None" "requires_comment (sample_edge fr t a ru) = False" "guards (sample_edge fr t a ru) = []" "actions (sample_edge fr t a ru) = []"
  "assignee_type boss_rule = Role" "role_code boss_rule = Some ''BOSS''"
  "assignee_type owner_rule = Owner"
  by (simp_all add: sample_state_def sample_work_def sample_edge_def boss_rule_def owner_rule_def)

lemma env_sel:
  "db_fault (hooks sample_env) n = None" "parse_uuid sample_env = Some" "fresh sample_env = show_nat" "now sample_env = 100" "today sample_env = 10"
  "due_in_seconds sample_env s = None"
  by (simp_all add: sample_env_def sample_world_def)

lemma store_sel:
     "db_users tenant_store = [sample_person ''ann'', sample_person ''bob'', sample_person ''cyd'']"
      "db_roles tenant_store = [\<lparr>ro_tenant = ''t'', ro_id = ''r'', ro_code = ''BOSS'', ro_deleted = False\<rparr>]"
      "db_departments tenant_store = []" "db_grants tenant_store = [sample_grant ''bob'']" "db_delegations tenant_store = []"
      "db_definitions tenant_store = [\<lparr>df_tenant = ''t'', df_id = ''w1'', df_json = process_json, df_key = ''w'',
                         df_version = 1, df_status = ''ACTIVE'', df_deleted = False\<rparr>]"
      "db_hooks tenant_store = []" "db_metadata tenant_store = []" "db_types tenant_store = [sample_type]" "db_changes tenant_store = []"
      "db_documents tenant_store = [sample_document]" "db_status_history tenant_store = []" "db_instances tenant_store = []" "db_variables tenant_store = []"
      "db_tasks tenant_store = []" "db_task_history tenant_store = []" "db_history tenant_store = []" "db_decisions tenant_store = []" "db_events tenant_store = []"
      "db_sequences tenant_store = []" "db_notifications tenant_store = []" "db_fresh tenant_store = 0" "db_statements tenant_store = 0"
  by (simp_all add: tenant_store_def)

lemma boss_resolves:
  "role_named ''t'' st ''BOSS'' = Some ''r'' \<Longrightarrow> resolve_rule sample_env ''t'' boss_rule c path q st = (counted st st, Inr (ra_of_role ''r'' None))"
  unfolding role_named_def resolve_rule_def normalize_def direct_def live_role_of_code_def fetch_def
  by (simp only: state_sel AssigneeType.case or_default_def option.case Principal.case seq_def lift_result_def sql_def env_sel need_def ret_def counted_def direct_department_def prod.case sum.case)

lemma role_named_st [simp]: 
  "role_named t (db_sequences_update f st) c = role_named t st c"
  "role_named t (db_instances_update f1 st) c = role_named t st c"
  "role_named t (db_history_update f2 st) c = role_named t st c"
  "role_named t (st\<lparr>db_fresh := n\<rparr>) c = role_named t st c"
 "role_named t (st\<lparr>db_statements := n\<rparr>) c = role_named t st c"
  by (simp_all add: role_named_def)

lemma boss_there: "role_named ''t'' tenant_store ''BOSS'' = Some ''r''" by (simp add: role_named_def store_sel)

lemma status_facts: "parse_document_status ''IN_REVIEW'' = Some DocInReview" "settlement_of DocInReview = None"
 "parse_document_status ''APPROVED'' = Some DocApproved" "settlement_of DocApproved = Some True"
 "parse_document_status ''COMPLETED'' = Some DocCompleted" "settlement_of DocCompleted = Some True"
 "parse_document_status ''RETURNED'' = Some DocReturned" "settlement_of DocReturned = None"
 "status_as_db DocInReview = ''IN_REVIEW''" "status_as_db DocApproved = ''APPROVED''"
 "status_as_db DocCompleted = ''COMPLETED''" "status_as_db DocReturned = ''RETURNED''"
 "task_as_db (assigned_status None) = ''CREATED''"
by (simp_all add: settlement_of_def assigned_status_def) code_simp+

lemma show_small: "show_nat 0 = ''0''" "show_nat (Suc 0) = ''1''" "show_int 7 = ''7''"
  by code_simp+

lemma priority_work: "priority (sample_work k ty r) = ''NORMAL''"
  by (simp add: sample_work_def)

lemma year_sample: "year sample_env = 7"
  by (simp add: sample_env_def)

section \<open>The document's submission\<close>

definition sample_sequences :: "(uuid \<times> string \<times> nat) list" where
  "sample_sequences = advance ''t'' ''TASK-7'' (advance ''t'' ''WFI-7'' [])"

definition waiting_task :: task_row where
  "waiting_task =
     \<lparr>ta_tenant = ''t'', ta_id = ''1'',
      ta_ref = ''TASK-7-'' @ padded (issued ''t'' ''TASK-7'' (advance ''t'' ''WFI-7'' [])), ta_instance = ''0'',
      ta_document = ''d'', ta_key = ''OPEN'', ta_name = [], ta_type = ''APPROVAL_TASK'',
      ta_status = ''CREATED'', ta_priority = ''NORMAL'', ta_assignee = None, ta_role = Some ''r'',
      ta_department = None, ta_delegated_from = None, ta_due = None, ta_action = None, ta_comment = None,
      ta_completed_by = None, ta_created = 100, ta_deleted = False\<rparr>"

definition waiting_instance :: instance_row where
  "waiting_instance =
     new_instance ''t'' ''0'' (''WFI-7-'' @ padded (issued ''t'' ''WFI-7'' [])) ''w1'' ''d'' (Some ''N-1'') ''OPEN''
       (Some ''ann'')"

definition started_history :: history_row where
  "started_history =
     \<lparr>hi_tenant = ''t'', hi_instance = ''0'', hi_document = ''d'', hi_from = None, hi_to = ''OPEN'',
      hi_action = None, hi_task = None, hi_comment = None, hi_actor = Some ''ann'',
      hi_on_behalf_of = None, hi_routing = None\<rparr>"

definition waiting_store :: Store where
  "waiting_store = tenant_store
     \<lparr>db_documents := [sample_document\<lparr>do_status := ''IN_REVIEW'', do_instance := Some ''0''\<rparr>],
      db_instances := [waiting_instance], db_history := [started_history], db_tasks := [waiting_task],
      db_task_history :=
        [\<lparr>th_tenant = ''t'', th_task = ''1'', th_instance = ''0'', th_document = ''d'', th_from = None,
          th_to = ''CREATED'', th_action = None, th_comment = None, th_actor = Some ''ann''\<rparr>],
      db_notifications :=
        [\<lparr>nt_tenant = ''t'', nt_recipient = ''bob'', nt_document = Some ''d'', nt_instance = Some ''0'',
          nt_task = Some ''1'', nt_type = ''TASK_ASSIGNED'', nt_title = [],
          nt_body = task_waiting_body [], nt_actor = Some ''ann''\<rparr>],
      db_sequences := sample_sequences, db_fresh := 2, db_statements := 16\<rparr>"

lemma submission_waits:
  "\<exists>started. start_workflow sample_env ''t'' ''d'' sample_subject (Some (''w1'', False)) ''N-1''
       sample_evaluation (Some ''ann'') tenant_store = (waiting_store, Inr (Some started))"
  apply (simp add: start_workflow_def sample_subject_def context_of_document_def owner_department_of_def
      steps env_sel store_sel Let_def start_def lock_for_start_def definition_of_instance_def sample_person_def
      process_parses process_graph_simps write_variables_def enter_state_def MAX_AUTOMATIC_STEPS_def
      insert_instance_def counted_def)
  apply (simp only: eval_nat_numeral enter_loop.simps)
  apply (simp add: is_service_def is_human_def steps state_sel enter_once_def human_task_def raise_task_def
      resolve_assignment_def boss_resolves boss_there notify_the_task_reached_def redirect_def ra_of_role_def
      hold_deciding_roles_def env_sel store_sel or_default_def of_role_def process_graph_simps Let_def
      record_task_history_def insert_task_def refuse_unless_an_edge_resolves_def
      link_process_instance_def decision_action_def attempt_def deciding_roles.simps status_facts counted_def
      holders_of_role_def holders_of_role_in_def sample_grant_def sample_person_def grant_holds_def bs_collect_def notify_def
      project_from_workflow_def set_status_from_workflow_def project_document_status_def priority_work
      year_sample show_small)
  apply (simp add: waiting_store_def tenant_store_def waiting_task_def waiting_instance_def
      started_history_def sample_sequences_def eval_nat_numeral update_where_def the_document_def
      sample_document_def)
  done

definition sample_boss :: Caller where
  "sample_boss = \<lparr>ca_tenant = ''t'', ca_user = ''bob'', ca_name = ''bob'',
           ca_permissions = [''workflow:task:execute'']\<rparr>"

definition sample_context :: AssignmentContext where
  "sample_context =
     \<lparr>ac_document_type = ''y'', ac_owner = Some ''ann'', ac_requested = None, ac_owner_department = Unset\<rparr>"

definition sample_reading :: Reading where
  "sample_reading =
     \<lparr>rd_subject = waiting_task, rd_graph = process_graph,
      rd_document = sample_document\<lparr>do_status := ''IN_REVIEW'', do_instance := Some ''0''\<rparr>,
      rd_context = sample_context, rd_evaluation = sample_evaluation\<rparr>"

lemma waiting_reached: "reached waiting_store"
proof -
  have "reached tenant_store" by (rule reached.empty) (simp_all add: process_def store_sel)
  moreover have "commits tenant_store waiting_store" using submission_waits commits.started by blast
  ultimately show ?thesis by (rule reached.step)
qed

section \<open>The decision that ends it\<close>

lemma waiting_sel:
  "db_instances waiting_store = [waiting_instance]" "db_tasks waiting_store = [waiting_task]"
  "db_history waiting_store = [started_history]" "db_roles waiting_store = db_roles tenant_store"
  "db_grants waiting_store = db_grants tenant_store" "db_users waiting_store = db_users tenant_store"
  "db_departments waiting_store = []" "db_changes waiting_store = []" "db_hooks waiting_store = []" "db_metadata waiting_store = []"
  "db_delegations waiting_store = []" "db_decisions waiting_store = []" "db_events waiting_store = []"
  "db_definitions waiting_store = db_definitions tenant_store"
  "db_projection waiting_store = db_projection tenant_store" "db_types waiting_store = db_types tenant_store"
  "db_documents waiting_store = [sample_document\<lparr>do_status := ''IN_REVIEW'', do_instance := Some ''0''\<rparr>]"
  "db_fresh waiting_store = 2" "db_sequences waiting_store = sample_sequences" "db_statements waiting_store = 16"
  by (simp_all add: waiting_store_def store_sel)

lemma waiting_rows:
  "the_instance t i waiting_instance \<longleftrightarrow> t = ''t'' \<and> i = ''0''"
  "the_task t i waiting_task \<longleftrightarrow> t = ''t'' \<and> i = ''1''"
  "in_state waiting_instance = ''OPEN''" "in_id waiting_instance = ''0''" "in_tenant waiting_instance = ''t''"
  "in_document waiting_instance = ''d''" "in_definition waiting_instance = ''w1''"
  "locked_task waiting_task =
     \<lparr>lt_id = ''1'', lt_instance = ''0'', lt_document = ''d'', lt_status = TaskCreated, lt_assignee = None,
      lt_role = Some ''r'', lt_department = None, lt_delegated_from = None, lt_decided = False\<rparr>"
  "ta_id waiting_task = ''1''" "ta_instance waiting_task = ''0''" "open_row waiting_task"
  "ta_key waiting_task = ''OPEN''" "ta_assignee waiting_task = None" "ta_status waiting_task = ''CREATED''"
  by (auto simp: the_instance_def the_task_def waiting_instance_def new_instance_def waiting_task_def
      locked_task_def open_row_def, code_simp+)

lemma graph_steps:
  "candidates process_graph ''OPEN'' ApproveAction = [sample_edge ''OPEN'' ''FILE'' ApproveAction (Some boss_rule)]"
  "candidates process_graph ''FILE'' AutoAction = [sample_edge ''FILE'' ''DONE'' AutoAction None]"
  "candidates process_graph ''OPEN'' ReturnAction = [sample_edge ''OPEN'' ''BACK'' ReturnAction (Some boss_rule)]"
  by (simp_all add: candidates_def process_graph_def sample_edge_def)

lemma boss_sel: "ca_tenant sample_boss = ''t''" "ca_user sample_boss = ''bob''" "ca_name sample_boss = ''bob''"
  by (simp_all add: sample_boss_def)

lemma boss_still_there: "role_named ''t'' waiting_store ''BOSS'' = Some ''r''"
  by (simp add: role_named_def waiting_sel store_sel)

lemma role_named_rows [simp]:
  "role_named t (db_tasks_update f st) c = role_named t st c"
  "role_named t (db_decisions_update f1 st) c = role_named t st c"
  "role_named t (db_task_history_update f2 st) c = role_named t st c"
  by (simp_all add: role_named_def)

lemma created_open: "is_open TaskCreated"
  by code_simp

lemma show_more: "show_nat (Suc (Suc 0)) = ''2''" "show_nat (Suc (Suc (Suc 0))) = ''3''"
  by code_simp+

lemma settled_loop:
  "\<not> is_service s \<Longrightarrow> enter_loop env tenant inst document g actor c ev n s status = ret status"
  by (cases n) simp_all

lemmas sample_rows =
  graph_steps state_sel boss_resolves boss_still_there env_sel waiting_sel store_sel waiting_rows boss_sel
  ra_of_role_def process_graph_simps holds_role_def holds_role_in_def grant_holds_def sample_grant_def sample_person_def
  counted_def count_where_def

lemmas sample_move =
  make_move_def move_state_def record_history_def publish_transition_def position_of_latest_def
  write_event_def enter_state_def MAX_AUTOMATIC_STEPS_def authorize_edge_def permits_def fire_def

lemmas sample_settle =
  is_service_def is_human_def enter_once_def human_task_def project_from_workflow_def
  set_status_from_workflow_def project_document_status_def document_form_data_def
  status_facts advance_automatically_def run_transition_guards_def registry_chain_def metadata_of_def Let_def
  merge_chain_def update_where_def outcome_of_def the_instance_def waiting_instance_def new_instance_def
  started_history_def event_clash_def event_of_def show_more settled_loop settle_nothing sample_document_def

definition sample_provenance :: Provenance where
  "sample_provenance = \<lparr>pv_task = Some ''1'', pv_behalf = None, pv_comment = None\<rparr>"

lemma approval_fires:
  "\<exists>st' f. fire sample_env ''t'' ''0'' ''d'' process_graph ''OPEN'' ApproveAction (Some ''bob'') sample_context
     sample_evaluation sample_provenance waiting_store = (st', Inr f)"
  apply (simp add: ex_bool_eq sample_move sample_rows steps sample_provenance_def)
  apply (simp only: eval_nat_numeral enter_loop.simps)
  apply (simp add: sample_settle sample_rows sample_move steps)
  done

lemma decision_applies:
  "\<exists>st' r. decide_locked sample_env sample_boss DecideApprove None sample_reading waiting_store = (st', Inr r)"
  apply (simp add: decide_locked_def sample_reading_def Let_def lock_instance_def lock_task_def steps
      complete_or_refuse_def complete_def update_where_def record_task_history_def record_decision_def sample_rows)
  apply (simp add: ex_bool_eq created_open sample_move sample_rows steps)
  apply (simp only: eval_nat_numeral enter_loop.simps)
  apply (simp add: sample_settle sample_rows sample_move steps record_activity_def tell_the_owner_def notify_def)
  done

section \<open>The same process for the other readers\<close>

lemma boss_permitted:
  "\<exists>st'. permits sample_env ''t'' boss_rule sample_context (Some ''bob'') None [] waiting_store = (st', Inr True)"
  by (simp add: permits_def steps sample_rows)

lemma boss_assigned:
  "\<exists>st' r. resolve_assignment sample_env ''t'' boss_rule sample_context [] waiting_store = (st', Inr r)"
  by (simp add: resolve_assignment_def redirect_def steps sample_rows)

lemma sample_projection:
  "filter (\<lambda>r. pr_tenant r = ''t'' \<and> pr_definition r = ''w1'') (db_projection tenant_store) =
     map (projected ''t'' ''w1'') (transitions process_graph)"
  by (simp add: tenant_store_def filter_map comp_def projected_def)

lemma sample_decisions:
  "decision_edges process_graph ''OPEN'' =
     [sample_edge ''OPEN'' ''FILE'' ApproveAction (Some boss_rule), sample_edge ''OPEN'' ''BACK'' ReturnAction (Some boss_rule)]"
  by (simp add: decision_edges_def process_graph_simps state_sel decision_action_def)

lemma sample_decision_rows:
  "decision_rows ''t'' waiting_store waiting_instance =
     [projected ''t'' ''w1'' (sample_edge ''OPEN'' ''FILE'' ApproveAction (Some boss_rule)),
      projected ''t'' ''w1'' (sample_edge ''OPEN'' ''BACK'' ReturnAction (Some boss_rule))]"
  by (simp add: decision_rows_def waiting_sel waiting_rows tenant_store_def projected_def process_graph_def sample_edge_def)

lemma boss_edge_live: "edge_live sample_env ''t'' waiting_store d (rule_json (Some boss_rule))"
  unfolding edge_live_def Let_def rule_json_def text_at_def option.case
  by (subst get_json_object, simp)+
     (simp add: waiting_sel store_sel boss_rule_def)

lemma sample_clause: "claimed_clause sample_env waiting_store waiting_task d waiting_instance"
proof -
  have "ta_tenant waiting_task = ''t''" by (simp add: waiting_task_def)
  then show ?thesis by (simp add: claimed_clause_def sample_decision_rows projected_def state_sel boss_edge_live)
qed

definition inbox_env :: Env where
  "inbox_env = sample_env\<lparr>parse_uuid := uuid_spelling\<rparr>"

lemma inbox_env_faults: "faultless inbox_env" "parse_uuid inbox_env = uuid_spelling"
  by (simp_all add: faultless_def inbox_env_def sample_env_def sample_world_def)

lemma waiting_columns:
  "ta_tenant waiting_task = ''t''" "ta_document waiting_task = ''d''" "ta_deleted waiting_task = False"
  "ta_role waiting_task = Some ''r''" "ta_department waiting_task = None"
  by (simp_all add: waiting_task_def)

lemma sample_joined:
  "joined waiting_store =
     [(waiting_task, sample_document\<lparr>do_status := ''IN_REVIEW'', do_instance := Some ''0''\<rparr>, waiting_instance)]"
  by (simp add: joined_def waiting_sel waiting_rows waiting_columns sample_document_def)

lemma sample_can_be_decided:
  "can_be_decided sample_env t i st = (counted st st, Inr (decidable sample_env t i st))"
  by (simp add: can_be_decided_def decidable_def fetch_def sql_def env_sel counted_def)

lemma sample_decidable: "decidable sample_env ''t'' ''1'' waiting_store"
  by (simp add: decidable_def sample_joined waiting_columns waiting_rows sample_clause)

lemma boss_permits:
  assumes "role_named ''t'' st ''BOSS'' = Some ''r''" "holds_role_in sample_env ''t'' ''bob'' ''r'' None st"
  shows "permits sample_env ''t'' boss_rule c (Some ''bob'') None path st =
    (counted (counted st st) (counted st st), Inr True)"
proof -
  have "holds_role_in sample_env ''t'' ''bob'' ''r'' None (counted st st)"
    using assms(2) holds_role_in_cong [of "counted st st" st] by simp
  then show ?thesis
    by (simp add: permits_def seq_def boss_resolves [OF assms(1)] ra_of_role_def holds_role_def fetch_def
        sql_def env_sel ret_def counted_def)
qed

lemma boss_holds: "holds_role_in sample_env ''t'' ''bob'' ''r'' None (waiting_store\<lparr>db_statements := n\<rparr>)"
  by (simp add: holds_role_in_def waiting_sel store_sel sample_grant_def grant_holds_def env_sel)

lemma task_visible: "\<exists>st'. is_visible_to sample_env ''t'' ''bob'' ''1'' waiting_store = (st', Inr True)"
  by (simp add: is_visible_to_def steps env_sel sample_joined visible_def waiting_columns waiting_rows sample_clause
      mine_def waiting_sel store_sel sample_grant_def grant_holds_def sample_document_def)

lemma claim_applies: "\<exists>st'. claim_locked sample_env ''t'' ''bob'' waiting_task waiting_store = (st', Inr ())"
  by (simp add: claim_locked_def lock_instance_then_task_def lock_instance_def lock_task_def steps env_sel
      waiting_sel waiting_rows created_open holds_role_def sample_can_be_decided sample_decidable claim_def
      holds_role_in_def store_sel sample_grant_def grant_holds_def record_task_history_def)

lemma target_passes_sample:
  "\<exists>st'. refuse_unless_target_can_decide sample_env ''t'' ''0'' (ToUser ''bob'') (ra_user ''bob'') sample_context
       waiting_store = (st', Inr ())"
  by (simp add: refuse_unless_target_can_decide_def find_instance_def definition_of_instance_def steps
      sample_rows process_parses sample_decisions attempt_def target_passes_def
      boss_permits boss_holds ex_bool_eq)

lemma cancellation_applies:
  "\<exists>st' r. transition sample_env (sample_boss\<lparr>ca_permissions := [DOCUMENT_TRANSITION]\<rparr>) ''d'' DocCancelled None tenant_store
     = (st', Inr r)"
  by (simp add: transition_def require_def steps find_status_def env_sel store_sel sample_document_def
      the_document_def refuse_while_a_workflow_is_deciding_def live_instance_of_document_def apply_transition_def
      move_status_def record_transition_def record_activity_def boss_sel
      status_from_db_def count_where_def)

definition step_event :: "string \<Rightarrow> string \<Rightarrow> TransitionAction \<Rightarrow> NewEvent" where
  "step_event from to0 act =
     \<lparr>ne_tenant = ''t'', ne_aggregate_type = WorkflowInstance, ne_aggregate = ''0'',
      ne_type = WORKFLOW_TRANSITIONED, ne_sequence = Some 2, ne_correlation = ''0'', ne_causation = None,
      ne_actor = ByUser ''bob'', ne_payload = transitioned_payload ''0'' process_graph ''d'' from to0 act\<rparr>"

definition pending_event :: event_row where
  "pending_event = event_of ''7'' ''now'' (step_event ''OPEN'' ''FILE'' ApproveAction)"

section \<open>A clean definition that strands a document\<close>

text \<open>Its one decision is to delegate, an edge nothing fires.\<close>

definition delegating_workflow :: json where
  "delegating_workflow = Object
     [(''initialState'', String ''OPEN''),
      (''states'', Array
        [Object [(''code'', String ''OPEN''), (''mapsToDocumentStatus'', String ''SUBMITTED''),
                 (''task'', Object [(''assignment'', String ''ROLE:APPROVER''),
                                    (''taskDefinitionKey'', String ''approve'')])],
         Object [(''code'', String ''DONE''), (''isFinal'', Bool True),
                 (''mapsToDocumentStatus'', String ''COMPLETED'')]]),
      (''transitions'', Array
        [Object [(''action'', String ''DELEGATE''), (''allowedBy'', String ''OWNER''),
                 (''from'', String ''OPEN''), (''to'', String ''DONE'')]])]"

lemma delegating_clean: "structural_errors delegating_workflow = []"
  by code_simp

lemma delegating_edges: "map (\<lambda>t. (t_from t, t_action t, t_to t)) (transitions (parse_graph delegating_workflow 1)) =
    [(''OPEN'', DelegateAction, ''DONE'')]"
  by code_simp

lemma delegating_final:
  assumes "f \<in> final_codes delegating_workflow"
  shows "f = ''DONE''"
proof -
  have "map (\<lambda>s. get_str s ''code'')
      (filter (\<lambda>s. get_bool_or False s ''isFinal'') (def_states delegating_workflow)) = [Some ''DONE'']"
    by code_simp
  from arg_cong [OF this, of set] assms show ?thesis by (force simp: final_codes_def)
qed

lemma sample_driven: "driven (parse_graph sample_workflow 1)"
  by code_simp

section \<open>A task handed on\<close>

definition held_store :: Store where
  "held_store = waiting_store\<lparr>db_tasks := [waiting_task\<lparr>ta_assignee := Some ''bob'', ta_status := ''ASSIGNED''\<rparr>]\<rparr>"

lemma held_task:
  "task_at ''t'' ''1'' held_store = Some (waiting_task\<lparr>ta_assignee := Some ''bob'', ta_status := ''ASSIGNED''\<rparr>)"
  "ta_assignee (waiting_task\<lparr>ta_assignee := Some ''bob'', ta_status := ''ASSIGNED''\<rparr>) = Some ''bob''"
  "ta_delegated_from (waiting_task\<lparr>ta_assignee := Some ''bob'', ta_status := ''ASSIGNED''\<rparr>) = None"
  by (simp_all add: task_at_def held_store_def the_task_def waiting_task_def)

lemma sample_env_faultless: "faultless sample_env"
  by (simp add: faultless_def sample_env_def sample_world_def)

lemma delegation_applies:
  "\<exists>st'. delegate_locked sample_env ''t'' ''bob'' waiting_task ''ann'' None held_store = (st', Inr ()) \<and>
     db_roles st' = db_roles tenant_store \<and> db_grants st' = db_grants tenant_store"
  by (simp add: delegate_locked_def lock_instance_then_task_def lock_instance_def lock_task_def steps
      delegate_row_def user_is_available_def record_task_history_def record_activity_def sample_rows
      held_store_def the_task_def waiting_task_def locked_task_def open_row_def OPEN_STATUSES_def
      waiting_instance_def new_instance_def the_instance_def is_open_from_db)

lemma hand_over_applies:
  "\<exists>st'. handed_on ''t'' ''1'' ''bob'' [''ann''] held_store st' \<and>
     resolution sample_env ''t'' boss_rule sample_context st' = Some (ra_of_role ''r'' None) \<and>
     admits sample_env ''t'' st' (ra_of_role ''r'' None) ''bob''"
proof -
  obtain st' where d: "delegate_locked sample_env ''t'' ''bob'' waiting_task ''ann'' None held_store = (st', Inr ())"
    and same: "db_roles st' = db_roles tenant_store" "db_grants st' = db_grants tenant_store"
    using delegation_applies by blast
  have "handed_on ''t'' ''1'' ''bob'' [''ann''] held_store st'"
    by (rule handed_on.passed [OF refl d _ handed_on.kept [OF refl]]) (simp add: waiting_rows)
  moreover have "resolution sample_env ''t'' boss_rule sample_context st' = Some (ra_of_role ''r'' None)"
  proof -
    have "role_named ''t'' st' ''BOSS'' = Some ''r''" using boss_there same(1) by (simp add: role_named_def)
    then show ?thesis by (simp add: resolution_def boss_rule_def or_default_def)
  qed
  moreover have "admits sample_env ''t'' st' (ra_of_role ''r'' None) ''bob''"
    by (simp add: admits_def ra_of_role_def holds_role_in_def same sample_rows)
  ultimately show ?thesis by blast
qed

end
