(* ===== verification/FieldRules.thy ===== *)
theory FieldRules
  imports Registry TaskType
begin

text \<open>
  What a definition says about one submitted value (\<open>rad/domain/validation.rs\<close>): the keywords of its
  \<open>validation\<close> object, then the rules of the registry.  The \<open>regex\<close>, \<open>chrono\<close> and \<open>datalogic-rs\<close> crates
  and the rendering and parsing of a number are the fields of \<open>Libraries\<close>.  A string slice that does
  not fall on a character boundary panics: the answer is then \<open>None\<close>.
\<close>

record Libraries =
  lb_number_text :: "json_number \<Rightarrow> string"
  lb_is_match :: "string \<Rightarrow> string \<Rightarrow> string \<Rightarrow> bool option"
  lb_date :: "string \<Rightarrow> bool"
  lb_rfc3339 :: "string \<Rightarrow> bool"
  lb_naive :: "string \<Rightarrow> string \<Rightarrow> bool"
  lb_parse_f64 :: "string \<Rightarrow> (int \<times> int) option"
  lb_evaluate :: "json \<Rightarrow> json \<Rightarrow> json option"

section \<open>Numbers as \<open>f64\<close>\<close>

text \<open>
  A finite double is a mantissa and a binary exponent.  An integer that needs more than 53 bits is
  rounded to the nearest double, ties to the even mantissa.
\<close>

fun bits :: "nat \<Rightarrow> nat" where
  "bits n = (if n = 0 then 0 else Suc (bits (n div 2)))"

declare bits.simps [simp del]

definition round_f64 :: "nat \<Rightarrow> int \<times> int" where
  "round_f64 n =
     (if n < 2 ^ 53 then (int n, 0)
      else
        (let k = bits n - 53; q = n div 2 ^ k; r = n mod 2 ^ k; half = 2 ^ (k - 1)
         in (int (if half < r \<or> half = r \<and> odd q then Suc q else q), int k)))"

fun f64 :: "json_number \<Rightarrow> int \<times> int" where
  "f64 (PosInt n) = round_f64 n"
| "f64 (NegInt i) = (case round_f64 (nat (- i)) of (m, e) \<Rightarrow> (- m, e))"
| "f64 (Float m e) = (m, e)"

fun f64_less :: "int \<times> int \<Rightarrow> int \<times> int \<Rightarrow> bool" where
  "f64_less (m, e) (n, f) \<longleftrightarrow> m * 2 ^ nat (e - min e f) < n * 2 ^ nat (f - min e f)"

text \<open>\<open>fract() == 0.0\<close>.\<close>

fun is_whole :: "int \<times> int \<Rightarrow> bool" where
  "is_whole (m, e) \<longleftrightarrow> 0 \<le> e \<or> m mod 2 ^ nat (- e) = 0"

text \<open>\<open>Value::from(f64)\<close>: the mantissa of a stored float is odd, or zero with exponent zero.\<close>

function reduced :: "int \<Rightarrow> int \<Rightarrow> int \<times> int" where
  "reduced m e = (if m = 0 then (0, 0) else if even m then reduced (m div 2) (e + 1) else (m, e))"
  by pat_completeness auto
termination
  by (relation "measure (\<lambda>(m, e). nat \<bar>m\<bar>)") auto

declare reduced.simps [simp del]

definition number_from_f64 :: "int \<times> int \<Rightarrow> json" where
  "number_from_f64 x = (case reduced (fst x) (snd x) of (m, e) \<Rightarrow> Number (Float m e))"

section \<open>The type and the format of a value\<close>

definition matches_type :: "json \<Rightarrow> string \<Rightarrow> bool" where
  "matches_type v declared \<longleftrightarrow>
     (if declared = ''string'' then is_string v
      else if declared = ''number'' then as_f64 v \<noteq> None
      else if declared = ''integer'' then
        (case as_f64 v of None \<Rightarrow> False | Some n \<Rightarrow> is_whole (f64 n))
      else if declared = ''boolean'' then as_bool v \<noteq> None
      else if declared = ''array'' then is_array v
      else if declared = ''object'' then as_object v \<noteq> None
      else False)"

text \<open>\<open>encode_utf16().count()\<close>: one unit a character, two for one of four bytes.\<close>

definition utf16_length :: "string \<Rightarrow> nat" where
  "utf16_length s =
     length (filter (\<lambda>c. (of_char c :: nat) div 64 \<noteq> 2) s) +
     length (filter (\<lambda>c. 240 \<le> (of_char c :: nat)) s)"

fun has_white_space :: "string \<Rightarrow> bool" where
  "has_white_space [] = False"
| "has_white_space (c # s) = (strip_one WHITE_SPACE (c # s) \<noteq> None \<or> has_white_space s)"

definition matches_email :: "string \<Rightarrow> bool" where
  "matches_email s =
     (let clean = (\<lambda>part. part \<noteq> [] \<and> \<not> has_white_space part)
      in case split_on (CHR ''@'') s of
           [local, domain] \<Rightarrow>
             clean local \<and> clean domain \<and>
             (case split_once (CHR ''.'') domain of
                None \<Rightarrow> False
              | Some (before, _) \<Rightarrow> 0 < length before \<and> length before < length domain - 1)
         | _ \<Rightarrow> False)"

definition is_ascii_hexdigit :: "char \<Rightarrow> bool" where
  "is_ascii_hexdigit c \<longleftrightarrow>
     is_ascii_digit c \<or> char_between (CHR ''a'') (CHR ''f'') c \<or> char_between (CHR ''A'') (CHR ''F'') c"

definition is_shaped :: "string \<Rightarrow> string \<Rightarrow> bool" where
  "is_shaped s shape \<longleftrightarrow>
     list_all2 (\<lambda>byte expected.
       if expected = CHR ''d'' then is_ascii_digit byte
       else if expected = CHR ''h'' then is_ascii_hexdigit byte
       else byte = expected) s shape"

definition decimal :: "string \<Rightarrow> nat" where
  "decimal s = fold (\<lambda>c n. 10 * n + (of_char c - 48)) s 0"

definition bounded :: "string \<Rightarrow> nat \<Rightarrow> bool" where
  "bounded part ceiling \<longleftrightarrow> length part = 2 \<and> list_all is_ascii_digit part \<and> decimal part < ceiling"

definition matches_time :: "string \<Rightarrow> bool" where
  "matches_time s =
     (case split_on (CHR '':'') s of
        [hours, minutes] \<Rightarrow> bounded hours 24 \<and> bounded minutes 60
      | [hours, minutes, seconds] \<Rightarrow> bounded hours 24 \<and> bounded minutes 60 \<and> bounded seconds 60
      | _ \<Rightarrow> False)"

definition is_ascii_alphabetic :: "char \<Rightarrow> bool" where
  "is_ascii_alphabetic c \<longleftrightarrow> char_between (CHR ''A'') (CHR ''Z'') c \<or> char_between (CHR ''a'') (CHR ''z'') c"

definition to_ascii_lowercase :: "string \<Rightarrow> string" where
  "to_ascii_lowercase s =
     map (\<lambda>c. if char_between (CHR ''A'') (CHR ''Z'') c then char_of ((of_char c :: nat) + 32) else c) s"

definition SPECIAL :: "string list" where
  "SPECIAL = [''http'', ''https'', ''ws'', ''wss'', ''ftp'', ''file'']"

definition valid_scheme :: "string \<Rightarrow> bool" where
  "valid_scheme s =
     (case s of
        [] \<Rightarrow> False
      | first # rest \<Rightarrow>
          is_ascii_alphabetic first \<and>
          list_all (\<lambda>c. is_ascii_alphabetic c \<or> is_ascii_digit c \<or> c \<in> set ''+-.'') rest)"

definition matches_uri :: "string \<Rightarrow> bool" where
  "matches_uri s =
     (case split_once (CHR '':'') s of
        None \<Rightarrow> False
      | Some (scheme, rest) \<Rightarrow>
          valid_scheme scheme \<and>
          (if to_ascii_lowercase scheme \<in> set SPECIAL
           then strip_prefix ''//'' rest \<noteq> None \<and>
                (to_ascii_lowercase scheme = ''file'' \<or> 2 < length rest)
           else rest \<noteq> []))"

text \<open>\<open>replacen(' ', "T", 1)\<close>.\<close>

definition space_to_T :: "string \<Rightarrow> string" where
  "space_to_T s = (case split_once (CHR '' '') s of None \<Rightarrow> s | Some (a, b) \<Rightarrow> a @ ''T'' @ b)"

definition LAYOUTS :: "string list" where
  "LAYOUTS = [''%Y-%m-%dT%H:%M:%S%.f'', ''%Y-%m-%dT%H:%M:%S'', ''%Y-%m-%dT%H:%M'']"

definition parses_as_date_time :: "Libraries \<Rightarrow> string \<Rightarrow> bool" where
  "parses_as_date_time lb s \<longleftrightarrow>
     lb_rfc3339 lb s \<or> list_ex (\<lambda>layout. lb_naive lb layout (space_to_T s)) LAYOUTS"

text \<open>\<open>&s[..n]\<close>, which panics inside a character.\<close>

definition is_char_boundary :: "string \<Rightarrow> nat \<Rightarrow> bool" where
  "is_char_boundary s n \<longleftrightarrow>
     n = 0 \<or> n = length s \<or> n < length s \<and> (of_char (s ! n) :: nat) div 64 \<noteq> 2"

definition slice_to :: "nat \<Rightarrow> string \<Rightarrow> string option" where
  "slice_to n s = (if is_char_boundary s n then Some (take n s) else None)"

definition matches_date_time :: "Libraries \<Rightarrow> string \<Rightarrow> bool option" where
  "matches_date_time lb s =
     (if 10 < length s then
        (case slice_to 10 s of
           None \<Rightarrow> None
         | Some day \<Rightarrow>
             Some (is_shaped day ''dddd-dd-dd'' \<and> s ! 10 \<in> set ''T '' \<and> parses_as_date_time lb s))
      else Some False)"

definition matches_format :: "Libraries \<Rightarrow> string \<Rightarrow> string \<Rightarrow> bool option" where
  "matches_format lb format s =
     (if format = ''email'' then Some (matches_email s)
      else if format = ''uri'' then Some (matches_uri s)
      else if format = ''date'' then Some (is_shaped s ''dddd-dd-dd'' \<and> lb_date lb s)
      else if format = ''time'' then Some (matches_time s)
      else if format = ''date-time'' then matches_date_time lb s
      else if format = ''uuid'' then Some (is_shaped s ''hhhhhhhh-hhhh-hhhh-hhhh-hhhhhhhhhhhh'')
      else Some True)"

section \<open>The keywords\<close>

record FieldViolation =
  fv_rule :: string
  fv_message :: string

definition default_message :: "Libraries \<Rightarrow> string \<Rightarrow> json \<Rightarrow> string" where
  "default_message lb keyword validation0 =
     (let shown = (\<lambda>property. case get validation0 property of
                     None \<Rightarrow> ''undefined'' | Some v \<Rightarrow> js_string (lb_number_text lb) v)
      in if keyword = ''required'' then ''This field is required.''
         else if keyword = ''type'' then ''This field takes a '' @ shown ''type'' @ ''.''
         else if keyword = ''minLength'' then ''Use at least '' @ shown ''minLength'' @ '' characters.''
         else if keyword = ''maxLength'' then ''Use at most '' @ shown ''maxLength'' @ '' characters.''
         else if keyword = ''minimum'' then ''Enter '' @ shown ''minimum'' @ '' or more.''
         else if keyword = ''maximum'' then ''Enter '' @ shown ''maximum'' @ '' or less.''
         else if keyword = ''pattern'' then ''This value is not in the expected format.''
         else if keyword = ''format'' then ''Enter a valid '' @ shown ''format'' @ ''.''
         else if keyword = ''enum'' then ''Choose one of the offered values.''
         else if keyword = ''uniqueItems'' then ''Every row must be different.''
         else if keyword = ''uniqueBy'' then ''Two rows repeat a value that must be unique.''
         else ''This value is not accepted.'')"

definition unique_by_keys :: "json \<Rightarrow> string list" where
  "unique_by_keys validation0 =
     (case get validation0 ''uniqueBy'' of
        Some (String single) \<Rightarrow> [single]
      | Some (Array several) \<Rightarrow> somes (map as_str several)
      | _ \<Rightarrow> [])"

text \<open>\<open>seen.contains\<close> over a growing list: the first repetition.\<close>

fun repeats :: "'a list \<Rightarrow> 'a list \<Rightarrow> bool" where
  "repeats seen [] = False"
| "repeats seen (x # xs) = (x \<in> set seen \<or> repeats (x # seen) xs)"

definition fingerprint :: "string list \<Rightarrow> (string \<times> json) list \<Rightarrow> json list" where
  "fingerprint keys record0 = map (\<lambda>key. case map_of record0 key of None \<Rightarrow> Null | Some v \<Rightarrow> v) keys"

definition repeats_a_key :: "json list \<Rightarrow> string list \<Rightarrow> bool" where
  "repeats_a_key rows keys = repeats [] (map (fingerprint keys) (somes (map as_object rows)))"

definition keyword_number :: "json \<Rightarrow> string \<Rightarrow> (int \<times> int) option" where
  "keyword_number validation0 property =
     map_option f64 (Option.bind (get validation0 property) as_f64)"

definition below :: "int \<times> int \<Rightarrow> (int \<times> int) option \<Rightarrow> bool" where
  "below x minimum = (case minimum of None \<Rightarrow> False | Some m \<Rightarrow> f64_less x m)"

definition above :: "int \<times> int \<Rightarrow> (int \<times> int) option \<Rightarrow> bool" where
  "above x maximum = (case maximum of None \<Rightarrow> False | Some m \<Rightarrow> f64_less m x)"

text \<open>The keyword a value of the declared type breaks first; the string keywords, then the rest.\<close>

definition check_text :: "Libraries \<Rightarrow> json \<Rightarrow> string \<Rightarrow> string option option" where
  "check_text lb validation0 s =
     (let length0 = f64 (PosInt (utf16_length s)) in
      if below length0 (keyword_number validation0 ''minLength'') then Some (Some ''minLength'')
      else if above length0 (keyword_number validation0 ''maxLength'') then Some (Some ''maxLength'')
      else if (case get_str validation0 ''pattern'' of
                 None \<Rightarrow> False | Some p \<Rightarrow> \<not> matches_pattern (lb_is_match lb) p [] s)
        then Some (Some ''pattern'')
      else
        (case get_str validation0 ''format'' of
           None \<Rightarrow> Some None
         | Some format \<Rightarrow>
             map_option (\<lambda>ok. if ok then None else Some ''format'') (matches_format lb format s)))"

definition check_rest :: "json \<Rightarrow> json \<Rightarrow> string option" where
  "check_rest validation0 v =
     (if (case as_f64 v of None \<Rightarrow> False
          | Some n \<Rightarrow> below (f64 n) (keyword_number validation0 ''minimum'')) then Some ''minimum''
      else if (case as_f64 v of None \<Rightarrow> False
               | Some n \<Rightarrow> above (f64 n) (keyword_number validation0 ''maximum'')) then Some ''maximum''
      else if (case Option.bind (get validation0 ''enum'') as_array of
                 None \<Rightarrow> False | Some allowed \<Rightarrow> v \<notin> set allowed) then Some ''enum''
      else
        (case v of
           Array items \<Rightarrow>
             if get validation0 ''uniqueItems'' = Some (Bool True) \<and> repeats [] items
               then Some ''uniqueItems''
             else if unique_by_keys validation0 \<noteq> [] \<and>
                     repeats_a_key items (unique_by_keys validation0) then Some ''uniqueBy''
             else None
         | _ \<Rightarrow> None))"

definition broken_keyword :: "Libraries \<Rightarrow> json \<Rightarrow> json \<Rightarrow> string option option" where
  "broken_keyword lb validation0 v =
     (if is_empty v then
        Some (if get validation0 ''required'' = Some (Bool True) then Some ''required'' else None)
      else if \<not> matches_type v (case get_str validation0 ''type'' of None \<Rightarrow> [] | Some t \<Rightarrow> t) then
        Some (Some ''type'')
      else
        (case (case v of String s \<Rightarrow> check_text lb validation0 s | _ \<Rightarrow> Some None) of
           None \<Rightarrow> None
         | Some (Some keyword) \<Rightarrow> Some (Some keyword)
         | Some None \<Rightarrow> Some (check_rest validation0 v)))"

definition violation_message :: "Libraries \<Rightarrow> json \<Rightarrow> string \<Rightarrow> string" where
  "violation_message lb validation0 keyword =
     (case Option.bind (get validation0 ''messages'') (\<lambda>messages. get_str messages keyword) of
        Some message \<Rightarrow> message
      | None \<Rightarrow> default_message lb keyword validation0)"

definition check_validation :: "Libraries \<Rightarrow> json \<Rightarrow> json \<Rightarrow> FieldViolation option option" where
  "check_validation lb validation0 v =
     map_option (map_option (\<lambda>keyword.
       \<lparr>fv_rule = keyword, fv_message = violation_message lb validation0 keyword\<rparr>))
       (broken_keyword lb validation0 v)"

section \<open>The rules\<close>

record FieldOutcome =
  fo_violation :: "FieldViolation option"
  fo_unenforced :: "string list"
  fo_unknown :: "string list"

text \<open>One entry of \<open>rules\<close>; the second component is \<open>advanced\<close>.\<close>

definition apply_rule ::
  "Libraries \<Rightarrow> json \<Rightarrow> (string \<times> json) list \<Rightarrow> json \<Rightarrow>
   FieldOutcome \<times> FieldViolation option \<Rightarrow> FieldOutcome \<times> FieldViolation option" where
  "apply_rule lb v scope rule = (\<lambda>(outcome, advanced).
     let name = (case get_str rule ''rule'' of None \<Rightarrow> [] | Some n \<Rightarrow> n) in
     case registry_rule name of
       None \<Rightarrow> (outcome\<lparr>fo_unknown := fo_unknown outcome @ [name]\<rparr>, advanced)
     | Some entry \<Rightarrow>
         if get_str rule ''scope'' = Some ''client'' \<or> rr_scope entry = Client then (outcome, advanced)
         else
           (case rr_decide entry of
              None \<Rightarrow> (outcome\<lparr>fo_unenforced := fo_unenforced outcome @ [name]\<rparr>, advanced)
            | Some decider \<Rightarrow>
                let params = (case Option.bind (get rule ''params'') as_object of
                                None \<Rightarrow> [] | Some p \<Rightarrow> p);
                    holds0 = decide (lb_number_text lb) (lb_is_match lb) decider
                               \<lparr>rc_value = v, rc_scope = scope, rc_params = params\<rparr>
                in if \<not> holds0 \<and> \<not> is_empty v \<and> advanced = None
                   then (outcome, Some \<lparr>fv_rule = name,
                                        fv_message = (case get_str rule ''message'' of
                                          None \<Rightarrow> ''This value is not accepted.'' | Some m \<Rightarrow> m)\<rparr>)
                   else (outcome, advanced)))"

definition validate_field ::
  "Libraries \<Rightarrow> json \<Rightarrow> json \<Rightarrow> (string \<times> json) list \<Rightarrow> FieldOutcome option" where
  "validate_field lb component v scope =
     (let validation0 = (case Option.bind (get component ''validation'') as_object of
                           None \<Rightarrow> Object [] | Some m \<Rightarrow> Object m)
      in case check_validation lb validation0 v of
           None \<Rightarrow> None
         | Some violation \<Rightarrow>
             (case fold (apply_rule lb v scope) (get_arr component ''rules'')
                     (\<lparr>fo_violation = violation, fo_unenforced = [], fo_unknown = []\<rparr>, None) of
                (outcome, advanced) \<Rightarrow>
                  Some (outcome\<lparr>fo_violation :=
                    (case fo_violation outcome of None \<Rightarrow> advanced | Some x \<Rightarrow> Some x)\<rparr>)))"

end
