(* ===== verification/Payload.thy ===== *)
theory Payload
  imports EvalOrder FieldRules
begin

text \<open>
  Re-evaluating a submitted payload before anything is stored (\<open>rad/service/evaluation.rs\<close>): the payload
  is projected onto the definition, row numbers are overwritten, every \<open>calculate\<close> is evaluated in the
  order of its scope's dependency graph, hidden values are discarded, and what remains is validated.
  A vector the code pushes onto is threaded through; \<open>None\<close> is the panic of \<open>FieldRules\<close>.
\<close>

type_synonym fields = "(string \<times> json) list"
type_synonym details = "validation_detail list"

datatype Strictness = Draft | Submit

fun forgives :: "Strictness \<Rightarrow> validation_detail \<Rightarrow> bool" where
  "forgives Submit d = False"
| "forgives Draft d =
     (if vd_code d = ''VALIDATION_FAILED'' then vd_rule d = ''required''
      else vd_code d = ''RULE_NOT_ENFORCED'' \<or> vd_code d = ''EVALUATION_FAILED'')"

definition join_path :: "string \<Rightarrow> string \<Rightarrow> string" where
  "join_path prefix segment = (if prefix = [] then segment else prefix @ ''.'' @ segment)"

definition row_path :: "string \<Rightarrow> string \<Rightarrow> nat \<Rightarrow> string" where
  "row_path path key index = join_path path (key @ ''.'' @ show_nat index)"

definition or_null :: "json option \<Rightarrow> json" where
  "or_null v = (case v of None \<Rightarrow> Null | Some x \<Rightarrow> x)"

section \<open>Projection and row numbers\<close>

function project_one :: "json \<Rightarrow> fields \<Rightarrow> string \<Rightarrow> fields \<times> details \<Rightarrow> fields \<times> details" where
  "project_one component submitted path st =
     (if role_of component = Some ''layout'' then
        fold (\<lambda>child. project_one child submitted path) (container_children component) st
      else
        (case data_key component of
           None \<Rightarrow> st
         | Some key \<Rightarrow>
             (case row_template component of
                None \<Rightarrow> (map_insert key (or_null (map_of submitted key)) (fst st), snd st)
              | Some template \<Rightarrow>
                  (case as_array (or_null (map_of submitted key)) of
                     None \<Rightarrow> (map_insert key (or_null (map_of submitted key)) (fst st), snd st)
                   | Some rows \<Rightarrow>
                       (case fold (\<lambda>(index, row) (done, failures).
                                case as_object row of
                                  None \<Rightarrow>
                                    (done, failures @ [detail (row_path path key index) ''type''
                                                         ''ROW_NOT_AN_OBJECT'' []])
                                | Some r \<Rightarrow>
                                    (case fold (\<lambda>child. project_one child r (row_path path key index))
                                            template ([], failures) of
                                       (projected, failures) \<Rightarrow> (done @ [Object projected], failures)))
                              (enumerate 0 rows) ([], snd st) of
                          (projected_rows, failures) \<Rightarrow>
                            (map_insert key (Array projected_rows) (fst st), failures))))))"
  by pat_completeness auto

lemma size_container_children [termination_simp]:
  "child \<in> set (container_children component) \<Longrightarrow> size child < size component"
  using size_container_child mem_container_children by metis

termination project_one
  by (relation "measure (\<lambda>(c, _). size c)") (auto simp: size_container_children size_row_template)

declare project_one.simps [simp del]

definition project :: "json list \<Rightarrow> fields \<Rightarrow> fields \<times> details" where
  "project components submitted = fold (\<lambda>c. project_one c submitted []) components ([], [])"

function sequence_one :: "json \<Rightarrow> fields \<Rightarrow> fields" where
  "sequence_one component scope =
     (if role_of component = Some ''layout'' then
        fold sequence_one (container_children component) scope
      else
        (case data_key component of
           None \<Rightarrow> scope
         | Some key \<Rightarrow>
             (case row_template component of
                None \<Rightarrow> scope
              | Some template \<Rightarrow>
                  (case Option.bind (map_of scope key) as_array of
                     None \<Rightarrow> scope
                   | Some rows \<Rightarrow>
                       map_insert key
                         (Array (map (\<lambda>(index, row).
                            case as_object row of
                              None \<Rightarrow> row
                            | Some r \<Rightarrow>
                                Object (fold sequence_one template
                                  (case get_str component ''sequenceKey'' of
                                     None \<Rightarrow> r
                                   | Some sequence_key \<Rightarrow>
                                       map_insert sequence_key (Number (PosInt (index + 1))) r)))
                            (enumerate 0 rows))) scope))))"
  by pat_completeness auto
termination
  by (relation "measure (\<lambda>(c, _). size c)") (auto simp: size_container_children size_row_template)

declare sequence_one.simps [simp del]

definition apply_sequence :: "json list \<Rightarrow> fields \<Rightarrow> fields" where
  "apply_sequence components scope = fold sequence_one components scope"

section \<open>Calculation\<close>

definition normalize_numeric :: "Libraries \<Rightarrow> json \<Rightarrow> int \<times> int" where
  "normalize_numeric lb v =
     (case v of
        Number n \<Rightarrow> f64 n
      | String s \<Rightarrow> (case lb_parse_f64 lb (trim s) of None \<Rightarrow> (0, 0) | Some x \<Rightarrow> x)
      | Bool b \<Rightarrow> if b then (1, 0) else (0, 0)
      | _ \<Rightarrow> (0, 0))"

definition coerce :: "Libraries \<Rightarrow> json \<Rightarrow> json \<Rightarrow> json" where
  "coerce lb component result =
     (if Option.bind (get component ''validation'') (\<lambda>v. get_str v ''type'') \<in>
           {Some ''number'', Some ''integer''}
      then number_from_f64 (normalize_numeric lb result) else result)"

definition is_derived :: "json \<Rightarrow> bool" where
  "is_derived component \<longleftrightarrow> get_str component ''calculateMode'' \<noteq> Some ''generated''"

definition computed_value :: "Libraries \<Rightarrow> json \<Rightarrow> json option \<Rightarrow> json" where
  "computed_value lb component computed =
     (if is_derived component then
        (case computed of None \<Rightarrow> Null | Some v \<Rightarrow> coerce lb component v)
      else
        (case computed of
           Some v \<Rightarrow> if v = Null then or_null (get component ''defaultValue'') else coerce lb component v
         | None \<Rightarrow> or_null (get component ''defaultValue'')))"

definition calculate_field ::
  "Libraries \<Rightarrow> json \<Rightarrow> string \<Rightarrow> json \<Rightarrow> string \<Rightarrow> fields \<times> details \<Rightarrow> fields \<times> details" where
  "calculate_field lb component key expression path = (\<lambda>(scope, failures).
     if \<not> is_derived component \<and> or_null (map_of scope key) \<noteq> Null then (scope, failures)
     else
       (let computed = lb_evaluate lb expression (Object scope)
        in (map_insert key (computed_value lb component computed) scope,
            if computed = None
            then failures @ [detail (join_path path key) ''calculate'' ''EVALUATION_FAILED'' []]
            else failures)))"

definition widest :: "json list \<Rightarrow> nat" where
  "widest cs = Max (insert 0 (size ` set cs))"

lemma widest_upper: "c \<in> set cs \<Longrightarrow> size c \<le> widest cs"
  by (simp add: widest_def)

lemma widest_less: "0 < n \<Longrightarrow> (\<And>c. c \<in> set cs \<Longrightarrow> size c < n) \<Longrightarrow> widest cs < n"
  by (auto simp: widest_def)

lemma size_flatten_one: "e \<in> set (flatten_one c p) \<Longrightarrow> size (e_component e) \<le> size c"
proof (induction c p rule: flatten_one.induct)
  case (1 c p)
  show ?case
  proof (cases "role_of c = Some ''layout''")
    case True
    with "1.prems" obtain child q where
      q: "(child, q) \<in> set (container_children_at c p)" "e \<in> set (flatten_one child q)"
      by (subst (asm) flatten_one.simps) auto
    from "1.IH" [OF True q(1) refl q(2)] size_container_child [OF q(1)] show ?thesis by simp
  next
    case False
    with "1.prems" show ?thesis by (subst (asm) flatten_one.simps) (auto split: option.splits)
  qed
qed

lemma evaluation_order_entry:
  assumes "evaluation_order cs = Some (Inr order)" "c \<in> set order"
  shows "\<exists>e \<in> set (flatten cs []). e_component e = c"
  using assms unfolding evaluation_order_def
  by (cases rule: catalogue_order_cases [of "flatten cs []"]) (auto simp: order_ok_def intro!: bexI [OF refl nth_mem])

lemma row_template_size: "row_template c = Some rows \<Longrightarrow> widest rows < size c"
proof (rule widest_less)
  assume r: "row_template c = Some rows"
  then show "0 < size c"
    by (cases c) (auto simp: row_template_def role_of_def get_str_def split: if_splits)
  show "d \<in> set rows \<Longrightarrow> size d < size c" for d using size_row_template [OF r] .
qed

lemma widest_template:
  assumes "evaluation_order cs = Some (Inr order)" "c \<in> set order" "row_template c = Some rows"
  shows "widest rows < widest cs"
proof -
  obtain e where e: "e \<in> set (flatten cs [])" "e_component e = c"
    using evaluation_order_entry [OF assms(1,2)] by blast
  then obtain i where "i < length cs" "e \<in> set (flatten_one (cs ! i) (scope_path [] i))"
    by (auto simp: mem_flatten)
  with e size_flatten_one have "size c \<le> size (cs ! i)" by blast
  also have "\<dots> \<le> widest cs" using \<open>i < length cs\<close> by (simp add: widest_upper)
  finally show ?thesis using row_template_size [OF assms(3)] by simp
qed

function calculate_scope ::
  "Libraries \<Rightarrow> json list \<Rightarrow> string \<Rightarrow> fields \<times> details \<Rightarrow> fields \<times> details" where
  "calculate_scope lb components path st =
     (case evaluation_order components of
        None \<Rightarrow> st
      | Some (Inl loop) \<Rightarrow>
          (fst st, snd st @ [detail (if path = [] then ''definition'' else path) ''cycle''
                               ''CALCULATION_CYCLE'' [describe loop]])
      | Some (Inr order) \<Rightarrow>
          fold (\<lambda>component st.
            case data_key component of
              None \<Rightarrow> st
            | Some key \<Rightarrow>
                (case (case get component ''calculate'' of
                         None \<Rightarrow> st
                       | Some expression \<Rightarrow> calculate_field lb component key expression path st) of
                   (scope, failures) \<Rightarrow>
                     (case row_template component of
                        None \<Rightarrow> (scope, failures)
                      | Some template \<Rightarrow>
                          (case Option.bind (map_of scope key) as_array of
                             None \<Rightarrow> (scope, failures)
                           | Some rows \<Rightarrow>
                               (case fold (\<lambda>(index, row) (done, failures).
                                        case as_object row of
                                          None \<Rightarrow> (done @ [row], failures)
                                        | Some r \<Rightarrow>
                                            (case calculate_scope lb template (row_path path key index)
                                                    (r, failures) of
                                               (r, failures) \<Rightarrow> (done @ [Object r], failures)))
                                      (enumerate 0 rows) ([], failures) of
                                  (rows, failures) \<Rightarrow> (map_insert key (Array rows) scope, failures))))))
            order st)"
  by pat_completeness auto
termination
  by (relation "measure (\<lambda>(_, cs, _). widest cs)") (auto simp: widest_template)

declare calculate_scope.simps [simp del]

section \<open>Visibility\<close>

record VisibleField =
  vf_component :: json
  vf_scope :: string
  vf_key :: string

record Visibility =
  vs_failures :: details
  vs_visible :: "VisibleField list"
  vs_hidden :: "(string \<times> string) list"

definition is_visible :: "Libraries \<Rightarrow> json \<Rightarrow> json \<Rightarrow> string \<Rightarrow> bool \<times> details" where
  "is_visible lb component scope_value path =
     (case get component ''conditional'' of
        None \<Rightarrow> (True, [])
      | Some conditional \<Rightarrow>
          (let action = get_str conditional ''action'' in
           if action \<notin> {Some ''show'', Some ''hide''} then (True, [])
           else
             (case get conditional ''logic'' of
                None \<Rightarrow> (True, [])
              | Some logic \<Rightarrow>
                  (case (case lb_evaluate lb logic scope_value of
                           Some result \<Rightarrow> (result = Bool True, [])
                         | None \<Rightarrow>
                             (True, [detail (join_path path
                                       (case data_key component of
                                          Some key \<Rightarrow> key
                                        | None \<Rightarrow>
                                            (case get_str component ''id'' of
                                               Some ident \<Rightarrow> ident | None \<Rightarrow> ''component'')))
                                       ''conditional'' ''EVALUATION_FAILED'' []])) of
                     (holds0, failures) \<Rightarrow>
                       (if action = Some ''show'' then holds0 else \<not> holds0, failures)))))"

function collect_keys_under :: "json \<Rightarrow> string \<Rightarrow> (string \<times> string) list" where
  "collect_keys_under component path =
     (case data_key component of
        Some key \<Rightarrow> [(path, key)]
      | None \<Rightarrow> concat (map (\<lambda>child. collect_keys_under child path) (container_children component)))"
  by pat_completeness auto
termination
  by (relation "measure (\<lambda>(c, _). size c)") (auto simp: size_container_children)

declare collect_keys_under.simps [simp del]

function visibility_one :: "Libraries \<Rightarrow> json \<Rightarrow> json \<Rightarrow> string \<Rightarrow> Visibility \<Rightarrow> Visibility" where
  "visibility_one lb component scope_value path vs =
     (case is_visible lb component scope_value path of
        (shown0, failures) \<Rightarrow>
          (let vs = vs\<lparr>vs_failures := vs_failures vs @ failures\<rparr> in
           if \<not> shown0 then vs\<lparr>vs_hidden := vs_hidden vs @ collect_keys_under component path\<rparr>
           else if role_of component = Some ''layout'' then
             fold (\<lambda>child. visibility_one lb child scope_value path) (container_children component) vs
           else
             (case data_key component of
                None \<Rightarrow> vs
              | Some key \<Rightarrow>
                  (let vs = vs\<lparr>vs_visible := vs_visible vs @
                              [\<lparr>vf_component = component, vf_scope = path, vf_key = key\<rparr>]\<rparr> in
                   case row_template component of
                     None \<Rightarrow> vs
                   | Some template \<Rightarrow>
                       (case Option.bind (get scope_value key) as_array of
                          None \<Rightarrow> vs
                        | Some rows \<Rightarrow>
                            fold (\<lambda>(index, row) vs.
                              if as_object row = None then vs
                              else fold (\<lambda>child. visibility_one lb child row (row_path path key index))
                                     template vs)
                              (enumerate 0 rows) vs)))))"
  by pat_completeness auto
termination
  by (relation "measure (\<lambda>(_, c, _). size c)") (auto simp: size_container_children size_row_template)

declare visibility_one.simps [simp del]

definition resolve_visibility :: "Libraries \<Rightarrow> json list \<Rightarrow> json \<Rightarrow> Visibility" where
  "resolve_visibility lb components complete =
     fold (\<lambda>c. visibility_one lb c complete []) components
       \<lparr>vs_failures = [], vs_visible = [], vs_hidden = []\<rparr>"

section \<open>Scopes inside a payload\<close>

definition parse_usize :: "string \<Rightarrow> nat option" where
  "parse_usize s =
     (let digits = (case strip_prefix ''+'' s of None \<Rightarrow> s | Some r \<Rightarrow> r)
      in if digits \<noteq> [] \<and> list_all is_ascii_digit digits \<and> decimal digits < 2 ^ 64
         then Some (decimal digits) else None)"

fun value_at :: "json \<Rightarrow> string list \<Rightarrow> json option" where
  "value_at v [] = Some v"
| "value_at v (segment # segments) =
     (case v of
        Array items \<Rightarrow>
          Option.bind (parse_usize segment) (\<lambda>i.
            if i < length items then value_at (items ! i) segments else None)
      | Object m \<Rightarrow> Option.bind (map_of m segment) (\<lambda>w. value_at w segments)
      | _ \<Rightarrow> None)"

definition scope_at :: "fields \<Rightarrow> string \<Rightarrow> fields option" where
  "scope_at payload path =
     (if path = [] then Some payload
      else Option.bind (value_at (Object payload) (split_on (CHR ''.'') path)) as_object)"

definition map_remove :: "string \<Rightarrow> fields \<Rightarrow> fields" where
  "map_remove key m = filter (\<lambda>(k, _). k \<noteq> key) m"

text \<open>The object a path names, changed in place; a path that names none changes nothing.\<close>

fun change_at :: "(fields \<Rightarrow> fields) \<Rightarrow> json \<Rightarrow> string list \<Rightarrow> json" where
  "change_at f v [] = (case v of Object m \<Rightarrow> Object (f m) | _ \<Rightarrow> v)"
| "change_at f v (segment # segments) =
     (case v of
        Array items \<Rightarrow>
          (case parse_usize segment of
             None \<Rightarrow> v
           | Some i \<Rightarrow>
               if i < length items then Array (items[i := change_at f (items ! i) segments]) else v)
      | Object m \<Rightarrow>
          (case map_of m segment of
             None \<Rightarrow> v
           | Some w \<Rightarrow> Object (map_insert segment (change_at f w segments) m))
      | _ \<Rightarrow> v)"

definition discard :: "string \<times> string \<Rightarrow> fields \<Rightarrow> fields" where
  "discard = (\<lambda>(path, key) payload.
     if path = [] then map_remove key payload
     else
       (case change_at (map_remove key) (Object payload) (split_on (CHR ''.'') path) of
          Object m \<Rightarrow> m | _ \<Rightarrow> payload))"

section \<open>The walk\<close>

definition field_path :: "VisibleField \<Rightarrow> string" where
  "field_path field =
     (if vf_scope field = [] then vf_key field else vf_scope field @ ''.'' @ vf_key field)"

definition outcome_failures :: "string \<Rightarrow> FieldOutcome \<Rightarrow> details" where
  "outcome_failures path outcome =
     (case fo_violation outcome of
        None \<Rightarrow> []
      | Some v \<Rightarrow> [detail path (fv_rule v) ''VALIDATION_FAILED'' [fv_message v]]) @
     map (\<lambda>rule. detail path rule ''RULE_NOT_REGISTERED'' [rule]) (fo_unknown outcome) @
     map (\<lambda>rule. detail path rule ''RULE_NOT_ENFORCED'' [rule]) (fo_unenforced outcome)"

definition field_failures :: "Libraries \<Rightarrow> fields \<Rightarrow> VisibleField \<Rightarrow> details option" where
  "field_failures lb payload field =
     (let scope = (case scope_at payload (vf_scope field) of None \<Rightarrow> [] | Some m \<Rightarrow> m)
      in map_option (outcome_failures (field_path field))
           (validate_field lb (vf_component field) (or_null (map_of scope (vf_key field))) scope))"

fun validate_all :: "Libraries \<Rightarrow> VisibleField list \<Rightarrow> fields \<Rightarrow> details option" where
  "validate_all lb [] payload = Some []"
| "validate_all lb (field # visible) payload =
     Option.bind (field_failures lb payload field) (\<lambda>ds.
       map_option (\<lambda>rest. ds @ rest) (validate_all lb visible payload))"

text \<open>Steps 1 to 3: what the server makes of the submission before anything is hidden.\<close>

definition recomputed :: "Libraries \<Rightarrow> json list \<Rightarrow> fields \<Rightarrow> fields \<times> details" where
  "recomputed lb components submitted =
     (case project components submitted of
        (payload, failures) \<Rightarrow>
          (case calculate_scope lb components [] (apply_sequence components payload, []) of
             (payload, later) \<Rightarrow> (payload, failures @ later)))"

definition secure :: "Libraries \<Rightarrow> json \<Rightarrow> json \<Rightarrow> Strictness \<Rightarrow> (details + json) option" where
  "secure lb definition0 submitted0 strictness =
     (case as_object submitted0 of
        None \<Rightarrow> Some (Inl [detail ''payload'' ''type'' ''PAYLOAD_NOT_AN_OBJECT'' []])
      | Some submitted \<Rightarrow>
          (let components = get_arr definition0 ''components'' in
           case recomputed lb components submitted of
             (complete, failures) \<Rightarrow>
               (let vs = resolve_visibility lb components (Object complete);
                    payload = fold discard (vs_hidden vs) complete
                in map_option (\<lambda>invalid.
                     let refused = filter (\<lambda>d. \<not> forgives strictness d)
                           (failures @ vs_failures vs @ invalid)
                     in if refused = [] then Inr (Object payload) else Inl refused)
                   (validate_all lb (vs_visible vs) payload))))"

end
