(* ===== verification/PayloadFacts.thy ===== *)
theory PayloadFacts
  imports Payload
begin

text \<open>
  What the re-evaluation guarantees: every walk of a scope visits its data components and nothing
  else, and the stored payload does not depend on what the client sent for a calculated field.
\<close>

section \<open>The data components of a scope\<close>

definition leaves :: "json list \<Rightarrow> json list" where
  "leaves cs = map e_component (flatten cs [])"

text \<open>
  A walk that enters layout containers, skips a component that holds no value, and does its work on
  the rest is a walk over the data components in the order of the catalogue.
\<close>

locale scope_walk =
  fixes visit :: "json \<Rightarrow> 's \<Rightarrow> 's"
  assumes enters: "role_of c = Some ''layout'' \<Longrightarrow> visit c s = fold visit (container_children c) s"
    and skips: "role_of c \<noteq> Some ''layout'' \<Longrightarrow> data_key c = None \<Longrightarrow> visit c s = s"
begin

lemma visit_below: "visit c s = fold visit (map e_component (flatten_one c q)) s"
proof (induction c q arbitrary: s rule: flatten_one.induct)
  case (1 c q)
  show ?case
  proof (cases "role_of c = Some ''layout''")
    case True
    have "fold visit (map fst xs) s = fold visit (map e_component (concat (map (\<lambda>(d, p). flatten_one d p) xs))) s"
      if "set xs \<subseteq> set (container_children_at c q)" for xs s
      using that
    proof (induction xs arbitrary: s)
      case (Cons x xs)
      obtain d p where x: "x = (d, p)" by (cases x)
      have "visit d s = fold visit (map e_component (flatten_one d p)) s"
        using "1.IH" [OF True _ refl] Cons.prems x by auto
      with Cons.IH Cons.prems x show ?case by simp
    qed simp
    then have "fold visit (map fst (container_children_at c q)) s =
        fold visit (map e_component (concat (map (\<lambda>(d, p). flatten_one d p) (container_children_at c q)))) s"
      by blast
    with True show ?thesis
      by (simp only: enters [OF True] container_children_at_fst flatten_one.simps [of c q]) simp
  next
    case False
    then show ?thesis using skips by (simp add: flatten_one.simps [of c q] split: option.split)
  qed
qed

lemma visit_leaves: "fold visit cs s = fold visit (leaves cs) s"
proof -
  have "fold visit cs s =
      fold visit (map e_component (concat (map (\<lambda>(i, c). flatten_one c (f i)) (enumerate n cs)))) s"
    for f n
  proof (induction cs arbitrary: s n)
    case (Cons c cs)
    have "visit c s = fold visit (map e_component (flatten_one c (f n))) s" by (rule visit_below)
    with Cons.IH show ?case by simp
  qed simp
  then show ?thesis by (simp add: leaves_def flatten_def indexed_def)
qed

end

interpretation projecting: scope_walk "\<lambda>c. project_one c submitted path" for submitted path
  by unfold_locales (simp_all add: project_one.simps)

interpretation sequencing: scope_walk sequence_one
  by unfold_locales (simp_all add: sequence_one.simps)

lemma flatten_leaf:
  "e \<in> set (flatten_one c p) \<Longrightarrow>
   data_key (e_component e) = Some (e_key e) \<and> role_of (e_component e) \<noteq> Some ''layout''"
proof (induction c p rule: flatten_one.induct)
  case (1 c p)
  show ?case
  proof (cases "role_of c = Some ''layout''")
    case True
    with "1.prems" obtain d q where q: "(d, q) \<in> set (container_children_at c p)" "e \<in> set (flatten_one d q)"
      by (subst (asm) flatten_one.simps) auto
    from "1.IH" [OF True q(1) refl q(2)] show ?thesis .
  next
    case False
    with "1.prems" show ?thesis by (subst (asm) flatten_one.simps) (auto split: option.splits)
  qed
qed

lemma flatten_key: "e \<in> set (flatten cs p) \<Longrightarrow> data_key (e_component e) = Some (e_key e)"
  by (auto simp: mem_flatten dest: flatten_leaf)

lemma flatten_role: "e \<in> set (flatten cs p) \<Longrightarrow> role_of (e_component e) \<noteq> Some ''layout''"
  by (auto simp: mem_flatten dest: flatten_leaf)

lemma mem_leaves: "c \<in> set (leaves cs) \<longleftrightarrow> (\<exists>e \<in> set (flatten cs []). e_component e = c)"
  by (auto simp: leaves_def)

lemma leaf_key: "c \<in> set (leaves cs) \<Longrightarrow> \<exists>key. data_key c = Some key"
  by (auto simp: mem_leaves dest: flatten_key)

lemma leaf_role: "c \<in> set (leaves cs) \<Longrightarrow> role_of c \<noteq> Some ''layout''"
  by (auto simp: mem_leaves dest: flatten_role)

lemma leaf_size: "c \<in> set (leaves cs) \<Longrightarrow> size c \<le> widest cs"
  by (auto simp: mem_leaves mem_flatten intro: order_trans [OF size_flatten_one widest_upper [OF nth_mem]])

lemma leaf_template: "c \<in> set (leaves cs) \<Longrightarrow> row_template c = Some rows \<Longrightarrow> widest rows < widest cs"
  using row_template_size leaf_size by (metis less_le_trans)

lemma leaf_scope:
  "scope_of cs ds \<Longrightarrow> c \<in> set (leaves ds) \<Longrightarrow> row_template c = Some rows \<Longrightarrow> scope_of cs rows"
  by (auto simp: mem_leaves intro: scope_of.rows)

section \<open>Submissions that differ only where the server computes\<close>

text \<open>A field whose value is the server's whatever is sent: derived, and not a repeater.\<close>

definition derived :: "json \<Rightarrow> bool" where
  "derived c \<longleftrightarrow> row_template c = None \<and> get c ''calculate'' \<noteq> None \<and> is_derived c"

inductive same_inputs :: "json list \<Rightarrow> fields \<Rightarrow> fields \<Rightarrow> bool" where
  "(\<And>c key. c \<in> set (leaves cs) \<Longrightarrow> data_key c = Some key \<Longrightarrow>
      derived c \<or> or_null (map_of a key) = or_null (map_of b key) \<or>
      (\<exists>t r s. row_template c = Some t \<and> or_null (map_of a key) = Array r \<and>
        or_null (map_of b key) = Array s \<and>
        list_all2 (\<lambda>x y. x = y \<or> (\<exists>m n. x = Object m \<and> y = Object n \<and> same_inputs t m n)) r s)) \<Longrightarrow>
   same_inputs cs a b"

text \<open>The same of two projected scopes; \<open>L\<close> holds the components whose values may still differ.\<close>

inductive alike :: "json set \<Rightarrow> fields \<Rightarrow> fields \<Rightarrow> bool" where
  "bm_wf a \<Longrightarrow> bm_wf b \<Longrightarrow> fst ` set a = fst ` set b \<Longrightarrow>
   (\<And>key v w. map_of a key = Some v \<Longrightarrow> map_of b key = Some w \<Longrightarrow>
      v = w \<or>
      (\<exists>c \<in> L. data_key c = Some key \<and>
        (derived c \<or>
         (\<exists>t r s. row_template c = Some t \<and> v = Array r \<and> w = Array s \<and>
           list_all2 (\<lambda>x y. x = y \<or> (\<exists>m n. x = Object m \<and> y = Object n \<and> alike (set (leaves t)) m n)) r s)))) \<Longrightarrow>
   alike L a b"

definition rows_alike :: "json list \<Rightarrow> json list \<Rightarrow> json list \<Rightarrow> bool" where
  "rows_alike t =
     list_all2 (\<lambda>x y. x = y \<or> (\<exists>m n. x = Object m \<and> y = Object n \<and> alike (set (leaves t)) m n))"

definition values_alike :: "json \<Rightarrow> json \<Rightarrow> json \<Rightarrow> bool" where
  "values_alike c v w \<longleftrightarrow>
     derived c \<or> (\<exists>t r s. row_template c = Some t \<and> v = Array r \<and> w = Array s \<and> rows_alike t r s)"

definition may_differ :: "json set \<Rightarrow> fields \<Rightarrow> fields \<Rightarrow> bool" where
  "may_differ L a b \<longleftrightarrow>
     (\<forall>key v w. map_of a key = Some v \<longrightarrow> map_of b key = Some w \<longrightarrow>
        v = w \<or> (\<exists>c \<in> L. data_key c = Some key \<and> values_alike c v w))"

lemma alike_iff:
  "alike L a b \<longleftrightarrow> bm_wf a \<and> bm_wf b \<and> fst ` set a = fst ` set b \<and> may_differ L a b"
proof
  show "alike L a b \<Longrightarrow> bm_wf a \<and> bm_wf b \<and> fst ` set a = fst ` set b \<and> may_differ L a b"
    unfolding may_differ_def values_alike_def rows_alike_def by (erule alike.cases) simp
  show "bm_wf a \<and> bm_wf b \<and> fst ` set a = fst ` set b \<and> may_differ L a b \<Longrightarrow> alike L a b"
    unfolding may_differ_def values_alike_def rows_alike_def by (rule alike.intros) simp_all
qed

lemma may_differD:
  "may_differ L a b \<Longrightarrow> map_of a key = Some v \<Longrightarrow> map_of b key = Some w \<Longrightarrow>
   v = w \<or> (\<exists>c \<in> L. data_key c = Some key \<and> values_alike c v w)"
  unfolding may_differ_def by blast

lemma map_ext:
  assumes "bm_wf a" "bm_wf b" "map_of a = map_of b"
  shows "a = b"
proof (rule nth_equalityI)
  have "set (map fst a) = set (map fst b)"
    using assms(3) by (metis dom_map_of_conv_image_fst list.set_map)
  with assms(1,2) have keys: "map fst a = map fst b" by (metis strict_sorted_equal)
  then show len: "length a = length b" by (metis length_map)
  fix i assume i: "i < length a"
  have fst: "fst (a ! i) = fst (b ! i)" using keys i len by (metis nth_map)
  have "map_of a (fst (a ! i)) = Some (snd (a ! i))" "map_of b (fst (b ! i)) = Some (snd (b ! i))"
    using assms(1,2) i len by (simp_all add: map_of_eq_Some_iff bs_wf_distinct)
  with assms(3) fst show "a ! i = b ! i" by (simp add: prod_eq_iff)
qed

lemma keys_map_insert [simp]: "fst ` set (map_insert k v m) = insert k (fst ` set m)"
  by (simp add: map_insert_def dom_bm_entry)

lemma alike_refl: "bm_wf a \<Longrightarrow> alike L a a"
  by (simp add: alike_iff may_differ_def)

lemma alike_get:
  assumes "alike L a b" "\<forall>c \<in> L. data_key c \<noteq> Some key"
  shows "map_of a key = map_of b key"
proof (cases "map_of a key")
  case None
  with assms(1) have "map_of b key = None" by (simp add: alike_iff map_of_eq_None_iff)
  with None show ?thesis by simp
next
  case (Some v)
  with assms(1) have "map_of b key \<noteq> None"
    unfolding alike_iff map_of_eq_None_iff by (metis map_of_eq_None_iff option.distinct(1))
  then obtain w where w: "map_of b key = Some w" by blast
  from may_differD [OF _ Some w] assms have "v = w" unfolding alike_iff by blast
  with Some w show ?thesis by simp
qed

lemma alike_done: "alike {} a b \<Longrightarrow> a = b"
  using alike_get [of "{}" a b] by (intro map_ext) (auto simp: alike_iff)

lemma alike_insert:
  assumes "alike L a b" "v = w \<or> (\<exists>c \<in> M. data_key c = Some key \<and> values_alike c v w)"
    "\<And>c. c \<in> L \<Longrightarrow> data_key c \<noteq> Some key \<Longrightarrow> c \<in> M"
  shows "alike M (map_insert key v a) (map_insert key w b)"
  unfolding alike_iff
proof (intro conjI)
  from assms(1) have wf: "bm_wf a" "bm_wf b" "fst ` set a = fst ` set b" and d: "may_differ L a b"
    by (simp_all add: alike_iff)
  then show "bm_wf (map_insert key v a)" "bm_wf (map_insert key w b)"
    "fst ` set (map_insert key v a) = fst ` set (map_insert key w b)" by simp_all
  show "may_differ M (map_insert key v a) (map_insert key w b)"
    unfolding may_differ_def
  proof (intro allI impI)
    fix k x y
    assume xy: "map_of (map_insert key v a) k = Some x" "map_of (map_insert key w b) k = Some y"
    show "x = y \<or> (\<exists>c \<in> M. data_key c = Some k \<and> values_alike c x y)"
    proof (cases "k = key")
      case True
      with xy wf assms(2) show ?thesis by (simp add: map_of_map_insert)
    next
      case False
      with xy wf have "map_of a k = Some x" "map_of b k = Some y" by (simp_all add: map_of_map_insert)
      from may_differD [OF d this] assms(3) False show ?thesis by (metis option.inject)
    qed
  qed
qed

section \<open>Projection and row numbers keep what agrees\<close>

definition project_row :: "json list \<Rightarrow> string \<Rightarrow> string \<Rightarrow> nat \<times> json \<Rightarrow> json list \<times> details \<Rightarrow> json list \<times> details"
where
  "project_row t key path = (\<lambda>(index, row) (done, failures).
     case as_object row of
       None \<Rightarrow> (done, failures @ [detail (row_path path key index) ''type'' ''ROW_NOT_AN_OBJECT'' []])
     | Some r \<Rightarrow>
         (case fold (\<lambda>child. project_one child r (row_path path key index)) t ([], failures) of
            (projected, failures) \<Rightarrow> (done @ [Object projected], failures)))"

definition project_value :: "json \<Rightarrow> string \<Rightarrow> string \<Rightarrow> json \<Rightarrow> details \<Rightarrow> json \<times> details" where
  "project_value c key path v failures =
     (case (row_template c, as_array v) of
        (Some t, Some rows) \<Rightarrow>
          (case fold (project_row t key path) (enumerate 0 rows) ([], failures) of
             (rows, failures) \<Rightarrow> (Array rows, failures))
      | _ \<Rightarrow> (v, failures))"

lemma project_leaf:
  assumes "role_of c \<noteq> Some ''layout''" "data_key c = Some key"
  shows "project_one c submitted path (m, failures) =
     (case project_value c key path (or_null (map_of submitted key)) failures of
        (v, failures) \<Rightarrow> (map_insert key v m, failures))"
  using assms
  by (subst project_one.simps) (simp add: project_value_def project_row_def split: option.split prod.split)

definition row_related :: "(fields \<Rightarrow> fields \<Rightarrow> bool) \<Rightarrow> json \<Rightarrow> json \<Rightarrow> bool" where
  "row_related R x y \<longleftrightarrow> x = y \<or> (\<exists>m n. x = Object m \<and> y = Object n \<and> R m n)"

lemma rows_alike_def': "rows_alike t = list_all2 (row_related (alike (set (leaves t))))"
  by (simp add: rows_alike_def row_related_def [abs_def])

lemma same_inputsD:
  assumes "same_inputs cs a b" "c \<in> set (leaves cs)" "data_key c = Some key"
  shows "derived c \<or> or_null (map_of a key) = or_null (map_of b key) \<or>
     (\<exists>t r s. row_template c = Some t \<and> or_null (map_of a key) = Array r \<and>
       or_null (map_of b key) = Array s \<and> list_all2 (row_related (same_inputs t)) r s)"
  using assms(1) by cases (use assms(2,3) in \<open>auto simp: row_related_def [abs_def]\<close>)

text \<open>Two loops over the rows of a repeater, in step.\<close>

lemma rows_in_step:
  assumes "list_all2 P r s"
    and "\<And>i x y ds es failures. P x y \<Longrightarrow> list_all2 Q ds es \<Longrightarrow>
      snd (f (i, x) (ds, failures)) = snd (f (i, y) (es, failures)) \<and>
      list_all2 Q (fst (f (i, x) (ds, failures))) (fst (f (i, y) (es, failures)))"
    and "list_all2 Q ds es"
  shows "snd (fold f (enumerate n r) (ds, failures)) = snd (fold f (enumerate n s) (es, failures)) \<and>
     list_all2 Q (fst (fold f (enumerate n r) (ds, failures))) (fst (fold f (enumerate n s) (es, failures)))"
  using assms(1,3)
proof (induction arbitrary: n ds es failures rule: list_all2_induct)
  case (Cons x xs y ys)
  obtain ds' fs where a: "f (n, x) (ds, failures) = (ds', fs)" by fastforce
  obtain es' gs where b: "f (n, y) (es, failures) = (es', gs)" by fastforce
  from assms(2) [OF Cons.hyps(1) Cons.prems, of n failures] a b have "fs = gs" "list_all2 Q ds' es'" by simp_all
  with Cons.IH [of ds' es' "Suc n" fs] a b show ?case by simp
qed simp

lemma project_row_step:
  assumes "row_related (same_inputs t) x y" "rows_alike t ds es"
    and IH: "\<And>a b path failures. same_inputs t a b \<Longrightarrow>
      snd (fold (\<lambda>c. project_one c a path) t ([], failures)) =
      snd (fold (\<lambda>c. project_one c b path) t ([], failures)) \<and>
      alike (set (leaves t)) (fst (fold (\<lambda>c. project_one c a path) t ([], failures)))
        (fst (fold (\<lambda>c. project_one c b path) t ([], failures)))"
  shows "snd (project_row t key path (i, x) (ds, failures)) =
      snd (project_row t key path (i, y) (es, failures)) \<and>
    rows_alike t (fst (project_row t key path (i, x) (ds, failures)))
      (fst (project_row t key path (i, y) (es, failures)))"
proof -
  have same: "rows_alike t (ds @ [z]) (es @ [z])" for z
    using assms(2) by (simp add: rows_alike_def list_all2_appendI)
  have related: "rows_alike t (ds @ [Object m]) (es @ [Object n])" if "alike (set (leaves t)) m n" for m n
    using assms(2) that by (simp add: rows_alike_def list_all2_appendI)
  let ?p = "\<lambda>r. fold (\<lambda>c. project_one c r (row_path path key i)) t ([], failures)"
  consider "x = y" | m n where "x = Object m" "y = Object n" "same_inputs t m n"
    using assms(1) by (auto simp: row_related_def)
  then show ?thesis
  proof cases
    case 1
    then show ?thesis
      using assms(2) same by (simp add: project_row_def case_prod_unfold split: option.split)
  next
    case (2 m n)
    with IH [of m n "row_path path key i" failures] related [of "fst (?p m)" "fst (?p n)"]
    show ?thesis by (simp add: project_row_def case_prod_unfold)
  qed
qed

lemma project_value_alike:
  assumes "derived c \<and> row_template c = None \<or> v = w \<or>
      (\<exists>t r s. row_template c = Some t \<and> v = Array r \<and> w = Array s \<and> list_all2 (row_related (same_inputs t)) r s)"
    and IH: "\<And>t a b path failures. row_template c = Some t \<Longrightarrow> same_inputs t a b \<Longrightarrow>
      snd (fold (\<lambda>c. project_one c a path) t ([], failures)) =
      snd (fold (\<lambda>c. project_one c b path) t ([], failures)) \<and>
      alike (set (leaves t)) (fst (fold (\<lambda>c. project_one c a path) t ([], failures)))
        (fst (fold (\<lambda>c. project_one c b path) t ([], failures)))"
  shows "snd (project_value c key path v failures) = snd (project_value c key path w failures) \<and>
    (fst (project_value c key path v failures) = fst (project_value c key path w failures) \<or>
     values_alike c (fst (project_value c key path v failures)) (fst (project_value c key path w failures)))"
  using assms(1)
proof (elim disjE exE conjE)
  fix t r s
  assume t: "row_template c = Some t" "v = Array r" "w = Array s" "list_all2 (row_related (same_inputs t)) r s"
  have "snd (fold (project_row t key path) (enumerate 0 r) ([], failures)) =
      snd (fold (project_row t key path) (enumerate 0 s) ([], failures)) \<and>
    rows_alike t (fst (fold (project_row t key path) (enumerate 0 r) ([], failures)))
      (fst (fold (project_row t key path) (enumerate 0 s) ([], failures)))"
    unfolding rows_alike_def'
    by (rule rows_in_step [OF t(4)])
      (use project_row_step IH [OF t(1)] in \<open>auto simp: rows_alike_def'\<close>)
  with t show ?thesis
    by (auto simp: project_value_def values_alike_def case_prod_unfold)
qed (auto simp: project_value_def values_alike_def)

lemma project_alike:
  "same_inputs cs a b \<Longrightarrow>
   snd (fold (\<lambda>c. project_one c a path) cs ([], failures)) =
   snd (fold (\<lambda>c. project_one c b path) cs ([], failures)) \<and>
   alike (set (leaves cs)) (fst (fold (\<lambda>c. project_one c a path) cs ([], failures)))
     (fst (fold (\<lambda>c. project_one c b path) cs ([], failures)))"
proof (induction "widest cs" arbitrary: cs a b path failures rule: less_induct)
  case less
  have "snd (fold (\<lambda>c. project_one c a path) ls (m, fs)) = snd (fold (\<lambda>c. project_one c b path) ls (n, fs)) \<and>
      alike (set (leaves cs)) (fst (fold (\<lambda>c. project_one c a path) ls (m, fs)))
        (fst (fold (\<lambda>c. project_one c b path) ls (n, fs)))"
    if "set ls \<subseteq> set (leaves cs)" "alike (set (leaves cs)) m n" for ls m n fs
    using that
  proof (induction ls arbitrary: m n fs)
    case (Cons c ls)
    then have c: "c \<in> set (leaves cs)" by simp
    then obtain key where key: "data_key c = Some key" using leaf_key by blast
    let ?v = "or_null (map_of a key)" and ?w = "or_null (map_of b key)"
    have "snd (project_value c key path ?v fs) = snd (project_value c key path ?w fs) \<and>
        (fst (project_value c key path ?v fs) = fst (project_value c key path ?w fs) \<or>
         values_alike c (fst (project_value c key path ?v fs)) (fst (project_value c key path ?w fs)))"
    proof (rule project_value_alike)
      show "derived c \<and> row_template c = None \<or> ?v = ?w \<or>
          (\<exists>t r s. row_template c = Some t \<and> ?v = Array r \<and> ?w = Array s \<and>
            list_all2 (row_related (same_inputs t)) r s)"
        using same_inputsD [OF less.prems c key] derived_def by blast
      fix t x y p gs
      assume "row_template c = Some t" "same_inputs t x y"
      then show "snd (fold (\<lambda>c. project_one c x p) t ([], gs)) =
          snd (fold (\<lambda>c. project_one c y p) t ([], gs)) \<and>
        alike (set (leaves t)) (fst (fold (\<lambda>c. project_one c x p) t ([], gs)))
          (fst (fold (\<lambda>c. project_one c y p) t ([], gs)))"
        by (intro less.hyps leaf_template [OF c])
    qed
    moreover obtain x fx where x: "project_value c key path ?v fs = (x, fx)" by fastforce
    moreover obtain y fy where y: "project_value c key path ?w fs = (y, fy)" by fastforce
    ultimately have "fy = fx" "x = y \<or> values_alike c x y" by auto
    moreover from this have "alike (set (leaves cs)) (map_insert key x m) (map_insert key y n)"
      using c key by (intro alike_insert [OF Cons.prems(2)]) auto
    ultimately show ?case
      using Cons.IH [of "map_insert key x m" "map_insert key y n" fx] Cons.prems(1) x y
      by (simp add: project_leaf [OF leaf_role [OF c] key])
  qed simp
  then show ?case
    unfolding projecting.visit_leaves [where cs = cs] using alike_refl [of "[]" "set (leaves cs)"] by simp
qed

definition number_row :: "json \<Rightarrow> nat \<Rightarrow> fields \<Rightarrow> fields" where
  "number_row c index r =
     (case get_str c ''sequenceKey'' of
        None \<Rightarrow> r | Some sequence_key \<Rightarrow> map_insert sequence_key (Number (PosInt (index + 1))) r)"

definition sequence_value :: "json \<Rightarrow> json \<Rightarrow> json" where
  "sequence_value c v =
     (case (row_template c, as_array v) of
        (Some t, Some rows) \<Rightarrow>
          Array (map (\<lambda>(index, row).
            case as_object row of None \<Rightarrow> row | Some r \<Rightarrow> Object (fold sequence_one t (number_row c index r)))
            (enumerate 0 rows))
      | _ \<Rightarrow> v)"

text \<open>Writing back a value the walk leaves alone changes nothing.\<close>

lemma map_insert_same: "bm_wf m \<Longrightarrow> map_of m key = Some v \<Longrightarrow> map_insert key v m = m"
  by (rule map_ext) (auto simp: map_of_map_insert)

lemma sequence_leaf:
  assumes "role_of c \<noteq> Some ''layout''" "data_key c = Some key" "bm_wf m"
  shows "sequence_one c m =
     (case map_of m key of None \<Rightarrow> m | Some v \<Rightarrow> map_insert key (sequence_value c v) m)"
  using assms
  unfolding sequence_value_def number_row_def
  by (subst sequence_one.simps) (auto simp: map_insert_same split: option.split)

lemma alike_wf: "alike L a b \<Longrightarrow> bm_wf a \<and> bm_wf b"
  by (simp add: alike_iff)

lemma alike_number_row: "alike L a b \<Longrightarrow> alike L (number_row c i a) (number_row c i b)"
  unfolding number_row_def by (auto intro!: alike_insert split: option.split)

lemma sequence_value_alike:
  assumes "v = w \<or> values_alike c v w"
    and IH: "\<And>t a b. row_template c = Some t \<Longrightarrow> alike (set (leaves t)) a b \<Longrightarrow>
      alike (set (leaves t)) (fold sequence_one t a) (fold sequence_one t b)"
  shows "sequence_value c v = sequence_value c w \<or> values_alike c (sequence_value c v) (sequence_value c w)"
proof (cases "v = w \<or> derived c")
  case False
  with assms(1) obtain t r s where t: "row_template c = Some t" "v = Array r" "w = Array s" "rows_alike t r s"
    by (auto simp: values_alike_def)
  let ?f = "\<lambda>(index, row). case as_object row of None \<Rightarrow> row
      | Some r \<Rightarrow> Object (fold sequence_one t (number_row c index r))"
  have "row_related (alike (set (leaves t))) (?f (i, x)) (?f (i, y))"
    if "row_related (alike (set (leaves t))) x y" for i x y
    using that IH [OF t(1) alike_number_row] by (auto simp: row_related_def split: option.split)
  then have "rows_alike t (map ?f (enumerate n r)) (map ?f (enumerate n s))" for n
    using t(4) unfolding rows_alike_def'
  proof (induction r arbitrary: s n)
    case (Cons x r)
    then obtain y s' where "s = y # s'" "row_related (alike (set (leaves t))) x y"
      "list_all2 (row_related (alike (set (leaves t)))) r s'"
      by (auto simp: list_all2_Cons1)
    with Cons.IH [OF Cons.prems(1), of s' "Suc n"] Cons.prems(1) [of x y n] show ?case by simp
  qed simp
  with t show ?thesis by (auto simp: sequence_value_def values_alike_def)
qed (auto simp: values_alike_def)

definition well_keyed :: "json list \<Rightarrow> bool" where
  "well_keyed cs \<longleftrightarrow> (\<forall>ds. scope_of cs ds \<longrightarrow> distinct (map data_key (leaves ds)))"

lemma scope_of_trans: "scope_of ds es \<Longrightarrow> scope_of cs ds \<Longrightarrow> scope_of cs es"
  by (induction rule: scope_of.induct) (auto intro: scope_of.rows)

lemma well_keyed_rows:
  "well_keyed cs \<Longrightarrow> c \<in> set (leaves cs) \<Longrightarrow> row_template c = Some t \<Longrightarrow> well_keyed t"
  unfolding well_keyed_def using leaf_scope scope_of.own scope_of_trans by blast

lemma well_keyed_unique:
  "well_keyed cs \<Longrightarrow> c \<in> set (leaves cs) \<Longrightarrow> d \<in> set (leaves cs) \<Longrightarrow> data_key c = data_key d \<Longrightarrow> c = d"
  unfolding well_keyed_def by (metis distinct_map inj_onD scope_of.own)

lemma sequence_alike:
  "alike (set (leaves cs)) a b \<Longrightarrow> well_keyed cs \<Longrightarrow>
   alike (set (leaves cs)) (fold sequence_one cs a) (fold sequence_one cs b)"
proof (induction "widest cs" arbitrary: cs a b rule: less_induct)
  case less
  have "alike (set (leaves cs)) (fold sequence_one ls m) (fold sequence_one ls n)"
    if "set ls \<subseteq> set (leaves cs)" "alike (set (leaves cs)) m n" for ls m n
    using that
  proof (induction ls arbitrary: m n)
    case (Cons c ls)
    then have c: "c \<in> set (leaves cs)" by simp
    then obtain key where key: "data_key c = Some key" using leaf_key by blast
    have wf: "bm_wf m" "bm_wf n" using alike_wf [OF Cons.prems(2)] by auto
    note leaf = sequence_leaf [OF leaf_role [OF c] key]
    have "alike (set (leaves cs)) (sequence_one c m) (sequence_one c n)"
    proof (cases "map_of m key")
      case None
      with Cons.prems(2) have "map_of n key = None" by (simp add: alike_iff map_of_eq_None_iff)
      with None Cons.prems(2) wf show ?thesis by (simp add: leaf)
    next
      case (Some v)
      with Cons.prems(2) have "map_of n key \<noteq> None"
        unfolding alike_iff by (metis map_of_eq_None_iff option.distinct(1))
      then obtain w where w: "map_of n key = Some w" by blast
      have "may_differ (set (leaves cs)) m n" using Cons.prems(2) by (simp add: alike_iff)
      from may_differD [OF this Some w] have "v = w \<or> values_alike c v w"
        using well_keyed_unique [OF less.prems(2) c] key by metis
      then have "sequence_value c v = sequence_value c w \<or>
          values_alike c (sequence_value c v) (sequence_value c w)"
        by (rule sequence_value_alike)
          (intro less.hyps leaf_template [OF c] well_keyed_rows [OF less.prems(2) c])
      with c key have "alike (set (leaves cs)) (map_insert key (sequence_value c v) m)
          (map_insert key (sequence_value c w) n)"
        by (intro alike_insert [OF Cons.prems(2)]) auto
      with Some w wf show ?thesis by (simp add: leaf)
    qed
    with Cons show ?case by simp
  qed simp
  with less.prems(1) show ?case unfolding sequencing.visit_leaves [where cs = cs] by simp
qed

section \<open>Calculation overwrites what was sent\<close>

definition calculate_row ::
  "Libraries \<Rightarrow> json list \<Rightarrow> string \<Rightarrow> string \<Rightarrow> nat \<times> json \<Rightarrow> json list \<times> details \<Rightarrow> json list \<times> details"
where
  "calculate_row lb t key path = (\<lambda>(index, row) (done, failures).
     case as_object row of
       None \<Rightarrow> (done @ [row], failures)
     | Some r \<Rightarrow>
         (case calculate_scope lb t (row_path path key index) (r, failures) of
            (r, failures) \<Rightarrow> (done @ [Object r], failures)))"

definition calculate_rows :: "Libraries \<Rightarrow> json \<Rightarrow> string \<Rightarrow> string \<Rightarrow> fields \<times> details \<Rightarrow> fields \<times> details" where
  "calculate_rows lb c key path = (\<lambda>(scope, failures).
     case row_template c of
       None \<Rightarrow> (scope, failures)
     | Some t \<Rightarrow>
         (case Option.bind (map_of scope key) as_array of
            None \<Rightarrow> (scope, failures)
          | Some rows \<Rightarrow>
              (case fold (calculate_row lb t key path) (enumerate 0 rows) ([], failures) of
                 (rows, failures) \<Rightarrow> (map_insert key (Array rows) scope, failures))))"

definition calculate_one :: "Libraries \<Rightarrow> string \<Rightarrow> json \<Rightarrow> fields \<times> details \<Rightarrow> fields \<times> details" where
  "calculate_one lb path c st =
     (case data_key c of
        None \<Rightarrow> st
      | Some key \<Rightarrow>
          calculate_rows lb c key path
            (case get c ''calculate'' of None \<Rightarrow> st | Some e \<Rightarrow> calculate_field lb c key e path st))"

lemma calculate_ordered:
  "evaluation_order cs = Some (Inr order) \<Longrightarrow>
   calculate_scope lb cs path st = fold (calculate_one lb path) order st"
  unfolding calculate_one_def [abs_def] calculate_rows_def calculate_row_def
  by (subst calculate_scope.simps) simp

text \<open>
  An expression that says what it reads: every operand of a \<open>var\<close>, at any depth, is a path or an array
  opening with one, and every operator is one the calculation registry approves.  A publish does not ask
  it: an operand that is null, empty or opens with null names no path, adds no dependency, and is read
  by the engine as the whole record.
\<close>

definition names_path :: "json \<Rightarrow> bool" where
  "names_path operand \<longleftrightarrow>
     (case var_path operand of
        None \<Rightarrow> False
      | Some path \<Rightarrow> path = [] \<or> hd (split_on (CHR ''.'') path) \<noteq> [])"

function (sequential) reads_named :: "json \<Rightarrow> bool" where
  "reads_named (Object m) =
     list_all (\<lambda>(operator, argument).
       operator \<in> set CALCULATE_OPERATORS \<and> (operator = ''var'' \<longrightarrow> names_path argument) \<and> reads_named argument) m"
| "reads_named (Array items) = list_all reads_named items"
| "reads_named _ = True"
  by pat_completeness auto
termination
  by (relation "measure size") (fastforce dest: size_array_mem size_object_mem)+

definition named :: "json list \<Rightarrow> bool" where
  "named cs \<longleftrightarrow>
     (\<forall>ds. scope_of cs ds \<longrightarrow> (\<forall>c \<in> set (leaves ds). \<forall>e. get c ''calculate'' = Some e \<longrightarrow> reads_named e))"

lemma named_rows:
  "named cs \<Longrightarrow> c \<in> set (leaves cs) \<Longrightarrow> row_template c = Some t \<Longrightarrow> named t"
  unfolding named_def using leaf_scope scope_of.own scope_of_trans by blast

lemma named_leaf: "named cs \<Longrightarrow> c \<in> set (leaves cs) \<Longrightarrow> get c ''calculate'' = Some e \<Longrightarrow> reads_named e"
  unfolding named_def using scope_of.own by blast

text \<open>The reach of such an expression: the record, at the keys its paths open with.\<close>

definition reads_only :: "Libraries \<Rightarrow> bool" where
  "reads_only lb \<longleftrightarrow>
     (\<forall>e a b. reads_named e \<longrightarrow> \<not> reads_computed_path e \<longrightarrow> \<not> whole_scope (references e) \<longrightarrow>
        (\<forall>key \<in> set (r_keys (references e)). map_of a key = map_of b key) \<longrightarrow>
        lb_evaluate lb e (Object a) = lb_evaluate lb e (Object b))"

lemma alike_drop:
  assumes "alike (insert c L) a b" "data_key c = Some key" "map_of a key = map_of b key"
  shows "alike L a b"
  unfolding alike_iff
proof (intro conjI)
  from assms(1) show "bm_wf a" "bm_wf b" "fst ` set a = fst ` set b" by (simp_all add: alike_iff)
  show "may_differ L a b"
    unfolding may_differ_def
  proof (intro allI impI)
    fix k v w
    assume vw: "map_of a k = Some v" "map_of b k = Some w"
    have "may_differ (insert c L) a b" using assms(1) by (simp add: alike_iff)
    from may_differD [OF this vw] show "v = w \<or> (\<exists>d \<in> L. data_key d = Some k \<and> values_alike d v w)"
      using assms(2,3) vw by (cases "k = key") auto
  qed
qed

lemma alike_values:
  assumes "alike (insert c L) a b" "data_key c = Some key" "\<forall>d \<in> L. data_key d \<noteq> Some key"
  obtains "map_of a key = map_of b key"
  | v w where "map_of a key = Some v" "map_of b key = Some w" "values_alike c v w"
proof (cases "map_of a key = map_of b key")
  case False
  with assms(1) obtain v w where vw: "map_of a key = Some v" "map_of b key = Some w"
    unfolding alike_iff by (metis map_of_eq_None_iff option.exhaust)
  have "may_differ (insert c L) a b" using assms(1) by (simp add: alike_iff)
  from may_differD [OF this vw] have "values_alike c v w" using assms(3) vw False by auto
  with vw that show ?thesis by blast
qed (use that in blast)

lemma calculate_rows_same:
  assumes "rows_alike t r s"
    and "\<And>m n path failures. alike (set (leaves t)) m n \<Longrightarrow>
      calculate_scope lb t path (m, failures) = calculate_scope lb t path (n, failures)"
  shows "fold (calculate_row lb t key path) (enumerate 0 r) ([], failures) =
    fold (calculate_row lb t key path) (enumerate 0 s) ([], failures)"
proof -
  have "snd (fold (calculate_row lb t key path) (enumerate 0 r) ([], failures)) =
      snd (fold (calculate_row lb t key path) (enumerate 0 s) ([], failures)) \<and>
    list_all2 (=) (fst (fold (calculate_row lb t key path) (enumerate 0 r) ([], failures)))
      (fst (fold (calculate_row lb t key path) (enumerate 0 s) ([], failures)))"
  proof (rule rows_in_step [OF assms(1) [unfolded rows_alike_def']])
    fix i x y and ds es :: "json list" and fs
    assume xy: "row_related (alike (set (leaves t))) x y" "list_all2 (=) ds es"
    then have "ds = es" by (simp add: list_all2_eq)
    with xy(1) assms(2) show "snd (calculate_row lb t key path (i, x) (ds, fs)) =
        snd (calculate_row lb t key path (i, y) (es, fs)) \<and>
      list_all2 (=) (fst (calculate_row lb t key path (i, x) (ds, fs)))
        (fst (calculate_row lb t key path (i, y) (es, fs)))"
      by (auto simp: row_related_def calculate_row_def list_all2_eq [symmetric] case_prod_unfold)
  qed simp
  then show ?thesis by (simp add: list_all2_eq prod_eq_iff)
qed

lemma calculate_rows_step:
  assumes "alike (insert c L) a b" "data_key c = Some key" "\<forall>d \<in> L. data_key d \<noteq> Some key"
    and "\<not> derived c \<or> map_of a key = map_of b key"
    and rows: "\<And>t m n path failures. row_template c = Some t \<Longrightarrow> alike (set (leaves t)) m n \<Longrightarrow>
      calculate_scope lb t path (m, failures) = calculate_scope lb t path (n, failures)"
  shows "snd (calculate_rows lb c key path (a, fs)) = snd (calculate_rows lb c key path (b, fs)) \<and>
    alike L (fst (calculate_rows lb c key path (a, fs))) (fst (calculate_rows lb c key path (b, fs)))"
  using assms(1,2,3)
proof (cases rule: alike_values)
  case 1
  have L: "alike L a b" by (rule alike_drop [OF assms(1,2) 1])
  then have "alike L (map_insert key v a) (map_insert key v b)" for v
    by (rule alike_insert) auto
  with 1 L show ?thesis
    by (simp add: calculate_rows_def case_prod_unfold split: option.split)
next
  case (2 v w)
  show ?thesis
  proof (cases "map_of a key = map_of b key")
    case True
    have L: "alike L a b" by (rule alike_drop [OF assms(1,2) True])
    then have "alike L (map_insert key v a) (map_insert key v b)" for v
      by (rule alike_insert) auto
    with True L show ?thesis
      by (simp add: calculate_rows_def case_prod_unfold split: option.split)
  next
    case False
    with assms(4) 2 obtain t r s where t: "row_template c = Some t" "v = Array r" "w = Array s" "rows_alike t r s"
      by (auto simp: values_alike_def)
    have "alike L (map_insert key x a) (map_insert key x b)" for x
      using assms(2) by (intro alike_insert [OF assms(1)]) auto
    with t 2 calculate_rows_same [OF t(4) rows [OF t(1)]] show ?thesis
      by (simp add: calculate_rows_def case_prod_unfold)
  qed
qed

lemma calculate_one_step:
  assumes "alike (insert c L) a b" "data_key c = Some key" "\<forall>d \<in> L. data_key d \<noteq> Some key"
    and reads: "\<And>e. get c ''calculate'' = Some e \<Longrightarrow> lb_evaluate lb e (Object a) = lb_evaluate lb e (Object b)"
    and rows: "\<And>t m n path failures. row_template c = Some t \<Longrightarrow> alike (set (leaves t)) m n \<Longrightarrow>
      calculate_scope lb t path (m, failures) = calculate_scope lb t path (n, failures)"
  shows "snd (calculate_one lb path c (a, fs)) = snd (calculate_one lb path c (b, fs)) \<and>
    alike L (fst (calculate_one lb path c (a, fs))) (fst (calculate_one lb path c (b, fs)))"
proof (cases "get c ''calculate''")
  case None
  then have "\<not> derived c" by (simp add: derived_def)
  with calculate_rows_step [OF assms(1-3) disjI1 rows] None assms(2) show ?thesis
    by (simp add: calculate_one_def)
next
  case (Some e)
  show ?thesis
  proof (cases "\<not> is_derived c \<and> or_null (map_of a key) \<noteq> Null")
    case True
    then have "\<not> derived c" by (simp add: derived_def)
    moreover from assms(1,2,3) have "or_null (map_of b key) \<noteq> Null"
    proof (cases rule: alike_values)
      case (2 v w)
      with \<open>\<not> derived c\<close> show ?thesis by (auto simp: values_alike_def or_null_def)
    qed (use True in simp)
    ultimately show ?thesis
      using calculate_rows_step [OF assms(1-3) disjI1 rows, of path fs] Some True assms(2)
      by (simp add: calculate_one_def calculate_field_def)
  next
    case False
    have same: "\<not> is_derived c \<and> or_null (map_of b key) \<noteq> Null \<longleftrightarrow> False"
    proof (cases "is_derived c")
      case underived: False
      then have "\<not> derived c" by (simp add: derived_def)
      from assms(1,2,3) show ?thesis
      proof (cases rule: alike_values)
        case 1
        with False show ?thesis by simp
      next
        case (2 v w)
        with \<open>\<not> derived c\<close> False underived show ?thesis by (auto simp: values_alike_def or_null_def)
      qed
    qed simp
    let ?x = "computed_value lb c (lb_evaluate lb e (Object a))"
    let ?a = "map_insert key ?x a" and ?b = "map_insert key ?x b"
    have wf: "bm_wf a" "bm_wf b" using alike_wf [OF assms(1)] by auto
    have "alike (insert c L) ?a ?b" by (rule alike_insert [OF assms(1)]) auto
    moreover have "map_of ?a key = map_of ?b key" using wf by (simp add: map_of_map_insert)
    note step = calculate_rows_step [OF calculation assms(2,3) disjI2 [OF this] rows]
    obtain gs where "calculate_field lb c key e path (a, fs) = (?a, gs)"
      "calculate_field lb c key e path (b, fs) = (?b, gs)"
      using False same reads [OF Some] by (simp add: calculate_field_def Let_def)
    with step [of path gs] Some assms(2) show ?thesis by (simp add: calculate_one_def)
  qed
qed

definition computable :: "json list \<Rightarrow> bool" where
  "computable cs \<longleftrightarrow>
     (\<forall>ds. scope_of cs ds \<longrightarrow>
        (\<exists>order. evaluation_order ds = Some (Inr order)) \<and> (\<forall>c \<in> set (leaves ds). computed_free c))"

lemma computable_rows:
  "computable cs \<Longrightarrow> c \<in> set (leaves cs) \<Longrightarrow> row_template c = Some t \<Longrightarrow> computable t"
  unfolding computable_def using leaf_scope scope_of.own scope_of_trans by blast

lemma flatten_one_reads:
  "e \<in> set (flatten_one c p) \<Longrightarrow> calculate_reads e = map_option references (get (e_component e) ''calculate'')"
proof (induction c p rule: flatten_one.induct)
  case (1 c p)
  show ?case
  proof (cases "role_of c = Some ''layout''")
    case True
    with "1.prems" obtain d q where q: "(d, q) \<in> set (container_children_at c p)" "e \<in> set (flatten_one d q)"
      by (subst (asm) flatten_one.simps) auto
    from "1.IH" [OF True q(1) refl q(2)] show ?thesis .
  next
    case False
    with "1.prems" show ?thesis by (subst (asm) flatten_one.simps) (auto split: option.splits)
  qed
qed

lemma flatten_reads:
  "e \<in> set (flatten cs p) \<Longrightarrow> calculate_reads e = map_option references (get (e_component e) ''calculate'')"
  by (auto simp: mem_flatten dest: flatten_one_reads)

lemma index_of_key:
  assumes "distinct (map e_key es)" "j < length es"
  shows "index_of es (e_key (es ! j)) = Some j"
proof -
  have "map_of (zip (map e_key es) [0..<length es]) (map e_key es ! j) = Some ([0..<length es] ! j)"
    using assms by (intro map_of_zip_nth) auto
  with assms(2) show ?thesis by (simp add: index_of_def)
qed

text \<open>A field's expression reads no field that is still to be computed, itself included.\<close>

lemma order_reads:
  assumes "order_ok es (pre @ k # suf)" "distinct (map e_key es)"
    and "calculate_reads (es ! k) = Some r"
  shows "\<not> whole_scope r" and "j \<in> set (k # suf) \<Longrightarrow> e_key (es ! j) \<notin> set (r_keys r)"
proof -
  have k: "k < length es" using assms(1) by (auto simp: order_ok_def)
  have follows: "j \<in> set pre" if "reads_entry es r j" for j
  proof -
    have "must_follow es ((pre @ k # suf) ! length pre) j"
      using that assms(3) by (auto simp: must_follow_def)
    moreover have "length pre < length (pre @ k # suf)" by simp
    ultimately have "j \<in> set (take (length pre) (pre @ k # suf))"
      using assms(1) unfolding order_ok_def by blast
    then show ?thesis by simp
  qed
  have disjoint: "set pre \<inter> set (k # suf) = {}" using assms(1) by (auto simp: order_ok_def)
  show "\<not> whole_scope r"
    using follows [of k] k disjoint by (auto simp: reads_entry_def)
  assume j: "j \<in> set (k # suf)"
  then have "j < length es" using assms(1) by (auto simp: order_ok_def)
  then show "e_key (es ! j) \<notin> set (r_keys r)"
    using follows [of j] index_of_key [OF assms(2)] disjoint j by (auto simp: reads_entry_def)
qed

lemma distinct_keys: "distinct (map data_key (leaves cs)) \<longleftrightarrow> distinct (map e_key (flatten cs []))"
proof -
  have "map data_key (leaves cs) = map Some (map e_key (flatten cs []))"
    by (auto simp: leaves_def flatten_key)
  then show ?thesis by (simp add: distinct_map inj_on_def)
qed

lemma calculate_alike:
  assumes "reads_only lb"
  shows "alike (set (leaves cs)) a b \<Longrightarrow> well_keyed cs \<Longrightarrow> computable cs \<Longrightarrow> named cs \<Longrightarrow>
    calculate_scope lb cs path (a, fs) = calculate_scope lb cs path (b, fs)"
proof (induction "widest cs" arbitrary: cs a b path fs rule: less_induct)
  case less
  let ?es = "flatten cs []"
  let ?comp = "\<lambda>i. e_component (?es ! i)"
  have keys: "distinct (map e_key ?es)"
    using less.prems(2) scope_of.own distinct_keys unfolding well_keyed_def by blast
  obtain ks where order: "evaluation_order cs = Some (Inr (map ?comp ks))" and ok: "order_ok ?es ks"
    using less.prems(3) scope_of.own catalogue_order_cases [of ?es]
    unfolding computable_def evaluation_order_def by (metis Inl_Inr_False option.inject)
  have in_leaves: "?comp i \<in> set (leaves cs)" if "i < length ?es" for i
    using that by (auto simp: leaves_def)
  have "fold (calculate_one lb path) (map ?comp suf) (m, gs) =
      fold (calculate_one lb path) (map ?comp suf) (n, gs)"
    if "ks = pre @ suf" "alike (?comp ` set suf) m n" for pre suf m n gs
    using that
  proof (induction suf arbitrary: pre m n gs)
    case Nil
    then show ?case using alike_done by simp
  next
    case (Cons k suf)
    have ok': "order_ok ?es (pre @ k # suf)" using ok Cons.prems(1) by simp
    then have below: "i < length ?es" if "i \<in> set (k # suf)" for i
      using that by (auto simp: order_ok_def)
    then have k: "k < length ?es" by simp
    have c: "?comp k \<in> set (leaves cs)" by (rule in_leaves [OF k])
    have key: "data_key (?comp i) = Some (e_key (?es ! i))" if "i \<in> set (k # suf)" for i
      using flatten_key [OF nth_mem [OF below [OF that]]] .
    have others: "\<forall>d \<in> ?comp ` set suf. data_key d \<noteq> Some (e_key (?es ! k))"
    proof
      fix d assume "d \<in> ?comp ` set suf"
      then obtain i where i: "i \<in> set suf" "d = ?comp i" by blast
      have "i \<noteq> k" using ok' i(1) by (auto simp: order_ok_def)
      then have "e_key (?es ! i) \<noteq> e_key (?es ! k)"
        using keys below [of i] k i(1) by (auto simp: distinct_conv_nth)
      with key [of i] i show "data_key d \<noteq> Some (e_key (?es ! k))" by simp
    qed
    have reads: "lb_evaluate lb e (Object m) = lb_evaluate lb e (Object n)"
      if "get (?comp k) ''calculate'' = Some e" for e
    proof -
      have r: "calculate_reads (?es ! k) = Some (references e)"
        using flatten_reads [OF nth_mem [OF k]] that by simp
      have "\<not> reads_computed_path e"
        using less.prems(3) scope_of.own c that unfolding computable_def computed_free_def by blast
      moreover have "reads_named e" by (rule named_leaf [OF less.prems(4) c that])
      moreover have "map_of m q = map_of n q" if "q \<in> set (r_keys (references e))" for q
      proof (rule alike_get [OF Cons.prems(2)])
        show "\<forall>d \<in> ?comp ` set (k # suf). data_key d \<noteq> Some q"
          using order_reads(2) [OF ok' keys r] key that by auto
      qed
      ultimately show ?thesis
        using assms order_reads(1) [OF ok' keys r] unfolding reads_only_def by blast
    qed
    have rows: "calculate_scope lb t p (x, hs) = calculate_scope lb t p (y, hs)"
      if "row_template (?comp k) = Some t" "alike (set (leaves t)) x y" for t x y p hs
      using that c less.prems(2-4) leaf_template well_keyed_rows computable_rows named_rows
      by (intro less.hyps) auto
    have alike: "alike (insert (?comp k) (?comp ` set suf)) m n" using Cons.prems(2) by simp
    obtain m' hs where m: "calculate_one lb path (?comp k) (m, gs) = (m', hs)" by fastforce
    obtain n' hs' where n: "calculate_one lb path (?comp k) (n, gs) = (n', hs')" by fastforce
    from calculate_one_step [OF alike key others reads rows, of path gs] m n
    have "hs = hs'" "alike (?comp ` set suf) m' n'" by simp_all
    with Cons.IH [of "pre @ [k]" m' n' hs] Cons.prems(1) m n show ?case by simp
  qed
  from this [of "[]" ks] have "alike (?comp ` set ks) a b \<Longrightarrow> ?case"
    by (simp add: calculate_ordered [OF order])
  moreover have "?comp ` set ks = set (leaves cs)"
  proof -
    have "set ks = {..<length ?es}" using ok by (simp add: order_ok_def)
    moreover have "set ?es = (!) ?es ` {..<length ?es}" by (auto simp: in_set_conv_nth)
    ultimately show ?thesis by (simp add: leaves_def image_image)
  qed
  ultimately show ?case using less.prems(1) by simp
qed

lemma recomputed_same:
  assumes "reads_only lb" "well_keyed cs" "computable cs" "named cs" "same_inputs cs a b"
  shows "recomputed lb cs a = recomputed lb cs b"
proof -
  from project_alike [OF assms(5), of "[]" "[]"]
  have "snd (project cs a) = snd (project cs b)"
    and "alike (set (leaves cs)) (fst (project cs a)) (fst (project cs b))"
    by (simp_all add: project_def)
  moreover from sequence_alike [OF this(2) assms(2)]
  have "calculate_scope lb cs [] (apply_sequence cs (fst (project cs a)), []) =
      calculate_scope lb cs [] (apply_sequence cs (fst (project cs b)), [])"
    unfolding apply_sequence_def by (rule calculate_alike [OF assms(1) _ assms(2-4)])
  ultimately show ?thesis by (simp add: recomputed_def case_prod_unfold)
qed

end
