(* ===== verification/StoredPayload.thy ===== *)
theory StoredPayload
  imports PayloadFacts
begin

text \<open>
  What \<open>secure\<close> stores: nothing the client computed, the server's own answer for every calculated
  field, the declared keys of the components that survived and no other, and only valid values.
\<close>

section \<open>A published form can be computed\<close>

lemma flatten_one_under: "e \<in> set (flatten_one c p) \<Longrightarrow> component_under [c] (e_component e)"
proof (induction c p rule: flatten_one.induct)
  case (1 c p)
  have self: "component_under [c] c" by (rule component_under.top) simp
  show ?case
  proof (cases "role_of c = Some ''layout''")
    case True
    with "1.prems" obtain d q where q: "(d, q) \<in> set (container_children_at c p)" "e \<in> set (flatten_one d q)"
      by (subst (asm) flatten_one.simps) auto
    have "component_under [c] d"
      using self q(1) mem_container_children by (metis component_under.child)
    with "1.IH" [OF True q(1) refl q(2)] show ?thesis by (rule component_under_trans)
  next
    case False
    with "1.prems" self show ?thesis by (subst (asm) flatten_one.simps) (auto split: option.splits)
  qed
qed

lemma leaf_under: "c \<in> set (leaves ds) \<Longrightarrow> component_under ds c"
  by (subst component_under_split)
    (auto simp: mem_leaves mem_flatten intro: bexI [OF flatten_one_under nth_mem])

lemma scope_under: "scope_of cs ds \<Longrightarrow> component_under ds c \<Longrightarrow> component_under cs c"
proof (induction arbitrary: c rule: scope_of.induct)
  case (rows ds e rows)
  have e: "component_under ds (e_component e)"
    using rows.hyps(2) by (intro leaf_under) (auto simp: leaves_def)
  from rows.prems have "component_under ds c"
    by (induction rule: component_under.induct) (use e rows.hyps(3) in \<open>blast intro: component_under.intros\<close>)+
  then show ?case by (rule rows.IH)
qed

lemma published_computable:
  assumes "\<forall>d \<in> set (definition_errors ce definition0). vd_code d \<noteq> ''CALCULATION_CYCLE''"
    and "computed_path_errors definition0 = []"
    and "get definition0 ''components'' = Some (Array cs)"
  shows "computable cs"
  unfolding computable_def
  using gate_sound [OF assms(1,3)] computed_gate [OF assms(3)] assms(2) leaf_under scope_under by blast

lemma secure_same:
  assumes "reads_only lb" "well_keyed cs" "computable cs" "named cs" "same_inputs cs a b"
    and "get definition0 ''components'' = Some (Array cs)"
  shows "secure lb definition0 (Object a) strictness = secure lb definition0 (Object b) strictness"
  using recomputed_same [OF assms(1-5)] assms(6) by (simp add: secure_def get_arr_def)

section \<open>One pass settles every calculated field\<close>

lemma map_of_calculate_rows:
  assumes "bm_wf m" "q \<noteq> key"
  shows "map_of (fst (calculate_rows lb c key path (m, fs))) q = map_of m q"
  using assms by (simp add: calculate_rows_def map_of_map_insert case_prod_unfold split: option.split)

lemma wf_calculate_rows: "bm_wf m \<Longrightarrow> bm_wf (fst (calculate_rows lb c key path (m, fs)))"
  by (simp add: calculate_rows_def case_prod_unfold split: option.split)

lemma wf_calculate_field: "bm_wf m \<Longrightarrow> bm_wf (fst (calculate_field lb c key e path (m, fs)))"
  by (simp add: calculate_field_def Let_def)

lemma map_of_calculate_field:
  "bm_wf m \<Longrightarrow> q \<noteq> key \<Longrightarrow> map_of (fst (calculate_field lb c key e path (m, fs))) q = map_of m q"
  by (simp add: calculate_field_def Let_def map_of_map_insert)

lemma calculate_one_stages:
  assumes "bm_wf m" "data_key c = Some key"
  obtains n gs where "calculate_one lb path c (m, fs) = calculate_rows lb c key path (n, gs)" "bm_wf n"
    "\<And>q. q \<noteq> key \<Longrightarrow> map_of n q = map_of m q"
proof (cases "get c ''calculate''")
  case None
  with assms show ?thesis by (intro that [of m fs]) (simp_all add: calculate_one_def)
next
  case (Some e)
  obtain n gs where n: "calculate_field lb c key e path (m, fs) = (n, gs)" by fastforce
  show ?thesis
  proof (rule that [of n gs])
    show "calculate_one lb path c (m, fs) = calculate_rows lb c key path (n, gs)"
      using assms Some n by (simp add: calculate_one_def)
    show "bm_wf n" using wf_calculate_field [OF assms(1), where lb = lb and c = c and key = key and e = e and path = path and fs = fs] n by simp
    show "\<And>q. q \<noteq> key \<Longrightarrow> map_of n q = map_of m q"
      using map_of_calculate_field [OF assms(1), of _ key lb c e path fs] n by simp
  qed
qed

lemma calculate_one_frame:
  assumes "bm_wf m"
  shows wf_calculate_one: "bm_wf (fst (calculate_one lb path c (m, fs)))"
    and map_of_calculate_one:
      "data_key c \<noteq> Some q \<Longrightarrow> map_of (fst (calculate_one lb path c (m, fs))) q = map_of m q"
proof -
  have "bm_wf (fst (calculate_one lb path c (m, fs))) \<and>
      (data_key c \<noteq> Some q \<longrightarrow> map_of (fst (calculate_one lb path c (m, fs))) q = map_of m q)"
  proof (cases "data_key c")
    case None
    with assms show ?thesis by (simp add: calculate_one_def)
  next
    case (Some key)
    obtain n gs where n: "calculate_one lb path c (m, fs) = calculate_rows lb c key path (n, gs)" "bm_wf n"
      "\<And>q. q \<noteq> key \<Longrightarrow> map_of n q = map_of m q"
      using calculate_one_stages [OF assms Some] by metis
    show ?thesis using n Some wf_calculate_rows map_of_calculate_rows by auto
  qed
  then show "bm_wf (fst (calculate_one lb path c (m, fs)))"
    "data_key c \<noteq> Some q \<Longrightarrow> map_of (fst (calculate_one lb path c (m, fs))) q = map_of m q" by auto
qed

lemma calculate_frame:
  "bm_wf m \<Longrightarrow> bm_wf (fst (fold (calculate_one lb path) cs (m, fs))) \<and>
   ((\<forall>c \<in> set cs. data_key c \<noteq> Some q) \<longrightarrow> map_of (fst (fold (calculate_one lb path) cs (m, fs))) q = map_of m q)"
proof (induction cs arbitrary: m fs)
  case (Cons c cs)
  obtain n gs where n: "calculate_one lb path c (m, fs) = (n, gs)" by fastforce
  with calculate_one_frame [OF Cons.prems, where lb = lb and path = path and c = c and fs = fs] have
    "bm_wf n" "data_key c \<noteq> Some q \<Longrightarrow> map_of n q = map_of m q" by auto
  with Cons.IH [of n gs] n show ?case by auto
qed simp

lemma calculate_one_derived:
  assumes "bm_wf m" "data_key c = Some key" "get c ''calculate'' = Some e" "is_derived c" "row_template c = None"
  shows "map_of (fst (calculate_one lb path c (m, fs))) key =
    Some (computed_value lb c (lb_evaluate lb e (Object m)))"
  using assms by (simp add: calculate_one_def calculate_field_def calculate_rows_def Let_def map_of_map_insert)

text \<open>After the pass every derived field holds its expression's value over the payload as it ends up.\<close>

lemma calculation_settles:
  assumes "reads_only lb" "well_keyed cs" "computable cs" "bm_wf m" and names: "named cs"
    and c: "c \<in> set (leaves cs)" "derived c" "get c ''calculate'' = Some e" "data_key c = Some key"
    and final: "calculate_scope lb cs path (m, fs) = (final, gs)"
  shows "map_of final key = Some (computed_value lb c (lb_evaluate lb e (Object final)))"
proof -
  let ?es = "flatten cs []"
  let ?comp = "\<lambda>i. e_component (?es ! i)"
  have keys: "distinct (map e_key ?es)"
    using assms(2) scope_of.own distinct_keys unfolding well_keyed_def by blast
  obtain ks where order: "evaluation_order cs = Some (Inr (map ?comp ks))" and ok: "order_ok ?es ks"
    using assms(3) scope_of.own catalogue_order_cases [of ?es]
    unfolding computable_def evaluation_order_def by (metis Inl_Inr_False option.inject)
  obtain k where k: "k < length ?es" "?comp k = c"
    using c(1) by (auto simp: leaves_def in_set_conv_nth)
  with ok have "k \<in> set ks" by (simp add: order_ok_def)
  then obtain pre suf where ks: "ks = pre @ k # suf" by (meson split_list)
  obtain a as where a: "fold (calculate_one lb path) (map ?comp pre) (m, fs) = (a, as)" by fastforce
  obtain b bs where b: "calculate_one lb path c (a, as) = (b, bs)" by fastforce
  have f: "fold (calculate_one lb path) (map ?comp suf) (b, bs) = (final, gs)"
    using final a b k(2) ks by (simp add: calculate_ordered [OF order])
  have wf: "bm_wf a" using calculate_frame [OF assms(4), of lb path "map ?comp pre" fs] a by simp
  have wfb: "bm_wf b" using wf_calculate_one [OF wf, of lb path c as] b by simp
  have below: "i < length ?es" if "i \<in> set (k # suf)" for i
    using that ok ks by (auto simp: order_ok_def)
  have key_of: "data_key (?comp i) = Some (e_key (?es ! i))" if "i \<in> set (k # suf)" for i
    using flatten_key [OF nth_mem [OF below [OF that]]] .
  have kept: "map_of final q = map_of b q" if "\<forall>i \<in> set suf. e_key (?es ! i) \<noteq> q" for q
    using calculate_frame [OF wfb, of lb path "map ?comp suf" bs q] f that key_of by simp
  have r: "calculate_reads (?es ! k) = Some (references e)"
    using flatten_reads [OF nth_mem [OF k(1)]] k(2) c(3) by simp
  note reads = order_reads [OF ok [unfolded ks] keys r]
  have "lb_evaluate lb e (Object a) = lb_evaluate lb e (Object final)"
  proof -
    have "\<not> reads_computed_path e"
      using assms(3) scope_of.own c(1,3) unfolding computable_def computed_free_def by blast
    moreover have "map_of a q = map_of final q" if q: "q \<in> set (r_keys (references e))" for q
    proof -
      have "\<forall>i \<in> set (k # suf). e_key (?es ! i) \<noteq> q" using reads(2) q by blast
      with kept [of q] map_of_calculate_one [OF wf, of c q lb path as] key_of [of k] k(2) b show ?thesis by simp
    qed
    moreover have "reads_named e" by (rule named_leaf [OF names c(1,3)])
    ultimately show ?thesis using assms(1) reads(1) unfolding reads_only_def by blast
  qed
  moreover have "map_of b key = Some (computed_value lb c (lb_evaluate lb e (Object a)))"
    using calculate_one_derived [OF wf c(4,3), where lb = lb and path = path and fs = as] c(2) b
    by (auto simp: derived_def)
  moreover have "map_of final key = map_of b key"
  proof (rule kept)
    have "e_key (?es ! k) = key" using key_of [of k] k(2) c(4) by simp
    moreover have "e_key (?es ! i) \<noteq> e_key (?es ! k)" if "i \<in> set suf" for i
    proof -
      have "i \<noteq> k" using ok ks that by (auto simp: order_ok_def)
      then show ?thesis using keys below [of i] k(1) that by (auto simp: distinct_conv_nth)
    qed
    ultimately show "\<forall>i \<in> set suf. e_key (?es ! i) \<noteq> key" by simp
  qed
  ultimately show ?thesis by simp
qed

section \<open>Nothing undeclared is stored\<close>

definition declared_keys :: "json list \<Rightarrow> string set" where
  "declared_keys cs = e_key ` set (flatten cs [])"

lemma leaf_declared: "c \<in> set (leaves cs) \<Longrightarrow> data_key c = Some key \<Longrightarrow> key \<in> declared_keys cs"
  by (force simp: declared_keys_def mem_leaves dest: flatten_key)

lemma declared_leaf: "declared_keys cs = {key. \<exists>c \<in> set (leaves cs). data_key c = Some key}"
proof
  show "declared_keys cs \<subseteq> {key. \<exists>c \<in> set (leaves cs). data_key c = Some key}"
    using flatten_key by (fastforce simp: declared_keys_def mem_leaves)
qed (auto dest: leaf_declared)

lemma project_keys:
  "set ls \<subseteq> set (leaves cs) \<Longrightarrow>
   fst ` set (fst (fold (\<lambda>c. project_one c a path) ls (m, fs))) =
     fst ` set m \<union> {key. \<exists>c \<in> set ls. data_key c = Some key}"
proof (induction ls arbitrary: m fs)
  case (Cons c ls)
  then have c: "c \<in> set (leaves cs)" by simp
  then obtain key where key: "data_key c = Some key" using leaf_key by blast
  obtain v gs where "project_value c key path (or_null (map_of a key)) fs = (v, gs)" by fastforce
  with Cons.IH [of "map_insert key v m" gs] Cons.prems key show ?case
    by (auto simp: project_leaf [OF leaf_role [OF c] key])
qed simp

lemma wf_project:
  "set ls \<subseteq> set (leaves cs) \<Longrightarrow> bm_wf m \<Longrightarrow>
   bm_wf (fst (fold (\<lambda>c. project_one c a path) ls (m, fs)))"
proof (induction ls arbitrary: m fs)
  case (Cons c ls)
  then have c: "c \<in> set (leaves cs)" by simp
  then obtain key where key: "data_key c = Some key" using leaf_key by blast
  obtain v gs where "project_value c key path (or_null (map_of a key)) fs = (v, gs)" by fastforce
  with Cons.IH [of "map_insert key v m" gs] Cons.prems show ?case
    by (simp add: project_leaf [OF leaf_role [OF c] key])
qed simp

lemma sequence_keys:
  "set ls \<subseteq> set (leaves cs) \<Longrightarrow> bm_wf m \<Longrightarrow>
   bm_wf (fold sequence_one ls m) \<and> fst ` set (fold sequence_one ls m) = fst ` set m"
proof (induction ls arbitrary: m)
  case (Cons c ls)
  then have c: "c \<in> set (leaves cs)" by simp
  then obtain key where key: "data_key c = Some key" using leaf_key by blast
  have "bm_wf (sequence_one c m) \<and> fst ` set (sequence_one c m) = fst ` set m"
    unfolding sequence_leaf [OF leaf_role [OF c] key Cons.prems(2)]
    using Cons.prems(2) by (auto split: option.split intro: rev_image_eqI dest: map_of_SomeD)
  with Cons show ?case by simp
qed simp

lemma calculate_field_keys:
  "fst ` set (fst (calculate_field lb c key e path (m, fs))) \<subseteq> insert key (fst ` set m) \<and>
   fst ` set m \<subseteq> fst ` set (fst (calculate_field lb c key e path (m, fs)))"
  by (auto simp: calculate_field_def Let_def)

lemma calculate_rows_keys:
  "fst ` set (fst (calculate_rows lb c key path (m, fs))) \<subseteq> insert key (fst ` set m) \<and>
   fst ` set m \<subseteq> fst ` set (fst (calculate_rows lb c key path (m, fs)))"
  by (auto simp: calculate_rows_def case_prod_unfold split: option.split)

lemma grows_trans:
  "B \<subseteq> insert x A \<and> A \<subseteq> B \<Longrightarrow> C \<subseteq> insert x B \<and> B \<subseteq> C \<Longrightarrow> C \<subseteq> insert x A \<and> A \<subseteq> C"
  by blast

lemma calculate_one_keys:
  assumes "data_key c = Some key"
  shows "fst ` set (fst (calculate_one lb path c (m, fs))) \<subseteq> insert key (fst ` set m) \<and>
    fst ` set m \<subseteq> fst ` set (fst (calculate_one lb path c (m, fs)))"
proof (cases "get c ''calculate''")
  case None
  with assms calculate_rows_keys show ?thesis by (simp add: calculate_one_def)
next
  case (Some e)
  obtain n gs where n: "calculate_field lb c key e path (m, fs) = (n, gs)" by fastforce
  have "calculate_one lb path c (m, fs) = calculate_rows lb c key path (n, gs)"
    using assms Some n by (simp add: calculate_one_def)
  moreover have "fst ` set n \<subseteq> insert key (fst ` set m) \<and> fst ` set m \<subseteq> fst ` set n"
    using calculate_field_keys [of lb c key e path m fs] n by simp
  from grows_trans [OF this calculate_rows_keys [of lb c key path n gs]]
  show ?thesis by (simp only: calculation)
qed

lemma calculate_order_keys:
  "\<forall>c \<in> set order. \<exists>key \<in> K. data_key c = Some key \<Longrightarrow> K \<subseteq> fst ` set m \<Longrightarrow>
   fst ` set (fst (fold (calculate_one lb path) order (m, fs))) = fst ` set m"
proof (induction order arbitrary: m fs)
  case (Cons c order)
  then obtain key where key: "key \<in> K" "data_key c = Some key" by auto
  obtain n gs where n: "calculate_one lb path c (m, fs) = (n, gs)" by fastforce
  with calculate_one_keys [OF key(2), of lb path m fs] key(1) Cons.prems(2) have "fst ` set n = fst ` set m" by auto
  with Cons.IH [of n gs] Cons.prems n show ?case by simp
qed simp

lemma calculate_keys:
  assumes "declared_keys cs \<subseteq> fst ` set m"
  shows "fst ` set (fst (calculate_scope lb cs path (m, fs))) = fst ` set m"
proof (cases "evaluation_order cs")
  case None
  then show ?thesis by (simp add: calculate_scope.simps)
next
  case (Some result)
  show ?thesis
  proof (cases result)
    case (Inl loop)
    with Some show ?thesis by (simp add: calculate_scope.simps)
  next
    case (Inr order)
    have "\<forall>c \<in> set order. \<exists>key \<in> declared_keys cs. data_key c = Some key"
      using evaluation_order_entry [OF Some [unfolded Inr]] flatten_key
      by (fastforce simp: declared_keys_def)
    from calculate_order_keys [OF this assms] show ?thesis
      by (simp add: calculate_ordered [OF Some [unfolded Inr]])
  qed
qed

lemma recomputed_keys: "fst ` set (fst (recomputed lb cs a)) = declared_keys cs"
proof -
  let ?m = "fst (project cs a)"
  have m: "fst ` set ?m = declared_keys cs" "bm_wf ?m"
    unfolding project_def projecting.visit_leaves [where cs = cs]
    using project_keys [of "leaves cs" cs a "[]" "[]" "[]"] wf_project [of "leaves cs" cs "[]" a "[]" "[]"]
    by (simp_all add: declared_leaf)
  have "fst ` set (apply_sequence cs ?m) = declared_keys cs"
    unfolding apply_sequence_def sequencing.visit_leaves [where cs = cs]
    using sequence_keys [of "leaves cs" cs ?m] m by simp
  then show ?thesis
    using calculate_keys [of cs "apply_sequence cs ?m" lb "[]" "[]"]
    by (simp add: recomputed_def case_prod_unfold)
qed

lemma discard_below:
  "path \<noteq> [] \<Longrightarrow> fst ` set (discard (path, key) m) = fst ` set m"
proof -
  assume "path \<noteq> []"
  moreover obtain x xs where "split_on (CHR ''.'') path = x # xs"
    using split_on_nonempty by (metis neq_Nil_conv)
  moreover have "insert x (fst ` set m) = fst ` set m" if "map_of m x = Some w" for w
    using map_of_SomeD [OF that] by (force simp: insert_absorb)
  ultimately show ?thesis by (simp add: discard_def split: option.split)
qed

lemma discard_keys:
  "fst ` set (discard (path, key) m) = (if path = [] then fst ` set m - {key} else fst ` set m)"
proof (cases "path = []")
  case True
  then show ?thesis by (force simp: discard_def map_remove_def)
qed (simp add: discard_below)

lemma discarded_keys:
  "fst ` set (fold discard hs m) = fst ` set m - {key. ([], key) \<in> set hs}"
proof (induction hs arbitrary: m)
  case (Cons h hs)
  then show ?case by (cases h) (auto simp: discard_keys)
qed simp

text \<open>The same of the whole recomputation, which starts from the projected payload.\<close>

lemma recomputed_settles:
  assumes "reads_only lb" "well_keyed cs" "computable cs" "named cs"
    and "c \<in> set (leaves cs)" "derived c" "get c ''calculate'' = Some e" "data_key c = Some key"
  shows "map_of (fst (recomputed lb cs a)) key =
    Some (computed_value lb c (lb_evaluate lb e (Object (fst (recomputed lb cs a)))))"
proof -
  obtain m fs where m: "project cs a = (m, fs)" by fastforce
  then have "bm_wf m"
    using wf_project [of "leaves cs" cs "[]" a "[]" "[]"]
    unfolding project_def projecting.visit_leaves [where cs = cs] by simp
  then have "bm_wf (apply_sequence cs m)"
    unfolding apply_sequence_def sequencing.visit_leaves [where cs = cs]
    using sequence_keys [of "leaves cs" cs m] by simp
  moreover obtain final gs where "calculate_scope lb cs [] (apply_sequence cs m, []) = (final, gs)" by fastforce
  ultimately have "map_of final key = Some (computed_value lb c (lb_evaluate lb e (Object final)))"
    by (rule calculation_settles [OF assms(1-3) _ assms(4-8)])
  with m \<open>calculate_scope _ _ _ _ = _\<close> show ?thesis by (simp add: recomputed_def)
qed

section \<open>What an accepted submission is\<close>

text \<open>The visibility walk over the recomputed payload, and the payload that is left to store.\<close>

definition visibility_of :: "Libraries \<Rightarrow> json list \<Rightarrow> fields \<Rightarrow> Visibility" where
  "visibility_of lb cs a = resolve_visibility lb cs (Object (fst (recomputed lb cs a)))"

definition payload_of :: "Libraries \<Rightarrow> json list \<Rightarrow> fields \<Rightarrow> fields" where
  "payload_of lb cs a = fold discard (vs_hidden (visibility_of lb cs a)) (fst (recomputed lb cs a))"

definition scope_of_field :: "fields \<Rightarrow> VisibleField \<Rightarrow> fields" where
  "scope_of_field p f = (case scope_at p (vf_scope f) of None \<Rightarrow> [] | Some m \<Rightarrow> m)"

definition value_of_field :: "fields \<Rightarrow> VisibleField \<Rightarrow> json" where
  "value_of_field p f = or_null (map_of (scope_of_field p f) (vf_key f))"

definition keywords_of :: "json \<Rightarrow> json" where
  "keywords_of c = (case Option.bind (get c ''validation'') as_object of None \<Rightarrow> Object [] | Some m \<Rightarrow> Object m)"

lemma secure_object:
  assumes "get definition0 ''components'' = Some (Array cs)"
  shows "secure lb definition0 (Object a) strictness =
     map_option (\<lambda>invalid.
       let refused = filter (\<lambda>d. \<not> forgives strictness d)
             (snd (recomputed lb cs a) @ vs_failures (visibility_of lb cs a) @ invalid)
       in if refused = [] then Inr (Object (payload_of lb cs a)) else Inl refused)
     (validate_all lb (vs_visible (visibility_of lb cs a)) (payload_of lb cs a))"
  using assms
  unfolding payload_of_def visibility_of_def
  by (simp add: secure_def get_arr_def case_prod_unfold Let_def)

lemma secure_accepts:
  assumes "get definition0 ''components'' = Some (Array cs)"
  shows "secure lb definition0 (Object a) strictness = Some (Inr stored) \<longleftrightarrow>
     stored = Object (payload_of lb cs a) \<and>
     (\<exists>invalid. validate_all lb (vs_visible (visibility_of lb cs a)) (payload_of lb cs a) = Some invalid \<and>
        (\<forall>d \<in> set (snd (recomputed lb cs a) @ vs_failures (visibility_of lb cs a) @ invalid).
           forgives strictness d))"
  by (auto simp: secure_object [OF assms] Let_def filter_empty_conv split: if_splits)

lemma payload_keys:
  "fst ` set (payload_of lb cs a) =
     declared_keys cs - {key. ([], key) \<in> set (vs_hidden (visibility_of lb cs a))}"
  by (simp add: payload_of_def discarded_keys recomputed_keys)

lemma submit_forgives_none: "(\<forall>d \<in> set ds. forgives Submit d) \<longleftrightarrow> ds = []"
  by (cases ds) auto

lemma submission_accepted:
  assumes "get definition0 ''components'' = Some (Array cs)"
  shows "secure lb definition0 (Object a) Submit = Some (Inr stored) \<longleftrightarrow>
     stored = Object (payload_of lb cs a) \<and> snd (recomputed lb cs a) = [] \<and>
     vs_failures (visibility_of lb cs a) = [] \<and>
     validate_all lb (vs_visible (visibility_of lb cs a)) (payload_of lb cs a) = Some []"
  unfolding secure_accepts [OF assms] submit_forgives_none by auto

lemma accepted_submission:
  assumes "get definition0 ''components'' = Some (Array cs)"
    and "secure lb definition0 (Object a) Submit = Some (Inr stored)"
  shows "secure lb definition0 (Object a) strictness = Some (Inr stored)"
  using assms(2) unfolding submission_accepted [OF assms(1)] secure_accepts [OF assms(1)] by auto

lemma validate_all_Nil:
  "validate_all lb fs p = Some [] \<longleftrightarrow> (\<forall>f \<in> set fs. field_failures lb p f = Some [])"
  by (induction fs) (auto simp: bind_eq_Some_conv)

lemma apply_rule_violation: "fo_violation (fst (apply_rule lb v scope rule (outcome, advanced))) = fo_violation outcome"
proof (cases "registry_rule (case get_str rule ''rule'' of None \<Rightarrow> [] | Some n \<Rightarrow> n)")
  case None
  then show ?thesis by (simp add: apply_rule_def)
next
  case (Some entry)
  then show ?thesis by (cases "rr_decide entry") (simp_all add: apply_rule_def Let_def)
qed

lemma apply_rules_violation:
  "fo_violation (fst (fold (apply_rule lb v scope) rules (outcome, advanced))) = fo_violation outcome"
proof (induction rules arbitrary: outcome advanced)
  case (Cons rule rules)
  obtain o' adv where "apply_rule lb v scope rule (outcome, advanced) = (o', adv)" by fastforce
  moreover from this have "fo_violation o' = fo_violation outcome"
    using apply_rule_violation [of lb v scope rule outcome advanced] by simp
  ultimately show ?case using Cons.IH by simp
qed simp

lemma field_failures_Nil:
  assumes "field_failures lb p f = Some []"
  obtains outcome where
    "validate_field lb (vf_component f) (value_of_field p f) (scope_of_field p f) = Some outcome"
    "fo_violation outcome = None" "fo_unknown outcome = []" "fo_unenforced outcome = []"
  using assms
  by (auto simp: field_failures_def outcome_failures_def value_of_field_def scope_of_field_def Let_def
      split: option.splits)

lemma unruled_field_passes:
  assumes "broken_keyword lb (keywords_of (vf_component f)) (value_of_field p f) = Some None"
    and "get_arr (vf_component f) ''rules'' = []"
  shows "field_failures lb p f = Some []"
  using assms
  by (simp add: field_failures_def validate_field_def keywords_of_def value_of_field_def scope_of_field_def
      check_validation_def outcome_failures_def Let_def)

lemma validate_field_keywords:
  assumes "validate_field lb c v scope = Some outcome" "fo_violation outcome = None"
  shows "broken_keyword lb (keywords_of c) v = Some None"
proof -
  obtain violation where violation: "check_validation lb (keywords_of c) v = Some violation"
    using assms(1) by (auto simp: validate_field_def keywords_of_def Let_def split: option.splits)
  have "violation = None"
    using assms violation apply_rules_violation
      [of lb v scope "get_arr c ''rules''" "\<lparr>fo_violation = violation, fo_unenforced = [], fo_unknown = []\<rparr>" None]
    by (auto simp: validate_field_def keywords_of_def Let_def case_prod_unfold split: option.splits)
  with violation show ?thesis by (auto simp: check_validation_def)
qed

lemma keywords_hold:
  assumes "broken_keyword lb keywords v = Some None"
  shows "get keywords ''required'' = Some (Bool True) \<Longrightarrow> \<not> is_empty v"
    and "\<not> is_empty v \<Longrightarrow> get_str keywords ''type'' = Some t \<Longrightarrow> matches_type v t"
  using assms by (auto simp: broken_keyword_def split: if_splits option.splits)

section \<open>When the evaluation panics\<close>

lemma matches_format_panics:
  "matches_format lb format s = None \<longleftrightarrow>
     format = ''date-time'' \<and> 10 < length s \<and> (of_char (s ! 10) :: nat) div 64 = 2"
  by (auto simp: matches_format_def matches_date_time_def slice_to_def is_char_boundary_def split: option.split)

lemma broken_keyword_panics:
  assumes "broken_keyword lb keywords v = None"
  obtains s where "v = String s" "get_str keywords ''format'' = Some ''date-time''"
    "10 < length s" "(of_char (s ! 10) :: nat) div 64 = 2"
proof -
  from assms obtain s where v: "v = String s" and "check_text lb keywords s = None"
    by (auto simp: broken_keyword_def split: if_splits option.splits json.splits)
  then obtain format where "get_str keywords ''format'' = Some format" "matches_format lb format s = None"
    by (auto simp: check_text_def Let_def split: if_splits option.splits)
  with v that show ?thesis by (simp add: matches_format_panics)
qed

lemma validate_all_panics:
  "validate_all lb fs p = None \<longleftrightarrow> (\<exists>f \<in> set fs. field_failures lb p f = None)"
  by (induction fs) (auto simp: bind_eq_None_conv)

lemma field_failures_panics:
  "field_failures lb p f = None \<longleftrightarrow>
   broken_keyword lb (keywords_of (vf_component f)) (value_of_field p f) = None"
  by (auto simp: field_failures_def validate_field_def keywords_of_def value_of_field_def scope_of_field_def
      check_validation_def Let_def case_prod_unfold split: option.split)

lemma secure_panics:
  assumes "get definition0 ''components'' = Some (Array cs)"
  shows "secure lb definition0 (Object a) strictness = None \<longleftrightarrow>
     (\<exists>f \<in> set (vs_visible (visibility_of lb cs a)).
        broken_keyword lb (keywords_of (vf_component f)) (value_of_field (payload_of lb cs a) f) = None)"
  by (simp add: secure_object [OF assms] validate_all_panics field_failures_panics)

end
