(* ===== verification/SamplePayload.thy ===== *)
theory SamplePayload
  imports Samples StoredPayload
begin

text \<open>
  The form of \<open>Samples\<close> with two submissions of it, an evaluator that answers with the first value the
  expression names, and a form with a required field, a conditional one and a date-time.
\<close>

definition first_read :: "json \<Rightarrow> json \<Rightarrow> json option" where
  "first_read e v =
     (if reads_computed_path e \<or> whole_scope (references e) then None
      else
        (case r_keys (references e) of
           [] \<Rightarrow> Some e
         | key # _ \<Rightarrow> map_option (\<lambda>m. or_null (map_of m key)) (as_object v)))"

definition sample_libraries :: Libraries where
  "sample_libraries =
     \<lparr>lb_number_text = (\<lambda>_. []), lb_is_match = (\<lambda>_ _ _. Some True), lb_date = (\<lambda>_. True),
      lb_rfc3339 = (\<lambda>_. True), lb_naive = (\<lambda>_ _. True), lb_parse_f64 = (\<lambda>_. None),
      lb_evaluate = first_read\<rparr>"

lemma sample_reads: "reads_only sample_libraries"
  by (auto simp: reads_only_def sample_libraries_def first_read_def split: list.split)

lemma sample_leaves: "leaves sample_components =
  [calculated ''b'' (plus (var0 ''a'')), plain_field ''a'',
   Object [(''components'', Array sample_rows), (''key'', String ''r''), (''role'', String ''data'')]]"
  by code_simp

lemma sample_row_leaves: "leaves sample_rows = [calculated ''t'' (plus (var0 ''q'')), plain_field ''q'']"
  by code_simp

lemma sample_scopes: "scope_of sample_components ds \<Longrightarrow> ds = sample_components \<or> ds = sample_rows"
proof (induction rule: scope_of.induct)
  case (rows ds e rows)
  then have "e_component e \<in> set (leaves sample_components) \<union> set (leaves sample_rows)"
    by (auto simp: leaves_def)
  with rows.hyps(3) show ?case
    unfolding sample_leaves sample_row_leaves
    by (auto simp: row_template_def role_of_def get_str_def calculated_def plain_field_def split: if_splits)
qed simp

lemma sample_keyed: "well_keyed sample_components"
proof -
  have "distinct (map data_key (leaves sample_components))" "distinct (map data_key (leaves sample_rows))"
    by code_simp+
  then show ?thesis unfolding well_keyed_def using sample_scopes by blast
qed

lemma sample_named: "named sample_components"
proof -
  have "list_all (\<lambda>c. case get c ''calculate'' of None \<Rightarrow> True | Some e \<Rightarrow> reads_named e) (leaves sample_components)"
    "list_all (\<lambda>c. case get c ''calculate'' of None \<Rightarrow> True | Some e \<Rightarrow> reads_named e) (leaves sample_rows)"
    by code_simp+
  then show ?thesis unfolding named_def list_all_iff using sample_scopes by fastforce
qed

text \<open>Two submissions that differ in what only the server may compute.\<close>

definition sample_sent :: "json \<Rightarrow> json \<Rightarrow> fields" where
  "sample_sent b t =
     [(''a'', Number (PosInt 4)), (''b'', b),
      (''r'', Array [Object [(''q'', Number (PosInt 2)), (''t'', t)], Null])]"

lemma sample_same: "same_inputs sample_components (sample_sent b t) (sample_sent c u)"
proof -
  have rows: "same_inputs sample_rows [(''q'', q), (''t'', t)] [(''q'', q), (''t'', u)]" for q
    by (rule same_inputs.intros)
      (auto simp: sample_row_leaves derived_def is_derived_def row_template_def role_of_def get_str_def
        calculated_def plain_field_def data_key_def)
  show ?thesis
    by (rule same_inputs.intros)
      (use rows in \<open>auto simp: sample_leaves derived_def is_derived_def row_template_def role_of_def get_str_def
        calculated_def plain_field_def data_key_def sample_sent_def or_null_def get_arr_def\<close>)
qed

section \<open>A form with conditions on its values\<close>

definition name_field :: json where
  "name_field = Object [(''key'', String ''name''), (''role'', String ''data''),
     (''validation'', Object [(''required'', Bool True), (''type'', String ''string'')])]"

definition note_field :: json where
  "note_field = Object [(''conditional'', Object [(''action'', String ''hide''), (''logic'', Bool True)]),
     (''key'', String ''note''), (''role'', String ''data'')]"

definition when_field :: json where
  "when_field = Object [(''key'', String ''when''), (''role'', String ''data''),
     (''validation'', Object [(''format'', String ''date-time''), (''type'', String ''string'')])]"

definition validated_components :: "json list" where
  "validated_components = [name_field, note_field, when_field]"

definition sample_validated :: json where
  "sample_validated = Object [(''components'', Array validated_components)]"

definition visible_at_top :: "json \<Rightarrow> string \<Rightarrow> VisibleField" where
  "visible_at_top c k = \<lparr>vf_component = c, vf_scope = [], vf_key = k\<rparr>"

lemma sample_validated_components: "get sample_validated ''components'' = Some (Array validated_components)"
  by (simp add: sample_validated_def)

text \<open>Nine digits and a character of two bytes: byte 10 is inside it.\<close>

definition torn :: string where
  "torn = ''123456789'' @ [CHR 0xC3, CHR 0xA9]"

definition sample_named :: "json \<Rightarrow> fields" where
  "sample_named w = [(''extra'', Null), (''name'', String ''n''), (''when'', w)]"

definition sample_stored :: "json \<Rightarrow> fields" where
  "sample_stored w = [(''name'', String ''n''), (''when'', w)]"

lemma sample_recomputed:
  "recomputed sample_libraries validated_components (sample_named Null) =
     ([(''name'', String ''n''), (''note'', Null), (''when'', Null)], [])"
  "recomputed sample_libraries validated_components (sample_named (String torn)) =
     ([(''name'', String ''n''), (''note'', Null), (''when'', String torn)], [])"
  by code_simp+

lemma sample_visibility:
  "visibility_of sample_libraries validated_components (sample_named Null) =
     \<lparr>vs_failures = [], vs_visible = [visible_at_top name_field ''name'', visible_at_top when_field ''when''],
      vs_hidden = [([], ''note'')]\<rparr>"
  "visibility_of sample_libraries validated_components (sample_named (String torn)) =
     \<lparr>vs_failures = [], vs_visible = [visible_at_top name_field ''name'', visible_at_top when_field ''when''],
      vs_hidden = [([], ''note'')]\<rparr>"
  by code_simp+

lemma sample_payload:
  "payload_of sample_libraries validated_components (sample_named Null) = sample_stored Null"
  "payload_of sample_libraries validated_components (sample_named (String torn)) = sample_stored (String torn)"
  by (simp_all add: payload_of_def sample_visibility sample_recomputed discard_def map_remove_def sample_stored_def)

lemma sample_values [simp]:
  "value_of_field (sample_stored w) (visible_at_top name_field ''name'') = String ''n''"
  "value_of_field (sample_stored w) (visible_at_top when_field ''when'') = w"
  by (simp_all add: value_of_field_def scope_of_field_def visible_at_top_def scope_at_def sample_stored_def or_null_def)

lemma sample_fields [simp]:
  "vf_component (visible_at_top c k) = c" "get_arr name_field ''rules'' = []" "get_arr when_field ''rules'' = []"
  by (simp_all add: visible_at_top_def name_field_def when_field_def get_arr_def)

lemma name_passes: "broken_keyword lb (keywords_of name_field) (String ''n'') = Some None"
  by (simp add: broken_keyword_def keywords_of_def name_field_def get_str_def matches_type_def check_text_def
      check_rest_def below_def above_def keyword_number_def is_string_def Let_def)

lemma when_passes: "broken_keyword lb (keywords_of when_field) Null = Some None"
  by (simp add: broken_keyword_def keywords_of_def when_field_def)

lemma when_panics: "broken_keyword lb (keywords_of when_field) (String torn) = None"
proof -
  have "matches_format lb ''date-time'' torn = None" by (simp add: matches_format_panics torn_def)
  moreover have "\<not> is_empty (String torn)" by (simp add: torn_def)
  ultimately show ?thesis
    by (simp add: broken_keyword_def keywords_of_def when_field_def get_str_def matches_type_def check_text_def
        below_def above_def keyword_number_def is_string_def Let_def)
qed

lemma sample_accepted:
  "secure sample_libraries sample_validated (Object (sample_named Null)) Submit =
     Some (Inr (Object (sample_stored Null)))"
  unfolding submission_accepted [OF sample_validated_components] validate_all_Nil sample_visibility sample_payload
  by (simp add: sample_recomputed unruled_field_passes name_passes when_passes)

lemma sample_panics:
  "secure sample_libraries sample_validated (Object (sample_named (String torn))) Submit = None"
  unfolding secure_panics [OF sample_validated_components] sample_visibility sample_payload
  by (simp add: when_panics)

end
