(* ===== verification/Template.thy ===== *)
theory Template
  imports Tables FieldRules
begin

text \<open>
  How a document type writes a number (\<open>document_type/numbering.rs\<close>): the scopes, the bucket a document
  falls in, the template, and what is refused when a rule is set.  A date is the year and month
  \<open>chrono\<close> reads off it.
\<close>

section \<open>The vocabulary\<close>

datatype SequenceScope = GlobalScope | YearScope | MonthScope | DepartmentYearScope

fun scope_as_db :: "SequenceScope \<Rightarrow> string" where
  "scope_as_db GlobalScope = ''GLOBAL''"
| "scope_as_db YearScope = ''YEAR''"
| "scope_as_db MonthScope = ''MONTH''"
| "scope_as_db DepartmentYearScope = ''DEPARTMENT_YEAR''"

definition scope_from_db :: "string \<Rightarrow> SequenceScope" where
  "scope_from_db value =
     (if value = ''YEAR'' then YearScope
      else if value = ''MONTH'' then MonthScope
      else if value = ''DEPARTMENT_YEAR'' then DepartmentYearScope
      else GlobalScope)"

definition needs_department :: "SequenceScope \<Rightarrow> bool" where
  "needs_department scope \<longleftrightarrow> scope = DepartmentYearScope"

datatype GapPolicy = Gapless | AllowGaps

definition allows_gaps :: "GapPolicy \<Rightarrow> bool" where
  "allows_gaps policy \<longleftrightarrow> policy = AllowGaps"

definition policy_from_db :: "bool \<Rightarrow> GapPolicy" where
  "policy_from_db gaps = (if gaps then AllowGaps else Gapless)"

record AllocationContext =
  al_year :: int
  al_month :: nat
  al_department :: "uuid option"

definition MAX_TEMPLATE_LENGTH :: nat where
  "MAX_TEMPLATE_LENGTH = 200"

definition MIN_PADDING :: int where
  "MIN_PADDING = 1"

definition MAX_PADDING :: int where
  "MAX_PADDING = 20"

section \<open>The bucket\<close>

text \<open>\<open>{:0width$}\<close> of an integer: the sign, the zeros, the digits.\<close>

definition zero_padded :: "nat \<Rightarrow> int \<Rightarrow> string" where
  "zero_padded width i =
     (let digits = show_nat (nat \<bar>i\<bar>); sign = (if i < 0 then ''-'' else [])
      in sign @ replicate (width - length sign - length digits) (CHR ''0'') @ digits)"

definition year_text :: "int \<Rightarrow> string" where
  "year_text y = zero_padded 0 y"

definition scope_key :: "SequenceScope \<Rightarrow> AllocationContext \<Rightarrow> string" where
  "scope_key scope context0 =
     (case scope of
        GlobalScope \<Rightarrow> []
      | YearScope \<Rightarrow> year_text (al_year context0)
      | MonthScope \<Rightarrow>
          zero_padded 4 (al_year context0) @ ''-'' @ zero_padded 2 (int (al_month context0))
      | DepartmentYearScope \<Rightarrow>
          (case al_department context0 of None \<Rightarrow> ''NO-DEPARTMENT'' | Some d \<Rightarrow> d) @ '':'' @
          year_text (al_year context0))"

definition comparison_prefix :: "SequenceScope \<Rightarrow> AllocationContext \<Rightarrow> string" where
  "comparison_prefix scope context0 =
     (case scope of
        DepartmentYearScope \<Rightarrow>
          (case al_department context0 of None \<Rightarrow> ''NO-DEPARTMENT:'' | Some d \<Rightarrow> d @ '':'')
      | _ \<Rightarrow> [])"

section \<open>Rendering\<close>

definition SEQUENCE_PLACEHOLDER :: string where
  "SEQUENCE_PLACEHOLDER = ''{sequence}''"

definition KNOWN_PLACEHOLDERS :: "string list" where
  "KNOWN_PLACEHOLDERS = [''{sequence}'', ''{year}'', ''{month}'', ''{department}'']"

text \<open>\<open>str::replace\<close> of a pattern that is not empty, and \<open>str::contains\<close>.\<close>

function replace_all :: "string \<Rightarrow> string \<Rightarrow> string \<Rightarrow> string" where
  "replace_all p y s =
     (if p = [] then s
      else
        (case strip_prefix p s of
           Some rest \<Rightarrow> y @ replace_all p y rest
         | None \<Rightarrow> (case s of [] \<Rightarrow> [] | c # s' \<Rightarrow> c # replace_all p y s')))"
  by pat_completeness auto
termination
  by (relation "measure (\<lambda>(_, _, s). length s)") (auto simp: strip_prefix_Some_iff)

declare replace_all.simps [simp del]

fun contains_text :: "string \<Rightarrow> string \<Rightarrow> bool" where
  "contains_text p [] = (p = [])"
| "contains_text p (c # s) = (strip_prefix p (c # s) \<noteq> None \<or> contains_text p s)"

definition render :: "string \<Rightarrow> int \<Rightarrow> int \<Rightarrow> AllocationContext \<Rightarrow> string" where
  "render template number padding context0 =
     replace_all ''{department}'' (case al_department context0 of None \<Rightarrow> [] | Some d \<Rightarrow> d)
       (replace_all ''{month}'' (zero_padded 2 (int (al_month context0)))
         (replace_all ''{year}'' (year_text (al_year context0))
           (replace_all SEQUENCE_PLACEHOLDER
             (zero_padded (nat (max MIN_PADDING (min MAX_PADDING padding))) number) template)))"

section \<open>Setting a rule\<close>

record SetNumberingRuleRequest =
  sn_template :: string
  sn_scope :: SequenceScope
  sn_padding :: "int option"
  sn_policy :: "GapPolicy option"
  sn_next :: "int option"

text \<open>Every \<open>{...}\<close> of a template, left to right.\<close>

function placeholders :: "string \<Rightarrow> string list" where
  "placeholders s =
     (let rest = dropWhile (\<lambda>c. c \<noteq> CHR ''{'') s in
      if rest = [] \<or> CHR ''}'' \<notin> set rest then []
      else
        (takeWhile (\<lambda>c. c \<noteq> CHR ''}'') rest @ ''}'') #
          placeholders (tl (dropWhile (\<lambda>c. c \<noteq> CHR ''}'') rest)))"
  by pat_completeness auto
termination
proof (relation "measure length")
  fix s rest :: string
  assume rest: "rest = dropWhile (\<lambda>c. c \<noteq> CHR ''{'') s" "\<not> (rest = [] \<or> CHR ''}'' \<notin> set rest)"
  have "length (tl (dropWhile (\<lambda>c. c \<noteq> CHR ''}'') rest)) \<le> length rest - 1"
    using length_dropWhile_le [of "\<lambda>c. c \<noteq> CHR ''}''" rest] by simp
  also have "\<dots> < length s"
  proof -
    from rest have "rest \<noteq> []" by simp
    moreover have "length rest \<le> length s" using rest(1) length_dropWhile_le by simp
    ultimately show ?thesis by (cases rest) auto
  qed
  finally show "(tl (dropWhile (\<lambda>c. c \<noteq> CHR ''}'') rest), s) \<in> measure length" by simp
qed simp

declare placeholders.simps [simp del]

definition unknown_placeholders :: "string \<Rightarrow> string list" where
  "unknown_placeholders template =
     fold (\<lambda>p found. if p \<notin> set KNOWN_PLACEHOLDERS \<and> p \<notin> set found then found @ [p] else found)
       (placeholders template) []"

definition template_errors :: "SetNumberingRuleRequest \<Rightarrow> validation_detail list" where
  "template_errors request =
     (let template = trim (sn_template request) in
      if template = [] then [detail ''ruleTemplate'' ''required'' ''REQUIRED'' []]
      else if char_count template > MAX_TEMPLATE_LENGTH
      then [detail ''ruleTemplate'' ''maxLength'' ''TOO_LONG'' [show_nat MAX_TEMPLATE_LENGTH]]
      else
        (if contains_text SEQUENCE_PLACEHOLDER template then []
         else [detail ''ruleTemplate'' ''format'' ''MISSING_SEQUENCE'' []]) @
        map (\<lambda>p. detail ''ruleTemplate'' ''format'' ''UNKNOWN_PLACEHOLDER''
               [p, join '', '' KNOWN_PLACEHOLDERS]) (unknown_placeholders template) @
        (if sn_scope request = DepartmentYearScope \<and> \<not> contains_text ''{department}'' template
         then [detail ''ruleTemplate'' ''format'' ''SCOPE_NOT_IN_TEMPLATE'' []] else []))"

definition padding_errors :: "SetNumberingRuleRequest \<Rightarrow> validation_detail list" where
  "padding_errors request =
     (case sn_padding request of
        None \<Rightarrow> []
      | Some padding \<Rightarrow>
          if MIN_PADDING \<le> padding \<and> padding \<le> MAX_PADDING then []
          else [detail ''sequencePadding'' ''range'' ''OUT_OF_RANGE'' [show_int MIN_PADDING, show_int MAX_PADDING]])"

definition next_errors :: "SetNumberingRuleRequest \<Rightarrow> int option \<Rightarrow> validation_detail list" where
  "next_errors request issued_so_far =
     (case sn_next request of
        None \<Rightarrow> []
      | Some start \<Rightarrow>
          if sn_scope request = DepartmentYearScope
          then [detail ''nextSequence'' ''conflict'' ''NOT_SUPPORTED_FOR_SCOPE'' []]
          else if start < 1 then [detail ''nextSequence'' ''range'' ''OUT_OF_RANGE'' []]
          else
            (case issued_so_far of
               None \<Rightarrow> []
             | Some reached \<Rightarrow>
                 if start < reached
                 then [detail ''nextSequence'' ''range'' ''ALREADY_ISSUED'' [show_int reached]]
                 else []))"

definition validate_set :: "SetNumberingRuleRequest \<Rightarrow> int option \<Rightarrow> AppError + unit" where
  "validate_set request issued_so_far =
     (let details = template_errors request @ padding_errors request @ next_errors request issued_so_far
      in if details = [] then Inr () else Inl (Validation details))"

end
