(* ===== verification/TemplateFacts.thy ===== *)
theory TemplateFacts
  imports Template
begin

text \<open>
  The four replacements of \<open>render\<close> are one substitution over the pieces of the template, and the
  number a document is given determines its sequence and every date or department the template names.
\<close>

section \<open>One replacement\<close>

lemma replace_step:
  assumes "strip_prefix p (c # s) = None"
  shows "replace_all p y (c # s) = c # replace_all p y s"
proof -
  have "p \<noteq> []" using assms by auto
  with assms show ?thesis by (subst replace_all.simps) simp
qed

lemma replace_hit: "p \<noteq> [] \<Longrightarrow> replace_all p y (p @ s) = y @ replace_all p y s"
proof -
  assume "p \<noteq> []"
  moreover have "strip_prefix p (p @ s) = Some s" by (simp add: strip_prefix_Some_iff)
  ultimately show ?thesis by (subst replace_all.simps) simp
qed

lemma replace_Nil [simp]: "replace_all p y [] = []"
  by (subst replace_all.simps) (cases p; simp)

lemma replace_other: "p \<noteq> [] \<Longrightarrow> c \<noteq> hd p \<Longrightarrow> replace_all p y (c # s) = c # replace_all p y s"
  by (rule replace_step) (cases p; auto)

text \<open>Text without the first character of the pattern is passed over.\<close>

lemma replace_over: "p \<noteq> [] \<Longrightarrow> hd p \<notin> set r \<Longrightarrow> replace_all p y (r @ s) = r @ replace_all p y s"
  by (induction r) (auto simp: replace_other)

text \<open>A replacement by foreign text makes no new occurrence of another pattern.\<close>

lemma replace_no_new:
  assumes "y \<noteq> []" "set y \<inter> set q = {}" "p \<noteq> []"
  shows "strip_prefix q (replace_all p y s) \<noteq> None \<Longrightarrow> strip_prefix q s \<noteq> None"
  using assms(2)
proof (induction q arbitrary: s)
  case (Cons x q)
  show ?case
  proof (cases "strip_prefix p s")
    case (Some rest)
    then have "replace_all p y s = y @ replace_all p y rest"
      using assms(3) by (subst replace_all.simps) simp
    with Cons.prems assms(1) have False by (cases y) auto
    then show ?thesis ..
  next
    case None
    show ?thesis
    proof (cases s)
      case (Cons c s')
      with None have "replace_all p y s = c # replace_all p y s'" by (simp add: replace_step)
      with Cons.prems Cons Cons.IH [of s'] show ?thesis by (auto split: if_splits)
    qed (use Cons.prems in simp)
  qed
qed simp

section \<open>The pieces of a template\<close>

datatype piece = Letter char | SequencePiece | YearPiece | MonthPiece | DepartmentPiece

function pieces :: "string \<Rightarrow> piece list" where
  "pieces s =
     (case strip_prefix ''{sequence}'' s of
        Some r \<Rightarrow> SequencePiece # pieces r
      | None \<Rightarrow>
          (case strip_prefix ''{year}'' s of
             Some r \<Rightarrow> YearPiece # pieces r
           | None \<Rightarrow>
               (case strip_prefix ''{month}'' s of
                  Some r \<Rightarrow> MonthPiece # pieces r
                | None \<Rightarrow>
                    (case strip_prefix ''{department}'' s of
                       Some r \<Rightarrow> DepartmentPiece # pieces r
                     | None \<Rightarrow> (case s of [] \<Rightarrow> [] | c # s' \<Rightarrow> Letter c # pieces s')))))"
  by pat_completeness auto
termination
  by (relation "measure length") (auto simp: strip_prefix_Some_iff)

declare pieces.simps [simp del]

definition piece_text :: "string \<Rightarrow> string \<Rightarrow> string \<Rightarrow> string \<Rightarrow> piece \<Rightarrow> string" where
  "piece_text number y m d p =
     (case p of
        Letter c \<Rightarrow> [c]
      | SequencePiece \<Rightarrow> number
      | YearPiece \<Rightarrow> y
      | MonthPiece \<Rightarrow> m
      | DepartmentPiece \<Rightarrow> d)"

definition numeric :: "string \<Rightarrow> bool" where
  "numeric s \<longleftrightarrow> s \<noteq> [] \<and> set s \<subseteq> set ''0123456789-''"

lemma numeric_foreign:
  assumes "numeric s" "p \<in> {''{sequence}'', ''{year}'', ''{month}'', ''{department}''}"
  shows "s \<noteq> []" "set s \<inter> set p = {}" "hd p \<notin> set s"
  using assms by (auto simp: numeric_def)

lemma replacements_are_one:
  assumes "numeric n" "numeric y" "numeric m"
  shows "replace_all ''{department}'' d (replace_all ''{month}'' m (replace_all ''{year}'' y
     (replace_all ''{sequence}'' n t))) = concat (map (piece_text n y m d) (pieces t))"
proof (induction t rule: pieces.induct)
  case (1 t)
  let ?S = "''{sequence}''" and ?Y = "''{year}''" and ?M = "''{month}''" and ?D = "''{department}''"
  have over: "replace_all p z (r @ s) = r @ replace_all p z s"
    if "numeric r" "p \<in> {?S, ?Y, ?M, ?D}" for p z r s
    using that by (intro replace_over) (auto simp: numeric_def)
  have hit: "replace_all p z (p @ s) = z @ replace_all p z s" if "p \<in> {?S, ?Y, ?M, ?D}" for p z s
    using that by (intro replace_hit) auto
  have miss: "replace_all p z (q @ s) = q @ replace_all p z s"
    if "p \<in> {?S, ?Y, ?M, ?D}" "q \<in> {?S, ?Y, ?M, ?D}" "p \<noteq> q" for p z q s
    using that by (elim insertE emptyE) (simp_all add: replace_step replace_other)
  show ?case
  proof (cases "strip_prefix ?S t")
    case (Some r)
    then have t: "t = ?S @ r" by (simp add: strip_prefix_Some_iff)
    have "replace_all ?S n t = n @ replace_all ?S n r" unfolding t by (rule hit) simp
    moreover have "pieces t = SequencePiece # pieces r" using Some by (subst pieces.simps) simp
    ultimately show ?thesis using "1.IH"(5) [OF Some] by (simp add: over piece_text_def assms)
  next
    case notS: None
    show ?thesis
    proof (cases "strip_prefix ?Y t")
      case (Some r)
      then have t: "t = ?Y @ r" by (simp add: strip_prefix_Some_iff)
      have "replace_all ?S n t = ?Y @ replace_all ?S n r" unfolding t by (rule miss) auto
      then have "replace_all ?Y y (replace_all ?S n t) = y @ replace_all ?Y y (replace_all ?S n r)"
        by (simp only: hit insert_iff simp_thms)
      moreover have "pieces t = YearPiece # pieces r" using notS Some by (subst pieces.simps) simp
      ultimately show ?thesis
        using "1.IH"(4) [OF notS Some] by (simp add: over piece_text_def assms)
    next
      case notY: None
      show ?thesis
      proof (cases "strip_prefix ?M t")
        case (Some r)
        then have t: "t = ?M @ r" by (simp add: strip_prefix_Some_iff)
        have "replace_all ?S n t = ?M @ replace_all ?S n r" unfolding t by (rule miss) auto
        moreover have "replace_all ?Y y (?M @ q) = ?M @ replace_all ?Y y q" for q by (rule miss) auto
        ultimately have "replace_all ?M m (replace_all ?Y y (replace_all ?S n t)) =
            m @ replace_all ?M m (replace_all ?Y y (replace_all ?S n r))"
          by (simp only: hit insert_iff simp_thms)
        moreover have "pieces t = MonthPiece # pieces r"
          using notS notY Some by (subst pieces.simps) simp
        ultimately show ?thesis
          using "1.IH"(3) [OF notS notY Some] by (simp add: over piece_text_def assms)
      next
        case notM: None
        show ?thesis
        proof (cases "strip_prefix ?D t")
          case (Some r)
          then have t: "t = ?D @ r" by (simp add: strip_prefix_Some_iff)
          have "replace_all ?S n t = ?D @ replace_all ?S n r" unfolding t by (rule miss) auto
          moreover have "replace_all ?Y y (?D @ q) = ?D @ replace_all ?Y y q"
            "replace_all ?M m (?D @ q) = ?D @ replace_all ?M m q" for q by (rule miss; simp)+
          ultimately have "replace_all ?D d (replace_all ?M m (replace_all ?Y y (replace_all ?S n t))) =
              d @ replace_all ?D d (replace_all ?M m (replace_all ?Y y (replace_all ?S n r)))"
            by (simp only: hit insert_iff simp_thms)
          moreover have "pieces t = DepartmentPiece # pieces r"
            using notS notY notM Some by (subst pieces.simps) simp
          ultimately show ?thesis
            using "1.IH"(2) [OF notS notY notM Some] by (simp add: piece_text_def)
        next
          case notD: None
          show ?thesis
          proof (cases t)
            case Nil
            then show ?thesis by (simp add: pieces.simps)
          next
            case (Cons c s)
            have pieces: "pieces t = Letter c # pieces s"
              using notS notY notM notD Cons by (subst pieces.simps) simp
            note no_new = replace_no_new [where s = t, of n _ ?S] and fs = numeric_foreign
            have S: "replace_all ?S n t = c # replace_all ?S n s"
              using notS Cons by (simp add: replace_step)
            have still: "strip_prefix q (replace_all ?S n t) = None"
              if "strip_prefix q t = None" "q \<in> {?S, ?Y, ?M, ?D}" for q
              using replace_no_new [of n q ?S t] fs(1,2) [OF assms(1) that(2)] that(1) by fastforce
            have Y: "replace_all ?Y y (replace_all ?S n t) = c # replace_all ?Y y (replace_all ?S n s)"
              using still [OF notY] S by (simp add: replace_step)
            have still2: "strip_prefix q (replace_all ?Y y (replace_all ?S n t)) = None"
              if "strip_prefix q t = None" "q \<in> {?S, ?Y, ?M, ?D}" for q
              using replace_no_new [of y q ?Y "replace_all ?S n t"] fs(1,2) [OF assms(2) that(2)]
                still [OF that] by fastforce
            have M: "replace_all ?M m (replace_all ?Y y (replace_all ?S n t)) =
                c # replace_all ?M m (replace_all ?Y y (replace_all ?S n s))"
              using still2 [OF notM] Y by (simp add: replace_step)
            have "strip_prefix ?D (replace_all ?M m (replace_all ?Y y (replace_all ?S n t))) = None"
              using replace_no_new [of m ?D ?M "replace_all ?Y y (replace_all ?S n t)"]
                fs(1,2) [OF assms(3), of ?D] still2 [OF notD] by fastforce
            with M have "replace_all ?D d (replace_all ?M m (replace_all ?Y y (replace_all ?S n t))) =
                c # replace_all ?D d (replace_all ?M m (replace_all ?Y y (replace_all ?S n s)))"
              by (simp add: replace_step)
            with "1.IH"(1) [OF notS notY notM notD Cons] pieces show ?thesis
              by (simp add: piece_text_def)
          qed
        qed
      qed
    qed
  qed
qed

section \<open>What a number determines\<close>

lemma decimal_snoc: "decimal (s @ [c]) = 10 * decimal s + (of_char c - 48)"
  by (simp add: decimal_def)

lemma decimal_show [simp]: "decimal (show_nat n) = n"
proof (induction n rule: show_nat.induct)
  case (1 n)
  then show ?case
    by (subst show_nat.simps) (auto simp: decimal_snoc, simp add: decimal_def)
qed

lemma decimal_zeros: "decimal (replicate k (CHR ''0'') @ s) = decimal s"
  by (induction k) (simp_all add: decimal_def)

lemma decimal_zero_padded: "0 \<le> i \<Longrightarrow> decimal (zero_padded w i) = nat i"
  by (simp add: zero_padded_def Let_def decimal_zeros)

lemma zero_padded_inject:
  "0 \<le> i \<Longrightarrow> 0 \<le> j \<Longrightarrow> zero_padded w i = zero_padded w j \<Longrightarrow> i = j"
  by (metis decimal_zero_padded eq_nat_nat_iff)

lemma show_nat_digits: "show_nat n \<noteq> [] \<and> set (show_nat n) \<subseteq> set ''0123456789''"
proof (induction n rule: show_nat.induct)
  case (1 n)
  have digit: "char_of (48 + d) \<in> set ''0123456789''" if "d < 10" for d :: nat
  proof -
    from that have "d \<in> {0, 1, 2, 3, 4, 5, 6, 7, 8, 9}" by auto
    then show ?thesis by (elim insertE emptyE; hypsubst; code_simp)
  qed
  show ?case
  proof (cases "n < 10")
    case True
    with digit [of n] show ?thesis by (subst (1 2) show_nat.simps) simp
  next
    case False
    with "1.IH" digit [of "n mod 10"] show ?thesis by (subst (1 2) show_nat.simps) simp
  qed
qed

lemma zero_padded_numeric: "numeric (zero_padded w i)"
  using show_nat_digits [of "nat \<bar>i\<bar>"] by (auto simp: numeric_def zero_padded_def Let_def)

definition department_text :: "AllocationContext \<Rightarrow> string" where
  "department_text c = (case al_department c of None \<Rightarrow> [] | Some d \<Rightarrow> d)"

definition number_text :: "int \<Rightarrow> int \<Rightarrow> string" where
  "number_text padding i = zero_padded (nat (max MIN_PADDING (min MAX_PADDING padding))) i"

definition month_text :: "AllocationContext \<Rightarrow> string" where
  "month_text c = zero_padded 2 (int (al_month c))"

lemma render_pieces:
  "render t i padding c =
     concat (map (piece_text (number_text padding i) (year_text (al_year c)) (month_text c)
       (department_text c)) (pieces t))"
  by (simp add: render_def SEQUENCE_PLACEHOLDER_def replacements_are_one zero_padded_numeric
      year_text_def number_text_def month_text_def department_text_def)

text \<open>A date with a year of four digits, and a department (if any) written with thirty-six characters.\<close>

definition dated :: "AllocationContext \<Rightarrow> bool" where
  "dated c \<longleftrightarrow> 1000 \<le> al_year c \<and> al_year c \<le> 9999 \<and> 1 \<le> al_month c \<and> al_month c \<le> 12"

definition same_width :: "string \<Rightarrow> AllocationContext \<Rightarrow> AllocationContext \<Rightarrow> bool" where
  "same_width t c d \<longleftrightarrow>
     (DepartmentPiece \<in> set (pieces t) \<longrightarrow> length (department_text c) = length (department_text d))"

lemma length_show_nat: "10 ^ k \<le> n \<Longrightarrow> n < 10 ^ Suc k \<Longrightarrow> length (show_nat n) = Suc k"
proof (induction k arbitrary: n)
  case (Suc k)
  from Suc.prems have "10 ^ k \<le> n div 10" "n div 10 < 10 ^ Suc k" by auto
  with Suc.IH [of "n div 10"] Suc.prems show ?case by (subst show_nat.simps) auto
qed (simp add: show_nat.simps)

lemma dated_lengths:
  assumes "dated c"
  shows "length (year_text (al_year c)) = 4" "length (month_text c) = 2"
proof -
  show "length (year_text (al_year c)) = 4"
    using assms length_show_nat [of 3 "nat (al_year c)"]
    by (simp add: dated_def year_text_def zero_padded_def Let_def nat_less_iff le_nat_iff)
  show "length (month_text c) = 2"
    using assms length_show_nat [of 0 "al_month c"] length_show_nat [of 1 "al_month c"]
    by (cases "al_month c < 10") (simp_all add: dated_def month_text_def zero_padded_def Let_def)
qed

lemma sum_list_less:
  fixes f g :: "'a \<Rightarrow> nat"
  shows "p \<in> set xs \<Longrightarrow> f p < g p \<Longrightarrow> (\<And>x. x \<in> set xs \<Longrightarrow> f x \<le> g x) \<Longrightarrow>
    sum_list (map f xs) < sum_list (map g xs)"
proof (induction xs)
  case (Cons x xs)
  have "sum_list (map f xs) \<le> sum_list (map g xs)" by (rule sum_list_mono) (use Cons.prems in auto)
  with Cons show ?case by (cases "x = p") (auto intro: add_less_le_mono add_le_less_mono)
qed simp

lemma lengths_of_equal_sum:
  fixes f g :: "'a \<Rightarrow> nat"
  assumes "sum_list (map f xs) = sum_list (map g xs)" "p \<in> set xs"
    "\<And>x. x \<in> set xs \<Longrightarrow> x \<noteq> p \<Longrightarrow> f x = g x"
  shows "f p = g p"
proof (rule ccontr)
  assume "f p \<noteq> g p"
  then consider "f p < g p" | "g p < f p" by linarith
  then show False
    by cases (use sum_list_less [of p xs f g] sum_list_less [of p xs g f] assms in \<open>fastforce\<close>)+
qed

text \<open>The widths agree, so the texts of the pieces do.\<close>

lemma rendered_pieces_agree:
  assumes "render t i padding c = render t j padding d" "dated c" "dated d" "same_width t c d"
    "p \<in> set (pieces t)" "SequencePiece \<in> set (pieces t)"
  shows "piece_text (number_text padding i) (year_text (al_year c)) (month_text c) (department_text c) p =
     piece_text (number_text padding j) (year_text (al_year d)) (month_text d) (department_text d) p"
proof -
  let ?f = "piece_text (number_text padding i) (year_text (al_year c)) (month_text c) (department_text c)"
  let ?g = "piece_text (number_text padding j) (year_text (al_year d)) (month_text d) (department_text d)"
  have eq: "concat (map ?f (pieces t)) = concat (map ?g (pieces t))"
    using assms(1) by (simp add: render_pieces)
  have others: "length (?f x) = length (?g x)" if "x \<in> set (pieces t)" "x \<noteq> SequencePiece" for x
    using that dated_lengths assms(2-4) by (auto simp: piece_text_def same_width_def split: piece.split)
  have "sum_list (map (\<lambda>x. length (?f x)) (pieces t)) = sum_list (map (\<lambda>x. length (?g x)) (pieces t))"
    using arg_cong [where f = length, OF eq] by (simp add: length_concat o_def)
  then have "length (?f SequencePiece) = length (?g SequencePiece)"
    using others assms(6) by (intro lengths_of_equal_sum [where xs = "pieces t" and p = SequencePiece
      and f = "\<lambda>x. length (?f x)" and g = "\<lambda>x. length (?g x)"])
  with others have "length (?f x) = length (?g x)" if "x \<in> set (pieces t)" for x
    using that by (cases "x = SequencePiece") simp_all
  then have "map ?f (pieces t) = map ?g (pieces t)"
    using eq by (intro concat_injective) (auto simp: zip_map1 zip_map2 set_zip)
  with assms(5) show ?thesis by (simp add: map_eq_conv)
qed

theorem number_determines:
  assumes "render t i padding c = render t j padding d" "dated c" "dated d" "same_width t c d"
    "SequencePiece \<in> set (pieces t)" "0 \<le> i" "0 \<le> j"
  shows "i = j"
    and "YearPiece \<in> set (pieces t) \<Longrightarrow> al_year c = al_year d"
    and "MonthPiece \<in> set (pieces t) \<Longrightarrow> al_month c = al_month d"
    and "DepartmentPiece \<in> set (pieces t) \<Longrightarrow> department_text c = department_text d"
proof -
  note agree = rendered_pieces_agree [OF assms(1-4) _ assms(5)]
  show "i = j"
    using agree [OF assms(5)] zero_padded_inject [OF assms(6,7)]
    by (simp add: piece_text_def number_text_def)
  show "al_year c = al_year d" if "YearPiece \<in> set (pieces t)"
    using agree [OF that] zero_padded_inject [of "al_year c" "al_year d"] assms(2,3)
    by (simp add: piece_text_def year_text_def dated_def)
  show "al_month c = al_month d" if "MonthPiece \<in> set (pieces t)"
    using agree [OF that] zero_padded_inject [of "int (al_month c)" "int (al_month d)"]
    by (simp add: piece_text_def month_text_def)
  show "department_text c = department_text d" if "DepartmentPiece \<in> set (pieces t)"
    using agree [OF that] by (simp add: piece_text_def)
qed

end
