(* ===== verification/Numbering.thy ===== *)
theory Numbering
  imports TemplateFacts TaskService
begin

text \<open>
  A type's numbering rule and its counters (\<open>document_type/numbering_repository.rs\<close>,
  \<open>numbering_service.rs\<close>).  A rule row says how a number is written; a bucket row counts the numbers
  issued for one value of its scope.  The database orders the keys of the buckets by their bytes.
  The audit entries the services leave are not modelled.
\<close>

section \<open>Statements\<close>

definition TYPE_READ :: string where
  "TYPE_READ = ''document-type:read''"

definition TYPE_UPDATE :: string where
  "TYPE_UPDATE = ''document-type:update''"

definition the_type :: "uuid \<Rightarrow> uuid \<Rightarrow> type_row \<Rightarrow> bool" where
  "the_type tenant ident r \<longleftrightarrow> ty_tenant r = tenant \<and> ty_id r = ident \<and> \<not> ty_deleted r"

definition find_type :: "Env \<Rightarrow> uuid \<Rightarrow> uuid \<Rightarrow> type_row option tx" where
  "find_type env tenant ident = fetch env (\<lambda>st. find (the_type tenant ident) (db_types st))"

record ActiveRule =
  ar_id :: uuid
  ar_template :: string
  ar_scope :: SequenceScope
  ar_padding :: int
  ar_policy :: GapPolicy

definition active_rule :: "uuid \<Rightarrow> uuid \<Rightarrow> rule_row \<Rightarrow> bool" where
  "active_rule tenant type0 r \<longleftrightarrow>
     ru_tenant r = tenant \<and> ru_type r = type0 \<and> ru_active r \<and> \<not> ru_deleted r"

definition active_rule_of :: "rule_row \<Rightarrow> ActiveRule" where
  "active_rule_of r =
     \<lparr>ar_id = ru_id r, ar_template = ru_template r, ar_scope = scope_from_db (ru_scope r),
      ar_padding = ru_padding r, ar_policy = policy_from_db (ru_allow_gaps r)\<rparr>"

definition find_active_rule :: "Env \<Rightarrow> uuid \<Rightarrow> uuid \<Rightarrow> ActiveRule option tx" where
  "find_active_rule env tenant type0 =
     fetch env (\<lambda>st. map_option active_rule_of (find (active_rule tenant type0) (db_rules st)))"

text \<open>The row an upsert of a bucket meets: the unique index is on the type and the key.\<close>

definition the_bucket :: "uuid \<Rightarrow> string \<Rightarrow> bucket_row \<Rightarrow> bool" where
  "the_bucket type0 key b \<longleftrightarrow> bu_type b = type0 \<and> bu_key b = key"

definition BIGINT_MAX :: int where
  "BIGINT_MAX = 2 ^ 63 - 1"

definition allocate_bucket :: "Env \<Rightarrow> uuid \<Rightarrow> uuid \<Rightarrow> string \<Rightarrow> int tx" where
  "allocate_bucket env tenant type0 key =
     sql env from_sqlx (\<lambda>st.
       case find (the_bucket type0 key) (db_buckets st) of
         None \<Rightarrow>
           if list_ex (\<lambda>t. ty_id t = type0 \<and> ty_tenant t = tenant) (db_types st) then
             Inr (db_buckets_update (\<lambda>bs. bs @
                    [\<lparr>bu_tenant = tenant, bu_type = type0, bu_key = key, bu_next = 2\<rparr>]) st, 2 - 1)
           else Inl (ForeignKeyViolation ''fk_document_type_sequence_buckets_type'')
       | Some b \<Rightarrow>
           if bu_next b + 1 > BIGINT_MAX then Inl (OtherSqlx ''bigint out of range'')
           else
             Inr (db_buckets_update
                    (update_where (the_bucket type0 key) (\<lambda>r. r\<lparr>bu_next := bu_next r + 1\<rparr>)) st,
                  bu_next b + 1 - 1))"

definition seed_bucket :: "Env \<Rightarrow> uuid \<Rightarrow> uuid \<Rightarrow> string \<Rightarrow> int \<Rightarrow> unit tx" where
  "seed_bucket env tenant type0 key start0 =
     execute env (\<lambda>st.
       case find (the_bucket type0 key) (db_buckets st) of
         None \<Rightarrow>
           db_buckets_update (\<lambda>bs. bs @
             [\<lparr>bu_tenant = tenant, bu_type = type0, bu_key = key, bu_next = start0\<rparr>]) st
       | Some b \<Rightarrow>
           db_buckets_update (update_where (the_bucket type0 key) (\<lambda>r. r\<lparr>bu_next := start0\<rparr>)) st)"

fun greatest :: "string list \<Rightarrow> string option" where
  "greatest [] = None"
| "greatest (key # keys) = Some (fold max keys key)"

definition buckets_of :: "uuid \<Rightarrow> uuid \<Rightarrow> Store \<Rightarrow> bucket_row list" where
  "buckets_of tenant type0 st =
     filter (\<lambda>b. bu_tenant b = tenant \<and> bu_type b = type0) (db_buckets st)"

definition furthest_key :: "Env \<Rightarrow> uuid \<Rightarrow> uuid \<Rightarrow> string \<Rightarrow> string option tx" where
  "furthest_key env tenant type0 prefix =
     fetch env (\<lambda>st. greatest (filter (\<lambda>key. strip_prefix prefix key \<noteq> None)
       (map bu_key (buckets_of tenant type0 st))))"

definition gap_policy :: "Env \<Rightarrow> uuid \<Rightarrow> uuid \<Rightarrow> GapPolicy option tx" where
  "gap_policy env tenant type0 =
     fetch env (\<lambda>st. map_option (\<lambda>r. policy_from_db (ru_allow_gaps r))
       (find (active_rule tenant type0) (db_rules st)))"

record NumberingRule =
  nr_id :: uuid
  nr_type :: uuid
  nr_template :: string
  nr_scope :: SequenceScope
  nr_padding :: int
  nr_policy :: GapPolicy
  nr_key :: string
  nr_next :: int
  nr_active :: bool

definition furthest_bucket :: "uuid \<Rightarrow> uuid \<Rightarrow> Store \<Rightarrow> bucket_row option" where
  "furthest_bucket tenant type0 st =
     Option.bind (greatest (map bu_key (buckets_of tenant type0 st)))
       (\<lambda>key. find (\<lambda>b. bu_key b = key) (buckets_of tenant type0 st))"

definition find_rule :: "Env \<Rightarrow> uuid \<Rightarrow> uuid \<Rightarrow> NumberingRule option tx" where
  "find_rule env tenant type0 =
     fetch env (\<lambda>st. map_option
       (\<lambda>r. \<lparr>nr_id = ru_id r, nr_type = ru_type r, nr_template = ru_template r,
             nr_scope = scope_from_db (ru_scope r), nr_padding = ru_padding r,
             nr_policy = policy_from_db (ru_allow_gaps r),
             nr_key = (case furthest_bucket tenant type0 st of None \<Rightarrow> [] | Some b \<Rightarrow> bu_key b),
             nr_next = (case furthest_bucket tenant type0 st of None \<Rightarrow> 1 | Some b \<Rightarrow> bu_next b),
             nr_active = ru_active r\<rparr>)
       (find (active_rule tenant type0) (db_rules st)))"

definition highest_issued :: "Env \<Rightarrow> uuid \<Rightarrow> uuid \<Rightarrow> string \<Rightarrow> int option tx" where
  "highest_issued env tenant type0 key =
     fetch env (\<lambda>st. case map bu_next (filter (\<lambda>b. bu_key b = key) (buckets_of tenant type0 st)) of
       [] \<Rightarrow> None | n # ns \<Rightarrow> Some (fold max ns n))"

definition retire_rule :: "rule_row \<Rightarrow> rule_row" where
  "retire_rule r = r\<lparr>ru_active := False\<rparr>"

definition deactivate :: "Env \<Rightarrow> uuid \<Rightarrow> uuid \<Rightarrow> nat tx" where
  "deactivate env tenant type0 =
     update_rows env db_rules db_rules_update (active_rule tenant type0) retire_rule"

definition rule_clash :: "rule_row \<Rightarrow> rule_row \<Rightarrow> bool" where
  "rule_clash new old \<longleftrightarrow>
     ru_type old = ru_type new \<and> ru_active old \<and> \<not> ru_deleted old \<and> ru_active new \<and> \<not> ru_deleted new"

definition replace_rule ::
  "Env \<Rightarrow> uuid \<Rightarrow> uuid \<Rightarrow> string \<Rightarrow> string \<Rightarrow> int \<Rightarrow> bool \<Rightarrow> uuid tx" where
  "replace_rule env tenant type0 template scope padding gaps =
     seq (update_rows env db_rules db_rules_update (active_rule tenant type0) retire_rule) (\<lambda>_.
     seq (fresh_id env) (\<lambda>ident.
     seq (insert_unique env from_sqlx db_rules db_rules_update rule_clash
            ''document_type_numbering_rules''
            \<lparr>ru_tenant = tenant, ru_id = ident, ru_type = type0, ru_template = template,
             ru_scope = scope, ru_padding = padding, ru_allow_gaps = gaps, ru_active = True,
             ru_deleted = False\<rparr>) (\<lambda>_.
     ret ident)))"

section \<open>Configuring a rule\<close>

definition DEFAULT_PADDING :: int where
  "DEFAULT_PADDING = 6"

definition get_rule :: "Env \<Rightarrow> Caller \<Rightarrow> uuid \<Rightarrow> NumberingRule tx" where
  "get_rule env caller type0 =
     seq (require caller TYPE_READ) (\<lambda>_.
     seq (find_type env (ca_tenant caller) type0) (\<lambda>known.
     seq (need (NotFound ''Document type'') known) (\<lambda>_.
     seq (find_rule env (ca_tenant caller) type0) (\<lambda>rule.
     need (NotFound ''Numbering rule'') rule))))"

text \<open>The bucket the clock is in when a rule is set; a department arrives with the first document.\<close>

definition clock_context :: "Env \<Rightarrow> uuid option \<Rightarrow> AllocationContext" where
  "clock_context env department =
     \<lparr>al_year = year env, al_month = month env, al_department = department\<rparr>"

definition rule_key :: "Env \<Rightarrow> SetNumberingRuleRequest \<Rightarrow> string" where
  "rule_key env request =
     (if needs_department (sn_scope request) then []
      else scope_key (sn_scope request) (clock_context env None))"

definition write_rule :: "Env \<Rightarrow> uuid \<Rightarrow> uuid \<Rightarrow> SetNumberingRuleRequest \<Rightarrow> unit tx" where
  "write_rule env tenant type0 request =
     seq (replace_rule env tenant type0 (trim (sn_template request)) (scope_as_db (sn_scope request))
            (coalesce (sn_padding request) DEFAULT_PADDING)
            (allows_gaps (coalesce (sn_policy request) Gapless))) (\<lambda>_.
     case sn_next request of
       None \<Rightarrow> ret ()
     | Some start0 \<Rightarrow> seed_bucket env tenant type0 (rule_key env request) start0)"

text \<open>
  Setting a rule reads on the pool first: the type, the rule there is, and how far the bucket of the
  request has counted.  The transaction that writes begins after the check, and takes no lock the
  reads held: another transaction may commit between the two.
\<close>

definition check_rule :: "Env \<Rightarrow> Caller \<Rightarrow> uuid \<Rightarrow> SetNumberingRuleRequest \<Rightarrow> unit tx" where
  "check_rule env caller type0 request =
     seq (require caller TYPE_UPDATE) (\<lambda>_.
     seq (find_type env (ca_tenant caller) type0) (\<lambda>known.
     seq (need (NotFound ''Document type'') known) (\<lambda>_.
     seq (find_rule env (ca_tenant caller) type0) (\<lambda>before.
     seq (highest_issued env (ca_tenant caller) type0 (rule_key env request)) (\<lambda>reached.
     lift_result (validate_set request reached))))))"

definition save_rule :: "Env \<Rightarrow> uuid \<Rightarrow> uuid \<Rightarrow> SetNumberingRuleRequest \<Rightarrow> unit tx" where
  "save_rule env tenant type0 request = transaction (write_rule env tenant type0 request)"

text \<open>The request alone: its two halves with nothing in between.\<close>

definition set_rule :: "Env \<Rightarrow> Caller \<Rightarrow> uuid \<Rightarrow> SetNumberingRuleRequest \<Rightarrow> NumberingRule tx" where
  "set_rule env caller type0 request =
     seq (check_rule env caller type0 request) (\<lambda>_.
     seq (save_rule env (ca_tenant caller) type0 request) (\<lambda>_.
     seq (find_rule env (ca_tenant caller) type0) (\<lambda>after.
     need (Internal ''numbering rule vanished after it was written'') after)))"

definition clear_rule :: "Env \<Rightarrow> Caller \<Rightarrow> uuid \<Rightarrow> unit tx" where
  "clear_rule env caller type0 =
     seq (require caller TYPE_UPDATE) (\<lambda>_.
     seq (find_type env (ca_tenant caller) type0) (\<lambda>known.
     seq (need (NotFound ''Document type'') known) (\<lambda>_.
     seq (deactivate env (ca_tenant caller) type0) (\<lambda>cleared.
     refuse_if (cleared = 0) (NotFound ''Numbering rule'')))))"

section \<open>Taking a number\<close>

definition no_rule :: AppError where
  "no_rule = Validation [detail ''documentTypeId'' ''required'' ''NO_NUMBERING_RULE'' []]"

definition department_required :: AppError where
  "department_required = Validation [detail ''requestedForDepartmentId'' ''required'' ''REQUIRED'' []]"

definition closed_bucket :: "string \<Rightarrow> string \<Rightarrow> AppError" where
  "closed_bucket furthest key =
     Validation [detail ''requestedAt'' ''range'' ''CLOSED_SEQUENCE_BUCKET'' [furthest, key]]"

definition allocate_in :: "Env \<Rightarrow> uuid \<Rightarrow> uuid \<Rightarrow> AllocationContext \<Rightarrow> string tx" where
  "allocate_in env tenant type0 context0 =
     seq (find_active_rule env tenant type0) (\<lambda>found.
     seq (need no_rule found) (\<lambda>rule.
     seq (refuse_if (needs_department (ar_scope rule) \<and> al_department context0 = None)
            department_required) (\<lambda>_.
     let key = scope_key (ar_scope rule) context0 in
     seq (furthest_key env tenant type0 (comparison_prefix (ar_scope rule) context0)) (\<lambda>reached.
     seq (case reached of
            None \<Rightarrow> ret ()
          | Some furthest \<Rightarrow> refuse_if (key < furthest) (closed_bucket furthest key)) (\<lambda>_.
     seq (allocate_bucket env tenant type0 key) (\<lambda>sequence.
     ret (render (ar_template rule) sequence (ar_padding rule) context0)))))))"

definition allocate_committed :: "Env \<Rightarrow> uuid \<Rightarrow> uuid \<Rightarrow> AllocationContext \<Rightarrow> string tx" where
  "allocate_committed env tenant type0 context0 = transaction (allocate_in env tenant type0 context0)"

end
