(* ===== verification/Submission.thy ===== *)
theory Submission
  imports DocumentService Numbering Payload
begin

text \<open>
  Submitting a document (\<open>document/service/submit.rs\<close>, \<open>service/form.rs\<close> and the statements of
  \<open>document/repository/document.rs\<close>): the number, the re-evaluated payload, the governed change and
  the process, in one transaction.  A panic of the evaluation unwinds the request and its transaction;
  it is the \<open>Internal\<close> answer \<open>panicked\<close>.
\<close>

section \<open>The form a document is held to\<close>

record LockedDocument =
  ld_status :: DocumentStatus
  ld_type :: uuid
  ld_form :: "uuid option"
  ld_form_data :: json
  ld_requested :: "uuid option"
  ld_entity_type :: "string option"
  ld_entity :: "uuid option"
  ld_instance :: "uuid option"

definition lock_document :: "Env \<Rightarrow> uuid \<Rightarrow> uuid \<Rightarrow> LockedDocument option tx" where
  "lock_document env tenant ident = fetch env (\<lambda>st.
     map_option
       (\<lambda>d. \<lparr>ld_status = status_from_db (do_status d), ld_type = do_type d, ld_form = do_form d,
             ld_form_data = do_form_data d, ld_requested = do_requested_department d,
             ld_entity_type = do_entity_type d, ld_entity = do_entity d, ld_instance = do_instance d\<rparr>)
       (find (the_document tenant ident) (db_documents st)))"

record PinnedForm =
  pf_form :: "uuid option"
  pf_definition :: "json option"

definition definition_of :: "Env \<Rightarrow> uuid \<Rightarrow> uuid option \<Rightarrow> json option tx" where
  "definition_of env tenant form =
     (case form of
        None \<Rightarrow> ret None
      | Some ident \<Rightarrow> fetch env (\<lambda>st. map_option fm_definition
          (find (\<lambda>f. fm_tenant f = tenant \<and> fm_id f = ident) (db_forms st))))"

definition lock_pinned_form :: "Env \<Rightarrow> uuid \<Rightarrow> uuid \<Rightarrow> PinnedForm option tx" where
  "lock_pinned_form env tenant type0 =
     seq (fetch env (\<lambda>st. map_option ty_form (find (the_type tenant type0) (db_types st)))) (\<lambda>found.
     case found of
       None \<Rightarrow> ret None
     | Some form \<Rightarrow>
         seq (definition_of env tenant form) (\<lambda>d. ret (Some \<lparr>pf_form = form, pf_definition = d\<rparr>)))"

definition pinned_form_of :: "Env \<Rightarrow> uuid \<Rightarrow> LockedDocument \<Rightarrow> PinnedForm tx" where
  "pinned_form_of env tenant held =
     (if ld_form held \<noteq> None then
        seq (definition_of env tenant (ld_form held)) (\<lambda>d. ret \<lparr>pf_form = ld_form held, pf_definition = d\<rparr>)
      else
        seq (lock_pinned_form env tenant (ld_type held)) (\<lambda>found.
        ret (coalesce found \<lparr>pf_form = None, pf_definition = None\<rparr>)))"

definition no_form_bound :: AppError where
  "no_form_bound = Validation [detail ''formData'' ''reference'' ''NO_FORM_BOUND'' []]"

definition panicked :: AppError where
  "panicked = Internal ''the request panicked''"

definition secured :: "Libraries \<Rightarrow> PinnedForm \<Rightarrow> json \<Rightarrow> Strictness \<Rightarrow> AppError + json" where
  "secured lb pinned submitted strictness =
     (case pf_definition pinned of
        None \<Rightarrow>
          if (case as_object submitted of None \<Rightarrow> True | Some given \<Rightarrow> given = [])
          then Inr (Object []) else Inl no_form_bound
      | Some definition0 \<Rightarrow>
          (case secure lb definition0 submitted strictness of
             None \<Rightarrow> Inl panicked
           | Some (Inl details) \<Rightarrow> Inl (Validation details)
           | Some (Inr stored) \<Rightarrow> Inr stored))"

section \<open>Statements\<close>

definition bound_now :: "Env \<Rightarrow> binding_row \<Rightarrow> bool" where
  "bound_now env b \<longleftrightarrow>
     \<not> bi_deleted b \<and> bi_status b = ''ACTIVE'' \<and>
     (case bi_valid_from b of None \<Rightarrow> True | Some d \<Rightarrow> d \<le> today env) \<and>
     (case bi_valid_to b of None \<Rightarrow> True | Some d \<Rightarrow> today env \<le> d)"

definition workflow_binding :: "Env \<Rightarrow> uuid \<Rightarrow> uuid \<Rightarrow> (uuid \<times> bool) option tx" where
  "workflow_binding env tenant type0 = fetch env (\<lambda>st.
     case sort_key (\<lambda>b. (bi_priority b, bi_created b))
            (filter (\<lambda>b. bi_tenant b = tenant \<and> bi_type b = type0 \<and> bound_now env b) (db_bindings st)) of
       [] \<Rightarrow> None
     | b # _ \<Rightarrow> Some (bi_definition b, bi_condition b \<noteq> None))"

definition target_entity_type :: "Env \<Rightarrow> uuid \<Rightarrow> uuid \<Rightarrow> string option tx" where
  "target_entity_type env tenant type0 =
     fetch env (\<lambda>st. Option.bind (find (the_type tenant type0) (db_types st)) ty_target)"

fun colliding_number :: "SqlxError \<Rightarrow> AppError" where
  "colliding_number (UniqueViolation _) =
     Validation [detail ''documentNumber'' ''unique'' ''DUPLICATE_DOCUMENT_NUMBER'' []]"
| "colliding_number e = from_sqlx e"

definition submittable_row :: "uuid \<Rightarrow> uuid \<Rightarrow> document_row \<Rightarrow> bool" where
  "submittable_row tenant ident d \<longleftrightarrow>
     the_document tenant ident d \<and> do_status d \<in> {''DRAFT'', ''RETURNED''}"

definition submitted_row ::
  "string option \<Rightarrow> json \<Rightarrow> int \<Rightarrow> uuid option \<Rightarrow> document_row \<Rightarrow> document_row" where
  "submitted_row number form at0 actor d =
     d\<lparr>do_number := (if number = None then do_number d else number), do_form_data := form,
       do_status := ''SUBMITTED'', do_submitted := Some at0,
       do_requested_by := (if do_requested_by d = None then actor else do_requested_by d)\<rparr>"

definition number_taken :: "uuid \<Rightarrow> uuid \<Rightarrow> string option \<Rightarrow> document_row list \<Rightarrow> bool" where
  "number_taken tenant ident number ds \<longleftrightarrow>
     number \<noteq> None \<and>
     list_ex (\<lambda>d. do_tenant d = tenant \<and> do_id d \<noteq> ident \<and> do_number d = number \<and> \<not> do_deleted d) ds"

definition mark_submitted ::
  "Env \<Rightarrow> uuid \<Rightarrow> uuid \<Rightarrow> string option \<Rightarrow> json \<Rightarrow> uuid option \<Rightarrow> nat tx" where
  "mark_submitted env tenant ident number form actor =
     sql env colliding_number (\<lambda>st.
       if list_ex (submittable_row tenant ident) (db_documents st) \<and>
          number_taken tenant ident number (db_documents st)
       then Inl (UniqueViolation ''uq_documents_tenant_id_document_number'')
       else
         Inr (db_documents_update
                (update_where (submittable_row tenant ident) (submitted_row number form (now env) actor)) st,
              count_where (submittable_row tenant ident) (db_documents st)))"

section \<open>A governed change\<close>

definition names_no_record :: AppError where
  "names_no_record = Conflict (''this document type routes master-data changes through approval, so a '' @
     ''document of it has to name the record it changes'')"

definition names_other_kind :: AppError where
  "names_other_kind =
     Conflict ''this document names a different kind of record from the one its type governs''"

definition raise_governed_change :: "Env \<Rightarrow> uuid \<Rightarrow> uuid \<Rightarrow> LockedDocument \<Rightarrow> json \<Rightarrow> unit tx" where
  "raise_governed_change env tenant document held form =
     seq (target_entity_type env tenant (ld_type held)) (\<lambda>configured.
     case governed_entity configured of
       None \<Rightarrow> ret ()
     | Some entity \<Rightarrow>
         (case (ld_entity_type held, ld_entity held) of
            (Some linked, Some ident) \<Rightarrow>
              if governed_entity (Some linked) \<noteq> Some entity then fail names_other_kind
              else raise_change env tenant entity ident document form
          | _ \<Rightarrow> fail names_no_record))"

section \<open>The submission\<close>

definition DOCUMENT_SUBMIT :: string where
  "DOCUMENT_SUBMIT = ''document:submit''"

text \<open>What is resolved on the pool, before the transaction opens.\<close>

record Resolved =
  rs_subject :: SubmissionSubject
  rs_type_key :: string
  rs_actor :: json
  rs_context :: AllocationContext
  rs_binding :: "(uuid \<times> bool) option"
  rs_committed :: "string option"

definition is_resubmission :: "SubmissionSubject \<Rightarrow> bool" where
  "is_resubmission subject \<longleftrightarrow> sb_status subject = DocReturned"

definition resolve_submission :: "Env \<Rightarrow> Caller \<Rightarrow> uuid \<Rightarrow> Resolved tx" where
  "resolve_submission env caller ident =
     seq (find_submission_subject env (ca_tenant caller) ident) (\<lambda>found.
     seq (need (NotFound ''Document'') found) (\<lambda>subject.
     seq (lift_result (refuse_unless_submittable (sb_status subject))) (\<lambda>_.
     seq (read_document_type_key env (ca_tenant caller) (sb_type subject)) (\<lambda>type_key.
     seq (read_actor_facts env (ca_tenant caller) (Some (ca_user caller))) (\<lambda>facts.
     let context0 = clock_context env (sb_requested subject) in
     seq (workflow_binding env (ca_tenant caller) (sb_type subject)) (\<lambda>binding.
     seq (gap_policy env (ca_tenant caller) (sb_type subject)) (\<lambda>policy.
     seq (if allows_gaps (coalesce policy Gapless) \<and> \<not> is_resubmission subject
          then seq (allocate_committed env (ca_tenant caller) (sb_type subject) context0)
                 (\<lambda>number. ret (Some number))
          else ret None) (\<lambda>committed.
     ret \<lparr>rs_subject = subject, rs_type_key = type_key, rs_actor = facts, rs_context = context0,
          rs_binding = binding, rs_committed = committed\<rparr>))))))))"

definition changed_while_submitting :: AppError where
  "changed_while_submitting = Conflict (''this document's workflow changed while it was being '' @
     ''submitted; reload it and submit again'')"

definition submitted_meanwhile :: AppError where
  "submitted_meanwhile =
     Conflict ''this document was submitted while this submission was being applied''"

definition number_missing :: "uuid \<Rightarrow> AppError" where
  "number_missing ident = Internal (''document '' @ ident @ '' is being resubmitted and holds no number, '' @
     ''which `mark_submitted` has assigned on every path that reaches RETURNED'')"

definition lock_for_submission ::
  "Env \<Rightarrow> uuid \<Rightarrow> uuid \<Rightarrow> SubmissionSubject \<Rightarrow> (LockedInstance option \<times> LockedDocument) tx" where
  "lock_for_submission env tenant ident subject =
     seq (case sb_instance subject of None \<Rightarrow> ret None | Some inst \<Rightarrow> lock_instance env tenant inst) (\<lambda>inst.
     seq (lock_document env tenant ident) (\<lambda>found.
     seq (need (NotFound ''Document'') found) (\<lambda>held.
     seq (lift_result (refuse_unless_submittable (ld_status held))) (\<lambda>_.
     seq (refuse_if (ld_instance held \<noteq> sb_instance subject) changed_while_submitting) (\<lambda>_.
     ret (inst, held))))))"

definition assign_number :: "Env \<Rightarrow> uuid \<Rightarrow> Resolved \<Rightarrow> LockedDocument \<Rightarrow> string option tx" where
  "assign_number env tenant resolved held =
     (if is_resubmission (rs_subject resolved) then ret None
      else
        (case rs_committed resolved of
           Some number \<Rightarrow> ret (Some number)
         | None \<Rightarrow>
             seq (allocate_in env tenant (ld_type held) (rs_context resolved)) (\<lambda>number. ret (Some number))))"

definition document_number :: "uuid \<Rightarrow> string option \<Rightarrow> string option \<Rightarrow> AppError + string" where
  "document_number ident assigned existing =
     (case assigned of
        Some number \<Rightarrow> Inr number
      | None \<Rightarrow> (case existing of Some number \<Rightarrow> Inr number | None \<Rightarrow> Inl (number_missing ident)))"

definition move_process ::
  "Env \<Rightarrow> uuid \<Rightarrow> uuid \<Rightarrow> Resolved \<Rightarrow> LockedInstance option \<Rightarrow> string \<Rightarrow> json \<Rightarrow> uuid option \<Rightarrow> unit tx" where
  "move_process env tenant ident resolved inst number form actor =
     (let ev = submission_evaluation (rs_subject resolved) (rs_type_key resolved) number form
            (rs_actor resolved)
      in if is_resubmission (rs_subject resolved)
         then resubmit_workflow env tenant ident (rs_subject resolved) inst ev actor
         else seq (start_workflow env tenant ident (rs_subject resolved) (rs_binding resolved) number ev actor)
                (\<lambda>_. ret ()))"

definition submit_held ::
  "Libraries \<Rightarrow> Env \<Rightarrow> Caller \<Rightarrow> uuid \<Rightarrow> Resolved \<Rightarrow> LockedInstance option \<Rightarrow> LockedDocument \<Rightarrow> unit tx" where
  "submit_held lb env caller ident resolved inst held =
     (let tenant = ca_tenant caller; actor = Some (ca_user caller); subject = rs_subject resolved in
     seq (pinned_form_of env tenant held) (\<lambda>pinned.
     seq (lift_result (secured lb pinned (ld_form_data held) Submit)) (\<lambda>form.
     seq (assign_number env tenant resolved held) (\<lambda>assigned.
     seq (lift_result (document_number ident assigned (sb_number subject))) (\<lambda>number.
     seq (mark_submitted env tenant ident assigned form actor) (\<lambda>affected.
     seq (refuse_if (affected = 0) submitted_meanwhile) (\<lambda>_.
     seq (raise_governed_change env tenant ident held form) (\<lambda>_.
     seq (record_transition env tenant ident (Some (ld_status held)) DocSubmitted actor None) (\<lambda>_.
     seq (move_process env tenant ident resolved inst number form actor) (\<lambda>_.
     record_activity env
       \<lparr>ac_tenant = tenant, ac_document = Some ident, ac_instance = None, ac_task = None,
        ac_type = ''Document.Submitted'', ac_actor = actor,
        ac_details = json_object [(''documentNumber'', String number)]\<rparr>))))))))))"

definition submit_locked :: "Libraries \<Rightarrow> Env \<Rightarrow> Caller \<Rightarrow> uuid \<Rightarrow> Resolved \<Rightarrow> unit tx" where
  "submit_locked lb env caller ident resolved =
     seq (lock_for_submission env (ca_tenant caller) ident (rs_subject resolved)) (\<lambda>(inst, held).
     submit_held lb env caller ident resolved inst held)"

definition submit_document :: "Libraries \<Rightarrow> Env \<Rightarrow> Caller \<Rightarrow> uuid \<Rightarrow> document_row tx" where
  "submit_document lb env caller ident =
     seq (require caller DOCUMENT_SUBMIT) (\<lambda>_.
     seq (resolve_submission env caller ident) (\<lambda>resolved.
     seq (transaction (submit_locked lb env caller ident resolved)) (\<lambda>_.
     seq (find_document env (ca_tenant caller) ident) (\<lambda>found.
     need (Internal (''document '' @ ident @ '' vanished after it was submitted'')) found))))"

end
