(* ===== verification/NumberingFacts.thy ===== *)
theory NumberingFacts
  imports Numbering
begin

text \<open>
  What the numbering of a type keeps: a counter moves only forward, and as long as the template names
  every part of the scope the numbers of a type are all different.
\<close>

section \<open>A template names its scope\<close>

lemma contains_skip: "p \<noteq> [] \<Longrightarrow> hd p \<notin> set r \<Longrightarrow> contains_text p (r @ s) = contains_text p s"
proof (induction r)
  case (Cons c r)
  then have "strip_prefix p (c # r @ s) = None" by (cases p) auto
  with Cons show ?case by simp
qed simp

lemma contains_here: "contains_text p (p @ s)"
proof (cases "p @ s")
  case (Cons c t)
  moreover have "strip_prefix p (p @ s) = Some s" by (simp add: strip_prefix_Some_iff)
  ultimately show ?thesis by simp
qed simp

fun placeholder :: "piece \<Rightarrow> string option" where
  "placeholder (Letter c) = None"
| "placeholder SequencePiece = Some ''{sequence}''"
| "placeholder YearPiece = Some ''{year}''"
| "placeholder MonthPiece = Some ''{month}''"
| "placeholder DepartmentPiece = Some ''{department}''"

lemma contains_other:
  assumes "placeholder p = Some q" "placeholder p' = Some q'" "p \<noteq> p'"
  shows "contains_text q (q' @ s) = contains_text q s"
  using assms by (cases p; cases p') auto

lemma names_piece:
  assumes "placeholder p = Some q"
  shows "contains_text q t \<longleftrightarrow> p \<in> set (pieces t)"
proof (induction t rule: pieces.induct)
  case (1 t)
  have found: ?case
    if "t = q' @ r" "placeholder p' = Some q'" "pieces t = p' # pieces r"
      "contains_text q r = (p \<in> set (pieces r))" for q' r p'
    using that contains_here contains_other [OF assms that(2)] assms by (cases "p = p'") auto
  show ?case
  proof (cases "strip_prefix ''{sequence}'' t")
    case (Some r)
    have "pieces t = SequencePiece # pieces r" using Some by (subst pieces.simps) simp
    then show ?thesis
      using "1.IH"(5) [OF Some] Some by (intro found) (simp_all add: strip_prefix_Some_iff)
  next
    case notS: None
    show ?thesis
    proof (cases "strip_prefix ''{year}'' t")
      case (Some r)
      have "pieces t = YearPiece # pieces r" using notS Some by (subst pieces.simps) simp
      then show ?thesis
        using "1.IH"(4) [OF notS Some] Some by (intro found) (simp_all add: strip_prefix_Some_iff)
    next
      case notY: None
      show ?thesis
      proof (cases "strip_prefix ''{month}'' t")
        case (Some r)
        have "pieces t = MonthPiece # pieces r" using notS notY Some by (subst pieces.simps) simp
        then show ?thesis
          using "1.IH"(3) [OF notS notY Some] Some by (intro found) (simp_all add: strip_prefix_Some_iff)
      next
        case notM: None
        show ?thesis
        proof (cases "strip_prefix ''{department}'' t")
          case (Some r)
          have "pieces t = DepartmentPiece # pieces r" using notS notY notM Some by (subst pieces.simps) simp
          then show ?thesis
            using "1.IH"(2) [OF notS notY notM Some] Some by (intro found) (simp_all add: strip_prefix_Some_iff)
        next
          case notD: None
          show ?thesis
          proof (cases t)
            case (Cons c s)
            have "pieces t = Letter c # pieces s"
              using notS notY notM notD Cons by (subst pieces.simps) simp
            moreover have "strip_prefix q t = None"
              using assms notS notY notM notD by (cases p) auto
            ultimately show ?thesis
              using "1.IH"(1) [OF notS notY notM notD Cons] Cons assms by auto
          next
            case Nil
            moreover have "pieces [] = []" by (simp add: pieces.simps)
            ultimately show ?thesis using assms by (cases p) auto
          qed
        qed
      qed
    qed
  qed
qed

text \<open>The template writes every part of the bucket's key.\<close>

definition names_scope :: "SequenceScope \<Rightarrow> string \<Rightarrow> bool" where
  "names_scope scope template =
     (case scope of
        GlobalScope \<Rightarrow> True
      | YearScope \<Rightarrow> contains_text ''{year}'' template
      | MonthScope \<Rightarrow> contains_text ''{year}'' template \<and> contains_text ''{month}'' template
      | DepartmentYearScope \<Rightarrow>
          contains_text ''{year}'' template \<and> contains_text ''{department}'' template)"

text \<open>A date with a year of four digits, and a department written as a UUID where one is written.\<close>

definition numberable :: "string \<Rightarrow> AllocationContext \<Rightarrow> bool" where
  "numberable template c \<longleftrightarrow>
     dated c \<and>
     (contains_text ''{department}'' template \<longrightarrow> length (department_text c) = 36)"

lemma numberable_same_width: "numberable t c \<Longrightarrow> numberable t d \<Longrightarrow> same_width t c d"
  by (simp add: numberable_def same_width_def names_piece [of DepartmentPiece])

lemma number_determines_bucket:
  assumes "render t i padding c = render t j padding d" "numberable t c" "numberable t d"
    "contains_text SEQUENCE_PLACEHOLDER t" "names_scope scope t" "0 \<le> i" "0 \<le> j"
  shows "i = j \<and> scope_key scope c = scope_key scope d"
proof -
  have pieces: "SequencePiece \<in> set (pieces t)"
    using assms(4) by (simp add: SEQUENCE_PLACEHOLDER_def names_piece [of SequencePiece])
  have dated: "dated c" "dated d" using assms(2,3) by (simp_all add: numberable_def)
  note agree = number_determines [OF assms(1) dated numberable_same_width [OF assms(2,3)] pieces assms(6,7)]
  have departments: "al_department c = al_department d"
    if "department_text c = department_text d" "contains_text ''{department}'' t"
    using that assms(2,3)
    by (auto simp: numberable_def department_text_def split: option.splits)
  have "scope_key scope c = scope_key scope d"
    using assms(5) agree(2-4) departments
    by (cases scope) (auto simp: names_scope_def scope_key_def names_piece [of YearPiece]
      names_piece [of MonthPiece] names_piece [of DepartmentPiece])
  with agree(1) show ?thesis by simp
qed

section \<open>Counters\<close>

definition counter :: "uuid \<Rightarrow> string \<Rightarrow> bucket_row list \<Rightarrow> int" where
  "counter type0 key bs = (case find (the_bucket type0 key) bs of None \<Rightarrow> 1 | Some b \<Rightarrow> bu_next b)"

lemma find_append: "find p (xs @ ys) = (case find p xs of None \<Rightarrow> find p ys | Some x \<Rightarrow> Some x)"
  by (induction xs) auto

lemma the_bucket_kept: "bu_type (f r) = bu_type r \<Longrightarrow> bu_key (f r) = bu_key r \<Longrightarrow>
    the_bucket type0 key (f r) = the_bucket type0 key r"
  by (simp add: the_bucket_def)

lemma counter_update:
  "counter type0 key (update_where (the_bucket type1 key1) (\<lambda>r. r\<lparr>bu_next := h r\<rparr>) bs) =
     (case find (the_bucket type0 key) bs of
        None \<Rightarrow> 1
      | Some b \<Rightarrow> if type0 = type1 \<and> key = key1 then h b else bu_next b)"
proof -
  have "find (the_bucket type0 key) (update_where (the_bucket type1 key1) (\<lambda>r. r\<lparr>bu_next := h r\<rparr>) bs) =
      map_option (\<lambda>r. if the_bucket type1 key1 r then r\<lparr>bu_next := h r\<rparr> else r)
        (find (the_bucket type0 key) bs)"
    by (rule find_cong_map) (simp add: the_bucket_def)
  moreover have "the_bucket type1 key1 b \<longleftrightarrow> type0 = type1 \<and> key = key1"
    if "find (the_bucket type0 key) bs = Some b" for b
    using that by (auto simp: find_Some_iff the_bucket_def)
  ultimately show ?thesis by (auto simp: counter_def split: option.split)
qed

lemma counter_append:
  "counter type0 key (bs @ [b]) =
     (if find (the_bucket type0 key) bs = None \<and> the_bucket type0 key b then bu_next b
      else counter type0 key bs)"
  by (auto simp: counter_def find_append split: option.split)

text \<open>Taking a number gives the counter's value, moves that counter by one and no other.\<close>

lemma allocate_bucket_gives:
  assumes "allocate_bucket env tenant type0 key st = (st', Inr n)"
  shows "n = counter type0 key (db_buckets st)"
    "counter type1 key1 (db_buckets st') =
       counter type1 key1 (db_buckets st) + (if type1 = type0 \<and> key1 = key then 1 else 0)"
    "db_rules st' = db_rules st" "db_types st' = db_types st"
proof -
  obtain bs where st': "db_buckets st' = bs" "db_rules st' = db_rules st" "db_types st' = db_types st"
    and cases: "(find (the_bucket type0 key) (db_buckets st) = None \<and> n = 1 \<and>
        bs = db_buckets st @ [\<lparr>bu_tenant = tenant, bu_type = type0, bu_key = key, bu_next = 2\<rparr>]) \<or>
      (\<exists>b. find (the_bucket type0 key) (db_buckets st) = Some b \<and> n = bu_next b \<and>
        bs = update_where (the_bucket type0 key) (\<lambda>r. r\<lparr>bu_next := bu_next r + 1\<rparr>) (db_buckets st))"
    using assms by (auto simp: allocate_bucket_def sql_Inr split: option.splits if_splits)
  show "n = counter type0 key (db_buckets st)" using cases by (auto simp: counter_def)
  show "counter type1 key1 (db_buckets st') =
      counter type1 key1 (db_buckets st) + (if type1 = type0 \<and> key1 = key then 1 else 0)"
    unfolding st' using cases
    by (auto simp: counter_append counter_update) (auto simp: counter_def the_bucket_def split: option.split)
qed (use assms in \<open>auto simp: allocate_bucket_def sql_Inr split: option.splits if_splits\<close>)

lemma reads_numbering [leaving]:
  "leaves tables (find_active_rule env tenant type0)" "leaves tables (furthest_key env tenant type0 p)"
  "leaves tables (find_type env tenant type0)" "leaves tables (find_rule env tenant type0)"
  "leaves tables (highest_issued env tenant type0 key)" "leaves tables (gap_policy env tenant type0)"
  by (simp_all add: find_active_rule_def furthest_key_def find_type_def find_rule_def
      highest_issued_def gap_policy_def reads_fetch)

text \<open>A number that was given: the rule that wrote it and the counter it took.\<close>

lemma allocate_in_gives:
  assumes "allocate_in env tenant type0 c st = (st', Inr number)"
  obtains r where "find (active_rule tenant type0) (db_rules st) = Some r"
    "number = render (ru_template r)
       (counter type0 (scope_key (scope_from_db (ru_scope r)) c) (db_buckets st)) (ru_padding r) c"
    "\<And>type1 key1. counter type1 key1 (db_buckets st') = counter type1 key1 (db_buckets st) +
       (if type1 = type0 \<and> key1 = scope_key (scope_from_db (ru_scope r)) c then 1 else 0)"
    "db_rules st' = db_rules st"
proof -
  let ?st = "counted (counted st st) (counted st st)"
  from assms obtain r n where r: "find (active_rule tenant type0) (db_rules st) = Some r"
    and taken: "allocate_bucket env tenant type0 (scope_key (scope_from_db (ru_scope r)) c) ?st = (st', Inr n)"
    and number: "number = render (ru_template r) n (ru_padding r) c"
    by (auto simp: allocate_in_def find_active_rule_def furthest_key_def steps Let_def active_rule_of_def
      split: option.splits)
  from allocate_bucket_gives [OF taken] number show thesis
    by (intro that [OF r]) simp_all
qed

section \<open>A run of numbers\<close>

text \<open>
  Numbers a type gives, each at its date and department, between steps of the rest of the product
  that leave the type's rule and counters as they are.
\<close>

definition same_numbering :: "uuid \<Rightarrow> uuid \<Rightarrow> Store \<Rightarrow> Store \<Rightarrow> bool" where
  "same_numbering tenant type0 st st' \<longleftrightarrow>
     find (active_rule tenant type0) (db_rules st') = find (active_rule tenant type0) (db_rules st) \<and>
     filter (\<lambda>b. bu_type b = type0) (db_buckets st') = filter (\<lambda>b. bu_type b = type0) (db_buckets st)"

inductive numbering_run ::
  "uuid \<Rightarrow> uuid \<Rightarrow> Store \<Rightarrow> (string \<times> AllocationContext) list \<Rightarrow> Store \<Rightarrow> bool"
  for tenant type0 st where
  run_begins: "numbering_run tenant type0 st [] st"
| run_meanwhile:
    "numbering_run tenant type0 st given st1 \<Longrightarrow> same_numbering tenant type0 st1 st2 \<Longrightarrow>
     numbering_run tenant type0 st given st2"
| run_issues:
    "numbering_run tenant type0 st given st1 \<Longrightarrow>
     allocate_in env tenant type0 c st1 = (st2, Inr number) \<Longrightarrow>
     numbering_run tenant type0 st (given @ [(number, c)]) st2"

lemma counter_filter: "counter type0 key (filter (\<lambda>b. bu_type b = type0) bs) = counter type0 key bs"
proof -
  have "find (the_bucket type0 key) (filter (\<lambda>b. bu_type b = type0) bs) = find (the_bucket type0 key) bs"
    by (induction bs) (auto simp: the_bucket_def)
  then show ?thesis by (simp add: counter_def)
qed

lemma same_numbering_counter:
  "same_numbering tenant type0 st st' \<Longrightarrow>
   counter type0 key (db_buckets st') = counter type0 key (db_buckets st)"
  by (metis same_numbering_def counter_filter)

definition run_invariant :: "uuid \<Rightarrow> uuid \<Rightarrow> rule_row \<Rightarrow> (string \<times> AllocationContext) list \<Rightarrow> Store \<Rightarrow> bool"
where
  "run_invariant tenant type0 r given st \<longleftrightarrow>
     find (active_rule tenant type0) (db_rules st) = Some r \<and>
     (\<forall>key. 1 \<le> counter type0 key (db_buckets st)) \<and>
     (\<forall>(number, c) \<in> set given. \<exists>n. number = render (ru_template r) n (ru_padding r) c \<and> 1 \<le> n \<and>
        n < counter type0 (scope_key (scope_from_db (ru_scope r)) c) (db_buckets st))"

lemma run_keeps_invariant:
  assumes "numbering_run tenant type0 st given st'" "run_invariant tenant type0 r [] st"
  shows "run_invariant tenant type0 r given st'"
  using assms
proof (induction rule: numbering_run.induct)
  case (run_meanwhile given st1 st2)
  then show ?case
    using same_numbering_counter [OF run_meanwhile.hyps(2)]
    by (simp add: run_invariant_def same_numbering_def)
next
  case (run_issues given st1 env c st2 number)
  have inv: "run_invariant tenant type0 r given st1" by (rule run_issues.IH [OF run_issues.prems])
  let ?key = "scope_key (scope_from_db (ru_scope r))"
  obtain q where q: "find (active_rule tenant type0) (db_rules st1) = Some q"
    "number = render (ru_template q) (counter type0 (scope_key (scope_from_db (ru_scope q)) c)
       (db_buckets st1)) (ru_padding q) c"
    "\<And>type1 key1. counter type1 key1 (db_buckets st2) = counter type1 key1 (db_buckets st1) +
       (if type1 = type0 \<and> key1 = scope_key (scope_from_db (ru_scope q)) c then 1 else 0)"
    "db_rules st2 = db_rules st1"
    using allocate_in_gives [OF run_issues.hyps(2)] by metis
  with inv have [simp]: "q = r" by (simp add: run_invariant_def)
  show ?case
    unfolding run_invariant_def
  proof (intro conjI ballI allI)
    show "find (active_rule tenant type0) (db_rules st2) = Some r" using q by simp
    show "1 \<le> counter type0 key (db_buckets st2)" for key
    proof -
      have "1 \<le> counter type0 key (db_buckets st1)" using inv by (simp add: run_invariant_def)
      with q(3) [of type0 key] show ?thesis by (auto split: if_splits)
    qed
    fix entry assume "entry \<in> set (given @ [(number, c)])"
    then show "case entry of (number, c) \<Rightarrow> \<exists>n. number = render (ru_template r) n (ru_padding r) c \<and>
        1 \<le> n \<and> n < counter type0 (?key c) (db_buckets st2)"
    proof (cases "entry = (number, c)")
      case True
      with inv q show ?thesis by (auto simp: run_invariant_def)
    next
      case False
      then obtain number' d where entry: "entry = (number', d)" "(number', d) \<in> set given"
        using \<open>entry \<in> _\<close> by (cases entry) auto
      with inv obtain n where "number' = render (ru_template r) n (ru_padding r) d" "1 \<le> n"
        "n < counter type0 (?key d) (db_buckets st1)"
        by (fastforce simp: run_invariant_def)
      with q(3) [of type0 "?key d"] entry show ?thesis by (auto intro!: exI [of _ n])
    qed
  qed
qed simp

lemma run_is_distinct:
  assumes "numbering_run tenant type0 st given st'" "run_invariant tenant type0 r [] st"
    "contains_text SEQUENCE_PLACEHOLDER (ru_template r)"
    "names_scope (scope_from_db (ru_scope r)) (ru_template r)"
    "\<forall>(number, c) \<in> set given. numberable (ru_template r) c"
  shows "distinct (map fst given)"
  using assms
proof (induction rule: numbering_run.induct)
  case (run_issues given st1 env c st2 number)
  have inv: "run_invariant tenant type0 r given st1"
    using run_keeps_invariant [OF run_issues.hyps(1) run_issues.prems(1)] .
  from run_issues.hyps(2) inv have number: "number = render (ru_template r)
      (counter type0 (scope_key (scope_from_db (ru_scope r)) c) (db_buckets st1)) (ru_padding r) c"
    by (elim allocate_in_gives) (simp add: run_invariant_def)
  have "number \<noteq> number'" if "(number', d) \<in> set given" for number' d
  proof
    assume "number = number'"
    with that inv obtain n where n: "number = render (ru_template r) n (ru_padding r) d" "1 \<le> n"
      "n < counter type0 (scope_key (scope_from_db (ru_scope r)) d) (db_buckets st1)"
      by (fastforce simp: run_invariant_def)
    have ok: "numberable (ru_template r) c" "numberable (ru_template r) d"
      using run_issues.prems(4) that by auto
    have "0 \<le> counter type0 (scope_key (scope_from_db (ru_scope r)) c) (db_buckets st1)"
      using inv by (simp add: run_invariant_def) (metis dual_order.trans zero_le_one)
    from number_determines_bucket [OF _ ok run_issues.prems(2,3) this] number n
    show False by fastforce
  qed
  then have "number \<notin> set (map fst given)" by force
  with run_issues show ?case by simp
qed simp_all

lemma counters_positive: "\<forall>b \<in> set bs. 1 \<le> bu_next b \<Longrightarrow> 1 \<le> counter type0 key bs"
  by (auto simp: counter_def find_Some_iff split: option.split)

section \<open>Counters move only forward\<close>

text \<open>The foreign key of the counters: a bucket is of the tenant of its type.\<close>

definition bucket_tenants :: "Store \<Rightarrow> bool" where
  "bucket_tenants st \<longleftrightarrow>
     (\<forall>b \<in> set (db_buckets st). \<forall>t \<in> set (db_types st). bu_type b = ty_id t \<longrightarrow> bu_tenant b = ty_tenant t)"

lemma fold_max_le:
  fixes n :: "'a :: linorder"
  shows "n \<le> fold max ns n \<and> (\<forall>m \<in> set ns. m \<le> fold max ns n)"
proof (induction ns arbitrary: n)
  case (Cons m ns)
  from Cons.IH [of "max m n"] show ?case by auto
qed simp

lemma greatest_is_last: "greatest keys = Some k \<Longrightarrow> key \<in> set keys \<Longrightarrow> key \<le> k"
  using fold_max_le by (cases keys) auto

lemma validated_start:
  "validate_set request reached = Inr () \<Longrightarrow> sn_next request = Some start0 \<Longrightarrow>
   1 \<le> start0 \<and> sn_scope request \<noteq> DepartmentYearScope \<and> (\<forall>n. reached = Some n \<longrightarrow> n \<le> start0)"
  by (auto simp: validate_set_def next_errors_def Let_def split: if_splits option.splits)

lemma counter_below_highest:
  assumes "highest_issued env tenant type0 key st = (st', Inr reached)"
    "\<forall>b \<in> set (db_buckets st). bu_type b = type0 \<longrightarrow> bu_tenant b = tenant"
  shows "(reached = None \<and> counter type0 key (db_buckets st) = 1) \<or>
     (\<exists>n. reached = Some n \<and> counter type0 key (db_buckets st) \<le> n)"
proof (cases "find (the_bucket type0 key) (db_buckets st)")
  case None
  then have "filter (\<lambda>b. bu_key b = key) (buckets_of tenant type0 st) = []"
    by (auto simp: find_None_iff the_bucket_def buckets_of_def filter_empty_conv)
  with assms(1) None show ?thesis by (simp add: highest_issued_def steps counter_def)
next
  case (Some b)
  then have "b \<in> set (filter (\<lambda>b. bu_key b = key) (buckets_of tenant type0 st))"
    using assms(2) by (auto simp: find_Some_iff the_bucket_def buckets_of_def)
  then obtain n ns where ns: "map bu_next (filter (\<lambda>b. bu_key b = key) (buckets_of tenant type0 st)) = n # ns"
    "bu_next b \<in> set (n # ns)"
    by (cases "filter (\<lambda>b. bu_key b = key) (buckets_of tenant type0 st)") auto
  have "bu_next b \<le> fold max ns n" using ns(2) fold_max_le [of n ns] by auto
  with assms(1) ns(1) Some show ?thesis by (simp add: highest_issued_def steps counter_def)
qed

definition counters_forward :: "Store \<Rightarrow> Store \<Rightarrow> bool" where
  "counters_forward st st' \<longleftrightarrow>
     (\<forall>type0 key. counter type0 key (db_buckets st) \<le> counter type0 key (db_buckets st'))"

lemma counters_forward_same: "db_buckets st' = db_buckets st \<Longrightarrow> counters_forward st st'"
  by (simp add: counters_forward_def)

lemma seeded_counter:
  assumes "seed_bucket env tenant type0 key start0 st = (st', Inr u)"
  shows "counter type1 key1 (db_buckets st') =
     (if type1 = type0 \<and> key1 = key then start0 else counter type1 key1 (db_buckets st))"
  using assms
  by (auto simp: seed_bucket_def steps counter_append counter_update the_bucket_def split: option.splits)
    (auto simp: counter_def the_bucket_def split: option.splits)

lemma replace_rule_buckets: "leaves db_buckets (replace_rule env tenant type0 template scope padding gaps)"
  unfolding replace_rule_def by (auto intro!: leaving leaves_statement)

lemma write_rule_counters:
  assumes "write_rule env tenant type0 request st = (st', Inr u)"
  shows "counter type1 key (db_buckets st') =
    (case sn_next request of
       Some start0 \<Rightarrow> if type1 = type0 \<and> key = rule_key env request then start0 else counter type1 key (db_buckets st)
     | None \<Rightarrow> counter type1 key (db_buckets st))"
proof -
  from assms obtain st1 ident where
    replaced: "replace_rule env tenant type0 (trim (sn_template request)) (scope_as_db (sn_scope request))
       (coalesce (sn_padding request) DEFAULT_PADDING)
       (allows_gaps (coalesce (sn_policy request) Gapless)) st = (st1, Inr ident)"
    and rest: "(case sn_next request of None \<Rightarrow> ret ()
       | Some start0 \<Rightarrow> seed_bucket env tenant type0 (rule_key env request) start0) st1 = (st', Inr u)"
    by (auto simp: write_rule_def steps)
  have same: "db_buckets st1 = db_buckets st" by (rule leavesD [OF replace_rule_buckets replaced])
  show ?thesis
  proof (cases "sn_next request")
    case None
    with rest same show ?thesis by (simp add: ret_def)
  next
    case (Some start0)
    with rest have "seed_bucket env tenant type0 (rule_key env request) start0 st1 = (st', Inr u)" by simp
    from seeded_counter [OF this] Some same show ?thesis by simp
  qed
qed

lemma save_rule_counters:
  assumes "save_rule env tenant type0 request st = (st', Inr u)"
  shows "counter type1 key (db_buckets st') =
    (case sn_next request of
       Some start0 \<Rightarrow> if type1 = type0 \<and> key = rule_key env request then start0 else counter type1 key (db_buckets st)
     | None \<Rightarrow> counter type1 key (db_buckets st))"
  using assms unfolding save_rule_def transaction_def
  by (auto split: prod.splits sum.splits dest!: write_rule_counters)

lemma forward_seq:
  assumes "counters_forward st (fst (m st))"
    "\<And>st' x. m st = (st', Inr x) \<Longrightarrow> counters_forward st' (fst (f x st'))"
  shows "counters_forward st (fst (seq m f st))"
  using assms unfolding seq_def counters_forward_def
  by (auto split: prod.splits sum.splits) (metis fst_conv order_trans)

lemma forward_read_seq:
  assumes "leaves tables m" "\<And>st' x. m st = (st', Inr x) \<Longrightarrow> counters_forward st' (fst (f x st'))"
  shows "counters_forward st (fst (seq m f st))"
proof (rule forward_seq [OF _ assms(2)])
  have "leaves db_buckets m" by (rule leaves_reads [OF assms(1)]) (simp add: tables_sel)
  then show "counters_forward st (fst (m st))" by (simp add: leaves_def counters_forward_same)
qed

lemma forward_read: "leaves tables m \<Longrightarrow> counters_forward st (fst (m st))"
  by (drule leaves_reads [where f = db_buckets]) (simp_all add: tables_sel leaves_def counters_forward_same)

lemma read_same:
  assumes "leaves tables m" "m st = (st', r)"
  shows "db_buckets st' = db_buckets st \<and> db_types st' = db_types st"
proof -
  have "tables st' = tables st" by (rule leavesD [OF assms])
  from arg_cong [where f = db_buckets, OF this] arg_cong [where f = db_types, OF this]
  show ?thesis by (simp add: tables_sel)
qed

lemma require_leaves [leaving]: "leaves tables (require caller permission)"
  by (simp add: require_def leaving)

lemma forward_transaction:
  "(\<And>st' x. m st = (st', Inr x) \<Longrightarrow> counters_forward st st') \<Longrightarrow> counters_forward st (fst (transaction m st))"
  by (auto simp: transaction_def counters_forward_same split: prod.splits sum.splits)

lemma reads_check_rule [leaving]: "leaves tables (check_rule env caller type0 request)"
  unfolding check_rule_def by (intro leaving)

lemma check_rule_start:
  assumes "check_rule env caller type0 request st = (st', Inr u)" "bucket_tenants st"
    and "sn_next request = Some start0"
  shows "counter type0 (rule_key env request) (db_buckets st) \<le> start0"
proof -
  obtain st1 known st2 t before st3 reached st4 where
    req: "require caller TYPE_UPDATE st = (st1, Inr ())"
    and known: "find_type env (ca_tenant caller) type0 st1 = (st2, Inr (Some t))"
    and rule: "find_rule env (ca_tenant caller) type0 st2 = (st3, Inr before)"
    and reached: "highest_issued env (ca_tenant caller) type0 (rule_key env request) st3 = (st4, Inr reached)"
    and valid: "validate_set request reached = Inr ()"
    using assms(1) unfolding check_rule_def by (auto simp: seq_Inr need_Inr lift_result_Inr)
  have "find (the_type (ca_tenant caller) type0) (db_types st1) = Some t"
    using known by (auto simp: find_type_def steps)
  then have t: "the_type (ca_tenant caller) type0 t" "t \<in> set (db_types st1)"
    by (auto simp: find_Some_iff)
  have same: "db_buckets st3 = db_buckets st" "db_types st1 = db_types st"
    using read_same [OF require_leaves req] read_same [OF reads_numbering(3) known]
      read_same [OF reads_numbering(4) rule] by simp_all
  have "\<forall>b \<in> set (db_buckets st3). bu_type b = type0 \<longrightarrow> bu_tenant b = ca_tenant caller"
    using assms(2) t same by (auto simp: bucket_tenants_def the_type_def)
  from counter_below_highest [OF reached this] validated_start [OF valid assms(3)] same(1)
  show ?thesis by auto
qed

lemma set_rule_forward:
  assumes "bucket_tenants st"
  shows "counters_forward st (fst (set_rule env caller type0 request st))"
  unfolding set_rule_def
proof (rule forward_read_seq [OF reads_check_rule], rule forward_seq)
  fix st1 u
  assume check: "check_rule env caller type0 request st = (st1, Inr u)"
  have "counters_forward st1 st2" if "write_rule env (ca_tenant caller) type0 request st1 = (st2, Inr v)" for st2 v
    using write_rule_counters [OF that] check_rule_start [OF check assms] read_same [OF reads_check_rule check]
    by (auto simp: counters_forward_def split: option.splits)
  then show "counters_forward st1 (fst (save_rule env (ca_tenant caller) type0 request st1))"
    unfolding save_rule_def by (rule forward_transaction)
next
  fix st1 u st2 v
  show "counters_forward st2 (fst (seq (find_rule env (ca_tenant caller) type0)
      (need (Internal ''numbering rule vanished after it was written'')) st2))"
    by (intro forward_read leaving)
qed

lemma clear_rule_forward: "counters_forward st (fst (clear_rule env caller type0 st))"
proof -
  have "leaves db_buckets (clear_rule env caller type0)"
    unfolding clear_rule_def require_def find_type_def deactivate_def
    by (auto intro!: leaving leaves_statement)
  then show ?thesis by (auto simp: leaves_def intro!: counters_forward_same)
qed

lemma allocate_bucket_forward: "counters_forward st (fst (allocate_bucket env tenant type0 key st))"
proof (cases "allocate_bucket env tenant type0 key st")
  case (Pair st1 r)
  show ?thesis
  proof (cases r)
    case (Inl e)
    with Pair have "st1 = st"
      by (auto simp: allocate_bucket_def sql_def split: option.splits sum.splits if_splits)
    with Pair show ?thesis by (simp add: counters_forward_def)
  next
    case (Inr n)
    with Pair have "allocate_bucket env tenant type0 key st = (st1, Inr n)" by simp
    from allocate_bucket_gives(2) [OF this] Pair show ?thesis by (simp add: counters_forward_def)
  qed
qed

lemma allocate_in_forward: "counters_forward st (fst (allocate_in env tenant type0 c st))"
  unfolding allocate_in_def Let_def
  by ((rule forward_read_seq, (intro leaving; fail)[1])+, rule forward_seq,
      rule allocate_bucket_forward, intro forward_read leaving)

section \<open>A scope made wider\<close>

lemma greatest_some: "k \<in> set keys \<Longrightarrow> \<exists>g. greatest keys = Some g \<and> g \<in> set keys \<and> k \<le> g"
proof -
  assume k: "k \<in> set keys"
  then obtain x xs where keys: "keys = x # xs" by (cases keys) auto
  have "fold max ys y \<in> set (y # ys)" for y :: string and ys
    by (induction ys arbitrary: y) (auto simp: max_def split: if_splits)
  with k keys greatest_is_last [of keys] show ?thesis by auto
qed

lemma greatest_member: "greatest keys = Some g \<Longrightarrow> g \<in> set keys"
proof (cases keys)
  case (Cons k ks)
  moreover have "fold max ks k \<in> insert k (set ks)"
    by (induction ks arbitrary: k) (auto simp: max_def)
  ultimately show "greatest keys = Some g \<Longrightarrow> ?thesis" by auto
qed simp

lemma global_closed:
  assumes "faultless env" "find (active_rule tenant type0) (db_rules st) = Some r"
    "scope_from_db (ru_scope r) = GlobalScope" "b \<in> set (buckets_of tenant type0 st)" "bu_key b \<noteq> []"
  shows "\<exists>furthest. snd (allocate_in env tenant type0 c st) = Inl (closed_bucket furthest [])"
proof -
  let ?keys = "map bu_key (buckets_of tenant type0 st)"
  obtain g where g: "greatest ?keys = Some g" "bu_key b \<le> g"
    using greatest_some [of "bu_key b" ?keys] assms(4) by auto
  have "[] < g" using g(2) assms(5) by (cases g) auto
  moreover have "filter (\<lambda>key. strip_prefix [] key \<noteq> None) ?keys = ?keys" by (simp add: filter_id_conv)
  ultimately have "snd (allocate_in env tenant type0 c st) = Inl (closed_bucket g [])"
    using assms(1-3) g(1)
    by (simp add: allocate_in_def find_active_rule_def furthest_key_def fetch_faultless seq_def need_def
      ret_def refuse_if_def fail_def active_rule_of_def needs_department_def comparison_prefix_def
      scope_key_def Let_def buckets_of_def)
  then show ?thesis by blast
qed

section \<open>A rule that does not write its year\<close>

lemma render_without_year:
  assumes "\<not> contains_text ''{year}'' t" "al_month d = al_month c" "al_department d = al_department c"
  shows "render t i padding d = render t i padding c"
proof -
  have "YearPiece \<notin> set (pieces t)" using assms(1) by (simp add: names_piece [of YearPiece])
  moreover have "month_text d = month_text c" "department_text d = department_text c"
    using assms(2,3) by (simp_all add: month_text_def department_text_def)
  ultimately show ?thesis
    unfolding render_pieces
    by (auto simp: piece_text_def split: piece.split intro!: arg_cong [where f = concat] map_cong)
qed

text \<open>The first number of a year that comes after every year counted.\<close>

lemma first_of_year:
  assumes "faultless env" "find (active_rule tenant type0) (db_rules st) = Some r"
    "scope_from_db (ru_scope r) = YearScope" "\<exists>t \<in> set (db_types st). ty_id t = type0 \<and> ty_tenant t = tenant"
    "\<forall>b \<in> set (db_buckets st). bu_type b = type0 \<longrightarrow> bu_key b < scope_key YearScope c"
  obtains st' where "allocate_in env tenant type0 c st = (st', Inr (render (ru_template r) 1 (ru_padding r) c))"
    "db_rules st' = db_rules st" "db_types st' = db_types st"
    "set (db_buckets st') = insert \<lparr>bu_tenant = tenant, bu_type = type0, bu_key = scope_key YearScope c, bu_next = 2\<rparr>
       (set (db_buckets st))"
proof -
  let ?key = "scope_key YearScope c"
  have keys: "filter (\<lambda>key. strip_prefix [] key \<noteq> None) ks = ks" for ks :: "string list"
    by (simp add: filter_id_conv)
  have "\<forall>key \<in> set (map bu_key (buckets_of tenant type0 st)). key < ?key"
    using assms(5) by (auto simp: buckets_of_def)
  then have ahead: "\<not> ?key < g" if "greatest (map bu_key (buckets_of tenant type0 st)) = Some g" for g
    using that greatest_member [OF that] by (metis less_asym)
  have none: "find (the_bucket type0 ?key) (db_buckets st) = None"
    using assms(5) by (auto simp: find_None_iff the_bucket_def)
  have rule0: "find_active_rule env tenant type0 st = (counted st st, Inr (Some (active_rule_of r)))"
    by (simp add: find_active_rule_def fetch_faultless [OF assms(1)] assms(2))
  let ?st = "counted (counted st st) (counted st st)"
  have reached: "furthest_key env tenant type0 [] (counted st st) =
      (?st, Inr (greatest (map bu_key (buckets_of tenant type0 st))))"
    by (simp add: furthest_key_def fetch_faultless [OF assms(1)] keys buckets_of_def)
  let ?st' = "counted ?st (db_buckets_update (\<lambda>bs. bs @
      [\<lparr>bu_tenant = tenant, bu_type = type0, bu_key = ?key, bu_next = 2\<rparr>]) ?st)"
  have taken: "allocate_bucket env tenant type0 ?key ?st = (?st', Inr 1)"
    using assms(1,4) none by (simp add: allocate_bucket_def sql_def faultless_def list_ex_iff counted_def)
  have "allocate_in env tenant type0 c st = (?st', Inr (render (ru_template r) 1 (ru_padding r) c))"
    using ahead
    by (cases "greatest (map bu_key (buckets_of tenant type0 st))")
      (simp_all add: allocate_in_def seq_def rule0 need_def ret_def refuse_if_def needs_department_def
        comparison_prefix_def active_rule_of_def assms(3) Let_def reached taken)
  then show thesis by (rule that) simp_all
qed

lemma two_years_alike:
  assumes "faultless env" "find (active_rule tenant type0) (db_rules st) = Some r"
    "scope_from_db (ru_scope r) = YearScope" "\<not> contains_text ''{year}'' (ru_template r)"
    "\<exists>t \<in> set (db_types st). ty_id t = type0 \<and> ty_tenant t = tenant"
    "\<forall>b \<in> set (db_buckets st). bu_type b = type0 \<longrightarrow> bu_key b < scope_key YearScope c"
    "scope_key YearScope c < scope_key YearScope d" "al_month d = al_month c" "al_department d = al_department c"
  shows "\<exists>st1 st2 number. allocate_in env tenant type0 c st = (st1, Inr number) \<and>
    allocate_in env tenant type0 d st1 = (st2, Inr number)"
proof -
  obtain st1 where first: "allocate_in env tenant type0 c st = (st1, Inr (render (ru_template r) 1 (ru_padding r) c))"
    and kept: "db_rules st1 = db_rules st" "db_types st1 = db_types st"
      "set (db_buckets st1) = insert \<lparr>bu_tenant = tenant, bu_type = type0, bu_key = scope_key YearScope c, bu_next = 2\<rparr>
         (set (db_buckets st))"
    by (rule first_of_year [OF assms(1-3,5,6)])
  have "\<forall>b \<in> set (db_buckets st1). bu_type b = type0 \<longrightarrow> bu_key b < scope_key YearScope d"
    using assms(6,7) kept(3) by (auto intro: less_trans)
  from first_of_year [OF assms(1) assms(2) [folded kept(1)] assms(3) assms(5) [folded kept(2)] this] obtain st2 where
    "allocate_in env tenant type0 d st1 = (st2, Inr (render (ru_template r) 1 (ru_padding r) d))"
    by blast
  with first render_without_year [OF assms(4,8,9)] show ?thesis by metis
qed

lemma year_not_asked:
  "sn_scope request = YearScope \<Longrightarrow>
     validate_set request reached = validate_set (request\<lparr>sn_scope := GlobalScope\<rparr>) reached"
  by (simp add: validate_set_def template_errors_def padding_errors_def next_errors_def Let_def
      split: option.split)

end
