(* ===== verification/SubmissionFacts.thy ===== *)
theory SubmissionFacts
  imports Submission Reached ServiceFacts NumberingFacts
begin

text \<open>
  What a submission does to the documents and counters: the engine that runs inside it writes no
  number, no form data and no counter, so the submission's own statements decide them.
\<close>

section \<open>What the engine does not read or write\<close>

text \<open>What of a document a process never writes.\<close>

definition fixed :: "document_row \<Rightarrow> document_row" where
  "fixed d = d\<lparr>do_status := [], do_completed := None, do_instance := None\<rparr>"

locale out_of_process =
  fixes part :: "Store \<Rightarrow> 'p"
  assumes governed [simp]: "part (ungoverned st) = part st"
    and updates [simp]:
      "part (db_tasks_update f st) = part st"
      "part (db_task_history_update g st) = part st"
      "part (db_notifications_update h st) = part st"
      "part (db_instances_update i st) = part st"
      "part (db_history_update j st) = part st"
      "part (db_events_update k st) = part st"
      "part (db_variables_update l st) = part st"
      "part (db_sequences_update m st) = part st"
      "part (db_hook_log_update n st) = part st"
      "part (db_status_history_update q st) = part st"
      "part (db_activity_update r st) = part st"
    and documents: "(\<And>d. fixed (u d) = fixed d) \<Longrightarrow> part (db_documents_update (update_where p u) st) = part st"
begin

lemma counted [simp]: "part (counted st0 st) = part st"
  by (metis governed ungoverned_counted)

lemma statements [simp]: "part (st\<lparr>db_hook_log := log, db_statements := n\<rparr>) = part st"
proof -
  have "part (st\<lparr>db_hook_log := log, db_statements := n\<rparr>) = part (ungoverned (st\<lparr>db_hook_log := log, db_statements := n\<rparr>))"
    by simp
  also have "ungoverned (st\<lparr>db_hook_log := log, db_statements := n\<rparr>) = ungoverned (st\<lparr>db_hook_log := log\<rparr>)"
    by (simp add: ungoverned_def)
  also have "part (ungoverned (st\<lparr>db_hook_log := log\<rparr>)) = part (db_hook_log_update (\<lambda>_. log) st)" by simp
  finally show ?thesis by (simp only: updates)
qed

lemma fresh [simp]: "part (st\<lparr>db_fresh := n\<rparr>) = part st"
  by (metis governed ungoverned_update(4))

lemma reads: "leaves tables m \<Longrightarrow> leaves part m"
proof (erule leaves_reads)
  fix st
  have "ungoverned (tables st) = ungoverned st" by (simp add: tables_def ungoverned_def)
  then show "part st = part (tables st)" by (metis governed)
qed

lemmas engine_reads [leaving] = reads_engine [THEN reads] reads_context_of_document [THEN reads]

lemma chain [leaving]: "leaves part (before_chain env chain ref inv0)"
  by (rule leaves_before_chain) simp

lemma run_guards [leaving]:
  "leaves part (run_transition_guards env tenant document g inst from chosen target actor ev)"
  unfolding run_transition_guards_def Let_def registry_chain_def metadata_of_def by (intro leaving)

lemma move [leaving]:
  "leaves part (make_move env tenant inst document g from to0 target act actor decision routing by lost)"
  unfolding make_move_def move_state_def record_history_def publish_transition_def write_event_def
    position_of_latest_def
  by (intro leaving leaves_update_rows leaves_append_row leaves_insert_unique leaves_fresh_id) simp_all

lemma project [leaving]: "leaves part (project_document_status env tenant document mt g)"
  unfolding project_document_status_def project_from_workflow_def
    set_status_from_workflow_def document_form_data_def
  by (intro leaving leaves_settle leaves_update_rows) (simp_all add: documents fixed_def)

lemma raise_it [leaving]: "leaves part (raise_task env tenant inst document g s spec actor c)"
  unfolding raise_task_def allocate_def Let_def insert_task_def record_task_history_def
    notify_the_task_reached_def notify_def holders_of_role_def
  by (intro leaving leaves_insert_unique leaves_append_row leaves_fresh_id leaves_sql) auto

lemma once [leaving]: "leaves part (enter_once env tenant inst document g s actor c)"
  unfolding enter_once_def by (intro leaving)

lemma advance_once [leaving]:
  "leaves part (advance_automatically env tenant inst document g s actor ev)"
  unfolding advance_automatically_def by (intro leaving)

lemma loop [leaving]: "leaves part (enter_loop env tenant inst document g actor c ev n s status)"
proof (induction n arbitrary: s status)
  case (Suc n)
  then show ?case unfolding enter_loop.simps by (intro leaving)
qed (simp add: leaving)

lemma enter [leaving]: "leaves part (enter_state env tenant inst document g s actor c ev)"
  unfolding enter_state_def by (intro leaving)

lemma fire_leaves [leaving]:
  "leaves part (fire env tenant inst document g from act actor c ev decision)"
  unfolding fire_def authorize_edge_def by (intro leaving)

lemma start_leaves [leaving]: "leaves part (start env tenant document d key actor c ev)"
  unfolding start_def lock_for_start_def definition_of_instance_def Let_def record_history_def
    allocate_def insert_instance_def write_variables_def insert_variables_def
  by (intro leaving leaves_fresh_id leaves_append_row leaves_insert_unique leaves_sql) auto

lemma resubmit_leaves: "leaves part (resubmit_workflow env tenant document subject held ev actor)"
  unfolding resubmit_workflow_def close_open_task_for_resubmit_def lock_open_task_of_instance_def
    close_for_resubmit_def record_task_history_def definition_of_instance_def
  by (intro leaving leaves_update_rows leaves_append_row) simp_all

lemma start_workflow_leaves: "leaves part (start_workflow env tenant document subject binding number ev actor)"
  unfolding start_workflow_def link_process_instance_def
  by (intro leaving leaves_update_rows) (simp add: documents fixed_def)

lemma process_leaves [leaving]: "leaves part (move_process env tenant ident resolved inst number form actor)"
  unfolding move_process_def Let_def by (intro leaving resubmit_leaves start_workflow_leaves)

lemma transition_row [leaving]: "leaves part (record_transition env tenant ident from to0 actor reason)"
  unfolding record_transition_def by (intro leaves_append_row) simp

lemma activity_row [leaving]: "leaves part (record_activity env row)"
  unfolding record_activity_def by (intro leaves_append_row) simp

lemma governed_leaves [leaving]: "leaves part (raise_governed_change env tenant document held form)"
  unfolding raise_governed_change_def target_entity_type_def
  by (intro leaving leaves_raise_change) (auto intro!: leaving leaves_raise_change split: option.split)

end

definition paper :: "Store \<Rightarrow> bucket_row list \<times> rule_row list \<times> document_row list" where
  "paper st = (db_buckets st, db_rules st, map fixed (db_documents st))"

interpretation papers: out_of_process paper
  by unfold_locales
    (simp_all add: paper_def ungoverned_def map_update_where)


section \<open>A submission that succeeds\<close>

lemma allocate_in_documents: "leaves db_documents (allocate_in env tenant type0 c)"
  unfolding allocate_in_def Let_def find_active_rule_def furthest_key_def allocate_bucket_def
  by (intro leaving leaves_sql) (auto split: option.splits if_splits)

lemma allocate_in_types: "leaves (\<lambda>st. (db_types st, db_forms st, db_rules st)) (allocate_in env tenant type0 c)"
  unfolding allocate_in_def Let_def find_active_rule_def furthest_key_def allocate_bucket_def
  by (intro leaving leaves_sql leaves_fetch) (auto split: option.splits if_splits)

text \<open>A number was taken: the rule wrote it from the counter of its bucket, which moved by one.\<close>

definition took_number :: "uuid \<Rightarrow> uuid \<Rightarrow> AllocationContext \<Rightarrow> Store \<Rightarrow> Store \<Rightarrow> string \<Rightarrow> bool" where
  "took_number tenant type0 c st st' number \<longleftrightarrow>
     (\<exists>r. find (active_rule tenant type0) (db_rules st) = Some r \<and>
        number = render (ru_template r)
          (counter type0 (scope_key (scope_from_db (ru_scope r)) c) (db_buckets st)) (ru_padding r) c \<and>
        (\<forall>type1 key1. counter type1 key1 (db_buckets st') = counter type1 key1 (db_buckets st) +
           (if type1 = type0 \<and> key1 = scope_key (scope_from_db (ru_scope r)) c then 1 else 0)))"

lemma allocate_in_took:
  "allocate_in env tenant type0 c st = (st', Inr number) \<Longrightarrow> took_number tenant type0 c st st' number"
  unfolding took_number_def by (elim allocate_in_gives) blast

lemma took_number_cong:
  "db_rules s = db_rules st \<Longrightarrow> db_buckets s = db_buckets st \<Longrightarrow> db_buckets s' = db_buckets st' \<Longrightarrow>
   took_number tenant type0 c s s' number = took_number tenant type0 c st st' number"
  by (simp add: took_number_def)

lemma reads_submission [leaving]:
  "leaves tables (find_submission_subject env tenant ident)" "leaves tables (workflow_binding env tenant type0)"
  "leaves tables (read_document_type_key env tenant type0)" "leaves tables (lock_document env tenant ident)"
  "leaves tables (lock_instance env tenant inst)" "leaves tables (definition_of env tenant form)"
  by (simp_all add: find_submission_subject_def workflow_binding_def read_document_type_key_def
      type_code_of_def lock_document_def lock_instance_def definition_of_def leaving
      split: option.split)

lemma reads_pinned [leaving]: "leaves tables (pinned_form_of env tenant held)"
  unfolding pinned_form_of_def lock_pinned_form_def by (intro leaving)

lemma reads_lock [leaving]: "leaves tables (lock_for_submission env tenant ident subject)"
  unfolding lock_for_submission_def by (intro leaving)

lemma tables_eqD:
  "tables st' = tables st \<Longrightarrow>
   db_documents st' = db_documents st \<and> db_buckets st' = db_buckets st \<and> db_rules st' = db_rules st \<and>
   db_types st' = db_types st \<and> db_forms st' = db_forms st"
  by (metis tables_sel)

lemma readD:
  "leaves tables m \<Longrightarrow> m st = (st', r) \<Longrightarrow>
   db_documents st' = db_documents st \<and> db_buckets st' = db_buckets st \<and> db_rules st' = db_rules st \<and>
   db_types st' = db_types st \<and> db_forms st' = db_forms st"
  by (rule tables_eqD) (rule leavesD)

text \<open>What the pool reads found, and the number a gap-tolerant rule committed.\<close>

lemma resolve_Inr:
  assumes "resolve_submission env caller ident st = (st', Inr rs)"
  obtains d where "find (the_document (ca_tenant caller) ident) (db_documents st) = Some d"
    "sb_status (rs_subject rs) = status_from_db (do_status d)" "sb_type (rs_subject rs) = do_type d"
    "sb_number (rs_subject rs) = do_number d"
    "is_editable (status_from_db (do_status d))"
    "rs_context rs = clock_context env (do_requested_department d)"
    "(case rs_committed rs of
        None \<Rightarrow> db_buckets st' = db_buckets st
      | Some number \<Rightarrow> \<not> is_resubmission (rs_subject rs) \<and>
          took_number (ca_tenant caller) (do_type d) (rs_context rs) st st' number)"
    "db_documents st' = db_documents st" "db_rules st' = db_rules st" "db_types st' = db_types st"
    "db_forms st' = db_forms st"
proof -
  let ?t = "ca_tenant caller"
  from assms obtain subject st1 st2 type_key st3 facts st4 binding st5 policy where
    subject: "find_submission_subject env ?t ident st = (st1, Inr (Some subject))"
    and editable: "refuse_unless_submittable (sb_status subject) = Inr ()"
    and type_key: "read_document_type_key env ?t (sb_type subject) st1 = (st2, Inr type_key)"
    and facts: "read_actor_facts env ?t (Some (ca_user caller)) st2 = (st3, Inr facts)"
    and binding: "workflow_binding env ?t (sb_type subject) st3 = (st4, Inr binding)"
    and policy: "gap_policy env ?t (sb_type subject) st4 = (st5, Inr policy)"
    and committed: "(if allows_gaps (coalesce policy Gapless) \<and> \<not> is_resubmission subject
          then seq (allocate_committed env ?t (sb_type subject) (clock_context env (sb_requested subject)))
                 (\<lambda>number. ret (Some number))
          else ret None) st5 = (st', Inr (rs_committed rs))"
    and rs: "rs_subject rs = subject" "rs_context rs = clock_context env (sb_requested subject)"
    by (auto simp: resolve_submission_def steps Let_def)
  from subject obtain d where d: "find (the_document ?t ident) (db_documents st) = Some d"
    "sb_status subject = status_from_db (do_status d)" "sb_type subject = do_type d"
    "sb_number subject = do_number d" "sb_requested subject = do_requested_department d"
    by (cases "find (the_document ?t ident) (db_documents st)")
      (auto simp: find_submission_subject_def steps)
  have same: "db_documents st5 = db_documents st" "db_buckets st5 = db_buckets st"
    "db_rules st5 = db_rules st" "db_types st5 = db_types st" "db_forms st5 = db_forms st"
    using readD [OF reads_submission(1) subject] readD [OF reads_submission(3) type_key]
      readD [OF reads_actor_facts facts] readD [OF reads_submission(2) binding]
      readD [OF reads_numbering(6) policy] by simp_all
  show thesis
  proof (cases "rs_committed rs")
    case None
    with committed have "st' = st5" by (auto simp: steps split: if_splits)
    with None d editable rs same show thesis
      by (intro that [of d]) (simp_all add: refuse_unless_submittable_def split: if_splits)
  next
    case (Some number)
    with committed have first: "\<not> is_resubmission subject"
      and taken: "allocate_in env ?t (sb_type subject) (clock_context env (sb_requested subject)) st5 = (st', Inr number)"
      by (auto simp: steps allocate_committed_def split: if_splits)
    have "took_number ?t (do_type d) (rs_context rs) st st' number"
      using allocate_in_took [OF taken] same d rs by (simp add: took_number_def)
    with Some first d editable rs same leavesD [OF allocate_in_documents taken]
      leavesD [OF allocate_in_types taken] show thesis
      by (intro that [of d]) (simp_all add: refuse_unless_submittable_def split: if_splits)
  qed
qed


text \<open>The form a document is held to, and what the server makes of its data.\<close>

definition definition_at :: "uuid \<Rightarrow> document_row \<Rightarrow> Store \<Rightarrow> json option" where
  "definition_at tenant d st =
     (let form = (case do_form d of
          Some form \<Rightarrow> Some form
        | None \<Rightarrow> Option.bind (find (the_type tenant (do_type d)) (db_types st)) ty_form)
      in Option.bind form (\<lambda>ident.
           map_option fm_definition (find (\<lambda>f. fm_tenant f = tenant \<and> fm_id f = ident) (db_forms st))))"

lemma pinned_form_Inr:
  assumes "pinned_form_of env tenant held st = (st', Inr pinned)"
    "ld_form held = do_form d" "ld_type held = do_type d"
  shows "pf_definition pinned = definition_at tenant d st"
  using assms
  by (auto simp: pinned_form_of_def lock_pinned_form_def definition_of_def definition_at_def steps coalesce_def
      split: option.splits if_splits)

lemma mark_submitted_Inr [steps]:
  "mark_submitted env tenant ident number form actor st = (st', Inr n) \<longleftrightarrow>
     db_fault (hooks env) (db_statements st) = None \<and>
     \<not> (list_ex (submittable_row tenant ident) (db_documents st) \<and>
        number_taken tenant ident number (db_documents st)) \<and>
     n = count_where (submittable_row tenant ident) (db_documents st) \<and>
     st' = counted st (db_documents_update
       (update_where (submittable_row tenant ident) (submitted_row number form (now env) actor)) st)"
  by (auto simp: mark_submitted_def sql_Inr counted_def split: if_splits)

lemma seq_InrE:
  assumes "seq m f st = (st', Inr y)"
  obtains st1 x where "m st = (st1, Inr x)" "f x st1 = (st', Inr y)"
  using assms by (auto simp: seq_Inr)

lemma submit_held_Inr:
  assumes "submit_held lb env caller ident rs inst held st = (st', Inr u)"
  obtains pinned s2 form assigned s4 number s6 s8 u8 where
    "pinned_form_of env (ca_tenant caller) held st = (s2, Inr pinned)"
    "secured lb pinned (ld_form_data held) Submit = Inr form"
    "assign_number env (ca_tenant caller) rs held s2 = (s4, Inr assigned)"
    "document_number ident assigned (sb_number (rs_subject rs)) = Inr number"
    "mark_submitted env (ca_tenant caller) ident assigned form (Some (ca_user caller)) s4 =
       (s6, Inr (count_where (submittable_row (ca_tenant caller) ident) (db_documents s4)))"
    "count_where (submittable_row (ca_tenant caller) ident) (db_documents s4) \<noteq> 0"
    "raise_governed_change env (ca_tenant caller) ident held form s6 = (s8, Inr u8)"
    "paper st' = paper s6"
proof -
  let ?t = "ca_tenant caller" and ?actor = "Some (ca_user caller)"
  from assms obtain pinned s2 form s3 assigned s4 number s5 affected s6 x7 s7 where
    held: "pinned_form_of env ?t held st = (s2, Inr pinned)"
      "lift_result (secured lb pinned (ld_form_data held) Submit) s2 = (s3, Inr form)"
      "assign_number env ?t rs held s3 = (s4, Inr assigned)"
      "lift_result (document_number ident assigned (sb_number (rs_subject rs))) s4 = (s5, Inr number)"
    and marked: "mark_submitted env ?t ident assigned form ?actor s5 = (s6, Inr affected)"
    and some: "refuse_if (affected = 0) submitted_meanwhile s6 = (s7, Inr x7)"
    and rest: "seq (raise_governed_change env ?t ident held form) (\<lambda>_.
       seq (record_transition env ?t ident (Some (ld_status held)) DocSubmitted ?actor None) (\<lambda>_.
       seq (move_process env ?t ident rs inst number form ?actor) (\<lambda>_.
       record_activity env
         \<lparr>ac_tenant = ?t, ac_document = Some ident, ac_instance = None, ac_task = None,
          ac_type = ''Document.Submitted'', ac_actor = ?actor,
          ac_details = json_object [(''documentNumber'', String number)]\<rparr>))) s7 = (st', Inr u)"
    unfolding submit_held_def Let_def
    by - (erule seq_InrE, erule seq_InrE, erule seq_InrE, erule seq_InrE, erule seq_InrE,
        erule seq_InrE, rule that, assumption+)
  have "leaves paper (seq (raise_governed_change env ?t ident held form) (\<lambda>_.
       seq (record_transition env ?t ident (Some (ld_status held)) DocSubmitted ?actor None) (\<lambda>_.
       seq (move_process env ?t ident rs inst number form ?actor) (\<lambda>_.
       record_activity env
         \<lparr>ac_tenant = ?t, ac_document = Some ident, ac_instance = None, ac_task = None,
          ac_type = ''Document.Submitted'', ac_actor = ?actor,
          ac_details = json_object [(''documentNumber'', String number)]\<rparr>))))"
    by (intro leaves_seq papers.governed_leaves papers.transition_row papers.process_leaves papers.activity_row)
  from leavesD [OF this rest] have "paper st' = paper s7" .
  moreover obtain s8 u8 where "raise_governed_change env ?t ident held form s7 = (s8, Inr u8)"
    using rest by (rule seq_InrE)
  moreover have "s7 = s6" "affected \<noteq> 0" using some by (simp_all add: refuse_if_Inr)
  moreover have "s3 = s2" "s5 = s4" "secured lb pinned (ld_form_data held) Submit = Inr form"
    "document_number ident assigned (sb_number (rs_subject rs)) = Inr number"
    using held by (simp_all add: lift_result_Inr)
  moreover have "affected = count_where (submittable_row ?t ident) (db_documents s4)"
    using marked \<open>s5 = s4\<close> by (simp add: mark_submitted_Inr)
  ultimately show thesis
    using held(1,3) marked by (intro that [of s2 pinned form s4 assigned number s6 s8 u8]) simp_all
qed

lemma lock_for_submission_Inr:
  assumes "lock_for_submission env tenant ident subject st = (st', Inr (inst, held))"
  obtains d where "find (the_document tenant ident) (db_documents st) = Some d"
    "ld_form held = do_form d" "ld_type held = do_type d" "ld_form_data held = do_form_data d"
    "ld_entity held = do_entity d"
    "ld_status held = status_from_db (do_status d)" "is_editable (status_from_db (do_status d))"
proof -
  from assms obtain s1 s2 where
    first: "(case sb_instance subject of None \<Rightarrow> ret None | Some inst \<Rightarrow> lock_instance env tenant inst) st
      = (s1, Inr inst)"
    and locked: "lock_document env tenant ident s1 = (s2, Inr (Some held))"
    and editable: "refuse_unless_submittable (ld_status held) = Inr ()"
    by (auto simp: lock_for_submission_def steps)
  have "leaves tables (case sb_instance subject of None \<Rightarrow> ret None | Some inst \<Rightarrow> lock_instance env tenant inst)"
    by (intro leaving)
  from readD [OF this first] have same: "db_documents s1 = db_documents st" by simp
  show thesis
  proof (cases "find (the_document tenant ident) (db_documents st)")
    case None
    with locked same show thesis by (simp add: lock_document_def steps)
  next
    case (Some d)
    with locked same editable show thesis
      by (intro that [of d]) (auto simp: lock_document_def steps refuse_unless_submittable_def split: if_splits)
  qed
qed


lemma assigned_Inr:
  assumes "assign_number env tenant rs held st = (st', Inr assigned)"
    "document_number ident assigned existing = Inr number"
  shows "db_documents st' = db_documents st \<and> db_rules st' = db_rules st \<and>
    (if is_resubmission (rs_subject rs) then assigned = None \<and> db_buckets st' = db_buckets st
     else (case rs_committed rs of
             Some given \<Rightarrow> assigned = Some number \<and> number = given \<and> db_buckets st' = db_buckets st
           | None \<Rightarrow> assigned = Some number \<and>
               took_number tenant (ld_type held) (rs_context rs) st st' number))"
proof (cases "is_resubmission (rs_subject rs) \<or> rs_committed rs \<noteq> None")
  case True
  with assms show ?thesis
    by (auto simp: assign_number_def document_number_def steps split: if_splits option.splits)
next
  case False
  with assms(1) obtain given where
    taken: "allocate_in env tenant (ld_type held) (rs_context rs) st = (st', Inr given)" "assigned = Some given"
    by (auto simp: assign_number_def steps)
  with False assms(2) allocate_in_took [OF taken(1)] leavesD [OF allocate_in_documents taken(1)]
    leavesD [OF allocate_in_types taken(1)]
  show ?thesis by (simp add: document_number_def)
qed

text \<open>The whole of it: the row the caller is given back, and the counters.\<close>

lemma find_fixed: "map_option fixed (find (the_document tenant ident) ds) =
    find (the_document tenant ident) (map fixed ds)"
  by (induction ds) (auto simp: the_document_def fixed_def)

lemma find_papers:
  assumes "map fixed ds = map fixed es" "find (the_document tenant ident) ds = Some d"
  shows "\<exists>e. find (the_document tenant ident) es = Some e \<and> fixed e = fixed d"
proof -
  have "map_option fixed (find (the_document tenant ident) es) = map_option fixed (Some d)"
    unfolding assms(2) [symmetric] by (simp add: find_fixed assms(1))
  then show ?thesis by auto
qed

lemma find_submitted:
  "find (the_document tenant ident) (update_where (submittable_row tenant ident) (submitted_row n form at0 actor) ds) =
     map_option (\<lambda>d. if submittable_row tenant ident d then submitted_row n form at0 actor d else d)
       (find (the_document tenant ident) ds)"
  by (rule find_cong_map) (simp add: the_document_def submitted_row_def)

lemma find_submittable:
  assumes "distinct (map do_id ds)" "count_where (submittable_row tenant ident) ds \<noteq> 0"
    "find (the_document tenant ident) ds = Some d"
  shows "submittable_row tenant ident d"
proof -
  from assms(2) obtain r where r: "r \<in> set ds" "submittable_row tenant ident r" by auto
  from assms(3) have d: "d \<in> set ds" "do_id d = ident" by (auto simp: find_Some_iff the_document_def)
  have "do_id r = ident" using r(2) by (simp add: submittable_row_def the_document_def)
  with r(1) d assms(1) have "r = d" by (metis distinct_map inj_onD)
  with r(2) show ?thesis by simp
qed

lemma submit_Inr:
  assumes "submit_document lb env caller ident st = (st', Inr d')"
    "distinct (map do_id (db_documents st))"
  obtains rs :: Resolved and d :: document_row and form assigned number where
    "find (the_document (ca_tenant caller) ident) (db_documents st) = Some d"
    "sb_status (rs_subject rs) = status_from_db (do_status d)" "sb_number (rs_subject rs) = do_number d"
    "rs_context rs = clock_context env (do_requested_department d)"
    "submittable_row (ca_tenant caller) ident d"
    "case definition_at (ca_tenant caller) d st of
       None \<Rightarrow> form = Object []
     | Some definition0 \<Rightarrow> secure lb definition0 (do_form_data d) Submit = Some (Inr form)"
    "document_number ident assigned (do_number d) = Inr number"
    "if is_resubmission (rs_subject rs) then assigned = None \<and> db_buckets st' = db_buckets st
     else assigned = Some number \<and>
       took_number (ca_tenant caller) (do_type d) (rs_context rs) st st' number"
    "\<not> number_taken (ca_tenant caller) ident assigned (db_documents st)"
    "map fixed (db_documents st') = map fixed (update_where (submittable_row (ca_tenant caller) ident)
       (submitted_row assigned form (now env) (Some (ca_user caller))) (db_documents st))"
    "fixed d' = fixed (submitted_row assigned form (now env) (Some (ca_user caller)) d)"
proof -
  let ?t = "ca_tenant caller" and ?actor = "Some (ca_user caller)"
  from assms obtain s1 rs s3 where
    resolved: "resolve_submission env caller ident st = (s1, Inr rs)"
    and run: "submit_locked lb env caller ident rs s1 = (s3, Inr ())"
    and st': "st' = counted s3 s3" and d': "find (the_document ?t ident) (db_documents s3) = Some d'"
    by (auto simp: submit_document_def steps find_document_def require_def)
  obtain d where d: "find (the_document ?t ident) (db_documents st) = Some d"
    "sb_status (rs_subject rs) = status_from_db (do_status d)" "sb_type (rs_subject rs) = do_type d"
    "sb_number (rs_subject rs) = do_number d"
    "rs_context rs = clock_context env (do_requested_department d)"
    and committed: "case rs_committed rs of None \<Rightarrow> db_buckets s1 = db_buckets st
      | Some number \<Rightarrow> \<not> is_resubmission (rs_subject rs) \<and> took_number ?t (do_type d) (rs_context rs) st s1 number"
    and same: "db_documents s1 = db_documents st" "db_rules s1 = db_rules st" "db_types s1 = db_types st"
      "db_forms s1 = db_forms st"
    by (rule resolve_Inr [OF resolved])
  from run obtain s2 inst held where
    locked: "lock_for_submission env ?t ident (rs_subject rs) s1 = (s2, Inr (inst, held))"
    and sent: "submit_held lb env caller ident rs inst held s2 = (s3, Inr ())"
    by (auto simp: submit_locked_def seq_Inr)
  have held: "ld_form held = do_form d" "ld_type held = do_type d" "ld_form_data held = do_form_data d"
    "is_editable (status_from_db (do_status d))"
    using lock_for_submission_Inr [OF locked] d same by auto
  note same2 = readD [OF reads_lock locked]
  obtain pinned s4 form assigned s5 number s6 where
    pinned: "pinned_form_of env ?t held s2 = (s4, Inr pinned)"
    and form: "secured lb pinned (ld_form_data held) Submit = Inr form"
    and assigned: "assign_number env ?t rs held s4 = (s5, Inr assigned)"
    and number: "document_number ident assigned (sb_number (rs_subject rs)) = Inr number"
    and marked: "mark_submitted env ?t ident assigned form ?actor s5 =
       (s6, Inr (count_where (submittable_row ?t ident) (db_documents s5)))"
    and some: "count_where (submittable_row ?t ident) (db_documents s5) \<noteq> 0"
    and paper: "paper s3 = paper s6"
    by (rule submit_held_Inr [OF sent])
  note same4 = readD [OF reads_pinned pinned]
  have same4: "db_documents s4 = db_documents st" "db_buckets s4 = db_buckets s1" "db_rules s4 = db_rules st"
    "db_types s4 = db_types st" "db_forms s4 = db_forms st"
    using readD [OF reads_pinned pinned] readD [OF reads_lock locked] same by simp_all
  have docs5: "db_documents s5 = db_documents st" and rules5: "db_rules s5 = db_rules st"
    and buckets5: "if is_resubmission (rs_subject rs) then assigned = None \<and> db_buckets s5 = db_buckets st
     else assigned = Some number \<and> took_number ?t (do_type d) (rs_context rs) st s5 number"
    using assigned_Inr [OF assigned number] committed same4 held(2) by (auto simp: took_number_def split: option.splits if_splits)
  have s6: "db_buckets s6 = db_buckets s5"
    "db_documents s6 = update_where (submittable_row ?t ident) (submitted_row assigned form (now env) ?actor)
       (db_documents st)"
    using marked docs5 by (simp_all add: mark_submitted_Inr)
  have s3: "db_buckets st' = db_buckets s5"
    "map fixed (db_documents st') = map fixed (update_where (submittable_row ?t ident)
       (submitted_row assigned form (now env) ?actor) (db_documents st))"
    using paper st' s6 by (simp_all add: paper_def)
  have row: "submittable_row ?t ident d" using find_submittable [OF assms(2) _ d(1)] some docs5 by simp
  show thesis
  proof (rule that [OF d(1,2,4,5) row])
    show "document_number ident assigned (do_number d) = Inr number" using number d(4) by simp
    show "case definition_at ?t d st of None \<Rightarrow> form = Object []
      | Some definition0 \<Rightarrow> secure lb definition0 (do_form_data d) Submit = Some (Inr form)"
    proof -
      have "definition_at ?t d s2 = definition_at ?t d st"
        using readD [OF reads_lock locked] same by (cases "do_form d") (simp_all add: definition_at_def)
      with pinned_form_Inr [OF pinned held(1,2)] form held(3) show ?thesis
        by (auto simp: secured_def split: option.splits if_splits sum.splits)
    qed
    show "if is_resubmission (rs_subject rs) then assigned = None \<and> db_buckets st' = db_buckets st
     else assigned = Some number \<and> took_number ?t (do_type d) (rs_context rs) st st' number"
      using buckets5 unfolding took_number_def s3(1) .
    show "\<not> number_taken ?t ident assigned (db_documents st)"
    proof -
      have "list_ex (submittable_row ?t ident) (db_documents st)"
        using some docs5 by (auto simp: list_ex_iff)
      with marked docs5 show ?thesis by (simp add: mark_submitted_Inr)
    qed
    show "map fixed (db_documents st') = map fixed (update_where (submittable_row ?t ident)
       (submitted_row assigned form (now env) ?actor) (db_documents st))" by (rule s3(2))
    show "fixed d' = fixed (submitted_row assigned form (now env) ?actor d)"
    proof -
      have "map fixed (db_documents s3) = map fixed (db_documents s6)" using paper by (simp add: paper_def)
      from find_papers [OF this d'] obtain e where "find (the_document ?t ident) (db_documents s6) = Some e"
        "fixed e = fixed d'" by auto
      with s6(2) d(1) row show ?thesis by (auto simp: find_submitted)
    qed
  qed
qed


section \<open>A submission that is refused\<close>

text \<open>Under a rule that tolerates no gaps the pool reads write nothing.\<close>

definition gapless :: "uuid \<Rightarrow> uuid \<Rightarrow> Store \<Rightarrow> bool" where
  "gapless tenant type0 st \<longleftrightarrow>
     (\<forall>r. find (active_rule tenant type0) (db_rules st) = Some r \<longrightarrow> \<not> ru_allow_gaps r)"

lemma fst_reads: "leaves tables m \<Longrightarrow> tables (fst (m st)) = tables st"
  by (simp add: leaves_def)

lemma seq_tables:
  assumes "leaves tables m"
    "\<And>st1 x. m st = (st1, Inr x) \<Longrightarrow> tables st1 = tables st \<Longrightarrow> tables (fst (f x st1)) = tables st1"
  shows "tables (fst (seq m f st)) = tables st"
  using assms fst_reads [OF assms(1), of st] by (auto simp: seq_def split: prod.splits sum.splits)

lemma resolve_gapless:
  assumes "\<And>d. find (the_document (ca_tenant caller) ident) (db_documents st) = Some d \<Longrightarrow>
     gapless (ca_tenant caller) (do_type d) st"
  shows "tables (fst (resolve_submission env caller ident st)) = tables st"
  unfolding resolve_submission_def Let_def
proof ((rule seq_tables, (intro leaving; fail)[1])+, goal_cases)
  case (1 s1 found s2 subject s3 u s4 type_key s5 facts s6 binding s7 policy)
  from 1(1,3) obtain d where d: "find (the_document (ca_tenant caller) ident) (db_documents st) = Some d"
    "sb_type subject = do_type d"
    by (cases "find (the_document (ca_tenant caller) ident) (db_documents st)")
      (auto simp: find_submission_subject_def steps)
  have "db_rules s6 = db_rules st" using 1 by (metis tables_eqD)
  then have "\<not> allows_gaps (coalesce policy Gapless)"
    using 1(13) assms [OF d(1)] d(2)
    by (auto simp: gap_policy_def steps gapless_def coalesce_def allows_gaps_def policy_from_db_def
      split: option.splits if_splits)
  then show ?case by (intro fst_reads) (simp add: leaving)
qed


lemma submit_locked_documents:
  assumes "submit_locked lb env caller ident rs st = (st', Inr u)"
  shows "find (the_document (ca_tenant caller) ident) (db_documents st') \<noteq> None"
proof -
  let ?t = "ca_tenant caller"
  from assms obtain s2 inst held where
    locked: "lock_for_submission env ?t ident (rs_subject rs) st = (s2, Inr (inst, held))"
    and sent: "submit_held lb env caller ident rs inst held s2 = (st', Inr u)"
    by (auto simp: submit_locked_def seq_Inr)
  obtain d where d: "find (the_document ?t ident) (db_documents st) = Some d"
    by (rule lock_for_submission_Inr [OF locked])
  obtain pinned s4 form assigned s5 number s6 where
    pinned: "pinned_form_of env ?t held s2 = (s4, Inr pinned)"
    and assigned: "assign_number env ?t rs held s4 = (s5, Inr assigned)"
      "document_number ident assigned (sb_number (rs_subject rs)) = Inr number"
    and marked: "mark_submitted env ?t ident assigned form (Some (ca_user caller)) s5 =
       (s6, Inr (count_where (submittable_row ?t ident) (db_documents s5)))"
    and paper: "paper st' = paper s6"
    by (rule submit_held_Inr [OF sent])
  have "db_documents s5 = db_documents st"
    using readD [OF reads_lock locked] readD [OF reads_pinned pinned] assigned_Inr [OF assigned] by simp
  with marked d have "find (the_document ?t ident) (db_documents s6) \<noteq> None"
    by (simp add: mark_submitted_Inr find_submitted)
  then obtain e where "find (the_document ?t ident) (db_documents s6) = Some e" by auto
  from find_papers [OF _ this, of "db_documents st'"] paper show ?thesis by (auto simp: paper_def)
qed

text \<open>
  The one refusal that comes after the commit: the transaction wrote, and the statement that reads the
  document back for the answer failed in the database.
\<close>

definition lost_answer :: "Libraries \<Rightarrow> Env \<Rightarrow> Caller \<Rightarrow> uuid \<Rightarrow> Store \<Rightarrow> Store \<Rightarrow> bool" where
  "lost_answer lb env caller ident st st' \<longleftrightarrow>
     (\<exists>s1 resolved s2.
        resolve_submission env caller ident st = (s1, Inr resolved) \<and>
        transaction (submit_locked lb env caller ident resolved) s1 = (s2, Inr ()) \<and>
        find (the_document (ca_tenant caller) ident) (db_documents s2) \<noteq> None \<and>
        db_fault (hooks env) (db_statements s2) \<noteq> None \<and>
        tables st' = tables s2)"

lemma refused_submission_gapless:
  assumes "submit_document lb env caller ident st = (st', Inl e)"
    "\<And>d. find (the_document (ca_tenant caller) ident) (db_documents st) = Some d \<Longrightarrow>
       gapless (ca_tenant caller) (do_type d) st"
  shows "tables st' = tables st \<or> lost_answer lb env caller ident st st'"
proof -
  let ?t = "ca_tenant caller"
  obtain s1 r where resolved: "resolve_submission env caller ident st = (s1, r)" by fastforce
  have same: "tables s1 = tables st" using resolve_gapless [of caller ident st env, OF assms(2)] resolved by simp
  consider "DOCUMENT_SUBMIT \<notin> set (ca_permissions caller)" | e' where "r = Inl e'" |
    rs where "DOCUMENT_SUBMIT \<in> set (ca_permissions caller)" "r = Inr rs"
    by (cases r) blast+
  then show ?thesis
  proof cases
    case 1
    with assms(1) show ?thesis by (simp add: submit_document_def require_def refuse_if_def fail_def seq_def)
  next
    case 2
    with assms(1) resolved same show ?thesis
      by (auto simp: submit_document_def require_def refuse_if_def fail_def ret_def seq_def split: if_splits)
  next
    case 3
    obtain s3 r' where run: "transaction (submit_locked lb env caller ident rs) s1 = (s3, r')" by fastforce
    show ?thesis
    proof (cases r')
      case (Inl e')
      with run have "s3 = s1" by (auto dest: transaction_Inl)
      with 3 resolved run Inl assms(1) same show ?thesis
        by (simp add: submit_document_def require_def refuse_if_def ret_def seq_def)
    next
      case (Inr u)
      with run have "submit_locked lb env caller ident rs s1 = (s3, Inr u)" by (simp add: transaction_Inr)
      from submit_locked_documents [OF this] obtain d' where
        d': "find (the_document ?t ident) (db_documents s3) = Some d'" by auto
      have answer: "seq (find_document env ?t ident) (need (Internal (''document '' @ ident @
          '' vanished after it was submitted''))) s3 = (st', Inl e)"
        using 3 resolved run Inr assms(1)
        by (simp add: submit_document_def require_def refuse_if_def ret_def seq_def)
      with d' have "db_fault (hooks env) (db_statements s3) \<noteq> None"
        by (auto simp: find_document_def fetch_def sql_def seq_def need_def ret_def split: option.splits)
      moreover have "leaves tables (seq (find_document env ?t ident) (need (Internal (''document '' @ ident @
          '' vanished after it was submitted''))))"
        unfolding find_document_def by (intro leaving)
      then have "tables st' = tables s3" using answer by (rule leavesD)
      ultimately show ?thesis using 3 resolved run Inr d' by (auto simp: lost_answer_def)
    qed
  qed
qed

section \<open>Numbers are unique\<close>

definition unique_numbers :: "Store \<Rightarrow> bool" where
  "unique_numbers st \<longleftrightarrow>
     (\<forall>d \<in> set (db_documents st). \<forall>e \<in> set (db_documents st).
        do_tenant d = do_tenant e \<and> do_number d = do_number e \<and> do_number d \<noteq> None \<and>
        \<not> do_deleted d \<and> \<not> do_deleted e \<longrightarrow> do_id d = do_id e)"

lemma unique_numbers_paper: "paper st' = paper st \<Longrightarrow> unique_numbers st \<Longrightarrow> unique_numbers st'"
proof -
  assume "paper st' = paper st" and unique: "unique_numbers st"
  then have "fixed ` set (db_documents st') = fixed ` set (db_documents st)"
    by (simp add: paper_def) (metis list.set_map)
  then have old: "\<exists>e \<in> set (db_documents st). fixed e = fixed d" if "d \<in> set (db_documents st')" for d
    using that by (metis imageE imageI)
  have sel: "do_tenant d = do_tenant e \<and> do_number d = do_number e \<and> do_deleted d = do_deleted e \<and> do_id d = do_id e"
    if "fixed e = fixed d" for d e
    using arg_cong [where f = do_tenant, OF that] arg_cong [where f = do_number, OF that]
      arg_cong [where f = do_deleted, OF that] arg_cong [where f = do_id, OF that]
    by (simp add: fixed_def)
  show "unique_numbers st'" unfolding unique_numbers_def
  proof (intro ballI impI)
    fix d e assume "d \<in> set (db_documents st')" "e \<in> set (db_documents st')"
      and clash: "do_tenant d = do_tenant e \<and> do_number d = do_number e \<and> do_number d \<noteq> None \<and>
        \<not> do_deleted d \<and> \<not> do_deleted e"
    then obtain d0 e0 where rows: "d0 \<in> set (db_documents st)" "e0 \<in> set (db_documents st)"
      "fixed d0 = fixed d" "fixed e0 = fixed e" using old by meson
    with sel [OF rows(3)] sel [OF rows(4)] clash unique show "do_id d = do_id e"
      unfolding unique_numbers_def by metis
  qed
qed

lemma unique_numbers_leaves: "leaves paper m \<Longrightarrow> keeps unique_numbers m"
  by (erule keeps_leaves) (rule unique_numbers_paper)

lemma unique_numbers_same: "leaves db_documents m \<Longrightarrow> keeps unique_numbers m"
  by (erule keeps_leaves) (simp add: unique_numbers_def)

lemma unique_numbers_reads: "leaves tables m \<Longrightarrow> keeps unique_numbers m"
  by (intro unique_numbers_leaves papers.reads)

lemma unique_numbers_marked: "keeps unique_numbers (mark_submitted env tenant ident number form actor)"
  unfolding mark_submitted_def
proof (rule keeps_sql)
  let ?p = "submittable_row tenant ident" and ?f = "submitted_row number form (now env) actor"
  fix st st' y
  assume step: "(if list_ex ?p (db_documents st) \<and> number_taken tenant ident number (db_documents st)
      then Inl (UniqueViolation ''uq_documents_tenant_id_document_number'')
      else Inr (db_documents_update (update_where ?p ?f) st, count_where ?p (db_documents st))) = Inr (st', y)"
    and unique: "unique_numbers st"
  have docs: "db_documents (counted st st') = update_where ?p ?f (db_documents st)"
    and free: "?p r \<Longrightarrow> r \<in> set (db_documents st) \<Longrightarrow> \<not> number_taken tenant ident number (db_documents st)" for r
    using step by (auto simp: list_ex_iff split: if_splits)
  have keys: "do_tenant (?f r) = do_tenant r" "do_id (?f r) = do_id r" "do_deleted (?f r) = do_deleted r"
    "do_number (?f r) = (if number = None then do_number r else number)" for r
    by (simp_all add: submitted_row_def)
  have p: "?p r \<Longrightarrow> do_tenant r = tenant \<and> do_id r = ident" for r
    by (simp add: submittable_row_def the_document_def)
  have taken: "do_id r = ident" if "r \<in> set (db_documents st)" "\<not> number_taken tenant ident number (db_documents st)"
    "do_tenant r = tenant" "do_number r = number" "number \<noteq> None" "\<not> do_deleted r" for r
    using that by (auto simp: number_taken_def list_ex_iff)
  show "unique_numbers (counted st st')"
    unfolding unique_numbers_def docs
  proof (intro ballI impI)
    fix d e assume "d \<in> set (update_where ?p ?f (db_documents st))" "e \<in> set (update_where ?p ?f (db_documents st))"
      and clash: "do_tenant d = do_tenant e \<and> do_number d = do_number e \<and> do_number d \<noteq> None \<and>
        \<not> do_deleted d \<and> \<not> do_deleted e"
    then obtain d0 e0 where rows: "d0 \<in> set (db_documents st)" "e0 \<in> set (db_documents st)"
      "d = (if ?p d0 then ?f d0 else d0)" "e = (if ?p e0 then ?f e0 else e0)"
      by (auto simp: set_update_where)
    have kept: "do_tenant d = do_tenant d0" "do_id d = do_id d0" "do_deleted d = do_deleted d0"
      "do_number d = (if ?p d0 \<and> number \<noteq> None then number else do_number d0)"
      "do_tenant e = do_tenant e0" "do_id e = do_id e0" "do_deleted e = do_deleted e0"
      "do_number e = (if ?p e0 \<and> number \<noteq> None then number else do_number e0)"
      unfolding rows(3,4) by (simp_all add: submitted_row_def)
    show "do_id d = do_id e"
    proof (cases "number \<noteq> None \<and> (?p d0 \<or> ?p e0)")
      case True
      have "do_id d0 = ident \<and> do_id e0 = ident"
      proof (cases "?p d0")
        case d: True
        with clash kept True p [OF d] have "?p e0 \<or> do_tenant e0 = tenant \<and> do_number e0 = number \<and> \<not> do_deleted e0"
          by (auto split: if_splits)
        with p [OF d] p [of e0] taken [OF rows(2) free [OF d rows(1)]] True show ?thesis by blast
      next
        case False
        with True have e: "?p e0" by simp
        have "do_tenant d0 = tenant \<and> do_number d0 = number \<and> \<not> do_deleted d0"
          using clash kept True p [OF e] False e by simp
        with p [OF e] taken [OF rows(1) free [OF e rows(2)]] True show ?thesis by blast
      qed
      with kept show ?thesis by simp
    next
      case False
      with kept have "do_number d = do_number d0" "do_number e = do_number e0" by auto
      with clash kept rows(1,2) unique show ?thesis unfolding unique_numbers_def by metis
    qed
  qed
qed

lemma resolve_documents: "leaves db_documents (resolve_submission env caller ident)"
  unfolding resolve_submission_def Let_def allocate_committed_def
  by (intro leaves_seq leaves_if leaves_transaction allocate_in_documents reads_db_documents leaving)

lemma submission_keeps_unique: "keeps unique_numbers (submit_document lb env caller ident)"
proof -
  have assign: "keeps unique_numbers (assign_number env tenant rs held)" for tenant rs held
    unfolding assign_number_def
    by (intro unique_numbers_same leaves_if leaves_option leaves_seq allocate_in_documents leaves_ret)
  have held: "keeps unique_numbers (submit_held lb env caller ident rs inst held)" for rs inst held
    unfolding submit_held_def Let_def
    by (intro keeps_seq assign unique_numbers_marked unique_numbers_reads [OF reads_pinned]
        keeps_lift_result keeps_refuse_if unique_numbers_leaves [OF papers.governed_leaves]
        unique_numbers_leaves [OF papers.transition_row] unique_numbers_leaves [OF papers.process_leaves]
        unique_numbers_leaves [OF papers.activity_row])
  show ?thesis
    unfolding submit_document_def submit_locked_def find_document_def require_def
    by (intro keeps_seq keeps_transaction keeps_prod held unique_numbers_reads [OF reads_lock]
        unique_numbers_same [OF resolve_documents] keeps_refuse_if keeps_need unique_numbers_reads reads_fetch)
qed

end
