(* ===== verification/GovernanceFacts.thy ===== *)
theory GovernanceFacts
  imports SubmissionFacts
begin

text \<open>
  A governed change from the submission that raises it to the decision that settles it: refused, the
  record is as it was; approved, it carries exactly the proposed fields and is active.
\<close>

section \<open>Raising\<close>

lemma update_rows_faultless:
  "faultless env \<Longrightarrow> update_rows env rows upd p f st = (counted st (upd (update_where p f) st), Inr (count_where p (rows st)))"
  by (simp add: faultless_def update_rows_def sql_def counted_def)

text \<open>The one row a tenant's record is.\<close>

lemma only_row:
  assumes "distinct (map key rows)" "\<And>r. p r \<Longrightarrow> key r = k" "find p rows = Some r" "x \<in> set rows" "p x"
  shows "x = r"
proof -
  from assms(3) have "r \<in> set rows" "p r" by (auto simp: find_Some_iff)
  with assms(1,2,4,5) show ?thesis by (metis distinct_map inj_onD)
qed

definition records :: "Store \<Rightarrow> party_row list \<times> facility_row list" where
  "records st = (db_parties st, db_facilities st)"

definition move_record :: "uuid \<Rightarrow> GovernedEntity \<Rightarrow> uuid \<Rightarrow> string \<Rightarrow> string \<Rightarrow> Store \<Rightarrow> Store" where
  "move_record tenant entity ident from to0 st =
     (case entity of
        PartyEntity \<Rightarrow> db_parties_update (update_where
          (\<lambda>r. the_party tenant ident r \<and> pa_record_status r = from) (\<lambda>r. r\<lparr>pa_record_status := to0\<rparr>)) st
      | FacilityEntity \<Rightarrow> db_facilities_update (update_where
          (\<lambda>r. the_facility tenant ident r \<and> fa_record_status r = from) (\<lambda>r. r\<lparr>fa_record_status := to0\<rparr>)) st)"

lemma move_record_status_in_Inr:
  "move_record_status_in env tenant entity ident from to0 st = (st', Inr n) \<Longrightarrow>
   st' = counted st (move_record tenant entity ident (record_as_db from) (record_as_db to0) st)"
  by (cases entity) (simp_all add: move_record_status_in_def move_record_def steps)

lemma count_where_pos [simp]: "0 < count_where p rows \<longleftrightarrow> (\<exists>r \<in> set rows. p r)"
  by (metis count_where_0 neq0_conv)

lemma count_found: "find q rows = Some r \<Longrightarrow> p r \<Longrightarrow> count_where p rows \<noteq> 0"
  by (auto simp: find_Some_iff)

lemma move_record_faultless:
  assumes "faultless env" "record_status_of tenant entity ident st = Some (record_as_db from)"
  obtains n where "move_record_status_in env tenant entity ident from to0 st =
    (counted st (move_record tenant entity ident (record_as_db from) (record_as_db to0) st), Inr n)" "n \<noteq> 0"
proof (cases entity)
  case PartyEntity
  with assms(2) obtain r where "find (the_party tenant ident) (db_parties st) = Some r"
    "pa_record_status r = record_as_db from" by (auto simp: record_status_of_def)
  then have some: "count_where (\<lambda>r. the_party tenant ident r \<and> pa_record_status r = record_as_db from)
      (db_parties st) \<noteq> 0"
    by (intro count_found) (auto simp: find_Some_iff)
  show thesis
    by (rule that [OF _ some])
      (simp add: PartyEntity assms(1) move_record_status_in_def move_record_def update_rows_faultless)
next
  case FacilityEntity
  with assms(2) obtain r where "find (the_facility tenant ident) (db_facilities st) = Some r"
    "fa_record_status r = record_as_db from" by (auto simp: record_status_of_def)
  then have some: "count_where (\<lambda>r. the_facility tenant ident r \<and> fa_record_status r = record_as_db from)
      (db_facilities st) \<noteq> 0"
    by (intro count_found) (auto simp: find_Some_iff)
  show thesis
    by (rule that [OF _ some])
      (simp add: FacilityEntity assms(1) move_record_status_in_def move_record_def update_rows_faultless)
qed

lemma raise_change_Inr:
  assumes "raise_change env tenant entity ident document form st = (st', Inr u)"
  obtains current row where
    "record_status_of tenant entity ident st = Some current" "record_from_db current \<noteq> RecPendingApproval"
    "\<exists>proposed. read_change entity form = Inr proposed"
    "ch_tenant row = tenant" "ch_document row = document" "ch_entity_type row = entity_as_db entity"
    "ch_entity row = ident" "ch_previous row = record_as_db (record_from_db current)" "ch_resolved row = None"
    "\<not> list_ex (\<lambda>r. ch_document r = document) (db_changes st)"
    "db_changes st' = db_changes st @ [row]"
    "records st' = records (move_record tenant entity ident (record_as_db (record_from_db current))
       ''PENDING_APPROVAL'' st)"
proof -
  let ?s1 = "counted st st\<lparr>db_fresh := Suc (db_fresh (counted st st))\<rparr>"
  from assms obtain current change s2 moved where
    current: "record_status_of tenant entity ident st = Some current" "record_from_db current \<noteq> RecPendingApproval"
    and read: "\<exists>proposed. read_change entity form = Inr proposed"
    and inserted: "insert_change_request env
            \<lparr>ch_tenant = tenant, ch_id = change, ch_document = document,
             ch_entity_type = entity_as_db entity, ch_entity = ident,
             ch_previous = record_as_db (record_from_db current), ch_outcome = None, ch_resolved = None\<rparr> ?s1
             = (s2, Inr ())"
    and moved: "move_record_status_in env tenant entity ident (record_from_db current) RecPendingApproval s2
       = (st', Inr moved)"
    by (auto simp: raise_change_def steps lock_record_status_def is_parked_def)
  let ?row = "\<lparr>ch_tenant = tenant, ch_id = change, ch_document = document,
             ch_entity_type = entity_as_db entity, ch_entity = ident,
             ch_previous = record_as_db (record_from_db current), ch_outcome = None, ch_resolved = None\<rparr>"
  from inserted have s2: "db_changes s2 = db_changes st @ [?row]" "records s2 = records st"
    "\<not> list_ex (\<lambda>r. ch_document r = document) (db_changes st)"
    by (auto simp: insert_change_request_def sql_Inr records_def split: if_splits)
  note st3 = move_record_status_in_Inr [OF moved]
  show thesis
  proof (rule that [OF current read, of ?row])
    show "db_changes st' = db_changes st @ [?row]"
      using st3 s2 by (cases entity) (simp_all add: move_record_def)
    show "records st' = records (move_record tenant entity ident (record_as_db (record_from_db current))
       ''PENDING_APPROVAL'' st)"
      using st3 s2 by (cases entity) (simp_all add: move_record_def records_def)
  qed (use s2 in simp_all)
qed


section \<open>Settling\<close>

lemma seq_step: "m st = (st1, Inr x) \<Longrightarrow> seq m f st = f x st1"
  by (simp add: seq_def)

lemma ret_step: "ret x st = (st, Inr x)"
  by (simp add: ret_def)

lemma refuse_step: "\<not> b \<Longrightarrow> refuse_if b e st = (st, Inr ())"
  by (simp add: refuse_if_def ret_def)

lemma records_changes: "records (counted s (db_changes_update f st)) = records st" "records (counted s st) = records st"
  "records (db_changes_update f s) = records s"
  by (simp_all add: records_def)

definition distinct_records :: "Store \<Rightarrow> bool" where
  "distinct_records st \<longleftrightarrow> distinct (map pa_id (db_parties st)) \<and> distinct (map fa_id (db_facilities st))"

lemma update_back:
  assumes "distinct (map key rows)" "\<And>r. p r \<Longrightarrow> key r = k" "find p rows = Some r" "status r = a"
    "\<And>x s. p (set_status s x) = p x" "\<And>x s. status (set_status s x) = s"
    "\<And>x s. set_status (status x) (set_status s x) = x"
  shows "update_where (\<lambda>x. p x \<and> status x = b) (set_status a)
     (update_where (\<lambda>x. p x \<and> status x = a) (set_status b) rows) = rows"
proof -
  have "(if p (if p x \<and> status x = a then set_status b x else x) \<and>
           status (if p x \<and> status x = a then set_status b x else x) = b
         then set_status a (if p x \<and> status x = a then set_status b x else x)
         else (if p x \<and> status x = a then set_status b x else x)) = x" if "x \<in> set rows" for x
  proof (cases "p x")
    case True
    with only_row [where key = key and k = k and p = p, OF assms(1) _ assms(3) that] assms(2)
    have "x = r" by blast
    moreover have "set_status a (set_status b r) = r" by (metis assms(4,7))
    ultimately show ?thesis using True assms(4-6) by simp
  qed simp
  then show ?thesis by (simp add: update_where_def o_def map_idI)
qed

lemma moved_back:
  assumes "distinct_records st" "record_status_of tenant entity ident st = Some from"
  shows "records (move_record tenant entity ident to0 from (move_record tenant entity ident from to0 st)) = records st"
proof (cases entity)
  case PartyEntity
  with assms obtain r where "find (the_party tenant ident) (db_parties st) = Some r" "pa_record_status r = from"
    by (auto simp: record_status_of_def)
  with assms(1) PartyEntity show ?thesis
    using update_back [of pa_id "db_parties st" "the_party tenant ident" ident r pa_record_status "from"
      "\<lambda>s r. r\<lparr>pa_record_status := s\<rparr>" to0]
    by (simp add: move_record_def records_def distinct_records_def the_party_def)
next
  case FacilityEntity
  with assms obtain r where "find (the_facility tenant ident) (db_facilities st) = Some r" "fa_record_status r = from"
    by (auto simp: record_status_of_def)
  with assms(1) FacilityEntity show ?thesis
    using update_back [of fa_id "db_facilities st" "the_facility tenant ident" ident r fa_record_status "from"
      "\<lambda>s r. r\<lparr>fa_record_status := s\<rparr>" to0]
    by (simp add: move_record_def records_def distinct_records_def the_facility_def)
qed

lemma move_records_cong:
  "records s = records st \<Longrightarrow>
   records (move_record tenant entity ident from to0 s) = records (move_record tenant entity ident from to0 st)"
  by (cases entity) (simp_all add: records_def move_record_def)

lemma record_status_cong:
  "records s = records st \<Longrightarrow> record_status_of tenant entity ident s = record_status_of tenant entity ident st"
  by (cases entity) (simp_all add: records_def record_status_of_def)

lemma moved_status:
  assumes "record_status_of tenant entity ident st = Some from"
  shows "record_status_of tenant entity ident (move_record tenant entity ident from to0 st) = Some to0"
proof (cases entity)
  case PartyEntity
  have "find (the_party tenant ident) (update_where (\<lambda>r. the_party tenant ident r \<and> pa_record_status r = from)
      (\<lambda>r. r\<lparr>pa_record_status := to0\<rparr>) (db_parties st)) =
    map_option (\<lambda>r. if the_party tenant ident r \<and> pa_record_status r = from then r\<lparr>pa_record_status := to0\<rparr> else r)
      (find (the_party tenant ident) (db_parties st))"
    by (rule find_cong_map) (simp add: the_party_def)
  moreover obtain r where "find (the_party tenant ident) (db_parties st) = Some r" "pa_record_status r = from"
    using assms PartyEntity by (auto simp: record_status_of_def)
  moreover from this have "the_party tenant ident r" by (simp add: find_Some_iff) blast
  ultimately show ?thesis using PartyEntity by (simp add: record_status_of_def move_record_def)
next
  case FacilityEntity
  have "find (the_facility tenant ident) (update_where (\<lambda>r. the_facility tenant ident r \<and> fa_record_status r = from)
      (\<lambda>r. r\<lparr>fa_record_status := to0\<rparr>) (db_facilities st)) =
    map_option (\<lambda>r. if the_facility tenant ident r \<and> fa_record_status r = from then r\<lparr>fa_record_status := to0\<rparr> else r)
      (find (the_facility tenant ident) (db_facilities st))"
    by (rule find_cong_map) (simp add: the_facility_def)
  moreover obtain r where "find (the_facility tenant ident) (db_facilities st) = Some r" "fa_record_status r = from"
    using assms FacilityEntity by (auto simp: record_status_of_def)
  moreover from this have "the_facility tenant ident r" by (simp add: find_Some_iff) blast
  ultimately show ?thesis using FacilityEntity by (simp add: record_status_of_def move_record_def)
qed

text \<open>The change of a document is the one the settlement finds.\<close>

definition pending_change :: "uuid \<Rightarrow> GovernedEntity \<Rightarrow> uuid \<Rightarrow> uuid \<Rightarrow> string \<Rightarrow> Store \<Rightarrow> bool" where
  "pending_change tenant entity ident document previous st \<longleftrightarrow>
     record_status_of tenant entity ident st = Some ''PENDING_APPROVAL'' \<and>
     (\<exists>row. find (\<lambda>r. ch_tenant r = tenant \<and> ch_document r = document \<and> open_change r) (db_changes st) = Some row \<and>
        ch_entity_type row = entity_as_db entity \<and> ch_entity row = ident \<and> ch_previous row = previous)"

lemma raised_pending:
  assumes "raise_change env tenant entity ident document form st = (st', Inr u)"
    "record_status_of tenant entity ident st = Some current" "record_as_db (record_from_db current) = current"
  shows "pending_change tenant entity ident document current st'"
    "records st' = records (move_record tenant entity ident current ''PENDING_APPROVAL'' st)"
    "\<exists>proposed. read_change entity form = Inr proposed"
proof -
  obtain given row where given: "record_status_of tenant entity ident st = Some given"
    and read: "\<exists>proposed. read_change entity form = Inr proposed"
    and row: "ch_tenant row = tenant" "ch_document row = document" "ch_entity_type row = entity_as_db entity"
      "ch_entity row = ident" "ch_previous row = record_as_db (record_from_db given)" "ch_resolved row = None"
      "\<not> list_ex (\<lambda>r. ch_document r = document) (db_changes st)" "db_changes st' = db_changes st @ [row]"
    and moved0: "records st' = records (move_record tenant entity ident (record_as_db (record_from_db given))
       ''PENDING_APPROVAL'' st)"
    by (rule raise_change_Inr [OF assms(1)])
  have [simp]: "given = current" using given assms(2) by simp
  have moved: "records st' = records (move_record tenant entity ident current ''PENDING_APPROVAL'' st)"
    using moved0 assms(3) by simp
  have "find (\<lambda>r. ch_tenant r = tenant \<and> ch_document r = document \<and> open_change r) (db_changes st) = None"
    using row(7) by (auto simp: find_None_iff list_ex_iff)
  with row assms(3) show "pending_change tenant entity ident document current st'"
    using moved_status [OF assms(2)] record_status_cong [OF moved]
    by (simp add: pending_change_def find_append open_change_def)
  show "records st' = records (move_record tenant entity ident current ''PENDING_APPROVAL'' st)" by (rule moved)
  show "\<exists>proposed. read_change entity form = Inr proposed" by (rule read)
qed

lemma refused_settles:
  assumes "faultless env" "pending_change tenant entity ident document previous st"
    "record_as_db (record_from_db previous) = previous"
  shows "\<exists>st'. settle_change env tenant document False form st = (st', Inr ()) \<and>
    records st' = records (move_record tenant entity ident ''PENDING_APPROVAL'' previous st)"
proof -
  from assms(2) obtain row where row:
    "find (\<lambda>r. ch_tenant r = tenant \<and> ch_document r = document \<and> open_change r) (db_changes st) = Some row"
    "ch_entity_type row = entity_as_db entity" "ch_entity row = ident" "ch_previous row = previous"
    and parked: "record_status_of tenant entity ident st = Some ''PENDING_APPROVAL''"
    by (auto simp: pending_change_def)
  let ?c = "\<lparr>cr_id = ch_id row, cr_document = ch_document row, cr_kind = entity, cr_entity = ident,
     cr_previous = record_from_db previous\<rparr>"
  let ?st = "counted (counted st st) (counted st st)"
  have "record_status_of tenant entity ident ?st = Some (record_as_db RecPendingApproval)"
    using parked record_status_cong [of ?st st] by (simp add: records_def)
  from move_record_faultless [OF assms(1) this, of "record_from_db previous"] obtain n where
    moved: "move_record_status_in env tenant entity ident RecPendingApproval (record_from_db previous) ?st =
      (counted ?st (move_record tenant entity ident ''PENDING_APPROVAL'' previous ?st), Inr n)" "n \<noteq> 0"
    using assms(3) by auto
  have status: "record_status_of tenant entity ident (counted st st) = Some ''PENDING_APPROVAL''"
    using parked record_status_cong [of "counted st st" st] by (simp add: records_def)
  have "lock_open_change_for_document env tenant document st = (counted st st, Inr (Some ?c))"
    using row governed.of_to by (simp add: lock_open_change_for_document_def fetch_faultless [OF assms(1)])
  moreover have "lock_record_status env tenant entity ident (counted st st) = (?st, Inr (Some RecPendingApproval))"
    using status by (simp add: lock_record_status_def fetch_faultless [OF assms(1)] record_from_db_def)
  moreover have "records (move_record tenant entity ident ''PENDING_APPROVAL'' previous ?st) =
      records (move_record tenant entity ident ''PENDING_APPROVAL'' previous st)"
    by (rule move_records_cong) (simp add: records_def)
  moreover have "resolve_change_request env tenant (ch_id row) ''REFUSED'' s = (counted s (db_changes_update
      (update_where (\<lambda>r. ch_tenant r = tenant \<and> ch_id r = ch_id row \<and> open_change r)
        (\<lambda>r. r\<lparr>ch_outcome := Some ''REFUSED'', ch_resolved := Some (now env)\<rparr>)) s),
      Inr (count_where (\<lambda>r. ch_tenant r = tenant \<and> ch_id r = ch_id row \<and> open_change r) (db_changes s)))" for s
    by (simp add: resolve_change_request_def update_rows_faultless [OF assms(1)])
  ultimately show ?thesis
    using moved
    by (simp add: settle_change_def seq_step ret_step is_parked_def refuse_step records_changes)
qed


definition write_record :: "uuid \<Rightarrow> uuid \<Rightarrow> ProposedChange \<Rightarrow> Store \<Rightarrow> Store" where
  "write_record tenant ident proposed st =
     (case proposed of
        ProposedParty c \<Rightarrow> db_parties_update (update_where (the_party tenant ident) (write_party c)) st
      | ProposedFacility c \<Rightarrow>
          db_facilities_update (update_where (the_facility tenant ident) (write_facility c)) st)"

definition kind_of :: "ProposedChange \<Rightarrow> GovernedEntity" where
  "kind_of proposed = (case proposed of ProposedParty _ \<Rightarrow> PartyEntity | ProposedFacility _ \<Rightarrow> FacilityEntity)"

lemma read_kind: "read_change entity form = Inr proposed \<Longrightarrow> kind_of proposed = entity"
  by (cases entity) (auto simp: read_change_def kind_of_def split: option.splits if_splits)

text \<open>What the columns of the record can take.\<close>

definition storable :: "uuid \<Rightarrow> uuid \<Rightarrow> ProposedChange \<Rightarrow> Store \<Rightarrow> bool" where
  "storable tenant ident proposed st =
     (case proposed of
        ProposedParty c \<Rightarrow>
          list_all (\<lambda>r. the_party tenant ident r \<longrightarrow> party_broken c r = None) (db_parties st)
      | ProposedFacility c \<Rightarrow>
          list_all (\<lambda>r. the_facility tenant ident r \<longrightarrow> facility_broken c r = None) (db_facilities st))"

lemma storable_cong: "records s = records st \<Longrightarrow> storable tenant ident proposed s = storable tenant ident proposed st"
  by (simp add: records_def storable_def split: ProposedChange.split)

lemma storable_moved: "storable tenant ident proposed (move_record tenant entity other from to0 st) =
    storable tenant ident proposed st"
proof -
  have "the_party tenant ident (if b then r\<lparr>pa_record_status := s\<rparr> else r) = the_party tenant ident r"
    "party_broken c (if b then r\<lparr>pa_record_status := s\<rparr> else r) = party_broken c r" for b c r s
    by (simp_all add: the_party_def party_broken_def write_party_def)
  moreover have "the_facility tenant ident (if b then r\<lparr>fa_record_status := s\<rparr> else r) = the_facility tenant ident r"
    "facility_broken c (if b then r\<lparr>fa_record_status := s\<rparr> else r) = facility_broken c r" for b c r s
    by (simp_all add: the_facility_def facility_broken_def)
  ultimately show ?thesis
    by (cases entity; cases proposed)
      (simp_all add: storable_def move_record_def update_where_def list.pred_map comp_def)
qed

lemma update_checked_faultless:
  "faultless env \<Longrightarrow> update_checked env rows upd p broken f st =
     (case somes (map broken (filter p (rows st))) of
        e # _ \<Rightarrow> (st, Inl (from_sqlx e))
      | [] \<Rightarrow> (counted st (upd (update_where p f) st), Inr (count_where p (rows st))))"
  by (simp add: faultless_def update_checked_def sql_def counted_def split: list.split)

lemma unbroken: "list_all (\<lambda>r. p r \<longrightarrow> broken r = None) rows \<Longrightarrow> somes (map broken (filter p rows)) = []"
  by (induction rows) auto

lemma broken_row:
  assumes "\<not> list_all (\<lambda>r. p r \<longrightarrow> broken r = None) rows"
  obtains e es r where "somes (map broken (filter p rows)) = e # es" "broken r = Some e"
proof -
  from assms have "\<exists>e es r. somes (map broken (filter p rows)) = e # es \<and> broken r = Some e"
  proof (induction rows)
    case (Cons a rows)
    then show ?case by (cases "broken a") auto
  qed simp
  then show thesis using that by blast
qed

lemma broken_internal:
  "party_broken c r = Some e \<Longrightarrow> \<exists>text. from_sqlx e = Internal text"
  "facility_broken d q = Some e \<Longrightarrow> \<exists>text. from_sqlx e = Internal text"
  by (auto simp: party_broken_def facility_broken_def first_too_long_def too_long_def
      split: option.splits list.splits if_splits)

lemma write_refused:
  assumes "faultless env" "\<not> storable tenant ident proposed st"
  shows "\<exists>text. update_record_fields env tenant ident proposed st = (st, Inl (Internal text))"
proof (cases proposed)
  case (ProposedParty c)
  with assms(2) have "\<not> list_all (\<lambda>r. the_party tenant ident r \<longrightarrow> party_broken c r = None) (db_parties st)"
    by (simp add: storable_def)
  then obtain e es r where e: "somes (map (party_broken c) (filter (the_party tenant ident) (db_parties st))) = e # es"
    "party_broken c r = Some e" by (rule broken_row)
  with broken_internal(1) [OF e(2)] ProposedParty show ?thesis
    by (auto simp: update_record_fields_def update_checked_faultless [OF assms(1)])
next
  case (ProposedFacility c)
  with assms(2) have "\<not> list_all (\<lambda>r. the_facility tenant ident r \<longrightarrow> facility_broken c r = None) (db_facilities st)"
    by (simp add: storable_def)
  then obtain e es r where e:
    "somes (map (facility_broken c) (filter (the_facility tenant ident) (db_facilities st))) = e # es"
    "facility_broken c r = Some e" by (rule broken_row)
  with broken_internal(2) [OF e(2)] ProposedFacility show ?thesis
    by (auto simp: update_record_fields_def update_checked_faultless [OF assms(1)])
qed

lemma write_faultless:
  assumes "faultless env" "record_status_of tenant (kind_of proposed) ident st = Some s"
    and fits: "storable tenant ident proposed st"
  obtains n where "update_record_fields env tenant ident proposed st =
    (counted st (write_record tenant ident proposed st), Inr n)" "n \<noteq> 0"
proof (cases proposed)
  case (ProposedParty c)
  with assms(2) obtain r where "find (the_party tenant ident) (db_parties st) = Some r"
    by (auto simp: record_status_of_def kind_of_def)
  then have some: "count_where (the_party tenant ident) (db_parties st) \<noteq> 0"
    by (intro count_found) (auto simp: find_Some_iff)
  show thesis
    by (rule that [OF _ some])
      (use fits in \<open>simp add: ProposedParty update_record_fields_def write_record_def storable_def
        update_checked_faultless [OF assms(1)] unbroken\<close>)
next
  case (ProposedFacility c)
  with assms(2) obtain r where "find (the_facility tenant ident) (db_facilities st) = Some r"
    by (auto simp: record_status_of_def kind_of_def)
  then have some: "count_where (the_facility tenant ident) (db_facilities st) \<noteq> 0"
    by (intro count_found) (auto simp: find_Some_iff)
  show thesis
    by (rule that [OF _ some])
      (use fits in \<open>simp add: ProposedFacility update_record_fields_def write_record_def storable_def
        update_checked_faultless [OF assms(1)] unbroken\<close>)
qed

lemma write_keeps_status:
  "record_status_of tenant entity ident (write_record tenant ident proposed st) =
   record_status_of tenant entity ident st"
proof (cases proposed)
  case (ProposedParty c)
  have "find (the_party tenant ident) (update_where (the_party tenant ident) (write_party c) (db_parties st)) =
    map_option (\<lambda>r. if the_party tenant ident r then write_party c r else r) (find (the_party tenant ident) (db_parties st))"
    by (rule find_cong_map) (simp add: the_party_def write_party_def)
  with ProposedParty show ?thesis
    by (cases entity)
      (simp_all add: record_status_of_def write_record_def option.map_comp o_def write_party_def if_distrib cong: if_cong)
next
  case (ProposedFacility c)
  have "find (the_facility tenant ident) (update_where (the_facility tenant ident) (write_facility c) (db_facilities st)) =
    map_option (\<lambda>r. if the_facility tenant ident r then write_facility c r else r) (find (the_facility tenant ident) (db_facilities st))"
    by (rule find_cong_map) (simp add: the_facility_def write_facility_def)
  with ProposedFacility show ?thesis
    by (cases entity)
      (simp_all add: record_status_of_def write_record_def option.map_comp o_def write_facility_def if_distrib cong: if_cong)
qed

lemma write_records_cong:
  "records s = records st \<Longrightarrow>
   records (write_record tenant ident proposed s) = records (write_record tenant ident proposed st)"
  by (cases proposed) (simp_all add: records_def write_record_def)

lemma approved_settles:
  assumes "faultless env" "pending_change tenant entity ident document previous st"
    "read_change entity form = Inr proposed" and fits: "storable tenant ident proposed st"
  shows "\<exists>st'. settle_change env tenant document True form st = (st', Inr ()) \<and>
    records st' = records (move_record tenant entity ident ''PENDING_APPROVAL'' ''ACTIVE''
      (write_record tenant ident proposed st))"
proof -
  from assms(2) obtain row where row:
    "find (\<lambda>r. ch_tenant r = tenant \<and> ch_document r = document \<and> open_change r) (db_changes st) = Some row"
    "ch_entity_type row = entity_as_db entity" "ch_entity row = ident" "ch_previous row = previous"
    and parked: "record_status_of tenant entity ident st = Some ''PENDING_APPROVAL''"
    by (auto simp: pending_change_def)
  let ?c = "\<lparr>cr_id = ch_id row, cr_document = ch_document row, cr_kind = entity, cr_entity = ident,
     cr_previous = record_from_db previous\<rparr>"
  let ?st = "counted (counted st st) (counted st st)"
  let ?w = "counted ?st (write_record tenant ident proposed ?st)"
  have kind: "kind_of proposed = entity" by (rule read_kind [OF assms(3)])
  have status: "record_status_of tenant entity ident (counted st st) = Some ''PENDING_APPROVAL''"
    "record_status_of tenant entity ident ?st = Some ''PENDING_APPROVAL''"
    using parked record_status_cong [of "counted st st" st] record_status_cong [of ?st st]
    by (simp_all add: records_def)
  obtain n where written: "update_record_fields env tenant ident proposed ?st = (?w, Inr n)" "n \<noteq> 0"
    using write_faultless [OF assms(1), of tenant proposed ident ?st] status(2) kind
      storable_cong [of ?st st] fits by (auto simp: records_def)
  have "record_status_of tenant entity ident ?w = Some (record_as_db RecPendingApproval)"
    using write_keeps_status [of tenant entity ident proposed ?st] status(2)
      record_status_cong [of ?w "write_record tenant ident proposed ?st"] by (simp add: records_changes)
  from move_record_faultless [OF assms(1) this, of RecActive] obtain m where
    moved: "move_record_status_in env tenant entity ident RecPendingApproval RecActive ?w =
      (counted ?w (move_record tenant entity ident ''PENDING_APPROVAL'' ''ACTIVE'' ?w), Inr m)" "m \<noteq> 0"
    by auto
  have "lock_open_change_for_document env tenant document st = (counted st st, Inr (Some ?c))"
    using row governed.of_to by (simp add: lock_open_change_for_document_def fetch_faultless [OF assms(1)])
  moreover have "lock_record_status env tenant entity ident (counted st st) = (?st, Inr (Some RecPendingApproval))"
    using status by (simp add: lock_record_status_def fetch_faultless [OF assms(1)] record_from_db_def)
  moreover have "resolve_change_request env tenant (ch_id row) ''APPLIED'' s = (counted s (db_changes_update
      (update_where (\<lambda>r. ch_tenant r = tenant \<and> ch_id r = ch_id row \<and> open_change r)
        (\<lambda>r. r\<lparr>ch_outcome := Some ''APPLIED'', ch_resolved := Some (now env)\<rparr>)) s),
      Inr (count_where (\<lambda>r. ch_tenant r = tenant \<and> ch_id r = ch_id row \<and> open_change r) (db_changes s)))" for s
    by (simp add: resolve_change_request_def update_rows_faultless [OF assms(1)])
  moreover have "apply_change env tenant ?c form ?st = (?w, Inr ())"
    using written assms(3) by (simp add: apply_change_def seq_step refuse_step)
  moreover have "records (move_record tenant entity ident ''PENDING_APPROVAL'' ''ACTIVE'' ?w) =
      records (move_record tenant entity ident ''PENDING_APPROVAL'' ''ACTIVE'' (write_record tenant ident proposed st))"
  proof (rule move_records_cong)
    have "records ?w = records (write_record tenant ident proposed ?st)" by (simp add: records_changes)
    also have "\<dots> = records (write_record tenant ident proposed st)"
      by (rule write_records_cong) (simp add: records_def)
    finally show "records ?w = records (write_record tenant ident proposed st)" .
  qed
  ultimately show ?thesis
    using moved
    by (simp add: settle_change_def seq_step ret_step is_parked_def refuse_step records_changes)
qed

lemma approved_refused:
  assumes "faultless env" "pending_change tenant entity ident document previous st"
    "read_change entity form = Inr proposed" and breaks: "\<not> storable tenant ident proposed st"
  shows "\<exists>st' text. settle_change env tenant document True form st = (st', Inl (Internal text))"
proof -
  from assms(2) obtain row where row:
    "find (\<lambda>r. ch_tenant r = tenant \<and> ch_document r = document \<and> open_change r) (db_changes st) = Some row"
    "ch_entity_type row = entity_as_db entity" "ch_entity row = ident"
    and parked: "record_status_of tenant entity ident st = Some ''PENDING_APPROVAL''"
    by (auto simp: pending_change_def)
  let ?c = "\<lparr>cr_id = ch_id row, cr_document = ch_document row, cr_kind = entity, cr_entity = ident,
     cr_previous = record_from_db (ch_previous row)\<rparr>"
  let ?st = "counted (counted st st) (counted st st)"
  have "record_status_of tenant entity ident (counted st st) = Some ''PENDING_APPROVAL''"
    using parked record_status_cong [of "counted st st" st] by (simp add: records_def)
  moreover have "\<not> storable tenant ident proposed ?st"
    using storable_cong [of ?st st] breaks by (simp add: records_def)
  then obtain why where "update_record_fields env tenant ident proposed ?st = (?st, Inl (Internal why))"
    using write_refused [OF assms(1)] by blast
  then have "apply_change env tenant ?c form ?st = (?st, Inl (Internal why))"
    using assms(3) by (simp add: apply_change_def seq_def)
  moreover have "lock_open_change_for_document env tenant document st = (counted st st, Inr (Some ?c))"
    using row governed.of_to by (simp add: lock_open_change_for_document_def fetch_faultless [OF assms(1)])
  ultimately show ?thesis
    by (simp add: settle_change_def seq_def lock_record_status_def fetch_faultless [OF assms(1)]
        record_from_db_def is_parked_def)
qed

text \<open>From the record as it was before the change was raised to the record an approval leaves.\<close>

definition activate_record :: "uuid \<Rightarrow> uuid \<Rightarrow> ProposedChange \<Rightarrow> Store \<Rightarrow> Store" where
  "activate_record tenant ident proposed st =
     (case proposed of
        ProposedParty c \<Rightarrow> db_parties_update (update_where (the_party tenant ident)
          (\<lambda>r. (write_party c r)\<lparr>pa_record_status := ''ACTIVE''\<rparr>)) st
      | ProposedFacility c \<Rightarrow> db_facilities_update (update_where (the_facility tenant ident)
          (\<lambda>r. (write_facility c r)\<lparr>fa_record_status := ''ACTIVE''\<rparr>)) st)"

lemma update_thrice:
  assumes "\<forall>x \<in> set rows. p x \<longrightarrow> s x = a" "\<And>x. p (h x) = p x" "\<And>x. s (h x) = b"
    "\<And>x. p (g x) = p x" "\<And>x. s (g x) = s x"
  shows "update_where (\<lambda>x. p x \<and> s x = b) f (update_where p g (update_where (\<lambda>x. p x \<and> s x = a) h rows)) =
    update_where p (\<lambda>x. f (g (h x))) rows"
  using assms by (simp add: update_where_def)

lemma overwritten:
  "(write_party c (r\<lparr>pa_record_status := a\<rparr>))\<lparr>pa_record_status := b\<rparr> = (write_party c r)\<lparr>pa_record_status := b\<rparr>"
  "(write_facility d (q\<lparr>fa_record_status := a\<rparr>))\<lparr>fa_record_status := b\<rparr> =
     (write_facility d q)\<lparr>fa_record_status := b\<rparr>"
  unfolding write_party_def write_facility_def by (cases r, simp) (cases q, simp)

lemma activated:
  assumes "distinct_records st" "record_status_of tenant (kind_of proposed) ident st = Some current"
  shows "records (move_record tenant (kind_of proposed) ident ''PENDING_APPROVAL'' ''ACTIVE''
      (write_record tenant ident proposed
        (move_record tenant (kind_of proposed) ident current ''PENDING_APPROVAL'' st))) =
    records (activate_record tenant ident proposed st)"
proof (cases proposed)
  case (ProposedParty c)
  with assms(2) obtain r where r: "find (the_party tenant ident) (db_parties st) = Some r"
    "pa_record_status r = current" by (auto simp: record_status_of_def kind_of_def)
  have only: "\<forall>x \<in> set (db_parties st). the_party tenant ident x \<longrightarrow> pa_record_status x = current"
    using only_row [where key = pa_id and k = ident and p = "the_party tenant ident", OF _ _ r(1)] r(2)
      assms(1) by (auto simp: distinct_records_def the_party_def)
  have "update_where (\<lambda>r. the_party tenant ident r \<and> pa_record_status r = ''PENDING_APPROVAL'')
      (pa_record_status_update (\<lambda>_. ''ACTIVE''))
      (update_where (the_party tenant ident) (write_party c)
        (update_where (\<lambda>r. the_party tenant ident r \<and> pa_record_status r = current)
          (pa_record_status_update (\<lambda>_. ''PENDING_APPROVAL'')) (db_parties st))) =
    update_where (the_party tenant ident)
      (\<lambda>r. (write_party c (r\<lparr>pa_record_status := ''PENDING_APPROVAL''\<rparr>))\<lparr>pa_record_status := ''ACTIVE''\<rparr>) (db_parties st)"
    by (rule update_thrice [OF only]) (simp_all add: the_party_def write_party_def)
  then show ?thesis
    by (simp add: ProposedParty kind_of_def records_def move_record_def write_record_def activate_record_def
        overwritten)
next
  case (ProposedFacility c)
  with assms(2) obtain r where r: "find (the_facility tenant ident) (db_facilities st) = Some r"
    "fa_record_status r = current" by (auto simp: record_status_of_def kind_of_def)
  have only: "\<forall>x \<in> set (db_facilities st). the_facility tenant ident x \<longrightarrow> fa_record_status x = current"
    using only_row [where key = fa_id and k = ident and p = "the_facility tenant ident", OF _ _ r(1)] r(2)
      assms(1) by (auto simp: distinct_records_def the_facility_def)
  have "update_where (\<lambda>r. the_facility tenant ident r \<and> fa_record_status r = ''PENDING_APPROVAL'')
      (fa_record_status_update (\<lambda>_. ''ACTIVE''))
      (update_where (the_facility tenant ident) (write_facility c)
        (update_where (\<lambda>r. the_facility tenant ident r \<and> fa_record_status r = current)
          (fa_record_status_update (\<lambda>_. ''PENDING_APPROVAL'')) (db_facilities st))) =
    update_where (the_facility tenant ident)
      (\<lambda>r. (write_facility c (r\<lparr>fa_record_status := ''PENDING_APPROVAL''\<rparr>))\<lparr>fa_record_status := ''ACTIVE''\<rparr>) (db_facilities st)"
    by (rule update_thrice [OF only]) (simp_all add: the_facility_def write_facility_def)
  then show ?thesis
    by (simp add: ProposedFacility kind_of_def records_def move_record_def write_record_def activate_record_def
        overwritten)
qed

lemma pending_cong:
  assumes "records s = records st" "db_changes s = db_changes st"
  shows "pending_change tenant entity ident document previous s =
    pending_change tenant entity ident document previous st"
  unfolding pending_change_def record_status_cong [OF assms(1)] assms(2) ..

lemma change_is_settled:
  assumes raised: "raise_change env tenant entity ident document form st = (st1, Inr ())"
    and stored: "record_status_of tenant entity ident st = Some current"
      "record_as_db (record_from_db current) = current" "distinct_records st"
    and later: "records st2 = records st1" "db_changes st2 = db_changes st1" "faultless env'"
    and proposed: "read_change entity form = Inr proposed"
  shows "if approved \<and> \<not> storable tenant ident proposed st
    then \<exists>st3 text. settle_change env' tenant document True form st2 = (st3, Inl (Internal text))
    else \<exists>st3. settle_change env' tenant document approved form st2 = (st3, Inr ()) \<and>
      records st3 = (if approved then records (activate_record tenant ident proposed st) else records st)"
proof -
  have pending: "pending_change tenant entity ident document current st2"
    and moved: "records st2 = records (move_record tenant entity ident current ''PENDING_APPROVAL'' st)"
    using raised_pending [OF raised stored(1,2)] later(1) pending_cong [OF later(1,2)] by simp_all
  have fits: "storable tenant ident proposed st2 = storable tenant ident proposed st"
    using storable_cong [OF moved] storable_moved by metis
  consider "approved" "\<not> storable tenant ident proposed st"
    | "approved" "storable tenant ident proposed st" | "\<not> approved" by blast
  then show ?thesis
  proof cases
    case 1
    with approved_refused [OF later(3) pending proposed] fits show ?thesis by simp
  next
    case 2
    have kind: "kind_of proposed = entity" by (rule read_kind [OF proposed])
    from approved_settles [OF later(3) pending proposed] 2 fits obtain st3 where
      st3: "settle_change env' tenant document True form st2 = (st3, Inr ())"
      "records st3 = records (move_record tenant entity ident ''PENDING_APPROVAL'' ''ACTIVE''
        (write_record tenant ident proposed st2))" by auto
    have "records st3 = records (move_record tenant entity ident ''PENDING_APPROVAL'' ''ACTIVE''
        (write_record tenant ident proposed (move_record tenant entity ident current ''PENDING_APPROVAL'' st)))"
      unfolding st3(2) by (rule move_records_cong, rule write_records_cong, rule moved)
    also have "\<dots> = records (activate_record tenant ident proposed st)"
      using activated [OF stored(3), of tenant proposed ident current] stored(1) kind by simp
    finally show ?thesis using 2 st3(1) by auto
  next
    case 3
    from refused_settles [OF later(3) pending stored(2)] obtain st3 where
      "settle_change env' tenant document False form st2 = (st3, Inr ())"
      "records st3 = records (move_record tenant entity ident ''PENDING_APPROVAL'' current st2)" by auto
    with 3 moved_back [OF stored(3,1), of "''PENDING_APPROVAL''"] move_records_cong [OF moved]
    show ?thesis by auto
  qed
qed


section \<open>What the settlement does not reach\<close>

text \<open>The types and records, which a submission does not write before it raises its change.\<close>

definition bystanders :: "Store \<Rightarrow> type_row list \<times> party_row list \<times> facility_row list" where
  "bystanders st = (db_types st, records st)"

lemma bystanders_reads: "leaves tables m \<Longrightarrow> leaves bystanders m"
  by (erule leaves_reads) (simp add: bystanders_def records_def tables_sel)

lemma bystanders_allocate: "leaves bystanders (allocate_in env tenant type0 c)"
  unfolding allocate_in_def Let_def find_active_rule_def furthest_key_def allocate_bucket_def
  by (intro leaving leaves_sql leaves_fetch) (auto simp: bystanders_def records_def split: option.splits if_splits)

lemma bystanders_resolve: "leaves bystanders (resolve_submission env caller ident)"
  unfolding resolve_submission_def Let_def allocate_committed_def
  by (intro leaves_seq leaves_if leaves_transaction bystanders_allocate bystanders_reads leaving)

lemma bystanders_assign: "leaves bystanders (assign_number env tenant rs held)"
  unfolding assign_number_def by (intro leaves_if leaves_option leaves_seq leaves_ret bystanders_allocate)

definition governs :: "uuid \<Rightarrow> document_row \<Rightarrow> Store \<Rightarrow> (GovernedEntity \<times> uuid) option" where
  "governs tenant d st =
     (case (Option.bind (find (the_type tenant (do_type d)) (db_types st)) ty_target, do_entity d) of
        (Some target, Some ident) \<Rightarrow> map_option (\<lambda>entity. (entity, ident)) (entity_from_db target)
      | _ \<Rightarrow> None)"

lemma parked_is_refused:
  assumes "find (the_document (ca_tenant caller) ident) (db_documents st) = Some d"
    "governs (ca_tenant caller) d st = Some (entity, rec)"
    "record_status_of (ca_tenant caller) entity rec st = Some ''PENDING_APPROVAL''"
  shows "submit_document lb env caller ident st \<noteq> (st', Inr d')"
proof
  let ?t = "ca_tenant caller"
  assume "submit_document lb env caller ident st = (st', Inr d')"
  then obtain s1 rs s3 where resolved: "resolve_submission env caller ident st = (s1, Inr rs)"
    and run: "submit_locked lb env caller ident rs s1 = (s3, Inr ())"
    by (auto simp: submit_document_def steps find_document_def require_def)
  from run obtain s2 inst held where
    locked: "lock_for_submission env ?t ident (rs_subject rs) s1 = (s2, Inr (inst, held))"
    and sent: "submit_held lb env caller ident rs inst held s2 = (s3, Inr ())"
    by (auto simp: submit_locked_def seq_Inr)
  obtain pinned s4 form assigned s5 s6 s8 u8 where
    pinned: "pinned_form_of env ?t held s2 = (s4, Inr pinned)"
    and assigned: "assign_number env ?t rs held s4 = (s5, Inr assigned)"
    and marked: "mark_submitted env ?t ident assigned form (Some (ca_user caller)) s5 =
       (s6, Inr (count_where (submittable_row ?t ident) (db_documents s5)))"
    and raised: "raise_governed_change env ?t ident held form s6 = (s8, Inr u8)"
    by (rule submit_held_Inr [OF sent])
  have docs: "db_documents s1 = db_documents st" by (rule leavesD [OF resolve_documents resolved])
  obtain d1 where d1: "find (the_document ?t ident) (db_documents s1) = Some d1"
    and held: "ld_type held = do_type d1" "ld_entity held = do_entity d1"
    by (rule lock_for_submission_Inr [OF locked])
  have "bystanders s6 = bystanders s5" using marked by (simp add: mark_submitted_Inr bystanders_def records_def)
  also have "\<dots> = bystanders st"
    using leavesD [OF bystanders_assign assigned] leavesD [OF bystanders_reads [OF reads_pinned] pinned]
      leavesD [OF bystanders_reads [OF reads_lock] locked] leavesD [OF bystanders_resolve resolved] by simp
  finally have same: "db_types s6 = db_types st" "records s6 = records st" by (simp_all add: bystanders_def)
  from d1 docs assms(1) have [simp]: "d1 = d" by simp
  from assms(2) obtain target where target: "Option.bind (find (the_type ?t (do_type d)) (db_types st)) ty_target = Some target"
    "do_entity d = Some rec" "entity_from_db target = Some entity"
    by (auto simp: governs_def split: option.splits)
  let ?s = "counted s6 s6"
  from raised target same held obtain s9 where
    "raise_change env ?t entity rec ident form ?s = (s9, Inr ())"
    by (auto simp: raise_governed_change_def target_entity_type_def governed_entity_def steps
      split: option.splits if_splits)
  from raise_change_Inr [OF this] obtain current where
    "record_status_of ?t entity rec ?s = Some current" "record_from_db current \<noteq> RecPendingApproval"
    by metis
  moreover have "record_status_of ?t entity rec ?s = Some ''PENDING_APPROVAL''"
    using assms(3) record_status_cong [of ?s st] same by (simp add: records_def)
  ultimately show False by (simp add: record_from_db_def)
qed

text \<open>A status set by hand writes no record and settles no change.\<close>

lemma transition_settles_nothing:
  "leaves (\<lambda>st. (records st, db_changes st)) (transition env caller ident to0 reason)"
  unfolding transition_def require_def find_status_def refuse_while_a_workflow_is_deciding_def
    live_instance_of_document_def apply_transition_def move_status_def record_transition_def record_activity_def
  by (intro leaving leaves_statement) (simp_all add: records_def)

end
