(* ===== verification/DocumentEdit.thy ===== *)
theory DocumentEdit
  imports Submission
begin

text \<open>
  A document before it is submitted (\<open>document/service/document.rs\<close>): created as a draft that pins its
  type's form, edited while it is a draft or returned, discarded while it is a draft nobody decides.
  The audit entries of the services are not modelled.
\<close>

section \<open>The request\<close>

datatype DocumentPriority = LowPriority | NormalPriority | HighPriority | UrgentPriority

fun priority_as_db :: "DocumentPriority \<Rightarrow> string" where
  "priority_as_db LowPriority = ''LOW''"
| "priority_as_db NormalPriority = ''NORMAL''"
| "priority_as_db HighPriority = ''HIGH''"
| "priority_as_db UrgentPriority = ''URGENT''"

definition priority_from_db :: "string \<Rightarrow> DocumentPriority" where
  "priority_from_db value =
     (if value = ''LOW'' then LowPriority
      else if value = ''HIGH'' then HighPriority
      else if value = ''URGENT'' then UrgentPriority
      else NormalPriority)"

datatype EntityType = PartyLink | FacilityLink

fun link_as_db :: "EntityType \<Rightarrow> string" where
  "link_as_db PartyLink = ''PARTY''"
| "link_as_db FacilityLink = ''FACILITY''"

definition link_from_db :: "string \<Rightarrow> EntityType option" where
  "link_from_db value =
     (if value = ''PARTY'' then Some PartyLink
      else if value = ''FACILITY'' then Some FacilityLink
      else None)"

interpretation links: db_code link_as_db link_from_db
proof
  show "link_from_db (link_as_db x) = Some x" for x
    by (cases x) (simp_all add: link_from_db_def)
  show "link_from_db s = Some x \<Longrightarrow> link_as_db x = s" for s x
    by (auto simp: link_from_db_def split: if_splits)
qed

fun missing_link :: "EntityType \<Rightarrow> string" where
  "missing_link PartyLink = ''Party''"
| "missing_link FacilityLink = ''Facility''"

definition half :: "string \<Rightarrow> AppError" where
  "half path = Validation [detail path ''required'' ''INCOMPLETE_ENTITY_LINK'' []]"

fun check_pair :: "EntityType option \<Rightarrow> uuid option \<Rightarrow> AppError + (EntityType \<times> uuid) option" where
  "check_pair (Some kind) (Some ident) = Inr (Some (kind, ident))"
| "check_pair None None = Inr None"
| "check_pair (Some _) None = Inl (half ''entityId'')"
| "check_pair None (Some _) = Inl (half ''entityType'')"

datatype MetadataType = StringMeta | NumberMeta | BooleanMeta | DateMeta

fun meta_as_db :: "MetadataType \<Rightarrow> string" where
  "meta_as_db StringMeta = ''STRING''"
| "meta_as_db NumberMeta = ''NUMBER''"
| "meta_as_db BooleanMeta = ''BOOLEAN''"
| "meta_as_db DateMeta = ''DATE''"

definition meta_from_db :: "string \<Rightarrow> MetadataType" where
  "meta_from_db value =
     (if value = ''NUMBER'' then NumberMeta
      else if value = ''BOOLEAN'' then BooleanMeta
      else if value = ''DATE'' then DateMeta
      else StringMeta)"

text \<open>A \<open>BTreeMap\<close> of entries: its keys in order, each with its value and type.\<close>

type_synonym MetadataSet = "(string \<times> string \<times> MetadataType) list"

definition MAX_METADATA_KEYS :: nat where
  "MAX_METADATA_KEYS = 100"

definition MAX_KEY_LENGTH :: nat where
  "MAX_KEY_LENGTH = 64"

definition metadata_key_errors :: "string \<Rightarrow> validation_detail list" where
  "metadata_key_errors key =
     (if trim key = [] then [detail ''metadata'' ''required'' ''EMPTY_KEY'' []]
      else if char_count key > MAX_KEY_LENGTH
      then [detail (''metadata.'' @ key) ''maxLength'' ''KEY_TOO_LONG'' [show_nat MAX_KEY_LENGTH]]
      else [])"

definition validate_metadata :: "MetadataSet \<Rightarrow> AppError + unit" where
  "validate_metadata entries =
     (let details =
        (if length entries > MAX_METADATA_KEYS
         then [detail ''metadata'' ''maxItems'' ''TOO_MANY_KEYS''
                 [show_nat MAX_METADATA_KEYS, show_nat (length entries)]]
         else []) @
        concat (map (\<lambda>(key, _). metadata_key_errors key) entries)
      in if details = [] then Inr () else Inl (Validation details))"

record CreateDocumentRequest =
  cd_type :: uuid
  cd_title :: string
  cd_form_data :: "json option"
  cd_metadata :: "MetadataSet option"
  cd_priority :: "DocumentPriority option"
  cd_entity_type :: "EntityType option"
  cd_entity :: "uuid option"
  cd_department :: "uuid option"
  cd_facility :: "uuid option"

text \<open>An absent member of an update is \<open>None\<close>; a null one, where the field may be cleared, is \<open>Some None\<close>.\<close>

record UpdateDocumentRequest =
  ud_title :: "string option"
  ud_form_data :: "json option"
  ud_metadata :: "MetadataSet option"
  ud_priority :: "DocumentPriority option"
  ud_entity_type :: "EntityType option option"
  ud_entity :: "uuid option option"
  ud_department :: "uuid option option"
  ud_facility :: "uuid option option"

definition MAX_TITLE_LENGTH :: nat where
  "MAX_TITLE_LENGTH = 200"

definition MAX_FORM_DATA_BYTES :: nat where
  "MAX_FORM_DATA_BYTES = 1024 * 1024"

definition title_errors :: "string option \<Rightarrow> validation_detail list" where
  "title_errors title =
     (case title of
        None \<Rightarrow> []
      | Some given \<Rightarrow>
          if trim given = [] then [detail ''title'' ''required'' ''REQUIRED'' []]
          else if utf16_length (trim given) > MAX_TITLE_LENGTH
          then [detail ''title'' ''maxLength'' ''TOO_LONG'' [show_nat MAX_TITLE_LENGTH]]
          else [])"

definition form_data_errors :: "Env \<Rightarrow> json option \<Rightarrow> validation_detail list" where
  "form_data_errors env form =
     (case form of
        None \<Rightarrow> []
      | Some given \<Rightarrow>
          if as_object given = None then [detail ''formData'' ''type'' ''PAYLOAD_NOT_AN_OBJECT'' []]
          else if length (json_text env given) > MAX_FORM_DATA_BYTES
          then [detail ''formData'' ''maxLength'' ''PAYLOAD_TOO_LARGE''
                  [show_nat (length (json_text env given)), show_nat MAX_FORM_DATA_BYTES]]
          else [])"

definition validate_document ::
  "Env \<Rightarrow> string option \<Rightarrow> json option \<Rightarrow> MetadataSet option \<Rightarrow> AppError + unit" where
  "validate_document env title form entries =
     (let details = title_errors title @ form_data_errors env form in
      if details \<noteq> [] then Inl (Validation details)
      else (case entries of None \<Rightarrow> Inr () | Some given \<Rightarrow> validate_metadata given))"

definition validate_create :: "Env \<Rightarrow> CreateDocumentRequest \<Rightarrow> AppError + unit" where
  "validate_create env request =
     validate_document env (Some (cd_title request)) (cd_form_data request) (cd_metadata request)"

definition validate_update :: "Env \<Rightarrow> UpdateDocumentRequest \<Rightarrow> AppError + unit" where
  "validate_update env request =
     validate_document env (ud_title request) (ud_form_data request) (ud_metadata request)"

section \<open>Statements\<close>

definition reference_key :: "Env \<Rightarrow> string" where
  "reference_key env = show_int (year env)"

definition render_reference :: "string \<Rightarrow> nat \<Rightarrow> string" where
  "render_reference key sequence = ''DOC-'' @ key @ ''-'' @ padded sequence"

definition allocate_reference :: "Env \<Rightarrow> uuid \<Rightarrow> string \<Rightarrow> string tx" where
  "allocate_reference env tenant key =
     sql env from_sqlx (\<lambda>st.
       Inr (db_references_update (advance tenant key) st,
            render_reference key (issued tenant key (db_references st))))"

definition lock_linked_entity :: "Env \<Rightarrow> uuid \<Rightarrow> EntityType \<times> uuid \<Rightarrow> bool tx" where
  "lock_linked_entity env tenant link = fetch env (\<lambda>st.
     case link of
       (PartyLink, ident) \<Rightarrow> find (the_party tenant ident) (db_parties st) \<noteq> None
     | (FacilityLink, ident) \<Rightarrow> find (the_facility tenant ident) (db_facilities st) \<noteq> None)"

fun lower_link :: "EntityType \<Rightarrow> string" where
  "lower_link PartyLink = ''party''"
| "lower_link FacilityLink = ''facility''"

definition check_entity :: "Env \<Rightarrow> uuid \<Rightarrow> EntityType \<times> uuid \<Rightarrow> unit tx" where
  "check_entity env tenant link =
     seq (lock_linked_entity env tenant link) (\<lambda>found.
     refuse_if (\<not> found) (Validation [detail ''entityId'' ''reference'' ''NOT_FOUND''
       [lower_link (fst link), snd link]]))"

text \<open>The foreign keys of a document: a department and a facility, of any tenant.\<close>

definition references_exist :: "Store \<Rightarrow> uuid option \<Rightarrow> uuid option \<Rightarrow> bool" where
  "references_exist st department facility \<longleftrightarrow>
     (case department of None \<Rightarrow> True | Some d \<Rightarrow> list_ex (\<lambda>r. de_id r = d) (db_departments st)) \<and>
     (case facility of None \<Rightarrow> True | Some f \<Rightarrow> list_ex (\<lambda>r. fa_id r = f) (db_facilities st))"

fun insert_error :: "SqlxError \<Rightarrow> AppError" where
  "insert_error (UniqueViolation _) = Conflict ''a document with this reference already exists''"
| "insert_error (ForeignKeyViolation _) =
     Validation [detail ''requestedForDepartmentId'' ''reference'' ''NOT_FOUND'' []]"
| "insert_error e = from_sqlx e"

definition document_clash :: "document_row \<Rightarrow> document_row \<Rightarrow> bool" where
  "document_clash new old \<longleftrightarrow>
     do_id old = do_id new \<or>
     (do_tenant old = do_tenant new \<and> do_ref old = do_ref new \<and> \<not> do_deleted old)"

definition insert_document :: "Env \<Rightarrow> document_row \<Rightarrow> unit tx" where
  "insert_document env row =
     sql env insert_error (\<lambda>st.
       if list_ex (document_clash row) (db_documents st) then Inl (UniqueViolation ''documents'')
       else if \<not> references_exist st (do_requested_department row) (do_requested_facility row)
       then Inl (ForeignKeyViolation ''documents'')
       else Inr (db_documents_update (\<lambda>ds. ds @ [row]) st, ()))"

record DocumentFields =
  fl_title :: "string option"
  fl_form_data :: "json option"
  fl_priority :: "string option"
  fl_entity_type :: "string option option"
  fl_entity :: "uuid option option"
  fl_department :: "uuid option option"
  fl_facility :: "uuid option option"

definition write_fields :: "DocumentFields \<Rightarrow> document_row \<Rightarrow> document_row" where
  "write_fields fs d =
     d\<lparr>do_title := coalesce (fl_title fs) (do_title d),
       do_form_data := coalesce (fl_form_data fs) (do_form_data d),
       do_priority := coalesce (fl_priority fs) (do_priority d),
       do_entity_type := coalesce (fl_entity_type fs) (do_entity_type d),
       do_entity := coalesce (fl_entity fs) (do_entity d),
       do_requested_department := coalesce (fl_department fs) (do_requested_department d),
       do_requested_facility := coalesce (fl_facility fs) (do_requested_facility d)\<rparr>"

definition update_fields :: "Env \<Rightarrow> uuid \<Rightarrow> uuid \<Rightarrow> DocumentFields \<Rightarrow> nat tx" where
  "update_fields env tenant ident fs =
     sql env from_sqlx (\<lambda>st.
       if list_ex (submittable_row tenant ident) (db_documents st) \<and>
          \<not> references_exist st (coalesce (fl_department fs) None) (coalesce (fl_facility fs) None)
       then Inl (ForeignKeyViolation ''documents'')
       else
         Inr (db_documents_update (update_where (submittable_row tenant ident) (write_fields fs)) st,
              count_where (submittable_row tenant ident) (db_documents st)))"

definition soft_delete :: "Env \<Rightarrow> uuid \<Rightarrow> uuid \<Rightarrow> nat tx" where
  "soft_delete env tenant ident =
     update_rows env db_documents db_documents_update
       (\<lambda>d. the_document tenant ident d \<and> do_status d = ''DRAFT'') (\<lambda>d. d\<lparr>do_deleted := True\<rparr>)"

definition metadata_clash :: "metadata_row \<Rightarrow> metadata_row \<Rightarrow> bool" where
  "metadata_clash new old \<longleftrightarrow>
     md_document old = md_document new \<and> md_key old = md_key new \<and> \<not> md_deleted old"

definition replace_metadata :: "Env \<Rightarrow> uuid \<Rightarrow> uuid \<Rightarrow> MetadataSet \<Rightarrow> unit tx" where
  "replace_metadata env tenant document entries =
     seq (execute env (db_metadata_update
            (filter (\<lambda>r. \<not> (md_tenant r = tenant \<and> md_document r = document))))) (\<lambda>_.
     for_each (\<lambda>(key, v, kind).
       insert_unique env from_sqlx db_metadata db_metadata_update metadata_clash ''document_metadata''
         \<lparr>md_tenant = tenant, md_document = document, md_key = trim key, md_value = v,
          md_type = meta_as_db kind, md_deleted = False\<rparr>) entries)"

definition metadata_set :: "Env \<Rightarrow> uuid \<Rightarrow> uuid \<Rightarrow> MetadataSet tx" where
  "metadata_set env tenant document = fetch env (\<lambda>st.
     map (\<lambda>r. (md_key r, md_value r, meta_from_db (md_type r)))
       (sort_key md_key
         (filter (\<lambda>r. md_tenant r = tenant \<and> md_document r = document \<and> \<not> md_deleted r) (db_metadata st))))"

text \<open>A document as the API returns it: its row, with the columns the code decodes.\<close>

record Document =
  dv_row :: document_row
  dv_status :: DocumentStatus
  dv_priority :: DocumentPriority
  dv_entity_type :: "EntityType option"
  dv_metadata :: MetadataSet

definition find_whole :: "Env \<Rightarrow> uuid \<Rightarrow> uuid \<Rightarrow> Document option tx" where
  "find_whole env tenant ident =
     seq (find_document env tenant ident) (\<lambda>found.
     case found of
       None \<Rightarrow> ret None
     | Some d \<Rightarrow>
         seq (metadata_set env tenant ident) (\<lambda>entries.
         ret (Some \<lparr>dv_row = d, dv_status = status_from_db (do_status d),
                    dv_priority = priority_from_db (do_priority d),
                    dv_entity_type = Option.bind (do_entity_type d) link_from_db,
                    dv_metadata = entries\<rparr>)))"

section \<open>The services\<close>

definition DOCUMENT_READ :: string where
  "DOCUMENT_READ = ''document:read''"

definition DOCUMENT_CREATE :: string where
  "DOCUMENT_CREATE = ''document:create''"

definition DOCUMENT_UPDATE :: string where
  "DOCUMENT_UPDATE = ''document:update''"

definition DOCUMENT_DELETE :: string where
  "DOCUMENT_DELETE = ''document:delete''"

definition vanished :: "uuid \<Rightarrow> AppError" where
  "vanished ident = Internal (''document '' @ ident @ '' vanished after it was written'')"

definition load_document :: "Env \<Rightarrow> uuid \<Rightarrow> uuid \<Rightarrow> Document tx" where
  "load_document env tenant ident =
     seq (find_whole env tenant ident) (\<lambda>found. need (vanished ident) found)"

definition get_document :: "Env \<Rightarrow> Caller \<Rightarrow> uuid \<Rightarrow> Document tx" where
  "get_document env caller ident =
     seq (require caller DOCUMENT_READ) (\<lambda>_.
     seq (find_whole env (ca_tenant caller) ident) (\<lambda>found.
     need (NotFound ''Document'') found))"

definition no_such_type :: "uuid \<Rightarrow> AppError" where
  "no_such_type type0 = Validation [detail ''documentTypeId'' ''reference'' ''NOT_FOUND'' [type0]]"

definition new_document ::
  "uuid \<Rightarrow> uuid \<Rightarrow> string \<Rightarrow> uuid option \<Rightarrow> json \<Rightarrow> (EntityType \<times> uuid) option \<Rightarrow> uuid option \<Rightarrow>
   CreateDocumentRequest \<Rightarrow> document_row" where
  "new_document tenant ident ref form data0 entity actor request =
     \<lparr>do_tenant = tenant, do_id = ident, do_ref = ref, do_type = cd_type request, do_form = form,
      do_number = None, do_title = trim (cd_title request), do_status = ''DRAFT'',
      do_form_data = data0, do_created_by = actor,
      do_priority = priority_as_db (coalesce (cd_priority request) NormalPriority),
      do_entity_type = map_option (link_as_db \<circ> fst) entity, do_entity = map_option snd entity,
      do_requested_by = actor, do_requested_department = cd_department request,
      do_requested_facility = cd_facility request, do_submitted = None, do_instance = None,
      do_completed = None, do_deleted = False\<rparr>"

definition create_held ::
  "Libraries \<Rightarrow> Env \<Rightarrow> Caller \<Rightarrow> CreateDocumentRequest \<Rightarrow> (EntityType \<times> uuid) option \<Rightarrow> uuid \<Rightarrow> unit tx" where
  "create_held lb env caller request entity ident =
     (let tenant = ca_tenant caller; actor = Some (ca_user caller) in
     seq (lock_pinned_form env tenant (cd_type request)) (\<lambda>found.
     seq (need (no_such_type (cd_type request)) found) (\<lambda>pinned.
     seq (case entity of None \<Rightarrow> ret () | Some link \<Rightarrow> check_entity env tenant link) (\<lambda>_.
     seq (lift_result (secured lb pinned (coalesce (cd_form_data request) (Object [])) Draft)) (\<lambda>form.
     seq (allocate_reference env tenant (reference_key env)) (\<lambda>ref.
     seq (insert_document env (new_document tenant ident ref (pf_form pinned) form entity actor request)) (\<lambda>_.
     seq (case cd_metadata request of None \<Rightarrow> ret ()
          | Some entries \<Rightarrow> replace_metadata env tenant ident entries) (\<lambda>_.
     seq (record_transition env tenant ident None DocDraft actor None) (\<lambda>_.
     record_activity env
       \<lparr>ac_tenant = tenant, ac_document = Some ident, ac_instance = None, ac_task = None,
        ac_type = ''Document.Created'', ac_actor = actor,
        ac_details = json_object [(''documentTypeId'', String (cd_type request))]\<rparr>)))))))))"

definition create_document :: "Libraries \<Rightarrow> Env \<Rightarrow> Caller \<Rightarrow> CreateDocumentRequest \<Rightarrow> Document tx" where
  "create_document lb env caller request =
     seq (require caller DOCUMENT_CREATE) (\<lambda>_.
     seq (lift_result (validate_create env request)) (\<lambda>_.
     seq (lift_result (check_pair (cd_entity_type request) (cd_entity request))) (\<lambda>entity.
     seq (fresh_id env) (\<lambda>ident.
     seq (transaction (create_held lb env caller request entity ident)) (\<lambda>_.
     load_document env (ca_tenant caller) ident)))))"

definition not_editable :: "DocumentStatus \<Rightarrow> AppError" where
  "not_editable status =
     Conflict (''this document is '' @ status_as_db status @
       '' and only a draft or a returned document can be edited; a submitted document is moved '' @
       ''through PUT /documents/{id}/status'')"

text \<open>The link an update asks for: not at all, cleared, or another record.\<close>

definition entity_change ::
  "UpdateDocumentRequest \<Rightarrow> AppError + (EntityType \<times> uuid) option option" where
  "entity_change request =
     (case (ud_entity_type request, ud_entity request) of
        (None, None) \<Rightarrow> Inr None
      | (kind, ident) \<Rightarrow>
          (case check_pair (Option.bind kind id) (Option.bind ident id) of
             Inl e \<Rightarrow> Inl e
           | Inr link \<Rightarrow> Inr (Some link)))"

definition fields_of ::
  "UpdateDocumentRequest \<Rightarrow> json option \<Rightarrow> (EntityType \<times> uuid) option option \<Rightarrow> DocumentFields" where
  "fields_of request form change =
     \<lparr>fl_title = map_option trim (ud_title request), fl_form_data = form,
      fl_priority = map_option priority_as_db (ud_priority request),
      fl_entity_type = map_option (map_option (link_as_db \<circ> fst)) change,
      fl_entity = map_option (map_option snd) change,
      fl_department = ud_department request, fl_facility = ud_facility request\<rparr>"

definition update_held :: "Libraries \<Rightarrow> Env \<Rightarrow> Caller \<Rightarrow> uuid \<Rightarrow> UpdateDocumentRequest \<Rightarrow> Document tx" where
  "update_held lb env caller ident request =
     (let tenant = ca_tenant caller in
     seq (lock_document env tenant ident) (\<lambda>found.
     seq (need (NotFound ''Document'') found) (\<lambda>held.
     seq (refuse_if (\<not> is_editable (ld_status held)) (not_editable (ld_status held))) (\<lambda>_.
     seq (lift_result (entity_change request)) (\<lambda>change.
     seq (case change of Some (Some link) \<Rightarrow> check_entity env tenant link | _ \<Rightarrow> ret ()) (\<lambda>_.
     seq (case ud_form_data request of
            None \<Rightarrow> ret None
          | Some submitted \<Rightarrow>
              seq (pinned_form_of env tenant held) (\<lambda>pinned.
              seq (lift_result (secured lb pinned submitted Draft)) (\<lambda>form. ret (Some form)))) (\<lambda>form.
     seq (update_fields env tenant ident (fields_of request form change)) (\<lambda>affected.
     seq (refuse_if (affected = 0) (not_editable (ld_status held))) (\<lambda>_.
     seq (case ud_metadata request of None \<Rightarrow> ret ()
          | Some entries \<Rightarrow> replace_metadata env tenant ident entries) (\<lambda>_.
     load_document env tenant ident))))))))))"

definition update_document ::
  "Libraries \<Rightarrow> Env \<Rightarrow> Caller \<Rightarrow> uuid \<Rightarrow> UpdateDocumentRequest \<Rightarrow> Document tx" where
  "update_document lb env caller ident request =
     seq (require caller DOCUMENT_UPDATE) (\<lambda>_.
     seq (lift_result (validate_update env request)) (\<lambda>_.
     seq (find_whole env (ca_tenant caller) ident) (\<lambda>before.
     seq (need (NotFound ''Document'') before) (\<lambda>_.
     transaction (update_held lb env caller ident request)))))"

definition not_discardable :: "DocumentStatus \<Rightarrow> AppError" where
  "not_discardable status =
     Conflict (''this document is '' @ status_as_db status @
       '' and only a draft can be discarded; a submitted document is withdrawn through '' @
       ''PUT /documents/{id}/status'' @
       (if status = DocReturned
        then '' '' @ [CHR 0xE2, CHR 0x80, CHR 0x94] @
          '' a returned document has a number and a process waiting for it, so it is corrected and '' @
          ''sent again, or cancelled''
        else []))"

definition strands_process :: "uuid \<Rightarrow> AppError" where
  "strands_process inst =
     Conflict (''this document is being decided by workflow instance '' @ inst @
       ''; discarding it would strand that process, and nothing could move it afterwards '' @
       [CHR 0xE2, CHR 0x80, CHR 0x94] @ '' not even an administrator, because every later decision '' @
       ''would answer 404 for a document that is no longer there. Act on the task instead'')"

definition delete_held :: "Env \<Rightarrow> uuid \<Rightarrow> uuid \<Rightarrow> unit tx" where
  "delete_held env tenant ident =
     seq (lock_document env tenant ident) (\<lambda>found.
     seq (need (NotFound ''Document'') found) (\<lambda>held.
     seq (refuse_if (\<not> is_discardable (ld_status held)) (not_discardable (ld_status held))) (\<lambda>_.
     seq (live_instance_of_document env tenant ident) (\<lambda>deciding.
     seq (case deciding of None \<Rightarrow> ret () | Some inst \<Rightarrow> fail (strands_process inst)) (\<lambda>_.
     seq (soft_delete env tenant ident) (\<lambda>deleted.
     refuse_if (deleted = 0) (not_discardable (ld_status held))))))))"

definition delete_document :: "Env \<Rightarrow> Caller \<Rightarrow> uuid \<Rightarrow> unit tx" where
  "delete_document env caller ident =
     seq (require caller DOCUMENT_DELETE) (\<lambda>_.
     seq (find_whole env (ca_tenant caller) ident) (\<lambda>before.
     seq (need (NotFound ''Document'') before) (\<lambda>_.
     transaction (delete_held env (ca_tenant caller) ident))))"

end
