(* ===== verification/DocumentEditFacts.thy ===== *)
theory DocumentEditFacts
  imports DocumentEdit SubmissionFacts
begin

text \<open>
  Creating, editing and discarding: a new document is a draft that pins its type's form and holds what
  the server made of its data; a document that is neither a draft nor returned is never touched.
\<close>

section \<open>What the other statements leave alone\<close>

lemma reads_edit [leaving]:
  "leaves tables (lock_pinned_form env tenant type0)" "leaves tables (check_entity env tenant link)"
  "leaves tables (find_document env tenant ident)" "leaves tables (metadata_set env tenant ident)"
  "leaves tables (live_instance_of_document env tenant ident)"
  unfolding lock_pinned_form_def check_entity_def lock_linked_entity_def find_document_def
    metadata_set_def live_instance_of_document_def
  by (intro leaving)+

lemma reads_whole [leaving]: "leaves tables (find_whole env tenant ident)"
  "leaves tables (load_document env tenant ident)"
  unfolding load_document_def find_whole_def by (intro leaving)+

lemma documents_metadata: "leaves db_documents (replace_metadata env tenant document entries)"
  unfolding replace_metadata_def
  by (intro leaving leaves_execute) (auto intro: leaves_insert_unique)

lemma documents_rows:
  "leaves db_documents (record_transition env tenant ident from to0 actor reason)"
  "leaves db_documents (record_activity env row)"
  "leaves db_documents (allocate_reference env tenant key)"
  unfolding record_transition_def record_activity_def allocate_reference_def
  by (auto intro!: leaves_append_row leaves_sql)

section \<open>Creating\<close>

lemma insert_document_Inr:
  "insert_document env row st = (st', Inr u) \<Longrightarrow>
   db_documents st' = db_documents st @ [row] \<and> \<not> list_ex (document_clash row) (db_documents st)"
  by (auto simp: insert_document_def sql_Inr split: if_splits)

lemma lock_pinned_Inr:
  assumes "lock_pinned_form env tenant type0 st = (st', Inr (Some pinned))"
  obtains t where "find (the_type tenant type0) (db_types st) = Some t" "pf_form pinned = ty_form t"
    "pf_definition pinned = Option.bind (ty_form t) (\<lambda>ident.
       map_option fm_definition (find (\<lambda>f. fm_tenant f = tenant \<and> fm_id f = ident) (db_forms st)))"
  using assms
  by (cases "find (the_type tenant type0) (db_types st)")
    (auto simp: lock_pinned_form_def definition_of_def steps split: option.splits)

lemma create_Inr:
  assumes "create_document lb env caller request st = (st', Inr v)"
  obtains row t where
    "db_documents st' = db_documents st @ [row]" "find (the_type (ca_tenant caller) (cd_type request)) (db_types st) = Some t"
    "do_tenant row = ca_tenant caller" "do_type row = cd_type request" "do_status row = ''DRAFT''"
    "do_number row = None" "do_instance row = None" "do_form row = ty_form t" "\<not> do_deleted row"
    "do_created_by row = Some (ca_user caller)" "do_title row = trim (cd_title request)"
    "\<not> list_ex (document_clash row) (db_documents st)"
    "case Option.bind (ty_form t) (\<lambda>ident. map_option fm_definition
        (find (\<lambda>f. fm_tenant f = ca_tenant caller \<and> fm_id f = ident) (db_forms st))) of
       None \<Rightarrow> do_form_data row = Object []
     | Some definition0 \<Rightarrow>
         secure lb definition0 (coalesce (cd_form_data request) (Object [])) Draft = Some (Inr (do_form_data row))"
proof -
  let ?t = "ca_tenant caller" and ?actor = "Some (ca_user caller)"
  from assms obtain entity ident s1 s2 where
    s1: "s1 = st\<lparr>db_fresh := Suc (db_fresh st)\<rparr>"
    and held: "create_held lb env caller request entity ident s1 = (s2, Inr ())"
    and loaded: "load_document env ?t ident s2 = (st', Inr v)"
    by (auto simp: create_document_def steps require_def)
  from held obtain s3 found s4 pinned s5 x5 s6 form s7 ref s8 x8 s9 x9 where
    pinned: "lock_pinned_form env ?t (cd_type request) s1 = (s3, Inr found)"
      "need (no_such_type (cd_type request)) found s3 = (s4, Inr pinned)"
    and entity: "(case entity of None \<Rightarrow> ret () | Some link \<Rightarrow> check_entity env ?t link) s4 = (s5, Inr x5)"
    and form: "lift_result (secured lb pinned (coalesce (cd_form_data request) (Object [])) Draft) s5 = (s6, Inr form)"
    and ref: "allocate_reference env ?t (reference_key env) s6 = (s7, Inr ref)"
    and inserted: "insert_document env (new_document ?t ident ref (pf_form pinned) form entity ?actor request) s7
       = (s8, Inr x8)"
    and rest: "seq (case cd_metadata request of None \<Rightarrow> ret ()
          | Some entries \<Rightarrow> replace_metadata env ?t ident entries) (\<lambda>_.
     seq (record_transition env ?t ident None DocDraft ?actor None) (\<lambda>_.
     record_activity env
       \<lparr>ac_tenant = ?t, ac_document = Some ident, ac_instance = None, ac_task = None,
        ac_type = ''Document.Created'', ac_actor = ?actor,
        ac_details = json_object [(''documentTypeId'', String (cd_type request))]\<rparr>)) s8 = (s2, Inr ())"
    unfolding create_held_def Let_def
    by - (erule seq_InrE, erule seq_InrE, erule seq_InrE, erule seq_InrE, erule seq_InrE, erule seq_InrE,
        rule that, assumption+)
  have found: "found = Some pinned" "s4 = s3" using pinned(2) by (simp_all add: need_Inr)
  note same3 = readD [OF reads_edit(1) pinned(1)]
  have "leaves tables (case entity of None \<Rightarrow> ret () | Some link \<Rightarrow> check_entity env ?t link)"
    by (intro leaving)
  note same5 = readD [OF this entity]
  have s7: "db_documents s7 = db_documents st"
    using leavesD [OF documents_rows(3) ref] same3 same5 found(2) form s1 by (simp add: lift_result_Inr)
  have "leaves db_documents (seq (case cd_metadata request of None \<Rightarrow> ret ()
          | Some entries \<Rightarrow> replace_metadata env ?t ident entries) (\<lambda>_.
     seq (record_transition env ?t ident None DocDraft ?actor None) (\<lambda>_.
     record_activity env
       \<lparr>ac_tenant = ?t, ac_document = Some ident, ac_instance = None, ac_task = None,
        ac_type = ''Document.Created'', ac_actor = ?actor,
        ac_details = json_object [(''documentTypeId'', String (cd_type request))]\<rparr>)))"
    by (intro leaves_seq leaves_option leaves_ret documents_metadata documents_rows)
  note s2 = leavesD [OF this rest]
  let ?row = "new_document ?t ident ref (pf_form pinned) form entity ?actor request"
  have docs: "db_documents st' = db_documents st @ [?row]" "\<not> list_ex (document_clash ?row) (db_documents st)"
    using s2 readD [OF reads_whole(2) loaded] insert_document_Inr [OF inserted] s7 by simp_all
  obtain t where t: "find (the_type ?t (cd_type request)) (db_types s1) = Some t" "pf_form pinned = ty_form t"
    "pf_definition pinned = Option.bind (ty_form t) (\<lambda>ident.
       map_option fm_definition (find (\<lambda>f. fm_tenant f = ?t \<and> fm_id f = ident) (db_forms s1)))"
    by (rule lock_pinned_Inr [OF pinned(1) [unfolded found(1)]])
  have form0: "case pf_definition pinned of None \<Rightarrow> form = Object []
     | Some definition0 \<Rightarrow> secure lb definition0 (coalesce (cd_form_data request) (Object [])) Draft = Some (Inr form)"
    using form by (auto simp: lift_result_Inr secured_def split: option.splits if_splits sum.splits)
  have same: "db_types s1 = db_types st" "db_forms s1 = db_forms st" using s1 by simp_all
  have row: "do_tenant ?row = ?t" "do_type ?row = cd_type request" "do_status ?row = ''DRAFT''"
    "do_number ?row = None" "do_instance ?row = None" "do_form ?row = pf_form pinned" "\<not> do_deleted ?row"
    "do_created_by ?row = ?actor" "do_title ?row = trim (cd_title request)" "do_form_data ?row = form"
    by (simp_all add: new_document_def)
  show thesis
  proof (rule that [OF docs(1) t(1) [unfolded same] row(1-5) _ row(7-9) docs(2)])
    show "do_form ?row = ty_form t" using row(6) t(2) by simp
    show "case Option.bind (ty_form t) (\<lambda>ident. map_option fm_definition
        (find (\<lambda>f. fm_tenant f = ?t \<and> fm_id f = ident) (db_forms st))) of
       None \<Rightarrow> do_form_data ?row = Object []
     | Some definition0 \<Rightarrow>
         secure lb definition0 (coalesce (cd_form_data request) (Object [])) Draft = Some (Inr (do_form_data ?row))"
      using form0 unfolding t(3) same row(10) .
  qed
qed

section \<open>A document that is neither a draft nor returned\<close>

definition settled_rows :: "Store \<Rightarrow> document_row list" where
  "settled_rows st = filter (\<lambda>d. do_status d \<notin> {''DRAFT'', ''RETURNED''}) (db_documents st)"

lemma settled_counted [simp]: "settled_rows (counted st0 st) = settled_rows st"
  by (simp add: settled_rows_def)

lemma settled_update:
  assumes "\<And>d. p d \<Longrightarrow> do_status d \<in> {''DRAFT'', ''RETURNED''} \<and> do_status (f d) \<in> {''DRAFT'', ''RETURNED''}"
  shows "settled_rows (db_documents_update (update_where p f) st) = settled_rows st"
proof -
  have "filter (\<lambda>d. do_status d \<notin> {''DRAFT'', ''RETURNED''}) (update_where p f ds) =
      filter (\<lambda>d. do_status d \<notin> {''DRAFT'', ''RETURNED''}) ds" for ds
    using assms by (induction ds) (auto simp: update_where_def)
  then show ?thesis by (simp add: settled_rows_def)
qed

lemma settled_same: "leaves db_documents m \<Longrightarrow> leaves settled_rows m"
  unfolding leaves_def settled_rows_def by simp

lemmas settled_reads = reads_db_documents [THEN settled_same]

lemma settled_insert: "do_status row = ''DRAFT'' \<Longrightarrow> leaves settled_rows (insert_document env row)"
  unfolding insert_document_def
  by (rule leaves_sql) (auto simp: settled_rows_def split: if_splits)

lemma settled_fields: "leaves settled_rows (update_fields env tenant ident fs)"
proof -
  have "settled_rows (db_documents_update (update_where (submittable_row tenant ident) (write_fields fs)) st) =
      settled_rows st" for st
    by (rule settled_update) (auto simp: submittable_row_def write_fields_def)
  then show ?thesis unfolding update_fields_def by (intro leaves_sql) (auto split: if_splits)
qed

lemma settled_delete: "leaves settled_rows (soft_delete env tenant ident)"
  unfolding soft_delete_def by (rule leaves_update_rows) (simp, rule settled_update, simp)

lemma settled_create: "leaves settled_rows (create_document lb env caller request)"
  unfolding create_document_def create_held_def require_def Let_def
  by (intro leaves_seq leaves_transaction leaves_option settled_insert settled_same [OF documents_metadata]
      settled_same [OF documents_rows(1)] settled_same [OF documents_rows(2)] settled_same [OF documents_rows(3)]
      settled_reads leaving) (simp_all add: new_document_def settled_rows_def leaves_def fresh_id_def)

lemma settled_edit: "leaves settled_rows (update_document lb env caller ident request)"
proof -
  have change: "leaves settled_rows (case change of Some (Some link) \<Rightarrow> check_entity env tenant link | _ \<Rightarrow> ret ())"
    for tenant and change :: "(EntityType \<times> uuid) option option"
    by (cases change) (auto intro!: settled_reads leaving split: option.split)
  show ?thesis
    unfolding update_document_def update_held_def require_def Let_def
    by (intro leaves_seq leaves_transaction leaves_option settled_fields settled_same [OF documents_metadata]
        change settled_reads leaving)
qed

lemma settled_discard: "leaves settled_rows (delete_document env caller ident)"
  unfolding delete_document_def delete_held_def require_def
  by (intro leaves_seq leaves_transaction leaves_option settled_delete settled_reads leaving)


section \<open>Two answers to one mistake\<close>

text \<open>
  A step that goes on where another run of it succeeded, in a tenant without the department: the run
  that differs only in the department reaches the same statement.
\<close>

definition no_department :: "uuid \<Rightarrow> Store \<Rightarrow> bool" where
  "no_department department st \<longleftrightarrow> (\<forall>r \<in> set (db_departments st). de_id r \<noteq> department)"

lemma goes_on:
  assumes "seq m f st = (st', Inr v)" "no_department department st" "leaves db_departments m"
    "\<And>st1 x. m st = (st1, Inr x) \<Longrightarrow> f x st1 = (st', Inr v) \<Longrightarrow> no_department department st1 \<Longrightarrow>
      snd (g x st1) = Inl e"
  shows "snd (seq m g st) = Inl e"
proof -
  from assms(1) obtain st1 x where m: "m st = (st1, Inr x)" "f x st1 = (st', Inr v)" by (auto simp: seq_Inr)
  with assms(2) leavesD [OF assms(3) m(1)] have "no_department department st1" by (simp add: no_department_def)
  with m assms(4) show ?thesis by (simp add: seq_def)
qed

lemma stops_here:
  assumes "seq m f st = (st', Inr v)" "\<And>st1 x. m st = (st1, Inr x) \<Longrightarrow> f x st1 = (st', Inr v) \<Longrightarrow> snd (m' st) = Inl e"
  shows "snd (seq m' g st) = Inl e"
  using assms by (cases "m' st") (auto simp: seq_def split: prod.splits sum.splits)

lemma rolls_back:
  assumes "transaction m st = (st', Inr v)" "m st = (st', Inr v) \<Longrightarrow> snd (m' st) = Inl e"
  shows "snd (transaction m' st) = Inl e"
  using assms by (cases "m' st") (auto simp: transaction_def split: prod.splits sum.splits)

lemma departments_reads: "leaves tables m \<Longrightarrow> leaves db_departments m"
  by (erule leaves_reads) (simp add: tables_sel)

lemma departments_reference: "leaves db_departments (allocate_reference env tenant key)"
  unfolding allocate_reference_def by (auto intro!: leaves_statement split: if_splits)

lemma insert_unknown:
  assumes "insert_document env (new_document tenant ident ref form data0 entity actor
      (request\<lparr>cd_department := None\<rparr>)) st = (st', Inr u)" "no_department department st"
  shows "snd (insert_document env (new_document tenant ident ref form data0 entity actor
      (request\<lparr>cd_department := Some department\<rparr>)) st) =
    Inl (Validation [detail ''requestedForDepartmentId'' ''reference'' ''NOT_FOUND'' []])"
  using assms
  by (auto simp: insert_document_def sql_def references_exist_def list_ex_iff no_department_def new_document_def
      document_clash_def split: option.splits if_splits)

lemma same_request:
  "validate_create env (request\<lparr>cd_department := q\<rparr>) = validate_create env request"
  "cd_type (request\<lparr>cd_department := q\<rparr>) = cd_type request"
  "cd_form_data (request\<lparr>cd_department := q\<rparr>) = cd_form_data request"
  "cd_metadata (request\<lparr>cd_department := q\<rparr>) = cd_metadata request"
  "cd_entity_type (request\<lparr>cd_department := q\<rparr>) = cd_entity_type request"
  "cd_entity (request\<lparr>cd_department := q\<rparr>) = cd_entity request"
  "validate_update env (changes\<lparr>ud_department := p\<rparr>) = validate_update env changes"
  "entity_change (changes\<lparr>ud_department := p\<rparr>) = entity_change changes"
  "ud_form_data (changes\<lparr>ud_department := p\<rparr>) = ud_form_data changes"
  "ud_metadata (changes\<lparr>ud_department := p\<rparr>) = ud_metadata changes"
  by (simp_all add: validate_create_def validate_update_def entity_change_def)

lemma unknown_at_creation:
  assumes "create_document lb env caller (request\<lparr>cd_department := None\<rparr>) st = (st', Inr v)"
    "no_department department st"
  shows "snd (create_document lb env caller (request\<lparr>cd_department := Some department\<rparr>) st) =
    Inl (Validation [detail ''requestedForDepartmentId'' ''reference'' ''NOT_FOUND'' []])"
  using assms unfolding create_document_def require_def create_held_def Let_def same_request
  apply -
  apply (erule goes_on, assumption, (intro departments_reads leaving; fail))+
  apply (erule goes_on, assumption, (rule leaves_fresh_id; simp))
  apply (erule stops_here, erule rolls_back)
  apply (erule goes_on, assumption, (intro departments_reads leaving; fail))+
  apply (erule goes_on, assumption, rule departments_reference)
  apply (erule stops_here, erule insert_unknown, assumption)
  done

lemma edit_unknown:
  assumes "update_fields env tenant ident (fields_of (changes\<lparr>ud_department := None\<rparr>) form change) st = (st1, Inr n)"
    "no_department department st" "n \<noteq> 0"
  shows "snd (update_fields env tenant ident
      (fields_of (changes\<lparr>ud_department := Some (Some department)\<rparr>) form change) st) = Inl (Internal ''documents'')"
proof -
  have "list_ex (submittable_row tenant ident) (db_documents st)"
    using assms(1,3)
    by (auto simp: update_fields_def sql_def list_ex_iff count_where_def filter_empty_conv
        split: option.splits if_splits)
  with assms(1,2) show ?thesis
    by (auto simp: update_fields_def sql_def references_exist_def list_ex_iff no_department_def fields_of_def
        coalesce_def split: option.splits if_splits)
qed

lemma unknown_at_edit:
  assumes "update_document lb env caller ident (changes\<lparr>ud_department := None\<rparr>) st = (st', Inr v)"
    "no_department department st"
  shows "snd (update_document lb env caller ident (changes\<lparr>ud_department := Some (Some department)\<rparr>) st) =
    Inl (Internal ''documents'')"
  using assms unfolding update_document_def require_def update_held_def Let_def same_request
  apply -
  apply (erule goes_on, assumption, (intro departments_reads leaving; fail))+
  apply (erule rolls_back)
  apply (erule goes_on, assumption, (intro departments_reads leaving; fail))+
  apply (erule stops_here, erule edit_unknown, assumption, simp add: seq_Inr refuse_if_Inr)
  done

text \<open>Two keys of a metadata set that differ only in their blanks.\<close>

lemma stored_keys:
  assumes "for_each (\<lambda>(key, v, kind).
       insert_unique env from_sqlx db_metadata db_metadata_update metadata_clash ''document_metadata''
         \<lparr>md_tenant = tenant, md_document = document, md_key = trim key, md_value = v,
          md_type = meta_as_db kind, md_deleted = False\<rparr>) entries st = (st', Inr u)"
  shows "distinct (map (trim \<circ> fst) entries) \<and>
    (\<forall>e \<in> set entries. \<forall>r \<in> set (db_metadata st).
       md_document r = document \<and> \<not> md_deleted r \<longrightarrow> md_key r \<noteq> trim (fst e))"
  using assms
proof (induction entries arbitrary: st)
  case (Cons e entries)
  obtain key v kind where e: "e = (key, v, kind)" by (cases e) auto
  let ?row = "\<lparr>md_tenant = tenant, md_document = document, md_key = trim key, md_value = v,
      md_type = meta_as_db kind, md_deleted = False\<rparr>"
  from Cons.prems e obtain st1 where
    free: "\<not> list_ex (metadata_clash ?row) (db_metadata st)"
    and st1: "st1 = counted st (db_metadata_update (\<lambda>rs. rs @ [?row]) st)"
    and rest: "for_each (\<lambda>(key, v, kind).
       insert_unique env from_sqlx db_metadata db_metadata_update metadata_clash ''document_metadata''
         \<lparr>md_tenant = tenant, md_document = document, md_key = trim key, md_value = v,
          md_type = meta_as_db kind, md_deleted = False\<rparr>) entries st1 = (st', Inr u)"
    by (auto simp: seq_Inr insert_unique_Inr)
  from Cons.IH [OF rest] have later: "distinct (map (trim \<circ> fst) entries)"
    "\<forall>e \<in> set entries. \<forall>r \<in> set (db_metadata st @ [?row]).
       md_document r = document \<and> \<not> md_deleted r \<longrightarrow> md_key r \<noteq> trim (fst e)"
    using st1 by (simp_all add: o_def)
  have "\<forall>r \<in> set (db_metadata st). md_document r = document \<and> \<not> md_deleted r \<longrightarrow> md_key r \<noteq> trim key"
    using free by (auto simp: list_ex_iff metadata_clash_def)
  moreover have "trim key \<notin> (trim \<circ> fst) ` set entries" using later(2) by auto
  ultimately show ?case using later e by (auto simp: o_def)
qed simp

lemma metadata_answer:
  assumes "faultless env"
  shows "snd (for_each (\<lambda>(key, v, kind).
       insert_unique env from_sqlx db_metadata db_metadata_update metadata_clash ''document_metadata''
         \<lparr>md_tenant = tenant, md_document = document, md_key = trim key, md_value = v,
          md_type = meta_as_db kind, md_deleted = False\<rparr>) entries st)
    \<in> {Inr (), Inl (Internal ''document_metadata'')}"
proof (induction entries arbitrary: st)
  case (Cons e entries)
  obtain key v kind where e: "e = (key, v, kind)" by (cases e) auto
  with Cons.IH assms show ?case
    by (simp add: seq_def insert_unique_def sql_def faultless_def)
qed (simp add: ret_def)

lemma blank_keys_collide:
  assumes "faultless env" "\<not> distinct (map (trim \<circ> fst) entries)"
  shows "snd (replace_metadata env tenant document entries st) = Inl (Internal ''document_metadata'')"
proof -
  let ?all = "for_each (\<lambda>(key, v, kind).
       insert_unique env from_sqlx db_metadata db_metadata_update metadata_clash ''document_metadata''
         \<lparr>md_tenant = tenant, md_document = document, md_key = trim key, md_value = v,
          md_type = meta_as_db kind, md_deleted = False\<rparr>) entries"
  have "snd (?all s) = Inl (Internal ''document_metadata'')" for s
  proof -
    obtain s' r where r: "?all s = (s', r)" by fastforce
    with stored_keys [of env tenant document entries s s'] assms(2) have "r \<noteq> Inr ()" by auto
    with metadata_answer [OF assms(1), of tenant document entries s] r show ?thesis by auto
  qed
  then show ?thesis
    using assms(1) by (simp add: replace_metadata_def seq_def execute_def sql_def faultless_def)
qed

end
