(* ===== verification/SampleNumbering.thy ===== *)
theory SampleNumbering
  imports SampleProcess SamplePayload GovernanceFacts DocumentEditFacts
begin

text \<open>
  The tenant of the sample process with a numbering rule, a draft and a governed party: what the
  witnesses of numbering, submission and governance run on.
\<close>

definition paper_env :: Env where
  "paper_env = sample_env\<lparr>year := 2026, month := 7\<rparr>"

definition clerk :: Caller where
  "clerk = \<lparr>ca_tenant = ''t'', ca_user = ''ann'', ca_name = ''ann'',
     ca_permissions = [TYPE_UPDATE, DOCUMENT_SUBMIT, DOCUMENT_CREATE, DOCUMENT_UPDATE, DOCUMENT_DELETE]\<rparr>"

definition yearly_request :: "string \<Rightarrow> SetNumberingRuleRequest" where
  "yearly_request template =
     \<lparr>sn_template = template, sn_scope = YearScope, sn_padding = None, sn_policy = None, sn_next = None\<rparr>"

definition yearly_rule :: rule_row where
  "yearly_rule = \<lparr>ru_tenant = ''t'', ru_id = ''u'', ru_type = ''y'', ru_template = ''PR-{year}-{sequence}'',
     ru_scope = ''YEAR'', ru_padding = 6, ru_allow_gaps = False, ru_active = True, ru_deleted = False\<rparr>"

definition in_year :: "int \<Rightarrow> AllocationContext" where
  "in_year y = \<lparr>al_year = y, al_month = 7, al_department = None\<rparr>"

definition draft :: document_row where
  "draft = sample_document\<lparr>do_number := None, do_status := ''DRAFT''\<rparr>"

definition office :: Store where
  "office = tenant_store\<lparr>db_rules := [yearly_rule], db_documents := [draft]\<rparr>"

lemma paper_env_faultless: "faultless paper_env"
  by (simp add: faultless_def paper_env_def env_sel)

definition after_first :: Store where
  "after_first = office\<lparr>
     db_buckets := [\<lparr>bu_tenant = ''t'', bu_type = ''y'', bu_key = ''2026'', bu_next = 2\<rparr>], db_statements := 3\<rparr>"

lemma digits [simp]:
  "show_nat 2026 = ''2026''" "show_nat 2027 = ''2027''" "show_nat 1 = ''1''" "show_nat 2 = ''2''" "show_nat 7 = ''7''"
  by (simp_all add: show_nat.simps char_of_def bit_0)

lemma year_keys: "scope_key YearScope (in_year 2026) = ''2026''" "scope_key YearScope (in_year 2027) = ''2027''"
  by (simp_all add: scope_key_def year_text_def zero_padded_def in_year_def)

lemma sample_pieces:
  "pieces ''PR-{year}-{sequence}'' = map Letter ''PR-'' @ [YearPiece, Letter CHR ''-'', SequencePiece]"
  "pieces ''PR-{sequence}'' = map Letter ''PR-'' @ [SequencePiece]"
  by (simp_all add: pieces.simps)

lemma replicate_five: "replicate 5 c = [c, c, c, c, c]"
  by (simp add: eval_nat_numeral)

lemma sample_renders:
  "render ''PR-{year}-{sequence}'' 1 6 (in_year 2026) = ''PR-2026-000001''"
  "render ''PR-{year}-{sequence}'' 2 6 (in_year 2026) = ''PR-2026-000002''"
  "render ''PR-{year}-{sequence}'' 1 6 (in_year 2027) = ''PR-2027-000001''"
  "render ''PR-{sequence}'' 1 6 c = ''PR-000001''"
  by (simp_all add: render_pieces sample_pieces piece_text_def number_text_def year_text_def zero_padded_def
      in_year_def Let_def show_small(2) replicate_five MIN_PADDING_def MAX_PADDING_def)

lemma office_scope [simp]: "scope_from_db ''YEAR'' = YearScope" "needs_department YearScope = False"
  "comparison_prefix YearScope c = []"
  by (simp_all add: scope_from_db_def needs_department_def comparison_prefix_def)

lemma office_sel: "db_rules office = [yearly_rule]" "db_buckets office = []" "db_types office = [sample_type]"
  "db_rules after_first = [yearly_rule]" "db_types after_first = [sample_type]"
  "db_buckets after_first = [\<lparr>bu_tenant = ''t'', bu_type = ''y'', bu_key = ''2026'', bu_next = 2\<rparr>]"
  by (simp_all add: office_def after_first_def tenant_store_def)

lemmas allocation_steps =
  allocate_in_def find_active_rule_def furthest_key_def fetch_faultless [OF paper_env_faultless]
  paper_env_faultless [unfolded faultless_def] seq_def need_def ret_def refuse_if_def allocate_bucket_def
  sql_def active_rule_of_def active_rule_def buckets_of_def office_sel year_keys the_bucket_def Let_def

lemma first_store:
  "allocate_in paper_env ''t'' ''y'' (in_year 2026) office = (after_first, Inr ''PR-2026-000001'')"
  by (simp add: allocation_steps yearly_rule_def sample_type_def sample_renders)
    (simp add: counted_def after_first_def office_def tenant_store_def)

lemma later_in_order: "\<not> ''2027'' < ''2026''" "\<not> ''2026'' < ''2026''"
  by code_simp+

lemma next_numbers:
  "snd (allocate_in paper_env ''t'' ''y'' (in_year 2026) after_first) = Inr ''PR-2026-000002''"
  "snd (allocate_in paper_env ''t'' ''y'' (in_year 2027) after_first) = Inr ''PR-2027-000001''"
  by (simp_all add: allocation_steps yearly_rule_def sample_type_def sample_renders later_in_order BIGINT_MAX_def)

text \<open>The first submission of the draft.\<close>

definition submitted :: document_row where
  "submitted = draft\<lparr>do_number := Some ''PR-2026-000001'', do_status := ''SUBMITTED'',
     do_submitted := Some 100, do_requested_by := Some ''ann''\<rparr>"

definition draft_resolved :: Resolved where
  "draft_resolved =
     \<lparr>rs_subject = \<lparr>sb_status = DocDraft, sb_type = ''y'', sb_requested = None, sb_number = None,
        sb_created_by = Some ''ann'', sb_instance = None\<rparr>,
      rs_type_key = ''PAPER'', rs_actor = actor_facts (Some ''ann'') [] None, rs_context = in_year 2026,
      rs_binding = None, rs_committed = None\<rparr>"

lemmas submission_steps =
  fetch_faultless [OF paper_env_faultless] paper_env_faultless [unfolded faultless_def]
  seq_def need_def ret_def refuse_if_def lift_result_def

lemma paper_sel: "db_documents office = [draft]" "db_roles office = db_roles tenant_store"
  "db_grants office = [sample_grant ''bob'']" "db_users office = db_users tenant_store"
  "db_bindings office = []" "db_statements office = 0" "today paper_env = 10" "now paper_env = 100"
  "year paper_env = 2026" "month paper_env = 7"
  "db_buckets office = []" "db_forms office = []"
  by (simp_all add: office_def tenant_store_def paper_env_def sample_env_def)

lemma draft_status: "status_from_db ''DRAFT'' = DocDraft" "is_editable DocDraft"
  by (simp_all add: status_from_db_def is_editable_def)

lemma draft_resolves:
  "resolve_submission paper_env clerk ''d'' office = (office\<lparr>db_statements := 6\<rparr>, Inr draft_resolved)"
  by (simp add: resolve_submission_def find_submission_subject_def submission_steps clerk_def paper_sel
      the_document_def draft_def sample_document_def draft_status refuse_unless_submittable_def
      read_document_type_key_def type_code_of_def office_sel sample_type_def read_actor_facts_def
      role_codes_for_user_def department_of_user_def sample_grant_def store_sel sample_person_def
      workflow_binding_def gap_policy_def active_rule_def yearly_rule_def policy_from_db_def coalesce_def
      allows_gaps_def clock_context_def counted_def draft_resolved_def in_year_def Let_def)

definition office_at :: "nat \<Rightarrow> Store" where
  "office_at n = office\<lparr>db_statements := n\<rparr>"

definition draft_held :: LockedDocument where
  "draft_held = \<lparr>ld_status = DocDraft, ld_type = ''y'', ld_form = None, ld_form_data = Object [],
     ld_requested = None, ld_entity_type = None, ld_entity = None, ld_instance = None\<rparr>"

definition after_number :: Store where
  "after_number = after_first\<lparr>db_statements := 11\<rparr>"

lemma draft_locks:
  "lock_for_submission paper_env ''t'' ''d'' (rs_subject draft_resolved) (office\<lparr>db_statements := 6\<rparr>) =
    (office_at 7, Inr (None, draft_held))"
  by (simp add: lock_for_submission_def lock_document_def submission_steps draft_resolved_def office_at_def
      paper_sel the_document_def draft_def sample_document_def draft_status refuse_unless_submittable_def
      counted_def draft_held_def)

lemma draft_pinned:
  "pinned_form_of paper_env ''t'' draft_held (office_at 7) =
    (office_at 8, Inr \<lparr>pf_form = None, pf_definition = None\<rparr>)"
  by (simp add: pinned_form_of_def lock_pinned_form_def definition_of_def submission_steps office_at_def
      office_sel the_type_def sample_type_def counted_def coalesce_def draft_held_def)

lemma draft_assigned:
  "assign_number paper_env ''t'' draft_resolved draft_held (office_at 8) =
    (after_number, Inr (Some ''PR-2026-000001''))"
proof -
  have "allocate_in paper_env ''t'' ''y'' (in_year 2026) (office_at 8) = (after_number, Inr ''PR-2026-000001'')"
    by (simp add: allocation_steps yearly_rule_def sample_type_def sample_renders office_at_def)
      (simp add: counted_def after_first_def after_number_def office_def tenant_store_def)
  then show ?thesis
    by (simp add: assign_number_def seq_def ret_def draft_resolved_def draft_held_def is_resubmission_def)
qed

lemma resolved_sel: "rs_subject draft_resolved =
      \<lparr>sb_status = DocDraft, sb_type = ''y'', sb_requested = None, sb_number = None,
        sb_created_by = Some ''ann'', sb_instance = None\<rparr>"
    "rs_binding draft_resolved = None"
  by (simp_all add: draft_resolved_def)

lemma after_sel: "db_documents after_number = [draft]" "db_types after_number = [sample_type]"
  by (simp_all add: after_number_def after_first_def office_sel paper_sel)

lemma held_sel: "ld_type draft_held = ''y''" "ld_form_data draft_held = Object []" "ld_status draft_held = DocDraft"
  "ld_entity_type draft_held = None" "ld_entity draft_held = None"
  by (simp_all add: draft_held_def)

lemma draft_is_sent:
  "\<exists>st. submit_held sample_libraries paper_env clerk ''d'' draft_resolved None draft_held (office_at 7) = (st, Inr ())
     \<and> db_documents st = [submitted]"
  unfolding submit_held_def Let_def seq_def
  by (simp add: clerk_def held_sel draft_pinned draft_assigned secured_def lift_result_def ret_def resolved_sel
      document_number_def mark_submitted_def sql_def paper_env_faultless [unfolded faultless_def] after_sel
      submittable_row_def the_document_def draft_def sample_document_def number_taken_def submitted_row_def
      update_where_def raise_governed_change_def target_entity_type_def fetch_faultless [OF paper_env_faultless]
      the_type_def sample_type_def counted_def count_where_def refuse_if_def is_resubmission_def governed_entity_def
      record_transition_def append_row_def execute_def move_process_def start_workflow_def record_activity_def
      submitted_def paper_sel seq_def need_def draft_status)

lemma draft_submits: "snd (submit_document sample_libraries paper_env clerk ''d'' office) = Inr submitted"
proof -
  obtain st where st: "submit_held sample_libraries paper_env clerk ''d'' draft_resolved None draft_held
      (office_at 7) = (st, Inr ())" "db_documents st = [submitted]"
    using draft_is_sent by blast
  have "the_document ''t'' ''d'' submitted"
    by (simp add: the_document_def submitted_def draft_def sample_document_def)
  then show ?thesis
    using draft_resolves draft_locks st
    by (simp add: submit_document_def seq_def require_def refuse_if_def ret_def submit_locked_def clerk_def
        transaction_def find_document_def fetch_faultless [OF paper_env_faultless] need_def)
qed

text \<open>
  The same draft under a type that governs parties: it names no party, which is found out after its
  number has been taken and its row written.
\<close>

definition governing :: "nat \<Rightarrow> Store" where
  "governing n = office\<lparr>db_types := [sample_type\<lparr>ty_target := Some ''PARTY''\<rparr>], db_statements := n\<rparr>"

definition governing_taken :: Store where
  "governing_taken = governing 11\<lparr>db_buckets := db_buckets after_first\<rparr>"

lemma governing_sel: "db_types (governing n) = [sample_type\<lparr>ty_target := Some ''PARTY''\<rparr>]"
  "db_rules (governing n) = [yearly_rule]" "db_buckets (governing n) = []" "db_statements (governing n) = n"
  "db_documents (governing n) = [draft]" "db_roles (governing n) = db_roles tenant_store"
  "db_grants (governing n) = [sample_grant ''bob'']" "db_users (governing n) = db_users tenant_store"
  "db_bindings (governing n) = []" "db_forms (governing n) = []"
  by (simp_all add: governing_def office_sel paper_sel)

lemma governing_resolves:
  "resolve_submission paper_env clerk ''d'' (governing 0) = (governing 6, Inr draft_resolved)"
  by (simp add: resolve_submission_def find_submission_subject_def submission_steps clerk_def governing_sel paper_sel
      the_document_def draft_def sample_document_def draft_status refuse_unless_submittable_def
      read_document_type_key_def type_code_of_def sample_type_def read_actor_facts_def
      role_codes_for_user_def department_of_user_def sample_grant_def store_sel sample_person_def
      workflow_binding_def gap_policy_def active_rule_def yearly_rule_def policy_from_db_def coalesce_def
      allows_gaps_def clock_context_def counted_def draft_resolved_def in_year_def Let_def)
    (simp add: governing_def)

lemma governing_locks:
  "lock_for_submission paper_env ''t'' ''d'' (rs_subject draft_resolved) (governing 6) =
    (governing 7, Inr (None, draft_held))"
  by (simp add: lock_for_submission_def lock_document_def submission_steps draft_resolved_def
      governing_sel the_document_def draft_def sample_document_def draft_status refuse_unless_submittable_def
      counted_def draft_held_def)
    (simp add: governing_def)

lemma governing_pinned:
  "pinned_form_of paper_env ''t'' draft_held (governing 7) =
    (governing 8, Inr \<lparr>pf_form = None, pf_definition = None\<rparr>)"
  by (simp add: pinned_form_of_def lock_pinned_form_def definition_of_def submission_steps
      governing_sel the_type_def sample_type_def counted_def coalesce_def draft_held_def)
    (simp add: governing_def)

lemma governing_assigned:
  "assign_number paper_env ''t'' draft_resolved draft_held (governing 8) =
    (governing_taken, Inr (Some ''PR-2026-000001''))"
proof -
  have "allocate_in paper_env ''t'' ''y'' (in_year 2026) (governing 8) = (governing_taken, Inr ''PR-2026-000001'')"
    by (simp add: allocation_steps governing_sel yearly_rule_def sample_type_def sample_renders)
      (simp add: counted_def governing_taken_def governing_def office_sel)
  then show ?thesis
    by (simp add: assign_number_def seq_def ret_def draft_resolved_def draft_held_def is_resubmission_def)
qed

lemma governing_refused:
  "\<exists>st. submit_held sample_libraries paper_env clerk ''d'' draft_resolved None draft_held (governing 7) =
     (st, Inl names_no_record)"
proof -
  have taken: "db_documents governing_taken = [draft]"
    "db_types governing_taken = [sample_type\<lparr>ty_target := Some ''PARTY''\<rparr>]"
    by (simp_all add: governing_taken_def governing_sel)
  show ?thesis
    unfolding submit_held_def Let_def seq_def
    by (simp add: clerk_def held_sel governing_pinned governing_assigned secured_def lift_result_def ret_def
        resolved_sel document_number_def mark_submitted_def sql_def paper_env_faultless [unfolded faultless_def]
        taken submittable_row_def the_document_def draft_def sample_document_def number_taken_def submitted_row_def
        update_where_def raise_governed_change_def target_entity_type_def fetch_faultless [OF paper_env_faultless]
        the_type_def sample_type_def counted_def count_where_def refuse_if_def governed_entity_def
        entity_from_db_def fail_def seq_def)
qed

lemma governing_submission:
  "submit_document sample_libraries paper_env clerk ''d'' (governing 0) = (governing 6, Inl names_no_record)"
proof -
  obtain st where "submit_held sample_libraries paper_env clerk ''d'' draft_resolved None draft_held (governing 7) =
      (st, Inl names_no_record)"
    using governing_refused by blast
  with governing_resolves governing_locks show ?thesis
    by (simp add: submit_document_def seq_def require_def refuse_if_def ret_def submit_locked_def clerk_def
        transaction_def)
qed

text \<open>The same under a rule whose type governs parties.\<close>

definition the_row :: party_row where
  "the_row = \<lparr>pa_tenant = ''t'', pa_id = ''p'', pa_record_status = ''ACTIVE'', pa_status = ''PARTY_ENABLED'',
     pa_external = None, pa_description = Some ''old'', pa_attributes = Object [], pa_deleted = False\<rparr>"

definition governed_store :: Store where
  "governed_store = office\<lparr>db_parties := [the_row]\<rparr>"

definition new_description :: json where
  "new_description = Object [(''description'', String ''new'')]"

definition raised_store :: Store where
  "raised_store = fst (raise_change paper_env ''t'' PartyEntity ''p'' ''d'' new_description governed_store)"

lemma new_description_read: "read_change PartyEntity new_description =
    Inr (ProposedParty \<lparr>pc_status = None, pc_external = None, pc_description = Some ''new'', pc_attributes = None\<rparr>)"
  by (simp add: read_change_def new_description_def UNSUPPORTED_KEYS_def read_party_change_def known_fields_def
      opt_text_def opt_value_def)

lemma change_raises: "snd (raise_change paper_env ''t'' PartyEntity ''p'' ''d'' new_description governed_store) = Inr ()"
  by (simp add: raise_change_def new_description_read submission_steps governed_store_def the_row_def the_party_def
      lock_record_status_def record_status_of_def record_from_db_def is_parked_def record_check_move_to_def
      fresh_id_def insert_change_request_def move_record_status_in_def update_rows_def sql_def count_where_def
      counted_def office_def tenant_store_def)

text \<open>A change of the same party to a status the column does not admit.\<close>

definition unknown_status :: json where
  "unknown_status = Object [(''statusId'', String ''X'')]"

lemma unknown_status_read: "read_change PartyEntity unknown_status =
    Inr (ProposedParty \<lparr>pc_status = Some ''X'', pc_external = None, pc_description = None, pc_attributes = None\<rparr>)"
  by (simp add: read_change_def unknown_status_def UNSUPPORTED_KEYS_def read_party_change_def known_fields_def
      opt_text_def opt_value_def)

lemma unknown_status_raises: "raise_change paper_env ''t'' PartyEntity ''p'' ''d'' unknown_status governed_store =
    (raised_store, Inr ())"
proof -
  have "raise_change paper_env ''t'' PartyEntity ''p'' ''d'' unknown_status governed_store =
      raise_change paper_env ''t'' PartyEntity ''p'' ''d'' new_description governed_store"
    by (simp add: raise_change_def new_description_read unknown_status_read seq_def lift_result_def)
  then show ?thesis using change_raises by (simp add: raised_store_def prod_eq_iff)
qed

lemma short_texts: "char_count ''X'' \<le> 40" "char_count ''PARTY_ENABLED'' \<le> 40"
  by (simp_all add: char_count_def)

lemma party_storable:
  "storable ''t'' ''p'' (ProposedParty
     \<lparr>pc_status = None, pc_external = None, pc_description = Some ''new'', pc_attributes = None\<rparr>) governed_store"
  "\<not> storable ''t'' ''p'' (ProposedParty
     \<lparr>pc_status = Some ''X'', pc_external = None, pc_description = None, pc_attributes = None\<rparr>) governed_store"
  using short_texts
  by (simp_all add: storable_def governed_store_def the_row_def the_party_def party_broken_def first_too_long_def
      write_party_def PARTY_STATUSES_def coalesce_def)

text \<open>A document created under the same type.\<close>

definition plain_request :: CreateDocumentRequest where
  "plain_request = \<lparr>cd_type = ''y'', cd_title = ''Plain'', cd_form_data = None, cd_metadata = None, cd_priority = None,
     cd_entity_type = None, cd_entity = None, cd_department = None, cd_facility = None\<rparr>"

lemma sample_blank: "strip_one WHITE_SPACE '' po'' = Some ''po''"
  unfolding strip_one_def WHITE_SPACE_def WHITE_SPACE_CODES_def by (simp add: char_of_def bit_0)

lemma sample_trims: "trim ''Plain'' = ''Plain''" "trim ''po'' = ''po''" "trim '' po'' = ''po''"
proof -
  have printable: "printable CHR ''P''" "printable CHR ''n''" "printable CHR ''p''" "printable CHR ''o''"
    by (simp_all add: printable_def)
  show "trim ''Plain'' = ''Plain''" "trim ''po'' = ''po''"
    using trim_printable [OF printable(1,2), of "''lai''"] trim_printable [OF printable(3,4), of "[]"] by simp_all
  have "trim_with WHITE_SPACE '' po'' = ''po''"
    using sample_blank white_space_bytes(1)
    by (subst trim_with.simps) (auto simp: trim_with_fixed strip_one_printable printable)
  then show "trim '' po'' = ''po''"
    by (simp add: trim_def trim_start_def trim_end_def trim_with_fixed strip_one_printable printable)
qed

definition plain_row :: document_row where
  "plain_row = new_document ''t'' (show_nat 0) ''DOC-2026-000001'' None (Object []) None (Some ''ann'') plain_request"

lemma plain_valid: "validate_create paper_env plain_request = Inr ()"
proof -
  have "utf16_length ''Plain'' \<le> MAX_TITLE_LENGTH" by code_simp
  then show ?thesis
    by (simp add: validate_create_def validate_document_def title_errors_def form_data_errors_def
        plain_request_def sample_trims)
qed

lemma plain_held:
  "\<exists>st. create_held sample_libraries paper_env clerk plain_request None (show_nat 0) (office\<lparr>db_fresh := 1\<rparr>) =
     (st, Inr ()) \<and> db_documents st = [draft, plain_row]"
proof -
  let ?row = "new_document ''t'' (show_nat 0) ''DOC-2026-000001'' None (Object []) None (Some ''ann'') plain_request"
  have ref: "render_reference (reference_key paper_env) (issued ''t'' (reference_key paper_env) (db_references office)) =
      ''DOC-2026-000001''" by code_simp
  have fresh: "\<not> document_clash ?row draft" "references_exist st0 None None" for st0
    by (simp_all add: document_clash_def new_document_def draft_def sample_document_def references_exist_def
        show_small)
  have row: "do_requested_department ?row = None" "do_requested_facility ?row = None"
    by (simp_all add: new_document_def plain_request_def)
  have request: "cd_type plain_request = ''y''" "cd_form_data plain_request = None" "cd_metadata plain_request = None"
    by (simp_all add: plain_request_def)
  show ?thesis
    unfolding create_held_def Let_def
    by (simp add: seq_def request clerk_def lock_pinned_form_def fetch_faultless [OF paper_env_faultless]
        office_sel the_type_def sample_type_def need_def ret_def definition_of_def counted_def coalesce_def
        secured_def lift_result_def allocate_reference_def sql_def paper_env_faultless [unfolded faultless_def]
        insert_document_def record_transition_def append_row_def execute_def record_activity_def
        ref fresh row paper_sel plain_row_def)
qed

lemma plain_created: "\<exists>st v. create_document sample_libraries paper_env clerk plain_request office = (st, Inr v)"
proof -
  obtain st where st: "create_held sample_libraries paper_env clerk plain_request None (show_nat 0)
      (office\<lparr>db_fresh := 1\<rparr>) = (st, Inr ())" "db_documents st = [draft, plain_row]"
    using plain_held by blast
  have "\<not> the_document ''t'' (show_nat 0) draft" "the_document ''t'' (show_nat 0) plain_row"
    by (simp_all add: the_document_def draft_def sample_document_def plain_row_def new_document_def
        show_small)
  moreover have "fresh_id paper_env office = (office\<lparr>db_fresh := 1\<rparr>, Inr (show_nat 0))"
    by (simp add: fresh_id_def paper_env_def sample_env_def office_def tenant_store_def)
  ultimately show ?thesis
    using st plain_valid
    by (simp add: create_document_def require_def refuse_if_def seq_def ret_def lift_result_def clerk_def
        transaction_def load_document_def find_whole_def find_document_def metadata_set_def need_def
        fetch_faultless [OF paper_env_faultless] plain_request_def)
qed

definition no_changes :: UpdateDocumentRequest where
  "no_changes = \<lparr>ud_title = None, ud_form_data = None, ud_metadata = None, ud_priority = None,
     ud_entity_type = None, ud_entity = None, ud_department = None, ud_facility = None\<rparr>"

lemma untouched: "\<exists>st v. update_document sample_libraries paper_env clerk ''d'' no_changes office = (st, Inr v)"
  by (simp add: update_document_def update_held_def require_def validate_update_def validate_document_def
      title_errors_def form_data_errors_def no_changes_def find_whole_def find_document_def metadata_set_def
      submission_steps lock_document_def entity_change_def fields_of_def transaction_def update_fields_def sql_def
      references_exist_def coalesce_def write_fields_def load_document_def update_where_def count_where_def
      submittable_row_def clerk_def paper_sel the_document_def draft_def sample_document_def draft_status counted_def
      Let_def)

text \<open>
  A rule set with a number to go on from, and a submission that commits between its check and its
  write.
\<close>

definition seed_request :: SetNumberingRuleRequest where
  "seed_request = yearly_request ''PR-{year}-{sequence}''\<lparr>sn_next := Some 1\<rparr>"

lemma seed_checked: "check_rule paper_env clerk ''y'' seed_request office = (office\<lparr>db_statements := 3\<rparr>, Inr ())"
proof -
  have "validate_set seed_request None = Inr ()" by code_simp
  moreover have "rule_key paper_env seed_request = ''2026''"
    by (simp add: rule_key_def seed_request_def yearly_request_def scope_key_def clock_context_def paper_sel
        year_text_def zero_padded_def)
  ultimately show ?thesis
    by (simp add: check_rule_def submission_steps require_def clerk_def find_type_def find_rule_def highest_issued_def
        office_sel sample_type_def the_type_def buckets_of_def counted_def)
      (simp add: office_def tenant_store_def)
qed

lemma seed_saved:
  "\<exists>st. save_rule paper_env ''t'' ''y'' seed_request after_first = (st, Inr ())"
  by (simp add: save_rule_def write_rule_def replace_rule_def seed_bucket_def transaction_def submission_steps
      update_rows_def sql_def fresh_id_def insert_unique_def execute_def office_sel seed_request_def yearly_request_def
      active_rule_def yearly_rule_def retire_rule_def rule_clash_def update_where_def count_where_def counted_def)

end
