(* ===== verification/Spec2Isabelle.thy ===== *)
theory Spec2Isabelle
  imports SampleProcess SamplePayload SampleNumbering "HOL-Library.Multiset"
begin

text \<open>
  Kelir is a document platform: a form designer publishes forms, a workflow designer publishes
  processes, and a document runs through the process its type binds.  This development models the
  Rust backend, \<open>src/kelir-backend/src\<close> (module paths below are under \<open>modules/\<close> there), and
  proves what makes each part and their composition correct.

  The parts and how they meet.  Publishing a form runs the checks of \<open>rad/domain\<close>: the shapes of its
  containers, the operators of its expressions, and for every scope the dependency graph its
  calculated fields are evaluated in.  Publishing a workflow runs \<open>workflow/domain/jwss.rs\<close> over the
  definition, which the engine later parses (\<open>workflow/domain/graph.rs\<close>) with a parser that never
  fails: what the checks refuse is what the engine would misread.  A submission starts a process, a
  decision on a task fires a transition, and \<open>workflow/service/engine.rs\<close> is the only place a process
  moves: it selects the edge, asks \<open>workflow/service/assignment.rs\<close> whether the actor may take it,
  runs the before-hooks (\<open>hook/\<close>), moves the instance, records the history and the outbox event in the
  same transaction, enters the state reached, takes the automatic steps, raises the task and projects
  the document's status.  The outbox worker delivers the event to the after-hooks.  The inbox lists
  the tasks somebody may act on, from the projection publishing wrote.

  Theories, in the order they build.
    \<open>Prelude\<close>, \<open>Json\<close>: Rust strings, \<open>BTreeMap\<close>s and \<open>serde_json::Value\<close>; sorted maps as association
      lists, with the locale \<open>ordered_set\<close> for \<open>BTreeSet\<close>.
    \<open>Expr\<close>, \<open>ScopeReads\<close>: the walks of \<open>rad/domain/engine.rs\<close> over JSON Logic expressions, and that the
      references they return are every path evaluation reads.
    \<open>Jfss\<close>, \<open>JfssFacts\<close>: \<open>rad/domain/jfss.rs\<close> and the lookup sources of \<open>lookup.rs\<close>.
    \<open>Topo\<close>, \<open>RuleEngine\<close>, \<open>EvalOrder\<close>: the dependency graph, Kahn's algorithm with its cycle search,
      the catalogue of a scope and the publish checks of \<open>rad/domain/engine.rs\<close>; a scope without a cycle
      gets an order in which every read comes before its reader.
    \<open>Pattern\<close>, \<open>PatternFacts\<close>, \<open>Registry\<close>: the pattern scanners and the rule registry of
      \<open>rad/domain/validation.rs\<close>.
    \<open>Hook\<close>, \<open>HookChain\<close>: \<open>hook/domain.rs\<close>, \<open>handlers.rs\<close>, \<open>service.rs\<close> and \<open>repository.rs\<close>.
    \<open>TaskType\<close>, \<open>WfGraph\<close>, \<open>Search\<close>, \<open>Jwss\<close>, \<open>Structure\<close>, \<open>WorkflowGate\<close>: \<open>workflow/domain/task_type.rs\<close>,
      \<open>graph.rs\<close> and \<open>jwss.rs\<close>; the locale \<open>search_graph\<close> is the breadth-first walk S6 uses.
    \<open>Liveness\<close>: the edges the engine fires (\<open>fires\<close>), what they reach, and what the structural check, which
      counts edges of every action, says of it for a definition that draws no others (\<open>driven\<close>).
    \<open>Errors\<close>: \<open>error.rs\<close> and the envelope of \<open>response.rs\<close>.
    \<open>Lifecycle\<close>, \<open>TaskRules\<close>: the statuses and their text (\<open>document/domain/status.rs\<close>,
      \<open>workflow/domain/instance.rs\<close>, \<open>task.rs\<close>), through the locale \<open>db_code\<close>.
    \<open>Store\<close>, \<open>Tables\<close>: the tables as lists of records, a step over them, and the statements of the
      workflow, document, hook and identity repositories, one definition a statement.
    \<open>Outbox\<close>, \<open>Worker\<close>, \<open>WorkerFacts\<close>: \<open>outbox/\<close> and \<open>workflow/service/after_hooks.rs\<close>.
    \<open>Assignment\<close>: \<open>workflow/service/assignment.rs\<close> and the delegation reads.
    \<open>Engine\<close>, \<open>EngineFacts\<close>, \<open>EngineTasks\<close>: \<open>workflow/service/engine.rs\<close>; the abstract machine is a
      token that walks the graph (\<open>walked\<close>, \<open>auto_path\<close>), and \<open>fire\<close> refines it.
    \<open>TaskService\<close>, \<open>TaskFacts\<close>: \<open>workflow/service/task.rs\<close>.
    \<open>DocumentService\<close>: \<open>document/service/status.rs\<close> and the workflow half of \<open>submit.rs\<close>.
    \<open>Governance\<close>: \<open>master_data/domain/governance.rs\<close>, \<open>record_status.rs\<close>, \<open>service/governance.rs\<close> and
      \<open>repository/governance.rs\<close>: a change is raised (the record is parked) and later settled by the engine;
      the columns of \<open>mdm_parties\<close> and \<open>mdm_facilities\<close> may refuse what an approval writes.
    \<open>Template\<close>, \<open>TemplateFacts\<close>: \<open>document_type/numbering.rs\<close>; \<open>pieces\<close> reads a template once from left
      to right, the replacements of \<open>render\<close> agree with it, and a number determines what it was made of.
    \<open>Numbering\<close>, \<open>NumberingFacts\<close>: \<open>numbering_service.rs\<close> and \<open>numbering_repository.rs\<close>; setting a rule is
      its check on the pool (\<open>check_rule\<close>) and its transaction (\<open>save_rule\<close>); the inductive
      \<open>numbering_run\<close> is what a tenant's allocations under one rule look like from outside.
    \<open>Submission\<close>, \<open>SubmissionFacts\<close>, \<open>GovernanceFacts\<close>: the whole of \<open>document/service/submit.rs\<close> with
      \<open>form.rs\<close>: reads, locks, payload, number, governed change, process, activity; the locale
      \<open>out_of_process\<close> carries what a process never writes through the engine.
    \<open>DocumentEdit\<close>, \<open>DocumentEditFacts\<close>: \<open>document/service/document.rs\<close> with its domain and repository:
      creation, editing, discarding, metadata, links and references.
    \<open>Inbox\<close>, \<open>InboxFacts\<close>: \<open>workflow/repository/inbox.rs\<close> and \<open>workflow/service/inbox.rs\<close>.
    \<open>Reached\<close>, \<open>ServiceFacts\<close>: the inductive set of stores the committed transactions and the passes of
      the outbox worker reach, the invariants by rule induction over it, and what the services guarantee
      when they succeed or refuse.
    \<open>Samples\<close>, \<open>SampleProcess\<close>: the documents and the tenant the witnesses evaluate.
    \<open>FieldRules\<close>, \<open>Payload\<close>: the checks of one value in \<open>rad/domain/validation.rs\<close>, and the re-evaluation
      of a submitted payload in \<open>rad/service/evaluation.rs\<close> before anything is stored.
    \<open>PayloadFacts\<close>, \<open>StoredPayload\<close>, \<open>SamplePayload\<close>: every walk of a scope visits its data components and
      no other (the locale \<open>scope_walk\<close>), the stored payload does not depend on what was sent for a
      calculated field, what is stored, when it is accepted, and when the evaluation panics.
    \<open>SampleNumbering\<close>: a numbering rule, a draft and a governed party for the witnesses.

  State and steps.  A table is the list of its rows; \<open>Store\<close> holds the tables and a counter of
  statements.  A step of type \<open>'a tx\<close> takes the store and returns it with an answer or an \<open>AppError\<close>;
  \<open>transaction\<close> restores the tables when its body refuses, as dropping an \<open>sqlx\<close> transaction does, and
  every statement may fail by the fault the environment assigns to its number.  So an error path is a
  value and every early return of the source a branch.  Row locks show in the order of the reads.  The
  unit of interleaving is the transaction, or the single statement where the code runs on the pool:
  \<open>Reached\<close> lets committed transactions, the claim and each delivery of a worker's pass, and any step that leaves the
  process alone follow each other in any order, and inside a transaction of the engine nothing comes
  between, because every path locks the instance first.  Where the code reads on the pool and writes in
  a later transaction, the two halves are definitions of their own when it matters: \<open>check_rule\<close> and \<open>save_rule\<close>
  (no lock covers that gap, \<open>seeding_trusts_its_check\<close>), \<open>read_for_decision\<close> and \<open>decide_locked\<close>,
  \<open>resolve_submission\<close> and \<open>submit_locked\<close>.  The composed service is its halves with nothing in between.

  Bounds.  \<open>pattern_fuel\<close> is three steps a character and one, and \<open>pattern_descent_answers\<close> shows it is
  enough for every pattern.  \<open>enter_loop\<close> is given the code's own \<open>MAX_AUTOMATIC_STEPS\<close>, sixteen.  All
  other recursion is structural or has a termination proof.  A registered priority keeps its 32 bits.

  Parameters.  The jsonschema crate's findings and the regex crate's compilation and matching are arguments of the checks;
  \<open>evaluate\<close> the JSON Logic crate, \<open>parse_uuid\<close> the uuid crate, \<open>json_text\<close> and the number texts
  serde_json, \<open>ilike\<close> the database's \<open>ILIKE\<close>, and the clock and the day are fields of the environment.  \<open>Libraries\<close> holds what the
  form evaluation asks of the regex, chrono and datalogic-rs crates and of the standard library's number text and parsing;
  \<open>reads_only\<close> asks of the evaluator that an expression in the approved operators whose every \<open>var\<close> names its path
  is a function of the keys it names.  It says nothing of the other expressions: an operand of null, \<open>[]\<close> or
  \<open>[null]\<close> hands over the whole record, as the tests of \<open>jwss.rs\<close> assert, and no publish check refuses it in a
  calculation; so the two theorems that use it ask of the form that its calculations name what they
  read (\<open>named\<close>).  \<open>numberable\<close> holds of a date with a year of four digits and of a department written with the 36
  characters of a UUID.  Bucket keys compare byte by byte; the keys the code writes are digits, dashes
  and hexadecimal, on which a collation agrees.  A panic of the evaluation is one internal error.
  \<open>well_keyed\<close> says that a key is declared once in its scope.  JFSS 4.2 asks it of the authoring tool, because JSON
  Schema cannot express it, and no check of the server enforces it: it is a hypothesis on the form.  \<open>due_in_seconds\<close> is
  floating-point arithmetic and a field too.

  Columns.  The statements that write a governed record check what the columns take (\<open>update_checked\<close>): the
  \<open>CHECK\<close> on a party's status, and the length of a \<open>VARCHAR\<close>, past which blanks are cut and anything else is
  refused.  The other statements write values their validations bound, or enumerations.

  Not modelled.  The prose of a validation detail is not modelled; \<open>vd_args\<close> holds the values it
  interpolates.  Foreign keys other than those of a document's department and facility and of a bucket's type, columns no modelled statement reads, and the faults of \<open>BEGIN\<close> and
  \<open>COMMIT\<close> are left out.  Audit entries are written after the commit and left out.  Request handlers,
  configuration, HTTP, mail, document lists, the editing of document types and of master data, the storage of attachments and the plugins are I/O around statements.  Rendering a form or a list for a viewer is not modelled.
  The frontend is another program.

  The properties follow in five parts: what a process does, what a submission may decide, what
  publishing a form guarantees, what publishing a workflow guarantees, and what numbering, submitting,
  governing and editing documents guarantee.
\<close>

section \<open>A process moves\<close>

text \<open>C1: firing a transition is one walk of the token machine the definition draws: the edge chosen
  is the first whose condition holds, its own rule admits the actor or the person the actor stands in
  for, a required comment was given, and from the state it reaches every automatic step the
  definition prescribes is taken.  The history of the process grows by exactly that walk, one event
  announces each step with its position, the process stands where the walk ends, and no other
  process of any tenant moves.\<close>

theorem transition_is_one_walk:
  assumes "fire env tenant inst document g from act actor c ev decision st = (st', Inr f)"
    and "distinct (map in_id (db_instances st))"
  shows "\<exists>routing chosen target.
    select_edge env ev from act [] (candidates g from act) = Inr (routing, Some chosen) \<and>
    state_of g (t_to chosen) = Some target \<and>
    may_take env tenant st c actor (pv_behalf decision) chosen \<and>
    \<not> (requires_comment chosen \<and> pv_comment decision = None) \<and>
    fi_to f = t_to chosen \<and> fi_outcome f = outcome_of target \<and>
    walked tenant inst ((from, act, t_to chosen) # auto_path env g ev MAX_AUTOMATIC_STEPS target) st st'"
  by (rule fire_Inr [OF assms], intro exI conjI) (auto)

theorem transition_is_one_walk_witness:
  "\<exists>st' f routing chosen target.
     fire sample_env ''t'' ''0'' ''d'' process_graph ''OPEN'' ApproveAction (Some ''bob'') sample_context
       sample_evaluation sample_provenance waiting_store = (st', Inr f) \<and>
     select_edge sample_env sample_evaluation ''OPEN'' ApproveAction []
       (candidates process_graph ''OPEN'' ApproveAction) = Inr (routing, Some chosen) \<and>
     walked ''t'' ''0'' ((''OPEN'', ApproveAction, t_to chosen) #
       auto_path sample_env process_graph sample_evaluation MAX_AUTOMATIC_STEPS target) waiting_store st'"
proof -
  obtain st' f where f: "fire sample_env ''t'' ''0'' ''d'' process_graph ''OPEN'' ApproveAction (Some ''bob'')
    sample_context sample_evaluation sample_provenance waiting_store = (st', Inr f)"
    using approval_fires by blast
  from transition_is_one_walk [OF f] f show ?thesis by (simp add: waiting_sel) blast
qed

text \<open>C2: in every store the service can reach, the history of a process is one unbroken path from
  its start to the state the process is in, and every step after the first was announced exactly once,
  in order, numbered by its position in the history.  The stores are those a start, a resubmission and
  every action on a task leave, those the outbox worker leaves after a claim and after each delivery of
  a pass, and those of any step that leaves the processes, what was announced, the tasks and the decisions alone.\<close>

theorem history_is_an_unbroken_path:
  assumes "reached st"
  shows "case place tenant inst st of
      None \<Rightarrow> trail tenant inst st = [] \<and> announcements tenant inst st = []
    | Some s \<Rightarrow> path_to (trail tenant inst st) s \<and>
        announcements tenant inst st = announced 1 (tl (trail tenant inst st))"
  using reached_keeps [OF assms] sound_at unfolding sound_process_def by blast

theorem history_is_an_unbroken_path_witness:
  "reached waiting_store \<and> place ''t'' ''0'' waiting_store = Some ''OPEN'' \<and>
     path_to (trail ''t'' ''0'' waiting_store) ''OPEN'' \<and>
     (\<exists>st1 r. decide_locked sample_env sample_boss DecideApprove None sample_reading waiting_store = (st1, Inr r) \<and>
        reached (fst (pass sample_env (\<lambda>_. ''failed'') st1)) \<and>
        (case place ''t'' ''0'' (fst (pass sample_env (\<lambda>_. ''failed'') st1)) of
           None \<Rightarrow> trail ''t'' ''0'' (fst (pass sample_env (\<lambda>_. ''failed'') st1)) = [] \<and>
             announcements ''t'' ''0'' (fst (pass sample_env (\<lambda>_. ''failed'') st1)) = []
         | Some s \<Rightarrow> path_to (trail ''t'' ''0'' (fst (pass sample_env (\<lambda>_. ''failed'') st1))) s \<and>
             announcements ''t'' ''0'' (fst (pass sample_env (\<lambda>_. ''failed'') st1)) =
               announced 1 (tl (trail ''t'' ''0'' (fst (pass sample_env (\<lambda>_. ''failed'') st1))))))"
proof -
  have p: "place ''t'' ''0'' waiting_store = Some ''OPEN''"
    by (simp add: place_def waiting_sel waiting_rows)
  obtain st1 r where d: "decide_locked sample_env sample_boss DecideApprove None sample_reading waiting_store =
      (st1, Inr r)"
    using decision_applies by blast
  then have "reached st1" using waiting_reached reached.step commits.decided by blast
  with pass_commits decisions_stay have after: "reached (fst (pass sample_env (\<lambda>_. ''failed'') st1))" by blast
  note path = history_is_an_unbroken_path [of _ "''t''" "''0''"]
  show ?thesis
    by (intro conjI exI, rule waiting_reached, rule p, (use path [OF waiting_reached] p in simp), rule d,
        rule after, rule path [OF after])
qed

text \<open>C3: a task is decided once.  After a decision has been committed in a reachable store, whatever
  is committed next (by the services, or by a claim or a delivery of the outbox worker), every later
  decision on the same task is refused.\<close>

theorem a_task_is_decided_once:
  assumes "reached st"
    and "decide_locked env caller action comment reading st = (st1, Inr r)"
    and "commits\<^sup>*\<^sup>* st1 st2"
    and "ta_id (rd_subject reading') = ta_id (rd_subject reading)"
  shows "\<exists>e. snd (decide_locked env' caller' action' comment' reading' st2) = Inl e"
proof -
  have s1: "reached st1" using assms(1,2) reached.step commits.decided by blast
  obtain d where "d \<in> set (db_decisions st1)" "dc_task d = ta_id (rd_subject reading)"
    using decide_appends [OF assms(2)] by force
  with decisions_stay [OF assms(3) s1] assms(4)
  have "d \<in> set (db_decisions st2)" "dc_task d = ta_id (rd_subject reading')" "orderly st2"
    using reached_keeps by auto
  from decided_task_refused [OF this(3,1,2)] show ?thesis
    by (metis old.sum.exhaust prod.collapse)
qed

theorem a_task_is_decided_once_witness:
  "\<exists>st1 r e. decide_locked sample_env sample_boss DecideApprove None sample_reading waiting_store = (st1, Inr r) \<and>
     snd (decide_locked sample_env sample_boss DecideReject None sample_reading
       (fst (pass sample_env (\<lambda>_. ''failed'') st1))) = Inl e"
  using a_task_is_decided_once [OF waiting_reached _ pass_commits refl] decision_applies by blast

text \<open>C11: where a process settles.  After a successful transition the document, if it is there, shows
  the status the settled state maps to, which is the status the caller is told.  A settled state with a
  human task raised exactly one open task for it, on a process that had none and under a new id, and
  its assignee, role, department and delegator are the ones the state's assignment rule resolves to
  over the users, roles, departments and delegations of the store, the delegate of an open window
  standing in for the person resolved; a settled state without a human task raised none.\<close>

theorem settled_process_waits_for_its_task:
  assumes "fire env tenant inst document g from act actor c ev decision st = (st', Inr f)"
    and "distinct (map in_id (db_instances st))"
  shows "\<exists>routing chosen target.
    select_edge env ev from act [] (candidates g from act) = Inr (routing, Some chosen) \<and>
    state_of g (t_to chosen) = Some target \<and>
    raised (holding env tenant c st) tenant inst document
      (human_task (auto_end env g ev MAX_AUTOMATIC_STEPS target)) st st' \<and>
    parse_document_status (maps_to_document_status (auto_end env g ev MAX_AUTOMATIC_STEPS target)) =
      Some (fi_status f) \<and>
    shown tenant document st' = map_option (\<lambda>_. status_as_db (fi_status f)) (shown tenant document st)"
proof -
  obtain routing chosen target where s:
    "select_edge env ev from act [] (candidates g from act) = Inr (routing, Some chosen)"
    "state_of g (t_to chosen) = Some target"
    "raised (holding env tenant c st) tenant inst document
       (human_task (auto_end env g ev MAX_AUTOMATIC_STEPS target)) st st'"
    "shown tenant document st' = map_option (\<lambda>_. status_as_db (fi_status f)) (shown tenant document st)"
    by (rule fire_settles [OF assms]) blast
  moreover have "parse_document_status
      (maps_to_document_status (auto_end env g ev MAX_AUTOMATIC_STEPS target)) = Some (fi_status f)"
    by (rule fire_Inr [OF assms]) (use s(1,2) in auto)
  ultimately show ?thesis by blast
qed

theorem settled_process_waits_for_its_task_witness:
  "\<exists>st' f. fire sample_env ''t'' ''0'' ''d'' process_graph ''OPEN'' ApproveAction (Some ''bob'') sample_context
       sample_evaluation sample_provenance waiting_store = (st', Inr f) \<and>
     shown ''t'' ''d'' st' = Some (status_as_db (fi_status f))"
proof -
  obtain st' f where f: "fire sample_env ''t'' ''0'' ''d'' process_graph ''OPEN'' ApproveAction (Some ''bob'')
    sample_context sample_evaluation sample_provenance waiting_store = (st', Inr f)"
    using approval_fires by blast
  have "shown ''t'' ''d'' waiting_store = Some ''IN_REVIEW''"
    by (simp add: shown_def waiting_sel the_document_def sample_document_def)
  with settled_process_waits_for_its_task [OF f] f show ?thesis by (auto simp: waiting_sel)
qed

text \<open>C25: automatic steps are bounded.  A transition that succeeds writes at least one row of history
  and at most sixteen, itself included; a definition whose service steps route in a loop is refused
  rather than run.\<close>

theorem automatic_steps_are_bounded:
  assumes "fire env tenant inst document g from act actor c ev decision st = (st', Inr f)"
    and "distinct (map in_id (db_instances st))"
  shows "length (trail tenant inst st) < length (trail tenant inst st') \<and>
    length (trail tenant inst st') \<le> length (trail tenant inst st) + MAX_AUTOMATIC_STEPS"
  using assms by (rule fire_Inr) (auto simp: walked_def)

theorem automatic_steps_are_bounded_witness:
  "\<exists>st' f. fire sample_env ''t'' ''0'' ''d'' process_graph ''OPEN'' ApproveAction (Some ''bob'') sample_context
       sample_evaluation sample_provenance waiting_store = (st', Inr f) \<and>
     length (trail ''t'' ''0'' st') \<le> 17"
proof -
  obtain st' f where f: "fire sample_env ''t'' ''0'' ''d'' process_graph ''OPEN'' ApproveAction (Some ''bob'')
    sample_context sample_evaluation sample_provenance waiting_store = (st', Inr f)"
    using approval_fires by blast
  have "length (trail ''t'' ''0'' waiting_store) = 1"
    by (simp add: trail_def waiting_sel started_history_def)
  with automatic_steps_are_bounded [OF f] f show ?thesis
    by (auto simp: waiting_sel MAX_AUTOMATIC_STEPS_def)
qed

text \<open>C26: a document has at most one live process, a process at most one open task and a task at most
  one decision, in every store the service and its worker can reach; and every decision on record
  belongs to a task that is closed, with the action and the person the decision names.\<close>

theorem one_live_process_and_one_open_task:
  assumes "reached st"
  shows "distinct (map in_document (filter live_row (db_instances st))) \<and>
    (\<forall>inst. length (open_of inst st) \<le> 1) \<and> distinct (map dc_task (db_decisions st)) \<and>
    (\<forall>d \<in> set (db_decisions st). \<exists>t \<in> set (db_tasks st).
       ta_id t = dc_task d \<and> \<not> open_row t \<and> ta_action t = Some (dc_decision d) \<and>
       ta_completed_by t = Some (dc_approver d))"
  using reached_keeps [OF assms] unfolding one_live_def orderly_def decided_on_def by blast

theorem one_live_process_and_one_open_task_witness:
  "reached waiting_store \<and> open_of ''0'' waiting_store = [waiting_task] \<and>
     (\<exists>st1 r. decide_locked sample_env sample_boss DecideApprove None sample_reading waiting_store = (st1, Inr r) \<and>
        db_decisions st1 \<noteq> [] \<and>
        (\<forall>d \<in> set (db_decisions st1). \<exists>t \<in> set (db_tasks st1).
           ta_id t = dc_task d \<and> \<not> open_row t \<and> ta_action t = Some (dc_decision d) \<and>
           ta_completed_by t = Some (dc_approver d)))"
proof -
  obtain st1 r where d: "decide_locked sample_env sample_boss DecideApprove None sample_reading waiting_store =
      (st1, Inr r)"
    using decision_applies by blast
  then have "reached st1" using waiting_reached reached.step commits.decided by blast
  note facts = one_live_process_and_one_open_task [OF this]
  from decide_appends [OF d] have "db_decisions st1 \<noteq> []" by force
  moreover have "open_of ''0'' waiting_store = [waiting_task]"
    by (simp add: open_of_def waiting_sel waiting_rows)
  ultimately show ?thesis using waiting_reached d facts by blast
qed

section \<open>Who a task is for, and who may act\<close>

text \<open>C24: the permission check is the reference resolution.  When the check on an edge's rule answers,
  it answers yes exactly when there is an actor, the rule resolves over the tenant's live users, roles
  and departments, and what it resolves to admits the actor or the person the actor stands in for.\<close>

theorem permission_is_the_resolution:
  assumes "permits env tenant rule c actor behalf path st = (st', Inr allowed)"
  shows "allowed \<longleftrightarrow> (\<exists>a r. actor = Some a \<and> resolution env tenant rule c st = Some r \<and>
    (\<exists>who. (who = a \<or> behalf = Some who) \<and> admits env tenant st r who))"
  using assms by (rule permits_Inr)

theorem permission_is_the_resolution_witness:
  "\<exists>st' r who. permits sample_env ''t'' boss_rule sample_context (Some ''bob'') None [] waiting_store = (st', Inr True) \<and>
     resolution sample_env ''t'' boss_rule sample_context waiting_store = Some r \<and>
     admits sample_env ''t'' waiting_store r who"
proof -
  obtain st' where p: "permits sample_env ''t'' boss_rule sample_context (Some ''bob'') None [] waiting_store = (st', Inr True)"
    using boss_permitted by blast
  with permission_is_the_resolution [OF p] show ?thesis by auto
qed

text \<open>C29: an assignment names exactly one holder.  Whatever a task's rule says and whatever delegation
  window is open, the resolved assignment is a person or a role, never both and never neither; only a
  role carries a department, and only a person stands in for another.\<close>

theorem assignment_names_one_holder:
  assumes "resolve_assignment env tenant rule c path st = (st', Inr r)"
  shows "(ra_assignee r = None) \<noteq> (ra_role r = None) \<and>
    \<not> (ra_department r \<noteq> None \<and> ra_role r = None) \<and>
    \<not> (ra_delegated_from r \<noteq> None \<and> ra_assignee r = None)"
  using resolve_assignment_well_assigned [OF assms] by (auto simp: well_assigned_def)

theorem assignment_names_one_holder_witness:
  "\<exists>st' r. resolve_assignment sample_env ''t'' boss_rule sample_context [] waiting_store = (st', Inr r) \<and>
     (ra_assignee r = None) \<noteq> (ra_role r = None)"
  using boss_assigned assignment_names_one_holder by blast

text \<open>C23: a task handed from person to person keeps the authority it started under.  However many
  delegations of it are committed one after another (and whatever else is committed between them that
  leaves its row alone), its row ends up held by the last delegate, with the first holder as the
  authority it came from, or none when it has come back to them; nothing else of the row changes.  And
  wherever a rule resolves and admits the first holder, the check on it answers yes for the last one.\<close>

theorem authority_survives_every_hand_over:
  assumes "handed_on tenant ident first ds st st'"
    and "task_at tenant ident st = Some row" "ta_assignee row = Some first" "ta_delegated_from row = None"
    and "faultless env" "resolution env tenant rule c st' = Some r" "admits env tenant st' r first"
  shows "\<exists>row'. task_at tenant ident st' = Some row' \<and>
    row' = row\<lparr>ta_assignee := Some (last (first # ds)),
      ta_delegated_from := if last (first # ds) = first then None else Some first\<rparr> \<and>
    (\<exists>st''. permits env tenant rule c (ta_assignee row') (ta_delegated_from row') path st' = (st'', Inr True))"
proof -
  have "task_at tenant ident st' = Some (carrying row (fold (\<lambda>d held. hand_over held d) ds (first, None)))"
    using handed_on_row [OF assms(1-3)] assms(4) by simp
  then show ?thesis
    using permits_complete [OF assms(5-7), of "last (first # ds)"
        "if last (first # ds) = first then None else Some first" path]
    unfolding authority_survives by simp
qed

theorem authority_survives_every_hand_over_witness:
  "\<exists>st' row' st''. handed_on ''t'' ''1'' ''bob'' [''ann''] held_store st' \<and>
     task_at ''t'' ''1'' st' = Some row' \<and> ta_assignee row' = Some ''ann'' \<and> ta_delegated_from row' = Some ''bob'' \<and>
     permits sample_env ''t'' boss_rule sample_context (ta_assignee row') (ta_delegated_from row') [] st' =
       (st'', Inr True)"
proof -
  obtain st' where d: "handed_on ''t'' ''1'' ''bob'' [''ann''] held_store st'"
    and r: "resolution sample_env ''t'' boss_rule sample_context st' = Some (ra_of_role ''r'' None)"
    and a: "admits sample_env ''t'' st' (ra_of_role ''r'' None) ''bob''"
    using hand_over_applies by blast
  from authority_survives_every_hand_over [OF d held_task sample_env_faultless r a, of "[]"] d
  show ?thesis by auto
qed



text \<open>A task is reassigned only to somebody who could decide it.  When the check on the target
  passes, the state the process stands in has no decision edge at all, or one of its decision edges is
  open to everybody, admits the person, or asks for the very role the task is given to.\<close>

theorem reassign_target_can_decide:
  assumes "refuse_unless_target_can_decide env tenant inst target a c st = (st', Inr u)"
  shows "\<exists>row l. find (\<lambda>r. the_instance tenant inst r \<and> list_ex (\<lambda>d. df_id d = in_definition r) (db_definitions st))
       (db_instances st) = Some row \<and>
    find (\<lambda>d. df_id d = in_definition row) (db_definitions st) = Some l \<and>
    (decision_edges (parse_graph (df_json l) (df_version l)) (in_state row) = [] \<or>
     (\<exists>edge \<in> set (decision_edges (parse_graph (df_json l) (df_version l)) (in_state row)).
        open_to env tenant target a c st edge))"
  by (rule target_can_decide_Inr [OF assms], intro exI conjI)

theorem reassign_target_can_decide_witness:
  "\<exists>st'. refuse_unless_target_can_decide sample_env ''t'' ''0'' (ToUser ''bob'') (ra_user ''bob'') sample_context
       waiting_store = (st', Inr ()) \<and>
     list_ex (open_to sample_env ''t'' (ToUser ''bob'') (ra_user ''bob'') sample_context waiting_store)
       (decision_edges process_graph ''OPEN'')"
proof -
  obtain st' where c: "refuse_unless_target_can_decide sample_env ''t'' ''0'' (ToUser ''bob'') (ra_user ''bob'')
    sample_context waiting_store = (st', Inr ())"
    using target_passes_sample by blast
  from reassign_target_can_decide [OF c] c show ?thesis
    by (auto simp: waiting_sel store_sel waiting_rows process_parses list_ex_iff sample_decisions)
qed

section \<open>What the inbox shows\<close>

text \<open>C27: the inbox and the engine agree on what can be decided.  The clause every inbox statement
  splices over the projected transitions admits an open task exactly when the engine's own refusal at
  the raise would have let the task be raised over the definition.  It is so for a definition whose
  projection is up to date and whose decision edges all carry a rule, each naming its role at most one
  way; user ids are distinct, and the uuid crate reads exactly the spelling the clause casts.\<close>

theorem inbox_clause_is_the_raise_gate:
  assumes "faultless env" "parse_uuid env = uuid_spelling" "distinct (map us_id (db_users st))"
    and "projects (ta_tenant t) st i g"
    and "\<And>edge. edge \<in> set (actions_from g (in_state i)) \<Longrightarrow> decision_action (t_action edge) \<Longrightarrow>
      \<exists>rule. allowed_by edge = Some rule \<and> names_its_role rule"
    and "ta_status t \<in> set OPEN_STATUSES"
  shows "claimed_clause env st t d i \<longleftrightarrow>
    (\<exists>st'. refuse_unless_an_edge_resolves env (ta_tenant t) (document_context (ta_tenant t) st d)
      (actions_from g (in_state i)) st = (st', Inr ()))"
  using assms by (rule claimed_clause_iff)

theorem inbox_clause_is_the_raise_gate_witness:
  "claimed_clause inbox_env waiting_store waiting_task sample_document waiting_instance \<longleftrightarrow>
    (\<exists>st'. refuse_unless_an_edge_resolves inbox_env ''t'' (document_context ''t'' waiting_store sample_document)
      (actions_from process_graph ''OPEN'') waiting_store = (st', Inr ()))"
proof -
  have s: "ta_tenant waiting_task = ''t''" "ta_status waiting_task \<in> set OPEN_STATUSES"
    by (simp add: waiting_task_def) (simp add: waiting_task_def OPEN_STATUSES_def)
  have p: "projects (ta_tenant waiting_task) waiting_store waiting_instance process_graph"
    by (simp add: s projects_def waiting_sel waiting_rows sample_projection)
  have "\<exists>rule. allowed_by edge = Some rule \<and> names_its_role rule"
    if "edge \<in> set (actions_from process_graph (in_state waiting_instance))" for edge
    using that by (auto simp: waiting_rows process_graph_simps state_sel names_its_role_def)
  note rules = this
  have u: "distinct (map us_id (db_users waiting_store))"
    by (simp add: waiting_sel store_sel sample_person_def)
  show ?thesis
    using inbox_clause_is_the_raise_gate [OF inbox_env_faults(1,2) u p rules s(2), of sample_document]
    by (simp add: s(1) waiting_rows)
qed

text \<open>A task the gate of the detail read lets through is on the page the read then takes it from:
  the two statements cannot disagree between them.\<close>

theorem detail_gate_has_its_row:
  assumes "is_visible_to env tenant user ident st = (st1, Inr True)"
    and "list_for_caller env ilike tenant user (no_filters\<lparr>fl_scope := EveryTask, fl_task := Some ident\<rparr>)
          1 0 st1 = (st2, Inr page)"
    and "list_all (has_definition st) (db_instances st)"
  shows "pg_rows page \<noteq> [] \<and> ir_id (hd (pg_rows page)) = ident"
  using assms by (rule gate_has_its_row)

theorem detail_gate_has_its_row_witness:
  "\<exists>st1 st2 page. is_visible_to sample_env ''t'' ''bob'' ''1'' waiting_store = (st1, Inr True) \<and>
     list_for_caller sample_env (\<lambda>_ _. True) ''t'' ''bob'' (no_filters\<lparr>fl_scope := EveryTask, fl_task := Some ''1''\<rparr>)
       1 0 st1 = (st2, Inr page) \<and> ir_id (hd (pg_rows page)) = ''1''"
proof -
  obtain st1 where v: "is_visible_to sample_env ''t'' ''bob'' ''1'' waiting_store = (st1, Inr True)"
    using task_visible by blast
  obtain st2 page where l: "list_for_caller sample_env (\<lambda>_ _. True) ''t'' ''bob''
    (no_filters\<lparr>fl_scope := EveryTask, fl_task := Some ''1''\<rparr>) 1 0 st1 = (st2, Inr page)"
    by (simp add: list_for_caller_def fetch_def sql_def env_sel)
  have "list_all (has_definition waiting_store) (db_instances waiting_store)"
    by (simp add: waiting_sel store_sel has_definition_def waiting_rows)
  from detail_gate_has_its_row [OF v l this] v l show ?thesis by blast
qed

section \<open>Refusals, documents and the worker\<close>

text \<open>C12: a refused decision leaves no trace.  Whatever refuses it (the permission, the comment, a
  missing row, the state of the task, a rule, a guard, the database, the event that could not be
  written), every table is as it was before the request.\<close>

theorem refused_decision_leaves_no_trace:
  assumes "decide_task env caller ident action comment st = (st', Inl e)"
  shows "tables st' = tables st"
  using assms refused_decision_spotless unfolding spotless_def by blast

theorem refused_decision_leaves_no_trace_witness:
  "\<exists>st' e. decide_task sample_env (sample_boss\<lparr>ca_permissions := []\<rparr>) ''1'' DecideApprove None waiting_store = (st', Inl e) \<and>
     tables st' = tables waiting_store"
proof -
  obtain st' e where "decide_task sample_env (sample_boss\<lparr>ca_permissions := []\<rparr>) ''1'' DecideApprove None waiting_store = (st', Inl e)"
    by (simp add: decide_task_def require_def refuse_if_def seq_def fail_def)
  with refused_decision_leaves_no_trace [OF this] show ?thesis by blast
qed

text \<open>C30: a person moves a document only along the map, and never past a process.  A transition that
  succeeds was asked for with the permission, found no live process on the document, moved it from the
  status it reports along one of the moves that status allows, and added exactly one row to the status
  history, with both statuses, who asked and why.  It left every process and task alone, and every
  governed record and pending change too: a change document approved by hand settles nothing.\<close>

theorem person_moves_along_the_map:
  assumes "transition env caller ident to0 reason st = (st', Inr r)"
  shows "DOCUMENT_TRANSITION \<in> set (ca_permissions caller) \<and>
    shown (ca_tenant caller) ident st = Some (status_as_db (tr_previous r)) \<and>
    to0 \<in> set (may_move_to (tr_previous r)) \<and> tr_status r = to0 \<and>
    find (\<lambda>i. in_tenant i = ca_tenant caller \<and> in_document i = ident \<and> live_row i) (db_instances st) = None \<and>
    shown (ca_tenant caller) ident st' = Some (status_as_db to0) \<and>
    db_status_history st' = db_status_history st @
      [\<lparr>sh_tenant = ca_tenant caller, sh_document = ident, sh_old = Some (status_as_db (tr_previous r)),
        sh_new = status_as_db to0, sh_changed_by = Some (ca_user caller), sh_reason = reason\<rparr>] \<and>
    process st' = process st \<and> db_tasks st' = db_tasks st \<and>
    db_parties st' = db_parties st \<and> db_facilities st' = db_facilities st \<and> db_changes st' = db_changes st"
proof -
  obtain st1 where p: "DOCUMENT_TRANSITION \<in> set (ca_permissions caller)" "tr_status r = to0"
    "map_option status_from_db (shown (ca_tenant caller) ident st) = Some (tr_previous r)"
    "to0 \<in> set (may_move_to (tr_previous r))"
    "find (\<lambda>i. in_tenant i = ca_tenant caller \<and> in_document i = ident \<and> live_row i) (db_instances st) = None"
    and same: "tables st1 = tables st"
    and a: "apply_transition env (ca_tenant caller) ident (tr_previous r) to0 (Some (ca_user caller)) reason st1 = (st', Inr ())"
    using assms by (rule transition_Inr)
  from p(3) obtain s where s: "shown (ca_tenant caller) ident st = Some s" "status_from_db s = tr_previous r"
    by (cases "shown (ca_tenant caller) ident st") auto
  moreover have "tr_previous r \<noteq> DocDraft" using p(4) by (cases "tr_previous r") simp_all
  ultimately have shown: "shown (ca_tenant caller) ident st = Some (status_as_db (tr_previous r))"
    using status_read_back [of s] by simp
  have "shown (ca_tenant caller) ident st1 = shown (ca_tenant caller) ident st" "process st1 = process st"
    "db_tasks st1 = db_tasks st" "db_status_history st1 = db_status_history st"
    "db_parties st1 = db_parties st" "db_facilities st1 = db_facilities st" "db_changes st1 = db_changes st"
    using same by (metis shown_documents tables_sel process_tables)+
  with apply_transition_Inr [OF a] shown p show ?thesis by simp
qed

theorem person_moves_along_the_map_witness:
  "\<exists>st' r. transition sample_env (sample_boss\<lparr>ca_permissions := [DOCUMENT_TRANSITION]\<rparr>) ''d'' DocCancelled None tenant_store
       = (st', Inr r) \<and> shown ''t'' ''d'' st' = Some ''CANCELLED'' \<and>
     map sh_new (db_status_history st') = map sh_new (db_status_history tenant_store) @ [''CANCELLED'']"
proof -
  obtain st' r where t: "transition sample_env (sample_boss\<lparr>ca_permissions := [DOCUMENT_TRANSITION]\<rparr>) ''d'' DocCancelled None
    tenant_store = (st', Inr r)" using cancellation_applies by blast
  from person_moves_along_the_map [OF t] t show ?thesis by (auto simp: boss_sel)
qed

text \<open>C31: what a transition writes is what the worker reads.  The envelope of a step's event reads back
  as the process, the document, the edge and the person who caused it, and the edge found again in the
  definition is the edge taken, when no two edges share their ends and their action.\<close>

theorem worker_reads_the_step_taken:
  assumes "ne_payload e = transitioned_payload inst g doc (t_from edge) (t_to edge) (t_action edge)"
    and "ne_correlation e = inst" "parse_uuid env inst = Some inst" "parse_uuid env doc = Some doc"
    and "\<forall>u. ne_actor e = ByUser u \<longrightarrow> parse_uuid env u = Some u"
    and "distinct (map (\<lambda>t. (t_from t, t_action t, t_to t)) (transitions g))" "edge \<in> set (transitions g)"
  shows "\<exists>event. read_transitioned env (envelope ident occurred e) = Some event \<and>
    te_instance event = inst \<and> te_document event = doc \<and> te_actor event = actor_user (ne_actor e) \<and>
    taken_edge g event = Some edge"
  using read_transitioned_envelope [OF assms(1-4)] assms(5) taken_edge_found [OF assms(6,7)] by simp

theorem worker_reads_the_step_taken_witness:
  "\<exists>event. read_transitioned sample_env (envelope ''7'' ''now''
       (step_event ''OPEN'' ''FILE'' ApproveAction)) = Some event \<and>
     taken_edge process_graph event = Some (sample_edge ''OPEN'' ''FILE'' ApproveAction (Some boss_rule))"
proof -
  let ?e = "sample_edge ''OPEN'' ''FILE'' ApproveAction (Some boss_rule)"
  let ?n = "step_event ''OPEN'' ''FILE'' ApproveAction"
  have a: "ne_payload ?n = transitioned_payload ''0'' process_graph ''d'' (t_from ?e) (t_to ?e) (t_action ?e)"
    and b: "ne_correlation ?n = ''0''"
    by (simp_all add: step_event_def state_sel)
  have c: "parse_uuid sample_env ''0'' = Some ''0''" "parse_uuid sample_env ''d'' = Some ''d''"
    "\<forall>u. ne_actor ?n = ByUser u \<longrightarrow> parse_uuid sample_env u = Some u"
    by (simp_all add: env_sel)
  have d: "distinct (map (\<lambda>t. (t_from t, t_action t, t_to t)) (transitions process_graph))"
    "?e \<in> set (transitions process_graph)"
    by (simp_all add: process_graph_def sample_edge_def)
  obtain event where "read_transitioned sample_env (envelope ''7'' ''now'' ?n) = Some event"
    "taken_edge process_graph event = Some ?e"
    using worker_reads_the_step_taken [OF a b c d, of "''7''" "''now''"] by (elim exE conjE)
  then show ?thesis by (intro exI conjI)
qed

text \<open>C32: delivery is bounded.  A pass of the worker, whatever its handlers do and wherever the database
  fails, leaves every event within its budget: at most six attempts, none counted twice, and an event
  that used its last one is delivered or dead and never due again.  A pass takes at most one batch.\<close>

theorem attempts_are_bounded:
  assumes "pass env failure_text st = (st', Inr n)"
    and "list_all within_budget (db_events st)" "distinct (map ev_id (db_events st))"
  shows "list_all within_budget (db_events st') \<and> n \<le> BATCH"
  using pass_within_budget [OF assms(1)] assms(2,3) by (simp add: events_within_budget_def)

theorem attempts_are_bounded_witness:
  "\<exists>st' n. pass sample_env (\<lambda>_. []) (waiting_store\<lparr>db_events := [pending_event]\<rparr>) = (st', Inr n) \<and>
     list_all within_budget (db_events st')"
proof -
  have "faultless sample_env" by (simp add: faultless_def env_sel)
  then obtain st' n where p: "pass sample_env (\<lambda>_. []) (waiting_store\<lparr>db_events := [pending_event]\<rparr>) = (st', Inr n)"
    using pass_answers by blast
  have "list_all within_budget (db_events (waiting_store\<lparr>db_events := [pending_event]\<rparr>))"
    by (simp add: within_budget_def pending_event_def event_of_def MAX_ATTEMPTS_def)
  with attempts_are_bounded [OF p] p show ?thesis by fastforce
qed

text \<open>C33: a worker that has been overtaken changes nothing.  When the lease on the event it claimed is no
  longer its own, delivering it commits nothing, whatever its handlers did.\<close>

theorem overtaken_worker_changes_nothing:
  assumes "list_all (\<lambda>r. \<not> held_by (cl_tenant event) event r) (db_events st)"
  shows "tables (fst (deliver_one env failure_text event st)) = tables st"
  using assms by (rule deliver_one_lost)

theorem overtaken_worker_changes_nothing_witness:
  "tables (fst (deliver_one sample_env (\<lambda>_. []) (claimed_of pending_event 400)
     (waiting_store\<lparr>db_events := [pending_event\<lparr>ev_status := ''PROCESSING'', ev_next_attempt := Some 700\<rparr>]\<rparr>))) =
   tables (waiting_store\<lparr>db_events := [pending_event\<lparr>ev_status := ''PROCESSING'', ev_next_attempt := Some 700\<rparr>]\<rparr>)"
  by (rule overtaken_worker_changes_nothing) (simp add: held_by_def claimed_of_def)

section \<open>What a submission may decide\<close>

text \<open>
  C4: a submission of a form decides nothing the server computes.  Two payloads that differ only
  in what they claim for calculated fields, at the top level or inside the rows of a repeater, are
  stored, or refused, alike.  The form is one a publish accepts that meets two conditions a publish does
  not check: a key is declared once in its scope (\<open>well_keyed\<close>), and every calculation names what it
  reads, in approved operators (\<open>named\<close>); \<open>reads_only\<close> asks of the evaluator that such an expression
  is a function of the fields it names.
\<close>

theorem submissions_are_tamper_proof:
  assumes "\<forall>d \<in> set (definition_errors ce definition0). vd_code d \<noteq> ''CALCULATION_CYCLE''"
    and "computed_path_errors definition0 = []"
    and "get definition0 ''components'' = Some (Array cs)"
    and "reads_only lb" and "well_keyed cs" and "named cs" and "same_inputs cs a b"
  shows "secure lb definition0 (Object a) strictness = secure lb definition0 (Object b) strictness"
  using secure_same [OF assms(4,5) published_computable [OF assms(1-3)] assms(6,7,3)] .

theorem submissions_are_tamper_proof_witness:
  "secure sample_libraries sample_form (Object (sample_sent (Number (PosInt 7)) Null)) Submit =
   secure sample_libraries sample_form (Object (sample_sent Null (String ''x''))) Submit"
proof (rule submissions_are_tamper_proof)
  show "\<forall>d \<in> set (definition_errors (\<lambda>_ _. None) sample_form). vd_code d \<noteq> ''CALCULATION_CYCLE''"
    by (simp add: sample_form_clean)
  show "get sample_form ''components'' = Some (Array sample_components)"
    by (simp add: sample_form_def)
qed (rule sample_form_paths sample_reads sample_keyed sample_named sample_same)+

text \<open>
  C13: one pass settles every calculated field.  Whatever was sent, a derived field of the top scope holds
  what its expression evaluates to over the payload as the pass leaves it, so a second pass would
  change nothing.  The form is one a publish accepts whose keys are declared once in their scope
  (\<open>well_keyed\<close>) and whose calculations name what they read (\<open>named\<close>), which a publish does not check;
  \<open>reads_only\<close> asks of the evaluator that such an expression is a function of the fields it names.
\<close>

theorem one_pass_settles_every_calculation:
  assumes "\<forall>d \<in> set (definition_errors ce definition0). vd_code d \<noteq> ''CALCULATION_CYCLE''"
    and "computed_path_errors definition0 = []"
    and "get definition0 ''components'' = Some (Array cs)"
    and "reads_only lb" and "well_keyed cs" and "named cs"
    and "c \<in> set (leaves cs)" "derived c" "get c ''calculate'' = Some e" "data_key c = Some key"
  shows "map_of (fst (recomputed lb cs a)) key =
    Some (computed_value lb c (lb_evaluate lb e (Object (fst (recomputed lb cs a)))))"
  using recomputed_settles [OF assms(4,5) published_computable [OF assms(1-3)] assms(6-10)] .

theorem one_pass_settles_every_calculation_witness:
  "map_of (fst (recomputed sample_libraries sample_components (sample_sent Null Null))) ''b'' =
    Some (computed_value sample_libraries (calculated ''b'' (plus (var0 ''a'')))
      (lb_evaluate sample_libraries (plus (var0 ''a''))
        (Object (fst (recomputed sample_libraries sample_components (sample_sent Null Null))))))"
proof (rule one_pass_settles_every_calculation)
  show "\<forall>d \<in> set (definition_errors (\<lambda>_ _. None) sample_form). vd_code d \<noteq> ''CALCULATION_CYCLE''"
    by (simp add: sample_form_clean)
  show "get sample_form ''components'' = Some (Array sample_components)"
    by (simp add: sample_form_def)
  show "calculated ''b'' (plus (var0 ''a'')) \<in> set (leaves sample_components)"
    by (simp add: sample_leaves)
  show "derived (calculated ''b'' (plus (var0 ''a'')))"
    "get (calculated ''b'' (plus (var0 ''a''))) ''calculate'' = Some (plus (var0 ''a''))"
    "data_key (calculated ''b'' (plus (var0 ''a''))) = Some ''b''"
    by code_simp+
qed (rule sample_form_paths sample_reads sample_keyed sample_named)+

text \<open>
  C6: an accepted payload holds the declared keys of the components that stayed visible and no other, under
  either strictness.
\<close>

theorem stored_keys_are_declared:
  assumes "get definition0 ''components'' = Some (Array cs)"
    and "secure lb definition0 (Object a) strictness = Some (Inr stored)"
  shows "\<exists>p. stored = Object p \<and>
    fst ` set p = declared_keys cs - {key. ([], key) \<in> set (vs_hidden (visibility_of lb cs a))}"
  using assms(2) payload_keys unfolding secure_accepts [OF assms(1)] by blast

theorem stored_keys_are_declared_witness:
  "\<exists>p. Object (sample_stored Null) = Object p \<and>
    fst ` set p = declared_keys validated_components -
      {key. ([], key) \<in> set (vs_hidden (visibility_of sample_libraries validated_components (sample_named Null)))}"
  by (rule stored_keys_are_declared [OF sample_validated_components sample_accepted])

text \<open>
  C5: a submission is accepted only when every field left visible passes: no keyword of its
  \<open>validation\<close> is broken, a required one is not empty, one with a value has the declared type, and every rule of its list is known
  and enforced.  A draft of the same payload is accepted too, with the same result.
\<close>

theorem accepted_submissions_are_valid:
  assumes "get definition0 ''components'' = Some (Array cs)"
    and "secure lb definition0 (Object a) Submit = Some (Inr stored)"
    and "f \<in> set (vs_visible (visibility_of lb cs a))"
  shows "\<exists>p outcome. stored = Object p \<and>
    validate_field lb (vf_component f) (value_of_field p f) (scope_of_field p f) = Some outcome \<and>
    fo_violation outcome = None \<and> fo_unknown outcome = [] \<and> fo_unenforced outcome = [] \<and>
    (get (keywords_of (vf_component f)) ''required'' \<noteq> Some (Bool True) \<or> \<not> is_empty (value_of_field p f)) \<and>
    (is_empty (value_of_field p f) \<or>
      (case get_str (keywords_of (vf_component f)) ''type'' of
         None \<Rightarrow> True | Some t \<Rightarrow> matches_type (value_of_field p f) t)) \<and>
    secure lb definition0 (Object a) Draft = Some (Inr stored)"
proof -
  let ?p = "payload_of lb cs a"
  have "field_failures lb ?p f = Some []"
    using assms(2,3) unfolding submission_accepted [OF assms(1)] validate_all_Nil by blast
  then obtain outcome where o:
    "validate_field lb (vf_component f) (value_of_field ?p f) (scope_of_field ?p f) = Some outcome"
    "fo_violation outcome = None" "fo_unknown outcome = []" "fo_unenforced outcome = []"
    by (rule field_failures_Nil)
  have "stored = Object ?p" using assms(2) unfolding submission_accepted [OF assms(1)] by blast
  with o keywords_hold [OF validate_field_keywords [OF o(1,2)]] accepted_submission [OF assms(1,2)]
  show ?thesis by (auto split: option.split)
qed

theorem accepted_submissions_are_valid_witness:
  "\<exists>p outcome. Object (sample_stored Null) = Object p \<and>
    validate_field sample_libraries name_field (value_of_field p (visible_at_top name_field ''name''))
      (scope_of_field p (visible_at_top name_field ''name'')) = Some outcome \<and>
    fo_violation outcome = None"
  using accepted_submissions_are_valid
    [OF sample_validated_components sample_accepted, of "visible_at_top name_field ''name''"]
  by (auto simp: sample_visibility)

text \<open>
  C14: the evaluation of a payload answers, except when a visible field with the \<open>date-time\<close> format holds
  a text longer than ten bytes whose tenth and eleventh byte belong to one character: there the
  code panics instead of reporting the field.
\<close>

theorem evaluation_panics_inside_a_character:
  assumes "get definition0 ''components'' = Some (Array cs)"
    and "secure lb definition0 (Object a) strictness = None"
  shows "\<exists>f s. f \<in> set (vs_visible (visibility_of lb cs a)) \<and>
    value_of_field (payload_of lb cs a) f = String s \<and>
    get_str (keywords_of (vf_component f)) ''format'' = Some ''date-time'' \<and>
    10 < length s \<and> (of_char (s ! 10) :: nat) div 64 = 2"
  using assms(2) unfolding secure_panics [OF assms(1)] by (blast elim: broken_keyword_panics)

theorem evaluation_panics_inside_a_character_witness:
  "secure sample_libraries sample_validated (Object (sample_named (String torn))) Submit = None \<and>
   (\<exists>f s. f \<in> set (vs_visible (visibility_of sample_libraries validated_components (sample_named (String torn)))) \<and>
      value_of_field (payload_of sample_libraries validated_components (sample_named (String torn))) f = String s \<and>
      get_str (keywords_of (vf_component f)) ''format'' = Some ''date-time'' \<and>
      10 < length s \<and> (of_char (s ! 10) :: nat) div 64 = 2)"
  using sample_panics
    evaluation_panics_inside_a_character [OF sample_validated_components sample_panics] by blast

section \<open>Forms: the evaluation order\<close>

text \<open>
  C18: the publish gate is what the evaluator relies on. When the engine checks of a form report no
  calculation cycle, every scope of the form - its own components, and the row template of every
  repeater, however deeply nested - has an evaluation order in which each field comes after
  everything its \<open>calculate\<close> and condition read.
\<close>

theorem published_form_evaluates:
  assumes "\<forall>d \<in> set (definition_errors ce form). vd_code d \<noteq> ''CALCULATION_CYCLE''"
    and "get form ''components'' = Some (Array cs)" and "scope_of cs ds"
  shows "\<exists>order. order_ok (flatten ds []) order \<and>
    evaluation_order ds = Some (Inr (map (\<lambda>i. e_component (flatten ds [] ! i)) order))"
proof -
  obtain comps where "evaluation_order ds = Some (Inr comps)" using gate_sound [OF assms] by blast
  then show ?thesis
    unfolding evaluation_order_def by (rule_tac catalogue_order_cases [of "flatten ds []"]) auto
qed

theorem published_form_evaluates_witness:
  "\<exists>order. order_ok (flatten sample_rows []) order \<and>
    evaluation_order sample_rows = Some (Inr (map (\<lambda>i. e_component (flatten sample_rows [] ! i)) order))"
proof (rule published_form_evaluates [of "\<lambda>_ _. None" sample_form sample_components])
  show "get sample_form ''components'' = Some (Array sample_components)" by (simp add: sample_form_def)
  have "\<exists>e \<in> set (flatten sample_components []). row_template (e_component e) = Some sample_rows"
    by code_simp
  then show "scope_of sample_components sample_rows" using scope_of.intros by blast
qed (simp add: sample_form_clean)

text \<open>
  C19: the evaluation order never fails to answer, and its answer is right either way: an order that
  places every field after what it reads, and then no loop exists; or the keys of a real loop of
  reads, and then no such order exists.
\<close>

theorem evaluation_order_decides:
  "(\<exists>order. evaluation_order ds = Some (Inr (map (\<lambda>i. e_component (flatten ds [] ! i)) order)) \<and>
      order_ok (flatten ds []) order \<and> (\<nexists>ks. loop_of (flatten ds []) ks)) \<or>
   (\<exists>ks. evaluation_order ds = Some (Inl (Cycle (map (\<lambda>i. e_key (flatten ds [] ! i)) ks))) \<and>
      loop_of (flatten ds []) ks \<and> (\<nexists>order. order_ok (flatten ds []) order))"
  unfolding evaluation_order_def
  by (rule catalogue_order_cases [of "flatten ds []"]) (blast dest: order_ok_no_loop)+

text \<open>
  The order is the deterministic one the documentation promises: of the fields whose
  dependencies are all placed, the one declared first comes next. On a well-formed graph the
  answer is an order exactly when this greedy sequence places every node, and it is that sequence.
\<close>

theorem topological_is_greedy:
  assumes "wf_graph g"
  shows "topological g = Some (Inr order) \<longleftrightarrow> greedy g order \<and> length order = nodes_of g"
  using assms by (rule topological_Inr_iff)

theorem topological_is_greedy_witness:
  "greedy (depends 0 2 (graph_of 3)) [1, 2, 0]"
proof -
  have "wf_graph (depends 0 2 (graph_of 3))" by (intro wf_depends) simp_all
  moreover have "topological (depends 0 2 (graph_of 3)) = Some (Inr [1, 2, 0])" by code_simp
  ultimately show ?thesis using topological_is_greedy by blast
qed

text \<open>
  On a well-formed graph a refusal is a cycle of dependencies, each node depending on the next
  and the last on the first, and no topological order exists.
\<close>

theorem topological_refusal_is_a_cycle:
  assumes "wf_graph g" "topological g = Some (Inl c)"
  shows "is_cycle g c \<and> (\<nexists>order. topo_order g order)"
  using topological_Inl [OF assms] topo_order_no_cycle by blast

theorem topological_refusal_is_a_cycle_witness:
  "is_cycle (depends 0 1 (depends 1 0 (graph_of 2))) [0, 1]"
proof -
  have "wf_graph (depends 0 1 (depends 1 0 (graph_of 2)))" by (intro wf_depends) simp_all
  moreover have "topological (depends 0 1 (depends 1 0 (graph_of 2))) = Some (Inl [0, 1])" by code_simp
  ultimately show ?thesis using topological_refusal_is_a_cycle by blast
qed

text \<open>
  A form that only reads backwards keeps its declaration order: when every field reads earlier
  fields only, the evaluation order is the catalogue as written.
\<close>

theorem declaration_order_kept:
  assumes "\<forall>i < length entries. \<forall>j. must_follow entries i j \<longrightarrow> j < i"
  shows "catalogue_order entries = Some (Inr (map e_component entries))"
proof -
  let ?g = "catalogue_graph entries"
  have "greedy ?g [0..<nodes_of ?g]"
    using assms by (intro greedy_upt) (auto simp: nodes_catalogue_graph deps_catalogue_graph)
  then have "topological ?g = Some (Inr [0..<length entries])"
    using topological_Inr_iff [OF wf_catalogue_graph] by (simp add: nodes_catalogue_graph)
  moreover have "map (\<lambda>i. e_component (entries ! i)) [0..<length entries] = map e_component entries"
    by (rule nth_equalityI) simp_all
  ultimately show ?thesis by (simp add: catalogue_order_def)
qed

theorem declaration_order_kept_witness:
  "catalogue_order (flatten [plain_field ''a'', plain_field ''b''] []) =
     Some (Inr (map e_component (flatten [plain_field ''a'', plain_field ''b''] [])))"
proof (rule declaration_order_kept)
  have "\<forall>e \<in> set (flatten [plain_field ''a'', plain_field ''b''] []).
      calculate_reads e = None \<and> conditional_reads e = None"
    by code_simp
  then show "\<forall>i < length (flatten [plain_field ''a'', plain_field ''b''] []). \<forall>j.
      must_follow (flatten [plain_field ''a'', plain_field ''b''] []) i j \<longrightarrow> j < i"
    by (simp add: must_follow_def)
qed

text \<open>
  Where a scope sits in the document does not change its order: the check, which names paths
  from the root of the definition, and the evaluator, which starts at an empty path, agree.
\<close>

theorem order_ignores_the_path:
  "catalogue_order (flatten components path) = evaluation_order components"
  by (rule catalogue_order_path)

text \<open>
  A cycle is reported as a closed chain: the rendering is the keys in order, joined by arrows,
  and ends with the key it began with.
\<close>

theorem describe_closes_the_chain:
  "describe (Cycle (k # ks)) = ''`'' @ join (''` '' @ arrow @ '' `'') (k # ks @ [k]) @ ''`''"
  by (simp add: describe_def)

section \<open>Forms: what an expression reads\<close>

text \<open>
  No read escapes the dependency graph. In an expression without computed paths, every \<open>var\<close>
  the engine evaluates in the expression's own scope either has a literal path, which the
  expression's references declare by its first segment (or as a read of the whole scope), or is
  one of the literals that name no path.
\<close>

theorem every_read_is_declared:
  assumes "\<not> reads_computed_path e" "evaluated e (Object m)" "(''var'', arg) \<in> set m"
  shows "(\<exists>p. var_path arg = Some p \<and> declares (references e) p) \<or> pathless_operand arg"
  using scope_var_visible [OF assms(2,3,1)] visited_declares by blast

theorem every_read_is_declared_witness:
  "declares (references (plus (var0 ''a''))) ''a''"
proof -
  have "evaluated (plus (var0 ''a'')) (plus (var0 ''a''))" by (rule evaluated.self)
  then have "evaluated (plus (var0 ''a'')) (Array [var0 ''a'', Number (PosInt 1)])"
    unfolding plus_def by (rule evaluated.argument [of _ _ "''+''"]) (simp_all add: ITERATORS_def)
  then have "evaluated (plus (var0 ''a'')) (Object [(''var'', String ''a'')])"
    by (rule evaluated.item) (simp add: var0_def)
  moreover have "\<not> reads_computed_path (plus (var0 ''a''))" by code_simp
  ultimately show ?thesis
    using every_read_is_declared [of "plus (var0 ''a'')" "[(''var'', String ''a'')]" "String ''a''"]
    by (auto simp: pathless_operand_def)
qed

text \<open>
  The refusal of computed paths is exact: it reports nothing exactly when no expression of any
  component of the form, down every container and row template, reads a computed path.
\<close>

theorem computed_paths_refused_exactly:
  assumes "get form ''components'' = Some (Array cs)"
  shows "computed_path_errors form = [] \<longleftrightarrow> (\<forall>c. component_under cs c \<longrightarrow> computed_free c)"
  using assms by (rule computed_gate)

theorem computed_paths_refused_exactly_witness:
  "sample_components \<noteq> [] \<and> computed_free (hd sample_components)"
proof -
  have some: "sample_components \<noteq> []" by (simp add: sample_components_def)
  have "get sample_form ''components'' = Some (Array sample_components)" by (simp add: sample_form_def)
  from computed_paths_refused_exactly [OF this] sample_form_paths
  have "component_under sample_components c \<Longrightarrow> computed_free c" for c by blast
  with some show ?thesis using component_under.top [OF hd_in_set [OF some]] by blast
qed

section \<open>Forms: operators, lookups, rules and patterns\<close>

text \<open>
  The operator check is exact: it reports nothing exactly when every operator applied anywhere
  in the expression is approved and every \<open>sum\<close> of a list takes one array.
\<close>

theorem operators_approved_exactly:
  "check_operators e approved path = [] \<longleftrightarrow>
   (\<forall>opr arg. applies e opr arg \<longrightarrow> approved_use approved opr arg)"
  by (rule check_operators_iff)

theorem operators_approved_exactly_witness:
  "approved_use CALCULATE_OPERATORS ''var'' (String ''a'')"
proof -
  have "check_operators (plus (var0 ''a'')) CALCULATE_OPERATORS [] = []" by code_simp
  moreover have "applies (plus (var0 ''a'')) ''var'' (String ''a'')"
    unfolding plus_def var0_def by (rule applies.argument [of "''+''"], simp,
        rule applies.item [of "Object [(''var'', String ''a'')]"], simp, rule applies.here, simp)
  ultimately show ?thesis using operators_approved_exactly by blast
qed

text \<open>
  A form whose lookup check is clean can fill every lookup: a lookup component has an id that a
  binding names, and every binding names a source of the vocabulary and exactly one data component
  of the form, which declares no options of its own.
\<close>

theorem lookups_are_bound:
  assumes "lookup_errors form = []"
  shows "(\<forall>c \<in> set (data_components form). component_type c = Some LOOKUP_TYPE \<longrightarrow>
      (\<exists>id0 source. dc_id c = Some id0 \<and> (id0, source) \<in> set (bindings_of form))) \<and>
    (\<forall>(id0, source) \<in> set (bindings_of form). \<exists>s component. source = String (lookup_key s) \<and>
      filter (\<lambda>c. dc_id c = Some id0) (data_components form) = [component] \<and> \<not> has_options component)"
  using lookup_errors_bound [OF assms] by fastforce

theorem lookups_are_bound_witness:
  "\<exists>source. (''s'', source) \<in> set (bindings_of sample_lookup)"
  using lookups_are_bound [OF sample_lookup_clean]
  by (simp add: sample_lookup_components LOOKUP_TYPE_def)

text \<open>
  A required rule parameter passes exactly when it is there, of its kind, not empty, and - where
  it names a field - names another field of the rule's own scope.
\<close>

theorem rule_parameter_accepted_exactly:
  "check_param path key scope_keys required name v = [] \<longleftrightarrow>
   (\<exists>x. v = Some x \<and> holds (rp_kind required) x \<and> x \<noteq> String [] \<and> x \<noteq> Array [] \<and>
      (rp_kind required = FieldKey \<longrightarrow> (\<exists>t. x = String t \<and> t \<noteq> key \<and> t \<in> set scope_keys)))"
  by (rule check_param_Nil)

theorem rule_parameter_accepted_exactly_witness:
  "check_param [] ''b'' [''a''] (hd REQUIRED_PARAMS) ''matchesField'' (Some (String ''a'')) = []"
  by (subst rule_parameter_accepted_exactly) (simp add: REQUIRED_PARAMS_def is_string_def)

text \<open>
  C22: the recursive descent over a pattern always answers with the fuel it is given, and stops only
  at the end of the pattern or at a closing parenthesis nothing opened.
\<close>

theorem pattern_descent_answers:
  "\<exists>alts rest. alternation (pattern_fuel cs) [[]] cs = Some (alts, rest) \<and>
     (rest = [] \<or> starts_with rest (CHR '')''))"
  by (rule alternation_answers)

text \<open>
  A backtracking shape is reported exactly when some group of the pattern, at any depth, repeats
  without a bound over a body that is a choice or a single item which itself repeats without a
  bound, under any number of plain groups.
\<close>

theorem backtracking_reported_exactly:
  "first_shape alts \<noteq> None \<longleftrightarrow>
   (\<exists>it body. occurs_in alts it \<and> item_group it = Some body \<and> unbounded it = Some True \<and>
      repeats_inside body)"
proof -
  have "risky it \<longleftrightarrow> (\<exists>body. item_group it = Some body \<and> unbounded it = Some True \<and> repeats_inside body)"
    for it
    unfolding risky_def repeated_body_iff [symmetric] by (cases "item_group it") auto
  then show ?thesis unfolding first_shape_iff by blast
qed

text \<open>
  A divergent construct the scanner reports is in the pattern: some suffix of the pattern begins
  with that escape, or with that POSIX class.
\<close>

theorem divergence_is_in_the_pattern:
  assumes "divergent_construct pattern = Some d"
  shows "\<exists>k. construct_at d (drop k (chars pattern))"
  using assms unfolding divergent_construct_def by (rule divergent_scan_found)

theorem divergence_is_in_the_pattern_witness:
  "\<exists>k. construct_at (Class 100) (drop k (chars [CHR ''a'', char_of (92 :: nat), CHR ''d'']))"
proof (rule divergence_is_in_the_pattern)
  show "divergent_construct [CHR ''a'', char_of (92 :: nat), CHR ''d''] = Some (Class 100)"
    by code_simp
qed

text \<open>
  The text form of a lookup source identifies it: a key names a source exactly when it is the
  source's own key, so an unknown key names none.
\<close>

theorem lookup_source_round_trip:
  "from_key k = Some s \<longleftrightarrow> k = lookup_key s"
  by (rule lookup_source.of_text_iff)

section \<open>Workflows: the structure of a definition\<close>

text \<open>
  C20: a workflow whose structural check is clean, and which draws no edge the engine never fires, cannot
  strand a document.  Every declared state can be reached from the initial state along edges the engine
  fires (a decision out of a state with a human task, the automatic edge of a service state, the
  resubmission out of a state shown as returned), and from every declared state some final state can,
  as far as the conditions on those edges let it.  (\<open>readable\<close> is what the meta-schema asks of a
  transition: the engine's parser does not drop it.  \<open>driven\<close> is not checked: the structural check
  counts edges of every action, see \<open>clean_workflow_may_strand\<close>.)
\<close>

theorem published_workflow_is_live:
  assumes "structural_errors d = []" "readable d" "driven (parse_graph d r)"
    and "get_str d ''initialState'' = Some i" "c \<in> state_codes d"
  shows "reaches (parse_graph d r) i c \<and> (\<exists>f \<in> final_codes d. reaches (parse_graph d r) c f)"
  using assms by (rule engine_live)

theorem published_workflow_is_live_witness:
  "reaches (parse_graph sample_workflow 1) ''OPEN'' ''DONE''"
proof -
  have "readable sample_workflow" by code_simp
  moreover have "get_str sample_workflow ''initialState'' = Some ''OPEN''" by code_simp
  moreover have "''DONE'' \<in> state_codes sample_workflow"
    unfolding state_codes_def by (simp, code_simp)
  ultimately show ?thesis using published_workflow_is_live [OF sample_structure _ sample_driven] by blast
qed

text \<open>
  The structural check counts edges nothing fires: it finds nothing wrong with a definition whose
  only way to its final state is a DELEGATE edge, and a document under it never leaves its first state.
\<close>

theorem clean_workflow_may_strand:
  "structural_errors delegating_workflow = [] \<and>
     (\<forall>f \<in> final_codes delegating_workflow. \<not> reaches (parse_graph delegating_workflow 1) ''OPEN'' f)"
proof -
  have "\<not> fires g t" if "t_action t = DelegateAction" for g t
    using that by (auto simp: fires_def decision_action_def split: option.split)
  moreover have "t_action t = DelegateAction" if "t \<in> set (transitions (parse_graph delegating_workflow 1))" for t
    using imageI [OF that, of "\<lambda>t. (t_from t, t_action t, t_to t)"] arg_cong [OF delegating_edges, of set]
    by auto
  ultimately have "f = ''OPEN''" if "reaches (parse_graph delegating_workflow 1) ''OPEN'' f" for f
    using stays [OF that] by blast
  then show ?thesis using delegating_final by (auto simp: delegating_clean)
qed

text \<open>
  A dead end is reported exactly: a state is named by \<open>DEAD_END_STATE\<close> when and only when it is
  declared, not final, and no final state can be reached from it along edges between declared
  states.
\<close>

theorem dead_ends_reported_exactly:
  assumes "codes \<noteq> []"
  shows "detail ''definition.states'' ''S6'' ''DEAD_END_STATE'' [s] \<in>
      set (reachability_errors initial codes finals ts) \<longleftrightarrow>
    s \<in> set codes \<and> s \<notin> set finals \<and>
    (\<forall>f \<in> set finals. (s, f) \<notin> (code_edges (codes, ts))\<^sup>*)"
  using assms by (rule dead_end_reported)

theorem dead_ends_reported_exactly_witness:
  "detail ''definition.states'' ''S6'' ''DEAD_END_STATE'' [''A''] \<in>
     set (reachability_errors None [''A''] [] [])"
  using dead_ends_reported_exactly [of "[''A'']" "''A''" None "[]" "[]"] by simp

text \<open>
  An orphan is reported exactly: a state is named by \<open>UNREACHABLE_STATE\<close> when and only when it
  is declared and no path of edges between declared states leads to it from the initial state.
\<close>

theorem orphans_reported_exactly:
  assumes "codes \<noteq> []"
  shows "detail ''definition.states'' ''S6'' ''UNREACHABLE_STATE'' [s] \<in>
      set (reachability_errors (Some initial) codes finals ts) \<longleftrightarrow>
    s \<in> set codes \<and> (initial, s) \<notin> (code_edges (codes, ts))\<^sup>*"
  using assms by (rule unreachable_reported)

theorem orphans_reported_exactly_witness:
  "detail ''definition.states'' ''S6'' ''UNREACHABLE_STATE'' [''A''] \<notin>
     set (reachability_errors (Some ''A'') [''A''] [] [])"
  using orphans_reported_exactly [of "[''A'']" "''A''" "''A''" "[]" "[]"] by simp

text \<open>
  The breadth-first walk returns exactly what its adjacency reaches from the roots, roots
  included.
\<close>

theorem walk_is_reachability:
  "set (walk edges roots) = (edge_rel edges)\<^sup>* `` set roots"
  by (rule set_walk)

text \<open>
  The fallback is evaluated last and is alone. For any state and action the engine's candidates
  are the conditioned edges in document order followed by the unconditioned ones, and under a clean
  structural check there is at most one of those.
\<close>

theorem one_fallback_and_it_is_last:
  assumes "structural_errors d = []"
  shows "\<exists>fallback. length fallback \<le> 1 \<and>
    candidates (parse_graph d r) from0 act =
      filter (\<lambda>t. t_from t = from0 \<and> t_action t = act \<and> condition t \<noteq> None)
        (transitions (parse_graph d r)) @ fallback \<and>
    (\<forall>t \<in> set fallback. condition t = None)"
proof -
  let ?fb = "filter (\<lambda>t. t_from t = from0 \<and> t_action t = act \<and> condition t = None)
    (transitions (parse_graph d r))"
  have "filter (\<lambda>t. condition t = None) (candidates (parse_graph d r) from0 act) = ?fb"
    unfolding candidates_def sort_key_stable [where k = True and f = "\<lambda>t. condition t = None", simplified]
    by (induction "transitions (parse_graph d r)") simp_all
  then have "length ?fb \<le> 1" using engine_fallbacks [OF assms, of r from0 act] by simp
  then show ?thesis by (intro exI [of _ ?fb]) (simp add: candidates_partition)
qed

theorem one_fallback_and_it_is_last_witness:
  "map t_to (candidates (parse_graph sample_workflow 1) ''OPEN'' ApproveAction) = [''DONE'', ''BACK''] \<and>
   (\<exists>fallback. length fallback \<le> 1 \<and>
     candidates (parse_graph sample_workflow 1) ''OPEN'' ApproveAction =
       filter (\<lambda>t. t_from t = ''OPEN'' \<and> t_action t = ApproveAction \<and> condition t \<noteq> None)
         (transitions (parse_graph sample_workflow 1)) @ fallback \<and>
     list_all (\<lambda>t. condition t = None) fallback)"
proof
  show "map t_to (candidates (parse_graph sample_workflow 1) ''OPEN'' ApproveAction) = [''DONE'', ''BACK'']"
    by code_simp
qed (unfold list_all_iff, rule one_fallback_and_it_is_last [OF sample_structure])

text \<open>
  Nothing leaves a final state: under a clean structural check the engine offers no action on a
  state it reads as final.
\<close>

theorem final_states_are_final:
  assumes "structural_errors d = []" "s \<in> set (states (parse_graph d r))" "is_final s"
  shows "actions_from (parse_graph d r) (code s) = []"
  using assms by (rule engine_final_states)

theorem final_states_are_final_witness:
  "actions_from (parse_graph sample_workflow 1) ''DONE'' = []"
proof -
  have "\<exists>s \<in> set (states (parse_graph sample_workflow 1)). is_final s \<and> code s = ''DONE''" by code_simp
  then show ?thesis using final_states_are_final [OF sample_structure] by metis
qed

text \<open>
  No role the engine resolves escapes the publish check. When every reference the definition
  makes is to a live role, every role a task assignment or an \<open>allowedBy\<close> of the parsed graph names
  is live, in the object form and in the shorthand.
\<close>

theorem resolved_roles_are_live:
  assumes "dead_role_errors (role_references d) live = []"
    and "rule \<in> engine_rules (parse_graph d r)" "assignee_type rule \<in> {Role, DepartmentRole}"
    and "role_code rule = Some role"
  shows "role \<in> set live"
  using assms by (rule live_role)

theorem resolved_roles_are_live_witness:
  "\<exists>rule \<in> engine_rules (parse_graph sample_workflow 1).
     role_code rule = Some ''APPROVER'' \<and> ''APPROVER'' \<in> set [''CLERK'', ''APPROVER'']"
proof -
  let ?g = "parse_graph sample_workflow 1"
  have "\<exists>s \<in> set (states ?g). \<exists>spec. task s = Some spec \<and>
      assignee_type (assignment spec) = Role \<and> role_code (assignment spec) = Some ''APPROVER''"
    by (rule bexI [of _ "hd (states ?g)"], rule exI [of _ "the (task (hd (states ?g)))"]; code_simp)
  then obtain s spec where s: "s \<in> set (states ?g)" "task s = Some spec"
    "assignee_type (assignment spec) = Role" "role_code (assignment spec) = Some ''APPROVER''" by blast
  then have rule: "assignment spec \<in> engine_rules ?g" by (auto simp: engine_rules_def)
  have "dead_role_errors (role_references sample_workflow) [''CLERK'', ''APPROVER''] = []" by code_simp
  then have "''APPROVER'' \<in> set [''CLERK'', ''APPROVER'']"
    by (rule resolved_roles_are_live [OF _ rule _ s(4)]) (simp add: s(3))
  with rule s(4) show ?thesis by blast
qed

text \<open>
  No department code the engine resolves escapes the publish check: every scope of a
  \<open>DEPARTMENT_ROLE\<close> rule of the parsed graph that is not a reserved word is a live department.
\<close>

theorem resolved_departments_are_live:
  assumes "dead_department_errors (department_references d) live = []"
    and "rule \<in> engine_rules (parse_graph d r)" "assignee_type rule = DepartmentRole"
    and "department_scope rule = Some scope" "scope \<notin> set RESERVED_DEPARTMENT_SCOPES"
  shows "scope \<in> set live"
  using assms by (rule live_department)

theorem resolved_departments_are_live_witness:
  "\<exists>rule \<in> engine_rules (parse_graph sample_workflow 1).
     department_scope rule = Some ''FIN'' \<and> ''FIN'' \<in> set [''OPS'', ''FIN'']"
proof -
  let ?g = "parse_graph sample_workflow 1"
  have "\<exists>t \<in> set (transitions ?g). \<exists>rule. allowed_by t = Some rule \<and>
      assignee_type rule = DepartmentRole \<and> department_scope rule = Some ''FIN''"
    by (rule bexI [of _ "transitions ?g ! 1"], rule exI [of _ "the (allowed_by (transitions ?g ! 1))"];
        code_simp)
  then obtain t rule where t: "t \<in> set (transitions ?g)" "allowed_by t = Some rule"
    "assignee_type rule = DepartmentRole" "department_scope rule = Some ''FIN''" by blast
  then have rule: "rule \<in> engine_rules ?g" by (auto simp: engine_rules_def)
  have "dead_department_errors (department_references sample_workflow) [''OPS'', ''FIN''] = []"
    by code_simp
  then have "''FIN'' \<in> set [''OPS'', ''FIN'']"
    by (rule resolved_departments_are_live [OF _ rule t(3,4)])
      (simp add: RESERVED_DEPARTMENT_SCOPES_def)
  with rule t(4) show ?thesis by blast
qed

section \<open>Workflows: conditions\<close>

text \<open>
  A published condition reads only what the engine builds. Every \<open>var\<close> evaluated in the scope of
  a transition's condition names a path of the condition context, or is a literal that names none.
\<close>

theorem conditions_read_built_paths:
  assumes "condition_path_errors d = []" "t \<in> set (def_transitions d)" "get t ''condition'' = Some e"
    and "evaluated e (Object m)" "(''var'', arg) \<in> set m"
  shows "(\<exists>p. var_path arg = Some p \<and> is_built p (declared_variables d)) \<or> pathless_operand arg"
proof -
  obtain path where "check_condition (declared_variables d) path e False = []"
    using condition_checked [OF assms(1-3)] by blast
  then have "\<forall>p \<in> set (visit_paths e). is_built p (declared_variables d)" "\<not> reads_computed_path e"
    unfolding check_condition_Nil by simp_all
  with scope_var_visible [OF assms(4,5)] show ?thesis by blast
qed

theorem conditions_read_built_paths_witness:
  "is_built ''formData.amount'' (declared_variables sample_workflow)"
proof -
  let ?v = "Object [(''var'', String ''formData.amount'')]"
  have "evaluated sample_condition sample_condition" by (rule evaluated.self)
  then have "evaluated sample_condition (Array [?v, Object [(''var'', String ''variables.limit'')]])"
    unfolding sample_condition_def
    by (rule evaluated.argument [of _ _ "''<=''"]) (simp_all add: ITERATORS_def)
  then have ev: "evaluated sample_condition ?v" by (rule evaluated.item) simp
  have "sample_approve \<in> set (def_transitions sample_workflow)"
    "get sample_approve ''condition'' = Some sample_condition"
    by (simp_all add: sample_workflow_def sample_approve_def get_arr_def)
  from conditions_read_built_paths [OF sample_conditions this ev, of "String ''formData.amount''"]
  show ?thesis by (auto simp: pathless_operand_def)
qed

text \<open>
  An iterator of a published condition never sees the context: no \<open>var\<close> evaluated inside a source
  or an initial value of an iterator reads the whole scope or one of the guarded roots, so its body
  cannot read a key nobody checked.
\<close>

theorem iterators_never_see_the_context:
  assumes "\<not> hands_an_iterator_the_context e" "evaluated e (Object m)" "(opr, arg) \<in> set m"
    and "opr \<in> set ITERATORS" "Some x \<in> set (iterator_operands opr arg)"
    and "evaluated x (Object m')" "(''var'', operand) \<in> set m'"
  shows "\<not> names_the_context operand"
  using context_never_named [OF iterator_hidden [OF assms(1-5)] assms(6,7)] .

theorem iterators_never_see_the_context_witness:
  "\<not> names_the_context (String ''formData.lines'')"
proof (rule iterators_never_see_the_context)
  let ?x = "Object [(''var'', String ''formData.lines'')]"
  let ?e = "Object [(''some'', Array [?x, Bool True])]"
  show "\<not> hands_an_iterator_the_context ?e" by code_simp
  show "evaluated ?e ?e" by (rule evaluated.self)
  show "(''some'', Array [?x, Bool True]) \<in> set [(''some'', Array [?x, Bool True])]" by simp
  show "''some'' \<in> set ITERATORS" by (simp add: ITERATORS_def)
  show "Some ?x \<in> set (iterator_operands ''some'' (Array [?x, Bool True]))"
    by (simp add: iterator_operands_def)
  show "evaluated ?x ?x" by (rule evaluated.self)
  show "(''var'', String ''formData.lines'') \<in> set [(''var'', String ''formData.lines'')]" by simp
qed

text \<open>
  The paths a condition is refused for are exactly the paths it reads that the engine does not
  build, each told once.
\<close>

theorem unbuilt_paths_exactly:
  "set (unbuilt_paths declared e) = {p \<in> set (visit_paths e). \<not> is_built p declared} \<and>
   distinct (unbuilt_paths declared e)"
  using unbuilt_paths_spec by blast

section \<open>Workflows: vocabulary\<close>

text \<open>
  The text form of a transition action identifies it, so a stored action is read back as itself
  and any other text is no action.
\<close>

theorem transition_action_round_trip:
  "action_parse s = Some a \<longleftrightarrow> s = action_as_db a"
  by (rule transition_action.of_text_iff)

text \<open>
  The shorthand of an assignment rule means what its object form means: \<open>ROLE:X\<close>, \<open>USER:X\<close> and
  \<open>OWNER\<close> parse to the rule the object with that assignee type parses to.
\<close>

theorem shorthand_is_the_object_form:
  "rule_parse (String (''ROLE:'' @ x)) =
     rule_parse (Object [(''assigneeType'', String ''ROLE''), (''roleCode'', String x)]) \<and>
   rule_parse (String (''USER:'' @ x)) =
     rule_parse (Object [(''assigneeType'', String ''USER''), (''userId'', String x)]) \<and>
   rule_parse (String ''OWNER'') = rule_parse (Object [(''assigneeType'', String ''OWNER'')])"
  by (simp add: rule_parse_def shorthand_def get_str_def assignee_parse_def)

text \<open>
  A task type is performed exactly when, trimmed, it is blank or one of the two names the engine
  writes; every other member of the vocabulary is refused as not implemented and everything else as
  not declared.
\<close>

theorem task_types_decided:
  "parse_task_type (Some v) =
     (if trim v = [] \<or> trim v = task_type_as_db Approval then Inr Approval
      else if trim v = task_type_as_db Service then Inr Service
      else if trim v \<in> set DECLARED then Inl (NotImplemented (trim v))
      else Inl (NotDeclared (trim v))) \<and>
   parse_task_type (Some (task_type_as_db t)) = Inr t"
  using parse_task_type_Some parse_task_type_as_db by blast

section \<open>Hooks: registration\<close>

text \<open>
  At run time a published chain meets no handler it cannot run. Under a clean registration check
  every guard of a transition is a core handler that resolves and serves the before half, and every
  action one that resolves and serves the after half.
\<close>

theorem published_handlers_resolve:
  assumes "registration_errors d = []" "t \<in> set (def_transitions d)"
  shows "(\<forall>reg \<in> set (guards_of t). \<exists>name run kind. reg_handler reg = CoreHandlerRef name \<and>
      resolve name = Some (run, kind) \<and> serves_before kind) \<and>
    (\<forall>reg \<in> set (actions_of t). \<exists>name run kind. reg_handler reg = CoreHandlerRef name \<and>
      resolve name = Some (run, kind) \<and> serves_after kind \<and> \<not> before_only (reg_handler reg))"
  using registrations_resolve [OF assms] by (fastforce simp: before_only_def)

theorem published_handlers_resolve_witness:
  "\<exists>reg name run kind. reg \<in> set (guards_of sample_approve) \<and> reg_handler reg = CoreHandlerRef name \<and>
     resolve name = Some (run, kind) \<and> serves_before kind"
proof -
  have "guards_of sample_approve \<noteq> []" by code_simp
  then have some: "hd (guards_of sample_approve) \<in> set (guards_of sample_approve)" by simp
  have "sample_approve \<in> set (def_transitions sample_workflow)"
    by (simp add: sample_workflow_def get_arr_def)
  from published_handlers_resolve [OF sample_registrations this] some show ?thesis by blast
qed

text \<open>
  A handler reference is read back from its own spelling, and only from that: the text parses to
  a reference exactly when it is the reference's rendering and its segments follow the grammar.
\<close>

theorem handler_reference_round_trip:
  "handler_parse s = Some h \<longleftrightarrow> s = handler_text h \<and> wf_handler h"
  using handler_parse_text handler_parse_Some by blast

text \<open>
  A merged chain is the two sources' registrations, none added or lost, in priority order, and
  registrations of equal priority keep their registration order, registry first.
\<close>

theorem merged_chain_order:
  "sorted (map reg_priority (merge_chain registry workflow)) \<and>
   mset (merge_chain registry workflow) = mset registry + mset workflow \<and>
   filter (\<lambda>e. reg_priority e = p) (merge_chain registry workflow) =
     filter (\<lambda>e. reg_priority e = p) registry @ filter (\<lambda>e. reg_priority e = p) workflow"
  by (simp add: merge_chain_def sort_key_stable)

text \<open>
  The priority of a registration is the declared one only within 32 bits. It always fits an
  \<open>i32\<close>; a declared priority outside that range, which the meta-schema admits, wraps around - a
  declared 4294967296 runs first, at priority 0, rather than last.
\<close>

theorem priority_wraps_at_32_bits:
  "(- (2 ^ 31) \<le> as_i32 p \<and> as_i32 p < 2 ^ 31) \<and>
   (as_i32 p = p \<longleftrightarrow> - (2 ^ 31) \<le> p \<and> p < 2 ^ 31) \<and>
   map reg_priority (guards_of (Object [(''guards'', Array [Object
     [(''handler'', String ''core:reject_when''), (''priority'', Number (PosInt (2 ^ 32)))]])])) = [0]"
proof (intro conjI)
  show "- (2 ^ 31) \<le> as_i32 p" "as_i32 p < 2 ^ 31"
    using pos_mod_sign [of "2 ^ 32" "p + 2 ^ 31"] pos_mod_bound [of "2 ^ 32" "p + 2 ^ 31"]
    by (simp_all add: as_i32_def)
  show "as_i32 p = p \<longleftrightarrow> - (2 ^ 31) \<le> p \<and> p < 2 ^ 31"
  proof
    assume "as_i32 p = p"
    with \<open>- (2 ^ 31) \<le> as_i32 p\<close> \<open>as_i32 p < 2 ^ 31\<close> show "- (2 ^ 31) \<le> p \<and> p < 2 ^ 31" by simp
  next
    assume "- (2 ^ 31) \<le> p \<and> p < 2 ^ 31"
    then have "(p + 2 ^ 31) mod 2 ^ 32 = p + 2 ^ 31" by (intro mod_pos_pos_trivial) simp_all
    then show "as_i32 p = p" by (simp add: as_i32_def)
  qed
  have "handler_parse ''core:reject_when'' = Some (CoreHandlerRef ''reject_when'')" by code_simp
  then show "map reg_priority (guards_of (Object [(''guards'', Array [Object
     [(''handler'', String ''core:reject_when''), (''priority'', Number (PosInt (2 ^ 32)))]])])) = [0]"
    by (simp add: guards_of_def entries_of_def get_arr_def get_bool_or_def get_str_def as_i32_def)
qed

section \<open>Hooks: running a chain\<close>

text \<open>
  C21: a before-chain that lets the transition through ran every handler, once, in order. The log
  gains one row per registration, newest first, each a \<open>CONTINUE\<close> or a \<open>MODIFY\<close>; the form data it
  returns is what the chain left, and is the original unless the outcome says it was modified.
\<close>

theorem passed_chain_ran_every_handler:
  assumes "run_before_chain w chain ref st = (st', Inr out)"
  shows "\<exists>rows. cs_log st' = rows @ cs_log st \<and> list_all2 passed_row chain (rev rows) \<and>
    out_form_data out = inv_form_data (cs_inv st') \<and>
    (\<not> out_modified out \<longrightarrow> out_form_data out = inv_form_data (cs_inv st))"
  using before_loop_Inr [OF assms [unfolded run_before_chain_def]] by blast

theorem passed_chain_ran_every_handler_witness:
  "\<exists>(st :: ChainState) row. cs_log st = [row] \<and> passed_row (registration ''set_form_field'') row"
proof -
  obtain st out where run: "run_before_chain sample_world [registration ''set_form_field''] None
      (state_with []) = (st, Inr out)" using sample_chain_passes by blast
  from passed_chain_ran_every_handler [OF run] obtain rows where
    "cs_log st = rows" "list_all2 passed_row [registration ''set_form_field''] (rev rows)"
    by (auto simp: state_with_def)
  then show ?thesis by (auto simp: list_all2_Cons1)
qed

text \<open>
  A before-chain that refuses stops at the handler it names. The handlers before it passed, the
  error's last entry carries its reference under \<open>HOOK_REJECTED\<close>, the log gains the rows of the
  passed handlers and at most one \<open>REJECT\<close> or \<open>ERROR\<close> row of its own, and no later handler ran.
\<close>

theorem refused_chain_stops_there:
  assumes "run_before_chain w chain ref st = (st', Inl (Validation ds))"
  shows "\<exists>pre entry post rows own. chain = pre @ entry # post \<and>
    refusal_of entry (hook_name (cs_inv st)) ds \<and>
    cs_log st' = own @ rows @ cs_log st \<and> list_all2 passed_row pre (rev rows) \<and> length own \<le> 1 \<and>
    (\<forall>row \<in> set own. ex_handler_reference row = handler_text (reg_handler entry) \<and>
       (ex_result row = ''REJECT'' \<or> ex_result row = ''ERROR''))"
proof -
  obtain pre entry post st1 out where p: "chain = pre @ entry # post"
    "before_loop w ref 0 False pre st = (st1, Inr out)"
    "before_step w ref (0 + length pre) entry st1 = (st', Inl (Validation ds))"
    using before_loop_Inl [OF assms [unfolded run_before_chain_def]] by blast
  from before_loop_Inr(1,4) [OF p(2)] before_step_Inl [OF p(3)] p(1) show ?thesis
    by (metis append_assoc)
qed

theorem refused_chain_stops_there_witness:
  "\<exists>ds. refusal_of (registration ''reject_when'') BEFORE_WORKFLOW_TRANSITION ds"
proof -
  obtain st ds where run: "run_before_chain sample_world [registration ''reject_when''] None
      (state_with []) = (st, Inl (Validation ds))" using sample_chain_refuses by blast
  from refused_chain_stops_there [OF run] obtain pre entry post where
    "[registration ''reject_when''] = pre @ entry # post"
    "refusal_of entry (hook_name (cs_inv (state_with []))) ds" by blast
  then show ?thesis
    by (cases pre) (auto simp: state_with_def sample_invocation_def)
qed

text \<open>
  The response to a refused transition does not say what the handler said. Whatever code and
  message a handler rejects with, the error's own code is \<open>VALIDATION_ERROR\<close> and its message
  \<open>Validation failed\<close>; the handler's code is in the \<open>_hook\<close> detail and its message nowhere, where
  the contract (LHCS 6) gives the error the code \<open>HOOK_REJECTED\<close> and the handler's message.
\<close>

theorem refusal_hides_the_message:
  assumes "\<not> chain_elapsed w at > CHAIN_BUDGET" "\<not> handler_elapsed w at > HANDLER_BUDGET"
    and "run_handler (evaluate w) (reg_handler entry)
           (as_json (invoked_at w at) (enter entry (cs_inv st))) = Reject r"
    and "db_fault w (cs_statements st) = None"
  shows "\<exists>e. snd (before_step w ref at entry st) = Inl e \<and>
    (\<forall>m. rejected (r\<lparr>rej_message := m\<rparr>) (reg_handler entry) (hook_name (cs_inv st)) = e) \<and>
    rs_status (into_response e) = 422 \<and>
    rs_body (into_response e) = new_envelope ''VALIDATION_ERROR'' ''Validation failed''
      (map (\<lambda>(field, text). detail field ''hook'' HOOK_REJECTED [text]) (rej_details r) @
       [detail ''_hook'' ''hook'' HOOK_REJECTED
          [rej_code r, handler_text (reg_handler entry), hook_name (cs_inv st)]])"
proof -
  have "rs_body (into_response (rejected r (reg_handler entry) (hook_name (cs_inv st)))) =
      new_envelope ''VALIDATION_ERROR'' ''Validation failed''
      (map (\<lambda>(field, text). detail field ''hook'' HOOK_REJECTED [text]) (rej_details r) @
       [detail ''_hook'' ''hook'' HOOK_REJECTED
          [rej_code r, handler_text (reg_handler entry), hook_name (cs_inv st)]])"
    "rs_status (into_response (rejected r (reg_handler entry) (hook_name (cs_inv st)))) = 422"
    by (simp_all add: into_response_def rejected_response) (simp add: rejected_def)
  then show ?thesis using before_step_reject [OF assms] rejected_ignores_message by metis
qed

theorem refusal_hides_the_message_witness:
  "\<exists>e. snd (before_step sample_world None 0 (registration ''reject_when'') (state_with [])) = Inl e \<and>
     eb_code (ee_error (rs_body (into_response e))) \<noteq> HOOK_REJECTED"
proof -
  have "run_handler (evaluate sample_world) (reg_handler (registration ''reject_when''))
      (as_json (invoked_at sample_world 0)
        (enter (registration ''reject_when'') (cs_inv (state_with [])))) =
      Reject (new_rejection ''HOOK_CONDITION_MET'' ''a guard on this transition refused it'')"
    "\<not> chain_elapsed sample_world 0 > CHAIN_BUDGET" "\<not> handler_elapsed sample_world 0 > HANDLER_BUDGET"
    "db_fault sample_world (cs_statements (state_with [])) = None"
    by (simp_all add: chain_evaluation)
  from refusal_hides_the_message [OF this(2,3,1,4), of None] show ?thesis
    by (auto simp: new_envelope_def HOOK_REJECTED_def)
qed

text \<open>
  An after-chain that reports no failure settled every entry: one row each, in order, a
  \<open>CONTINUE\<close> for every handler that can run after a commit and the permanent \<open>ERROR\<close> for one that
  cannot.
\<close>

theorem settled_after_chain_ran_everything:
  assumes "run_after_chain w chain ref st = (st', Inr [])"
  shows "\<exists>rows. cs_log st' = rows @ cs_log st \<and> list_all2 settled_row chain (rev rows)"
  using after_loop_settled [OF assms [unfolded run_after_chain_def]] by blast

theorem settled_after_chain_ran_everything_witness:
  "\<exists>(st :: ChainState) r1 r2. cs_log st = [r2, r1] \<and> settled_row (registration ''continue_always'') r1 \<and>
     settled_row (registration ''reject_when'') r2"
proof -
  obtain st where run: "run_after_chain sample_world
      [registration ''continue_always'', registration ''reject_when''] None (state_with []) = (st, Inr [])"
    using sample_after_settles by blast
  from settled_after_chain_ran_everything [OF run] obtain rows where
    "cs_log st = rows"
    "list_all2 settled_row [registration ''continue_always'', registration ''reject_when''] (rev rows)"
    by (auto simp: state_with_def)
  then obtain r1 r2 where "cs_log st = [r2, r1]" "settled_row (registration ''continue_always'') r1"
    "settled_row (registration ''reject_when'') r2"
    by (auto simp: list_all2_Cons1 rev_eq_Cons_iff)
  then show ?thesis by blast
qed

text \<open>
  An open breaker pauses a handler: it is not run, no row is written for it, and the delivery is
  told to come back.
\<close>

theorem open_breaker_pauses:
  assumes "\<not> before_only (reg_handler entry)"
    and "recent_executions w (handler_text (reg_handler entry)) BREAKER_THRESHOLD
           (st\<lparr>cs_inv := enter entry (cs_inv st)\<rparr>) = (st1, Inr recent)"
    and "breaker_is_open recent"
  shows "after_step w ref at entry st = (st1, Inr [Paused (handler_text (reg_handler entry))]) \<and>
    cs_log st1 = cs_log st"
  using after_step_paused [OF assms] recent_executions_Inr [OF assms(2)] by simp

theorem open_breaker_pauses_witness:
  "\<exists>st. after_step sample_world None 0 (registration ''continue_always'')
     (state_with (replicate 5 failed_row)) = (st, Inr [Paused ''core:continue_always''])"
proof -
  let ?entry = "registration ''continue_always''"
  have spelled: "handler_text (reg_handler ?entry) = ''core:continue_always''"
    by (simp add: registration_def)
  have "\<not> before_only (reg_handler ?entry)"
    by (simp add: registration_def before_only_def resolve_def serves_after_def)
  moreover have "cs_inv (state_with (replicate 5 failed_row)) = sample_invocation"
    by (simp add: state_with_def)
  ultimately show ?thesis
    using sample_breaker_open open_breaker_pauses [of ?entry sample_world "state_with (replicate 5 failed_row)"]
    unfolding spelled by metis
qed

text \<open>
  A breaker tells the administrators once per opening. Two executions of a handler's history can
  both be the one that opened the breaker only when an execution between them did not fail, so a
  failed trial reports nothing again.
\<close>

theorem one_report_per_opening:
  assumes "breaker_opened_by_latest (take (BREAKER_THRESHOLD + 1) (drop i history))"
    and "breaker_opened_by_latest (take (BREAKER_THRESHOLD + 1) (drop j history))" and "i < j"
  shows "\<exists>k. i < k \<and> k < j \<and> \<not> is_error (history ! k)"
  using opened_apart assms unfolding opened_take by blast

theorem one_report_per_opening_witness:
  "\<exists>k. 0 < k \<and> k < 6 \<and>
     \<not> is_error ((replicate 5 \<lparr>is_error = True, cooled = True\<rparr> @ \<lparr>is_error = False, cooled = True\<rparr> #
          replicate 5 \<lparr>is_error = True, cooled = True\<rparr>) ! k)"
proof (rule one_report_per_opening)
  let ?h = "replicate 5 \<lparr>is_error = True, cooled = True\<rparr> @ \<lparr>is_error = False, cooled = True\<rparr> #
      replicate 5 \<lparr>is_error = True, cooled = True\<rparr>"
  show "breaker_opened_by_latest (take (BREAKER_THRESHOLD + 1) (drop 0 ?h))" by code_simp
  show "breaker_opened_by_latest (take (BREAKER_THRESHOLD + 1) (drop 6 ?h))" by code_simp
qed simp

section \<open>Documents: numbers\<close>

text \<open>
  C7: no number is given twice.  Whatever happens to a tenant between two allocations, as long as the
  rule and the counters of the type are left alone, the numbers allocated under one rule are pairwise
  different: across days, months, years and departments.  The template must write what the counters
  are kept apart by (\<open>names_scope\<close>), which the service does not check.
\<close>

theorem numbers_never_repeat:
  assumes "numbering_run tenant type0 st given st'"
    "find (active_rule tenant type0) (db_rules st) = Some r"
    "\<forall>b \<in> set (db_buckets st). 1 \<le> bu_next b"
    "contains_text SEQUENCE_PLACEHOLDER (ru_template r)"
    "names_scope (scope_from_db (ru_scope r)) (ru_template r)"
    "\<forall>(number, c) \<in> set given. numberable (ru_template r) c"
  shows "distinct (map fst given)"
proof -
  have "run_invariant tenant type0 r [] st"
    using assms(2,3) counters_positive by (simp add: run_invariant_def)
  with assms show ?thesis by (intro run_is_distinct)
qed

theorem numbers_never_repeat_witness:
  "\<exists>st'. numbering_run ''t'' ''y'' office
      [(''PR-2026-000001'', in_year 2026), (''PR-2026-000002'', in_year 2026)] st' \<and>
    distinct [''PR-2026-000001'', ''PR-2026-000002'']"
proof -
  obtain st2 where later: "allocate_in paper_env ''t'' ''y'' (in_year 2026) after_first =
      (st2, Inr ''PR-2026-000002'')"
    using next_numbers(1) by (metis prod.collapse)
  have run: "numbering_run ''t'' ''y'' office
      [(''PR-2026-000001'', in_year 2026), (''PR-2026-000002'', in_year 2026)] st2"
    using run_issues [OF run_issues [OF run_begins first_store] later] by simp
  have rule0: "find (active_rule ''t'' ''y'') (db_rules office) = Some yearly_rule"
    by (simp add: office_sel active_rule_def yearly_rule_def)
  have template: "contains_text SEQUENCE_PLACEHOLDER (ru_template yearly_rule)"
    "names_scope (scope_from_db (ru_scope yearly_rule)) (ru_template yearly_rule)"
    "numberable (ru_template yearly_rule) (in_year 2026)"
    by code_simp+
  from numbers_never_repeat [OF run rule0 _ template(1,2)] template(3) run show ?thesis
    by (auto simp: office_sel)
qed

text \<open>
  C34: seeding trusts its check.  Setting a rule with a number to go on from checks, on the pool, that
  its bucket has not counted past that number, and writes it in a transaction begun after the check;
  whatever committed in between, the write puts exactly that number into exactly that bucket.  So the
  request alone moves no counter back, and neither does clearing a rule or allocating; but what an
  allocation that commits between the check and the write took is forgotten: the counter goes back, and
  the next allocation is given the same number.
\<close>

theorem seeding_trusts_its_check:
  assumes "bucket_tenants st" "check_rule env caller type0 request st = (st1, Inr ())"
    "save_rule env (ca_tenant caller) type0 request st2 = (st3, Inr ())"
  shows "(case sn_next request of
      None \<Rightarrow> counter type1 key (db_buckets st3) = counter type1 key (db_buckets st2)
    | Some start0 \<Rightarrow> counter type0 (rule_key env request) (db_buckets st) \<le> start0 \<and>
        counter type1 key (db_buckets st3) =
          (if type1 = type0 \<and> key = rule_key env request then start0 else counter type1 key (db_buckets st2))) \<and>
    counter type1 key (db_buckets st) \<le>
      counter type1 key (db_buckets (fst (set_rule env caller type0 request st))) \<and>
    counter type1 key (db_buckets st) \<le>
      counter type1 key (db_buckets (fst (clear_rule env caller type0 st))) \<and>
    counter type1 key (db_buckets st) \<le>
      counter type1 key (db_buckets (fst (allocate_in env tenant type0 c st)))"
  using save_rule_counters [OF assms(3)] check_rule_start [OF assms(2,1)] set_rule_forward [OF assms(1)]
    clear_rule_forward allocate_in_forward
  by (auto simp: counters_forward_def split: option.split)

theorem seeding_trusts_its_check_witness:
  "\<exists>st1 st3. check_rule paper_env clerk ''y'' seed_request office = (st1, Inr ()) \<and>
     allocate_in paper_env ''t'' ''y'' (in_year 2026) office = (after_first, Inr ''PR-2026-000001'') \<and>
     save_rule paper_env ''t'' ''y'' seed_request after_first = (st3, Inr ()) \<and>
     counter ''y'' ''2026'' (db_buckets after_first) = 2 \<and> counter ''y'' ''2026'' (db_buckets st3) = 1"
proof -
  obtain st3 where saved: "save_rule paper_env (ca_tenant clerk) ''y'' seed_request after_first = (st3, Inr ())"
    using seed_saved by (auto simp: clerk_def)
  have "bucket_tenants office" by (simp add: bucket_tenants_def office_sel)
  from seeding_trusts_its_check [OF this seed_checked saved, of "''y''" "''2026''"]
  have "counter ''y'' ''2026'' (db_buckets st3) = 1"
    by (simp add: seed_request_def yearly_request_def rule_key_def scope_key_def clock_context_def paper_sel
        year_text_def zero_padded_def)
  moreover have "counter ''y'' ''2026'' (db_buckets after_first) = 2"
    by (simp add: counter_def office_sel the_bucket_def)
  ultimately show ?thesis
    using seed_checked first_store saved by (auto simp: clerk_def)
qed

text \<open>
  C35: rendering is one substitution.  The four replacements the service runs one after another (the
  sequence, the year, the month, the department) never disturb each other: the number is the template
  read once from left to right, each placeholder standing for its value and every other character
  for itself, whatever the padding, the date and the department.
\<close>

theorem render_is_one_substitution:
  "render template sequence0 padding c =
    concat (map (piece_text (number_text padding sequence0) (year_text (al_year c)) (month_text c)
      (department_text c)) (pieces template))"
  by (rule render_pieces)

text \<open>
  C40: a yearly rule may repeat its numbers.  Under any active rule that counts anew each year and whose
  template does not write the year, the first allocations of two years, for one department in one month
  of the year, are the same number; and validating a rule does not ask a yearly one for the year: it
  judges every request as it would one rule that never counts anew.
\<close>

theorem yearly_rule_may_repeat:
  assumes "faultless env" "find (active_rule tenant type0) (db_rules st) = Some r"
    "scope_from_db (ru_scope r) = YearScope" "\<not> contains_text ''{year}'' (ru_template r)"
    "\<exists>t \<in> set (db_types st). ty_id t = type0 \<and> ty_tenant t = tenant"
    "\<forall>b \<in> set (db_buckets st). bu_type b = type0 \<longrightarrow> bu_key b < scope_key YearScope c"
    "scope_key YearScope c < scope_key YearScope d" "al_month d = al_month c" "al_department d = al_department c"
  shows "(\<exists>st1 st2 number. allocate_in env tenant type0 c st = (st1, Inr number) \<and>
      allocate_in env tenant type0 d st1 = (st2, Inr number)) \<and>
    validate_set (request\<lparr>sn_scope := YearScope\<rparr>) highest =
      validate_set (request\<lparr>sn_scope := GlobalScope\<rparr>) highest"
  using two_years_alike [OF assms] year_not_asked [of "request\<lparr>sn_scope := YearScope\<rparr>" highest] by simp

theorem yearly_rule_may_repeat_witness:
  "\<exists>st1 st2 number.
     allocate_in paper_env ''t'' ''y'' (in_year 2026)
       (office\<lparr>db_rules := [yearly_rule\<lparr>ru_template := ''PR-{sequence}''\<rparr>]\<rparr>) = (st1, Inr number) \<and>
     allocate_in paper_env ''t'' ''y'' (in_year 2027) st1 = (st2, Inr number)"
proof -
  have "scope_key YearScope (in_year 2026) < scope_key YearScope (in_year 2027)"
    unfolding year_keys by code_simp
  moreover have "\<not> contains_text ''{year}'' ''PR-{sequence}''" by code_simp
  ultimately show ?thesis
    using yearly_rule_may_repeat [OF paper_env_faultless, of "''t''" "''y''"
      "office\<lparr>db_rules := [yearly_rule\<lparr>ru_template := ''PR-{sequence}''\<rparr>]\<rparr>"
      "yearly_rule\<lparr>ru_template := ''PR-{sequence}''\<rparr>" "in_year 2026" "in_year 2027"]
    by (simp add: active_rule_def yearly_rule_def office_sel sample_type_def in_year_def)
qed

text \<open>
  C37: a scope made wider closes the numbering.  Once a type has counted in any bucket of its own (a
  year, a month, a department), a rule of the global scope refuses every allocation from then on,
  whatever the date and the department: the global bucket is behind the one already counted.
\<close>

theorem wider_scope_closes_numbering:
  assumes "faultless env" "find (active_rule tenant type0) (db_rules st) = Some r"
    "scope_from_db (ru_scope r) = GlobalScope" "b \<in> set (buckets_of tenant type0 st)" "bu_key b \<noteq> []"
  shows "\<exists>furthest. snd (allocate_in env tenant type0 c st) = Inl (closed_bucket furthest [])"
  using assms by (rule global_closed)

theorem wider_scope_closes_numbering_witness:
  "\<exists>furthest. snd (allocate_in paper_env ''t'' ''y'' (in_year 2028)
     (after_first\<lparr>db_rules := [yearly_rule\<lparr>ru_scope := ''GLOBAL''\<rparr>]\<rparr>)) = Inl (closed_bucket furthest [])"
  by (rule wider_scope_closes_numbering [OF paper_env_faultless, where r = "yearly_rule\<lparr>ru_scope := ''GLOBAL''\<rparr>"
      and b = "\<lparr>bu_tenant = ''t'', bu_type = ''y'', bu_key = ''2026'', bu_next = 2\<rparr>"])
    (simp_all add: active_rule_def yearly_rule_def scope_from_db_def buckets_of_def office_sel)

section \<open>Documents: submission\<close>

text \<open>
  C8: a submission takes exactly one number.  The first submission of a document stores the number the
  rule renders from the counter of its bucket, advances that counter by one and touches no other; the
  resubmission of a returned document keeps its number and takes none.
\<close>

theorem submission_takes_one_number:
  assumes "submit_document lb env caller ident st = (st', Inr d')"
    "distinct (map do_id (db_documents st))"
  shows "\<exists>d number. find (the_document (ca_tenant caller) ident) (db_documents st) = Some d \<and>
    do_number d' = Some number \<and>
    (if status_from_db (do_status d) = DocReturned
     then do_number d = Some number \<and> db_buckets st' = db_buckets st
     else took_number (ca_tenant caller) (do_type d) (clock_context env (do_requested_department d)) st st'
       number)"
proof -
  obtain rs :: Resolved and d :: document_row and form assigned number where
    d: "find (the_document (ca_tenant caller) ident) (db_documents st) = Some d"
      "sb_status (rs_subject rs) = status_from_db (do_status d)"
      "rs_context rs = clock_context env (do_requested_department d)"
    and number: "document_number ident assigned (do_number d) = Inr number"
      "if is_resubmission (rs_subject rs) then assigned = None \<and> db_buckets st' = db_buckets st
       else assigned = Some number \<and>
         took_number (ca_tenant caller) (do_type d) (rs_context rs) st st' number"
    and d': "fixed d' = fixed (submitted_row assigned form (now env) (Some (ca_user caller)) d)"
    by (rule submit_Inr [OF assms])
  have "do_number d' = do_number (submitted_row assigned form (now env) (Some (ca_user caller)) d)"
    using arg_cong [OF d', of do_number] by (simp add: fixed_def)
  with d number show ?thesis
    by (auto simp: is_resubmission_def submitted_row_def document_number_def split: option.splits if_splits)
qed

theorem submission_takes_one_number_witness:
  "\<exists>st'. submit_document sample_libraries paper_env clerk ''d'' office = (st', Inr submitted) \<and>
     took_number ''t'' ''y'' (clock_context paper_env None) office st' ''PR-2026-000001''"
proof -
  obtain st' where sent: "submit_document sample_libraries paper_env clerk ''d'' office = (st', Inr submitted)"
    using draft_submits by (metis prod.collapse)
  have "do_type draft = ''y''" "status_from_db (do_status draft) = DocDraft"
    "the_document ''t'' ''d'' draft" "do_requested_department draft = None"
    by (simp_all add: draft_def sample_document_def status_from_db_def the_document_def)
  with submission_takes_one_number [OF sent] sent show ?thesis
    by (simp add: paper_sel clerk_def submitted_def)
qed

text \<open>
  C10: a refused submission leaves no trace.  Under a rule that allows no gaps, whatever refuses a
  submission (the permission, the state, the form, the number, the governed record, the workflow, a
  database that fails at any statement up to the commit), every table is as it was, the counters among
  them: no number is lost.  The one exception is named: the submission committed, and the statement that
  reads the document back for the answer failed in the database.
\<close>

theorem refused_submission_leaves_no_trace:
  assumes "submit_document lb env caller ident st = (st', Inl e)"
    "\<And>d. find (the_document (ca_tenant caller) ident) (db_documents st) = Some d \<Longrightarrow>
       gapless (ca_tenant caller) (do_type d) st"
  shows "tables st' = tables st \<or>
    (\<exists>s1 resolved s2.
       resolve_submission env caller ident st = (s1, Inr resolved) \<and>
       transaction (submit_locked lb env caller ident resolved) s1 = (s2, Inr ()) \<and>
       find (the_document (ca_tenant caller) ident) (db_documents s2) \<noteq> None \<and>
       db_fault (hooks env) (db_statements s2) \<noteq> None \<and> tables st' = tables s2)"
  using refused_submission_gapless [OF assms] by (simp add: lost_answer_def)

theorem refused_submission_leaves_no_trace_witness:
  "submit_document sample_libraries paper_env clerk ''d'' (governing 0) = (governing 6, Inl names_no_record) \<and>
   snd (assign_number paper_env ''t'' draft_resolved draft_held (governing 8)) = Inr (Some ''PR-2026-000001'') \<and>
   tables (governing 6) = tables (governing 0)"
proof -
  have "gapless ''t'' type0 (governing 0)" for type0
    by (auto simp: gapless_def governing_sel yearly_rule_def split: if_splits)
  moreover have "db_fault (hooks paper_env) n = None" for n
    using paper_env_faultless by (simp add: faultless_def)
  ultimately have "tables (governing 6) = tables (governing 0)"
    using refused_submission_leaves_no_trace [OF governing_submission] by (auto simp: clerk_def)
  then show ?thesis using governing_submission governing_assigned by simp
qed

text \<open>
  C15: what a submitted document stores is the server's.  The payload left in the row is the one the
  server computes, at the strictness of a submission, from the stored payload and the form the document
  was pinned to; a document no form was bound to stores the empty object.
\<close>

theorem submitted_payload_is_the_servers:
  assumes "submit_document lb env caller ident st = (st', Inr d')"
    "distinct (map do_id (db_documents st))"
  shows "\<exists>d. find (the_document (ca_tenant caller) ident) (db_documents st) = Some d \<and>
    (case definition_at (ca_tenant caller) d st of
       None \<Rightarrow> do_form_data d' = Object []
     | Some definition0 \<Rightarrow> secure lb definition0 (do_form_data d) Submit = Some (Inr (do_form_data d')))"
proof -
  obtain d :: document_row and form assigned where
    d: "find (the_document (ca_tenant caller) ident) (db_documents st) = Some d"
      "case definition_at (ca_tenant caller) d st of
         None \<Rightarrow> form = Object []
       | Some definition0 \<Rightarrow> secure lb definition0 (do_form_data d) Submit = Some (Inr form)"
    and d': "fixed d' = fixed (submitted_row assigned form (now env) (Some (ca_user caller)) d)"
    by (rule submit_Inr [OF assms])
  have "do_form_data d' = form"
    using arg_cong [OF d', of do_form_data] by (simp add: fixed_def submitted_row_def)
  with d show ?thesis by auto
qed

theorem submitted_payload_is_the_servers_witness:
  "definition_at ''t'' draft office = None \<and> do_form_data submitted = Object []"
proof -
  obtain st' where sent: "submit_document sample_libraries paper_env clerk ''d'' office = (st', Inr submitted)"
    using draft_submits by (metis prod.collapse)
  have "definition_at ''t'' draft office = None"
    by (simp add: definition_at_def draft_def sample_document_def office_sel sample_type_def the_type_def)
  moreover have "the_document ''t'' ''d'' draft"
    by (simp add: draft_def sample_document_def the_document_def)
  ultimately show ?thesis
    using submitted_payload_is_the_servers [OF sent] by (simp add: paper_sel clerk_def)
qed

section \<open>Documents: governed records\<close>



text \<open>
  C36: a parked record refuses every submission.  While the record a document governs is pending
  approval, submitting the document never succeeds.  This holds of the returned document whose own
  change parked the record too, so that document cannot be sent again.
\<close>

theorem parked_record_refuses_submission:
  assumes "find (the_document (ca_tenant caller) ident) (db_documents st) = Some d"
    "governs (ca_tenant caller) d st = Some (entity, rec)"
    "record_status_of (ca_tenant caller) entity rec st = Some ''PENDING_APPROVAL''"
  shows "submit_document lb env caller ident st \<noteq> (st', Inr d')"
  using assms by (rule parked_is_refused)

theorem parked_record_refuses_submission_witness:
  "\<exists>st' e. submit_document sample_libraries paper_env clerk ''d'' (office\<lparr>
      db_types := [sample_type\<lparr>ty_target := Some ''PARTY''\<rparr>],
      db_documents := [draft\<lparr>do_status := ''RETURNED'', do_entity := Some ''p''\<rparr>],
      db_parties := [the_row\<lparr>pa_record_status := ''PENDING_APPROVAL''\<rparr>]\<rparr>) = (st', Inl e)"
proof -
  let ?st = "office\<lparr>db_types := [sample_type\<lparr>ty_target := Some ''PARTY''\<rparr>],
      db_documents := [draft\<lparr>do_status := ''RETURNED'', do_entity := Some ''p''\<rparr>],
      db_parties := [the_row\<lparr>pa_record_status := ''PENDING_APPROVAL''\<rparr>]\<rparr>"
  obtain st' r where sent: "submit_document sample_libraries paper_env clerk ''d'' ?st = (st', r)" by fastforce
  have "submit_document sample_libraries paper_env clerk ''d'' ?st \<noteq> (st', Inr d')" for d'
    by (rule parked_record_refuses_submission [where d = "draft\<lparr>do_status := ''RETURNED'', do_entity := Some ''p''\<rparr>"
        and entity = PartyEntity and rec = "''p''"])
      (simp_all add: clerk_def draft_def sample_document_def the_document_def governs_def sample_type_def
        the_type_def entity_from_db_def record_status_of_def the_row_def the_party_def)
  with sent show ?thesis by (cases r) auto
qed

section \<open>Documents: creation and editing\<close>

text \<open>
  C16: a created document is a draft pinned to its type's form.  Creation adds exactly one row, of the
  caller's tenant and of a live type, a draft with no number and no process, pinned to the form the
  type is bound to at that moment; its payload is what the server makes of the sent one at the
  strictness of a draft, or the empty object where no form is bound, and its reference is new.
\<close>

theorem created_document_is_a_pinned_draft:
  assumes "create_document lb env caller request st = (st', Inr v)"
  shows "\<exists>row t. db_documents st' = db_documents st @ [row] \<and>
    find (the_type (ca_tenant caller) (cd_type request)) (db_types st) = Some t \<and>
    do_tenant row = ca_tenant caller \<and> do_type row = cd_type request \<and> do_status row = ''DRAFT'' \<and>
    do_number row = None \<and> do_instance row = None \<and> do_form row = ty_form t \<and> \<not> do_deleted row \<and>
    do_created_by row = Some (ca_user caller) \<and> \<not> list_ex (document_clash row) (db_documents st) \<and>
    (case Option.bind (ty_form t) (\<lambda>ident. map_option fm_definition
        (find (\<lambda>f. fm_tenant f = ca_tenant caller \<and> fm_id f = ident) (db_forms st))) of
       None \<Rightarrow> do_form_data row = Object []
     | Some definition0 \<Rightarrow>
         secure lb definition0 (coalesce (cd_form_data request) (Object [])) Draft = Some (Inr (do_form_data row)))"
  by (rule create_Inr [OF assms]) blast

theorem created_document_is_a_pinned_draft_witness:
  "\<exists>row. db_documents (fst (create_document sample_libraries paper_env clerk plain_request office)) = [draft, row] \<and>
     do_status row = ''DRAFT'' \<and> do_number row = None \<and> do_form_data row = Object []"
proof -
  obtain st' v where made: "create_document sample_libraries paper_env clerk plain_request office = (st', Inr v)"
    using plain_created by blast
  from created_document_is_a_pinned_draft [OF made] made show ?thesis
    by (auto simp: paper_sel office_sel sample_type_def plain_request_def clerk_def the_type_def)
qed

text \<open>
  C17: a settled document is frozen to its author.  Creating, editing and discarding documents leave
  every document that is neither a draft nor returned exactly as it was, whatever they answer.
\<close>

theorem settled_documents_are_frozen:
  "filter (\<lambda>d. do_status d \<notin> {''DRAFT'', ''RETURNED''})
      (db_documents (fst (create_document lb env caller request st))) =
    filter (\<lambda>d. do_status d \<notin> {''DRAFT'', ''RETURNED''}) (db_documents st) \<and>
   filter (\<lambda>d. do_status d \<notin> {''DRAFT'', ''RETURNED''})
      (db_documents (fst (update_document lb env caller ident changes st))) =
    filter (\<lambda>d. do_status d \<notin> {''DRAFT'', ''RETURNED''}) (db_documents st) \<and>
   filter (\<lambda>d. do_status d \<notin> {''DRAFT'', ''RETURNED''})
      (db_documents (fst (delete_document env caller ident st))) =
    filter (\<lambda>d. do_status d \<notin> {''DRAFT'', ''RETURNED''}) (db_documents st)"
  using settled_create [of lb env caller request] settled_edit [of lb env caller ident changes]
    settled_discard [of env caller ident]
  by (simp add: Store.leaves_def settled_rows_def)

text \<open>
  C38: one mistake has two answers.  Take a creation and an edit that succeed without naming a
  department.  Naming one that does not exist, and changing nothing else, makes the creation answer an
  invalid field and the edit an internal error.
\<close>

theorem unknown_department_has_two_answers:
  assumes "no_department department st"
    "create_document lb env caller (request\<lparr>cd_department := None\<rparr>) st = (st1, Inr v)"
    "update_document lb env caller ident (changes\<lparr>ud_department := None\<rparr>) st = (st2, Inr w)"
  shows "snd (create_document lb env caller (request\<lparr>cd_department := Some department\<rparr>) st) =
      Inl (Validation [detail ''requestedForDepartmentId'' ''reference'' ''NOT_FOUND'' []]) \<and>
    snd (update_document lb env caller ident (changes\<lparr>ud_department := Some (Some department)\<rparr>) st) =
      Inl (Internal ''documents'')"
  using unknown_at_creation [OF assms(2,1)] unknown_at_edit [OF assms(3,1)] by blast

theorem unknown_department_has_two_answers_witness:
  "snd (create_document sample_libraries paper_env clerk (plain_request\<lparr>cd_department := Some ''q''\<rparr>) office) =
     Inl (Validation [detail ''requestedForDepartmentId'' ''reference'' ''NOT_FOUND'' []]) \<and>
   snd (update_document sample_libraries paper_env clerk ''d'' (no_changes\<lparr>ud_department := Some (Some ''q'')\<rparr>) office) =
     Inl (Internal ''documents'')"
proof -
  have same: "plain_request\<lparr>cd_department := None\<rparr> = plain_request" "no_changes\<lparr>ud_department := None\<rparr> = no_changes"
    by (simp_all add: plain_request_def no_changes_def)
  obtain st1 v st2 w where
    "create_document sample_libraries paper_env clerk (plain_request\<lparr>cd_department := None\<rparr>) office = (st1, Inr v)"
    "update_document sample_libraries paper_env clerk ''d'' (no_changes\<lparr>ud_department := None\<rparr>) office = (st2, Inr w)"
    using plain_created untouched unfolding same by blast
  moreover have "no_department ''q'' office"
    by (simp add: no_department_def office_def tenant_store_def)
  ultimately show ?thesis by (intro unknown_department_has_two_answers)
qed

text \<open>
  C39: keys that differ only in their blanks are refused as an internal error.  The repository trims
  the keys of a metadata set, so a set the service accepted for its distinct keys breaks the unique
  index, which the service answers as an internal error.
\<close>

theorem blank_metadata_keys_collide:
  assumes "faultless env" "\<not> distinct (map (trim \<circ> fst) entries)"
  shows "snd (replace_metadata env tenant document entries st) = Inl (Internal ''document_metadata'')"
  using assms by (rule blank_keys_collide)

theorem blank_metadata_keys_collide_witness:
  "snd (replace_metadata paper_env ''t'' ''d'' [(''po'', ''1'', StringMeta), ('' po'', ''2'', StringMeta)] office) =
    Inl (Internal ''document_metadata'')"
proof -
  have "\<not> distinct (map (trim \<circ> fst) [(''po'', ''1'', StringMeta), ('' po'', ''2'', StringMeta)])"
    by (simp add: sample_trims)
  then show ?thesis by (rule blank_metadata_keys_collide [OF paper_env_faultless])
qed

end
